(* ===== verification/GoPrelude.thy ===== *)
theory GoPrelude
  imports Main
begin

text \<open>
  Conventions and generic facts shared by every theory of the development.

  A Go string is a byte sequence: it is modelled by \<^typ>\<open>string\<close>, a list of 8-bit characters,
  so indexing and lengths count bytes as Go's do. A run-time panic is the value \<^term>\<open>None\<close> of
  type \<open>'a may_panic\<close>; a Go \<open>error\<close> result is a value of \<open>'e option\<close>, where \<^term>\<open>None\<close> is Go's
  \<open>nil\<close>. A Go map used as a set is a list without repetitions: the list is one iteration order
  of the map, and a property that holds for every list holds for every iteration order.
\<close>

type_synonym 'a may_panic = "'a option"

named_theorems go_simps \<open>rewrite rules for the modelled Go primitives\<close>
named_theorems no_panic \<open>conditions under which an operation returns normally\<close>

section \<open>Loops with an early return\<close>

text \<open>
  \<open>for x in xs { if p(x) { return true } } return false\<close>, where evaluating \<open>p(x)\<close> may panic,
  and its dual \<open>for x in xs { if !p(x) { return false } } return true\<close>.
\<close>

fun any_m :: "('a \<Rightarrow> bool may_panic) \<Rightarrow> 'a list \<Rightarrow> bool may_panic" where
  "any_m p [] = Some False"
| "any_m p (x # xs) =
     (case p x of None \<Rightarrow> None | Some True \<Rightarrow> Some True | Some False \<Rightarrow> any_m p xs)"

fun all_m :: "('a \<Rightarrow> bool may_panic) \<Rightarrow> 'a list \<Rightarrow> bool may_panic" where
  "all_m p [] = Some True"
| "all_m p (x # xs) =
     (case p x of None \<Rightarrow> None | Some True \<Rightarrow> all_m p xs | Some False \<Rightarrow> Some False)"

lemma any_m_pure:
  assumes "\<And>x. x \<in> set xs \<Longrightarrow> p x = Some (q x)"
  shows "any_m p xs = Some (\<exists>x\<in>set xs. q x)"
  using assms by (induction xs) (auto split: option.splits bool.splits)

lemma all_m_pure:
  assumes "\<And>x. x \<in> set xs \<Longrightarrow> p x = Some (q x)"
  shows "all_m p xs = Some (\<forall>x\<in>set xs. q x)"
  using assms by (induction xs) (auto split: option.splits bool.splits)

lemma any_m_total [no_panic]:
  assumes "\<And>x. x \<in> set xs \<Longrightarrow> p x \<noteq> None"
  shows "any_m p xs \<noteq> None"
proof -
  have "any_m p xs = Some (\<exists>x\<in>set xs. the (p x))"
    using assms by (intro any_m_pure) auto
  then show ?thesis by simp
qed

lemma all_m_total [no_panic]:
  assumes "\<And>x. x \<in> set xs \<Longrightarrow> p x \<noteq> None"
  shows "all_m p xs \<noteq> None"
proof -
  have "all_m p xs = Some (\<forall>x\<in>set xs. the (p x))"
    using assms by (intro all_m_pure) auto
  then show ?thesis by simp
qed

lemma any_m_SomeTrueE:
  assumes "any_m p xs = Some True"
  obtains x where "x \<in> set xs" "p x = Some True"
  using assms by (induction xs) (auto split: option.splits bool.splits)

lemma any_m_SomeFalse:
  "any_m p xs = Some False \<longleftrightarrow> (\<forall>x\<in>set xs. p x = Some False)"
  by (induction xs) (auto split: option.splits bool.splits)

lemma all_m_SomeTrue:
  "all_m p xs = Some True \<longleftrightarrow> (\<forall>x\<in>set xs. p x = Some True)"
  by (induction xs) (auto split: option.splits bool.splits)

lemma any_m_cong [fundef_cong]:
  "xs = ys \<Longrightarrow> (\<And>x. x \<in> set ys \<Longrightarrow> p x = q x) \<Longrightarrow> any_m p xs = any_m q ys"
  by (induction ys arbitrary: xs) (auto split: option.splits bool.splits)

lemma all_m_cong [fundef_cong]:
  "xs = ys \<Longrightarrow> (\<And>x. x \<in> set ys \<Longrightarrow> p x = q x) \<Longrightarrow> all_m p xs = all_m q ys"
  by (induction ys arbitrary: xs) (auto split: option.splits bool.splits)

text \<open>\<open>if !a { return false }; return b\<close>, where both tests may panic.\<close>

definition and_m :: "bool may_panic \<Rightarrow> bool may_panic \<Rightarrow> bool may_panic" where
  "and_m a b = (case a of None \<Rightarrow> None | Some True \<Rightarrow> b | Some False \<Rightarrow> Some False)"

lemma and_m_True [simp]: "and_m a b = Some True \<longleftrightarrow> a = Some True \<and> b = Some True"
  by (auto simp: and_m_def split: option.splits bool.splits)

lemma and_m_pure [simp]: "and_m (Some x) (Some y) = Some (x \<and> y)" "and_m (Some True) b = b"
    "and_m (Some False) b = Some False"
  by (simp_all add: and_m_def split: bool.splits)

lemma and_m_total [no_panic]: "a \<noteq> None \<Longrightarrow> b \<noteq> None \<Longrightarrow> and_m a b \<noteq> None"
  by (auto simp: and_m_def split: option.splits bool.splits)

section \<open>Sequences of checks that may fail\<close>

text \<open>
  \<open>if err := a; err != nil { return err }; return b\<close>, and the loop
  \<open>for x in xs { if err := f(x); err != nil { return err } } return nil\<close>.
\<close>

definition and_then :: "'e option \<Rightarrow> 'e option \<Rightarrow> 'e option" where
  "and_then a b = (case a of Some e \<Rightarrow> Some e | None \<Rightarrow> b)"

fun first_err :: "('a \<Rightarrow> 'e option) \<Rightarrow> 'a list \<Rightarrow> 'e option" where
  "first_err f [] = None"
| "first_err f (x # xs) = (case f x of Some e \<Rightarrow> Some e | None \<Rightarrow> first_err f xs)"

definition fail_if :: "bool \<Rightarrow> 'e \<Rightarrow> 'e option" where
  "fail_if b e = (if b then Some e else None)"

lemma and_then_None [simp]: "and_then a b = None \<longleftrightarrow> a = None \<and> b = None"
  by (simp add: and_then_def split: option.splits)

lemma first_err_None [simp]: "first_err f xs = None \<longleftrightarrow> (\<forall>x\<in>set xs. f x = None)"
  by (induction xs) (auto split: option.splits)

lemma fail_if_None [simp]: "fail_if b e = None \<longleftrightarrow> \<not> b"
  by (simp add: fail_if_def)

section \<open>Go maps used as sets\<close>

text \<open>\<open>m[x] = struct{}{}\<close>: inserts \<open>x\<close> unless it is present.\<close>

definition set_add :: "'a \<Rightarrow> 'a list \<Rightarrow> 'a list" where
  "set_add x xs = (if x \<in> set xs then xs else xs @ [x])"

definition set_adds :: "'a list \<Rightarrow> 'a list \<Rightarrow> 'a list" where
  "set_adds xs s = foldl (\<lambda>s x. set_add x s) s xs"

lemma set_adds_Nil [simp]: "set_adds [] s = s"
  by (simp add: set_adds_def)

lemma set_set_add [simp]: "set (set_add x xs) = insert x (set xs)"
  by (auto simp: set_add_def)

lemma distinct_set_add [simp]: "distinct (set_add x xs) = distinct xs"
  by (auto simp: set_add_def)

lemma set_set_adds [simp]: "set (set_adds xs s) = set s \<union> set xs"
  unfolding set_adds_def by (induction xs arbitrary: s) auto

lemma distinct_set_adds [simp]: "distinct (set_adds xs s) = distinct s"
  unfolding set_adds_def by (induction xs arbitrary: s) auto

text \<open>Equality of two such maps as the code tests it: equal sizes and one inclusion.\<close>

definition map_set_equals :: "'a list \<Rightarrow> 'a list \<Rightarrow> bool" where
  "map_set_equals xs ys = (length xs = length ys \<and> (\<forall>x\<in>set xs. x \<in> set ys))"

lemma map_set_equals_iff:
  assumes "distinct xs" "distinct ys"
  shows "map_set_equals xs ys \<longleftrightarrow> set xs = set ys"
proof -
  have "card (set xs) = length xs" "card (set ys) = length ys"
    using assms by (auto simp: distinct_card)
  then show ?thesis
    unfolding map_set_equals_def by (metis List.finite_set card_subset_eq subsetI subset_iff)
qed

section \<open>The interface of a set type\<close>

text \<open>
  The set types of package \<open>policy\<close> (actions, resources) are Go maps with an \<open>Add\<close>, a constructor
  from a slice, \<open>Equals\<close> and \<open>Intersection\<close>. What follows from the laws is proved once.
\<close>

locale map_set =
  fixes make :: "'a list \<Rightarrow> 'a list"
    and equals :: "'a list \<Rightarrow> 'a list \<Rightarrow> bool"
    and inter :: "'a list \<Rightarrow> 'a list \<Rightarrow> 'a list"
  assumes make_set: "set (make xs) = set xs"
    and make_distinct: "distinct (make xs)"
    and equals_iff: "distinct xs \<Longrightarrow> distinct ys \<Longrightarrow> equals xs ys \<longleftrightarrow> set xs = set ys"
    and inter_set: "set (inter xs ys) = set xs \<inter> set ys"
    and inter_distinct: "distinct (inter xs ys)"
begin

lemma clone_equals: "distinct xs \<Longrightarrow> equals (make xs) xs"
  by (simp add: equals_iff make_set make_distinct)

lemma make_equals: "equals (make xs) (make ys) \<longleftrightarrow> set xs = set ys"
  by (simp add: equals_iff make_set make_distinct)

lemma equals_sym: "distinct xs \<Longrightarrow> distinct ys \<Longrightarrow> equals xs ys = equals ys xs"
  by (auto simp: equals_iff)

lemma equals_trans:
  "distinct xs \<Longrightarrow> distinct ys \<Longrightarrow> distinct zs \<Longrightarrow> equals xs ys \<Longrightarrow> equals ys zs \<Longrightarrow> equals xs zs"
  by (simp add: equals_iff)

lemma inter_commute: "equals (inter xs ys) (inter ys xs)"
  by (auto simp: equals_iff inter_set inter_distinct)

lemma inter_absorb: "distinct xs \<Longrightarrow> equals (inter xs ys) xs \<longleftrightarrow> set xs \<subseteq> set ys"
  by (auto simp: equals_iff inter_set inter_distinct)

end

text \<open>The common loops meet the laws.\<close>

lemma inter_loop_set:
  "set (foldl (\<lambda>n k. if k \<in> set t then set_add k n else n) n s) = set n \<union> (set s \<inter> set t)"
  by (induction s arbitrary: n) auto

lemma inter_loop_distinct:
  "distinct (foldl (\<lambda>n k. if k \<in> set t then set_add k n else n) n s) = distinct n"
  by (induction s arbitrary: n) auto

lemma equals_loop_iff:
  "distinct s \<Longrightarrow> distinct t \<Longrightarrow>
   (if length s \<noteq> length t then False else list_all (\<lambda>k. k \<in> set t) s) \<longleftrightarrow> set s = set t"
  using map_set_equals_iff [of s t] by (auto simp: map_set_equals_def list_all_iff)

section \<open>Sums over the goroutines of a program\<close>

lemma sum_list_update:
  fixes f :: "'a \<Rightarrow> 'b :: comm_monoid_add"
  shows "k < length xs \<Longrightarrow> sum_list (map f (xs[k := x])) + f (xs ! k) = sum_list (map f xs) + f x"
proof (induction xs arbitrary: k)
  case (Cons a xs)
  then show ?case by (cases k) (auto simp: ac_simps)
qed simp

end
