(* ===== verification/GoStrings.thy ===== *)
theory GoStrings
  imports GoPrelude
begin

text \<open>
  The functions of Go's \<open>strings\<close>, \<open>strconv\<close>, \<open>path\<close>, \<open>net/textproto\<close>, \<open>unicode/utf8\<close> and
  \<open>encoding/base64\<close> packages that the modelled code calls, on byte strings, and the record of the
  third-party functions it calls, which are parameters of the model.
\<close>

section \<open>Prefixes, searching, splitting\<close>

definition has_prefix :: "string \<Rightarrow> string \<Rightarrow> bool" where
  "has_prefix s pre = (take (length pre) s = pre)"

definition cut_prefix :: "string \<Rightarrow> string \<Rightarrow> string option" where
  "cut_prefix s pre = (if has_prefix s pre then Some (drop (length pre) s) else None)"

definition trim_prefix :: "string \<Rightarrow> string \<Rightarrow> string" where
  "trim_prefix s pre = (if has_prefix s pre then drop (length pre) s else s)"

text \<open>\<open>strings.IndexFunc\<close> on bytes: the first index whose byte satisfies \<open>f\<close>.\<close>

fun index_func :: "(char \<Rightarrow> bool) \<Rightarrow> string \<Rightarrow> nat option" where
  "index_func f [] = None"
| "index_func f (c # s) = (if f c then Some 0 else map_option Suc (index_func f s))"

definition index_byte :: "string \<Rightarrow> char \<Rightarrow> nat option" where
  "index_byte s c = index_func (\<lambda>x. x = c) s"

definition contains_byte :: "string \<Rightarrow> char \<Rightarrow> bool" where
  "contains_byte s c = (c \<in> set s)"

fun split_on :: "char \<Rightarrow> string \<Rightarrow> string list" where
  "split_on c [] = [[]]"
| "split_on c (x # s) =
     (if x = c then [] # split_on c s
      else (case split_on c s of [] \<Rightarrow> [[x]] | h # t \<Rightarrow> (x # h) # t))"

text \<open>\<open>strings.SplitN(s, sep, 2)\<close>, as the pair of the parts before and after the first separator.\<close>

definition split_two :: "string \<Rightarrow> char \<Rightarrow> (string \<times> string) option" where
  "split_two s c = (case index_byte s c of None \<Rightarrow> None | Some i \<Rightarrow> Some (take i s, drop (Suc i) s))"

fun join_with :: "char \<Rightarrow> string list \<Rightarrow> string" where
  "join_with c [] = []"
| "join_with c [s] = s"
| "join_with c (s # t # ss) = s @ c # join_with c (t # ss)"

text \<open>\<open>strings.TrimSuffix\<close>, \<open>strings.HasSuffix\<close>, \<open>strings.Contains\<close>, \<open>strings.LastIndexByte\<close>.\<close>

definition has_suffix :: "string \<Rightarrow> string \<Rightarrow> bool" where
  "has_suffix s suf = (length suf \<le> length s \<and> drop (length s - length suf) s = suf)"

definition trim_suffix :: "string \<Rightarrow> string \<Rightarrow> string" where
  "trim_suffix s suf = (if has_suffix s suf then take (length s - length suf) s else s)"

definition contains_str :: "string \<Rightarrow> string \<Rightarrow> bool" where
  "contains_str s sub = list_ex (\<lambda>i. has_prefix (drop i s) sub) [0..<Suc (length s)]"

definition last_index_byte :: "string \<Rightarrow> char \<Rightarrow> nat option" where
  "last_index_byte s c = map_option (\<lambda>i. length s - 1 - i) (index_byte (rev s) c)"

text \<open>
  \<open>strings.ReplaceAll(s, old, new)\<close> for a non-empty \<open>old\<close>, the only use of the code (\<open>old\<close> is
  a \<open>VarName\<close>, at least three bytes long).
\<close>

function replace_all :: "string \<Rightarrow> string \<Rightarrow> string \<Rightarrow> string" where
  "replace_all old new s =
     (if s = [] \<or> old = [] then s
      else if has_prefix s old then new @ replace_all old new (drop (length old) s)
      else hd s # replace_all old new (tl s))"
  by pat_completeness auto
termination
  by (relation "measure (\<lambda>(old, new, s). length s)") (auto simp: neq_Nil_conv)

declare replace_all.simps [simp del]

lemma index_func_SomeD:
  "index_func f s = Some i \<Longrightarrow> i < length s \<and> f (s ! i) \<and> (\<forall>j<i. \<not> f (s ! j))"
  by (induction s arbitrary: i) (auto simp: less_Suc_eq_0_disj split: if_splits)

lemma index_func_None: "index_func f s = None \<longleftrightarrow> (\<forall>c\<in>set s. \<not> f c)"
  by (induction s) auto

lemma index_byte_None: "index_byte s c = None \<longleftrightarrow> c \<notin> set s"
  by (auto simp: index_byte_def index_func_None)

lemma split_on_no_sep: "c \<notin> set s \<Longrightarrow> split_on c s = [s]"
  by (induction s) auto

lemma split_on_nonempty: "split_on c s \<noteq> []"
  by (induction s) (auto split: list.splits)

lemma join_split: "join_with c (split_on c s) = s"
proof (induction s)
  case (Cons x s)
  obtain h t where "split_on c s = h # t"
    using split_on_nonempty by (cases "split_on c s") auto
  with Cons show ?case by (cases t) auto
qed simp

lemma has_prefix_append [simp]: "has_prefix (p @ s) p"
  by (simp add: has_prefix_def)

lemma has_prefix_iff: "has_prefix s p \<longleftrightarrow> (\<exists>t. s = p @ t)"
  unfolding has_prefix_def by (metis append_eq_conv_conj append_take_drop_id)

lemma cut_prefix_append [simp]: "cut_prefix (p @ s) p = Some s"
  by (simp add: cut_prefix_def)

lemma cut_prefix_Some: "cut_prefix s p = Some t \<longleftrightarrow> s = p @ t"
  by (auto simp: cut_prefix_def has_prefix_iff)

section \<open>Letter case\<close>

definition byte :: "char \<Rightarrow> nat" where
  "byte c = of_char c"

definition is_upper :: "char \<Rightarrow> bool" where
  "is_upper c = (65 \<le> byte c \<and> byte c \<le> 90)"

definition is_lower :: "char \<Rightarrow> bool" where
  "is_lower c = (97 \<le> byte c \<and> byte c \<le> 122)"

definition is_digit :: "char \<Rightarrow> bool" where
  "is_digit c = (48 \<le> byte c \<and> byte c \<le> 57)"

definition ascii_lower :: "char \<Rightarrow> char" where
  "ascii_lower c = (if is_upper c then char_of (byte c + 32) else c)"

definition ascii_upper :: "char \<Rightarrow> char" where
  "ascii_upper c = (if is_lower c then char_of (byte c - 32) else c)"

definition is_ascii :: "string \<Rightarrow> bool" where
  "is_ascii s = list_all (\<lambda>c. byte c < 128) s"

text \<open>
  \<open>http.CanonicalHeaderKey\<close>: a string of header token bytes gets an upper-case letter first and
  after every \<open>-\<close> and lower-case letters elsewhere; any other string is returned unchanged.
\<close>

definition header_token_byte :: "char \<Rightarrow> bool" where
  "header_token_byte c = (is_upper c \<or> is_lower c \<or> is_digit c \<or> c \<in> set ''!#$%&*+-.^_|~'' \<or>
     byte c = 39 \<or> byte c = 96)"

fun canon_bytes :: "bool \<Rightarrow> string \<Rightarrow> string" where
  "canon_bytes upper [] = []"
| "canon_bytes upper (c # s) =
     (if upper then ascii_upper c else ascii_lower c) # canon_bytes (c = CHR ''-'') s"

definition CanonicalHeaderKey :: "string \<Rightarrow> string" where
  "CanonicalHeaderKey s = (if list_all header_token_byte s then canon_bytes True s else s)"

section \<open>Numbers and booleans\<close>

definition digits_value :: "string \<Rightarrow> int" where
  "digits_value s = foldl (\<lambda>v c. 10 * v + (int (byte c) - 48)) 0 s"

text \<open>\<open>strconv.Atoi\<close> on a platform with 64-bit \<open>int\<close>: \<^term>\<open>None\<close> is a syntax or range error.\<close>

definition atoi :: "string \<Rightarrow> int option" where
  "atoi s =
     (let neg = (case s of [] \<Rightarrow> False | c # _ \<Rightarrow> c = CHR ''-'');
          ds = (case s of [] \<Rightarrow> [] | c # t \<Rightarrow> if c = CHR ''-'' \<or> c = CHR ''+'' then t else s);
          v = digits_value ds
      in if ds = [] \<or> \<not> list_all is_digit ds then None
         else if neg then (if v \<le> 2 ^ 63 then Some (- v) else None)
         else (if v < 2 ^ 63 then Some v else None))"

definition parse_bool :: "string \<Rightarrow> bool option" where
  "parse_bool s =
     (if s \<in> {''1'', ''t'', ''T'', ''true'', ''TRUE'', ''True''} then Some True
      else if s \<in> {''0'', ''f'', ''F'', ''false'', ''FALSE'', ''False''} then Some False
      else None)"

definition format_bool :: "bool \<Rightarrow> string" where
  "format_bool b = (if b then ''true'' else ''false'')"

text \<open>\<open>strconv.Itoa\<close>.\<close>

fun nat_digits :: "nat \<Rightarrow> string" where
  "nat_digits n =
     (if n < 10 then [char_of (48 + n)] else nat_digits (n div 10) @ [char_of (48 + n mod 10)])"

declare nat_digits.simps [simp del]

definition itoa :: "int \<Rightarrow> string" where
  "itoa i = (if i < 0 then CHR ''-'' # nat_digits (nat (- i)) else nat_digits (nat i))"

section \<open>\<open>path.Clean\<close>\<close>

text \<open>
  The elements of the path are processed in order on a stack (top first): empty and \<open>.\<close> elements
  are dropped, \<open>..\<close> pops a proper element, is kept after another \<open>..\<close> and dropped at a root.
\<close>

fun clean_step :: "bool \<Rightarrow> string list \<Rightarrow> string \<Rightarrow> string list" where
  "clean_step rooted st c =
     (if c = '''' \<or> c = ''.'' then st
      else if c = ''..'' then
        (case st of [] \<Rightarrow> if rooted then [] else [c]
         | t # ts \<Rightarrow> if t = ''..'' then c # st else ts)
      else c # st)"

definition path_clean :: "string \<Rightarrow> string" where
  "path_clean p =
     (if p = '''' then ''.''
      else let rooted = (hd p = CHR ''/'');
               elems = rev (foldl (clean_step rooted) [] (split_on (CHR ''/'') p));
               body = join_with (CHR ''/'') elems
           in if rooted then CHR ''/'' # body else if body = '''' then ''.'' else body)"

lemma path_clean_no_slash:
  assumes "CHR ''/'' \<notin> set r" "r \<noteq> ''''"
  shows "path_clean r = r"
  using assms by (cases r) (auto simp: path_clean_def Let_def split_on_no_sep)

section \<open>\<open>utf8.ValidString\<close>\<close>

definition cont_byte :: "char \<Rightarrow> bool" where
  "cont_byte c = (128 \<le> byte c \<and> byte c \<le> 191)"

fun utf8_valid :: "string \<Rightarrow> bool" where
  "utf8_valid [] = True"
| "utf8_valid (a # s) =
     (let x = byte a in
      if x < 128 then utf8_valid s
      else if 194 \<le> x \<and> x \<le> 223 then
        (case s of b # s' \<Rightarrow> cont_byte b \<and> utf8_valid s' | _ \<Rightarrow> False)
      else if 224 \<le> x \<and> x \<le> 239 then
        (case s of b # c # s' \<Rightarrow>
             cont_byte b \<and> (x = 224 \<longrightarrow> 160 \<le> byte b) \<and> (x = 237 \<longrightarrow> byte b \<le> 159) \<and>
             cont_byte c \<and> utf8_valid s'
         | _ \<Rightarrow> False)
      else if 240 \<le> x \<and> x \<le> 244 then
        (case s of b # c # d # s' \<Rightarrow>
             cont_byte b \<and> (x = 240 \<longrightarrow> 144 \<le> byte b) \<and> (x = 244 \<longrightarrow> byte b \<le> 143) \<and>
             cont_byte c \<and> cont_byte d \<and> utf8_valid s'
         | _ \<Rightarrow> False)
      else False)"

section \<open>\<open>base64.StdEncoding\<close>\<close>

definition b64_alphabet :: string where
  "b64_alphabet = ''ABCDEFGHIJKLMNOPQRSTUVWXYZabcdefghijklmnopqrstuvwxyz0123456789+/''"

definition b64_val :: "char \<Rightarrow> nat option" where
  "b64_val c = index_byte b64_alphabet c"

text \<open>
  Decoding skips carriage returns and newlines, wants groups of four digits, and allows \<open>=\<close>
  padding at the end of the last group only.
\<close>

fun b64_groups :: "string \<Rightarrow> string option" where
  "b64_groups [] = Some []"
| "b64_groups (a # b # c # d # s) =
     (case (b64_val a, b64_val b) of
        (Some x, Some y) \<Rightarrow>
          (if c = CHR ''='' then
             (if d = CHR ''='' \<and> s = [] then Some [char_of (x * 4 + y div 16)] else None)
           else (case b64_val c of None \<Rightarrow> None
             | Some z \<Rightarrow>
                 (if d = CHR ''='' then
                    (if s = [] then Some [char_of (x * 4 + y div 16), char_of ((y mod 16) * 16 + z div 4)]
                     else None)
                  else (case b64_val d of None \<Rightarrow> None
                    | Some w \<Rightarrow> map_option (\<lambda>r. char_of (x * 4 + y div 16) #
                        char_of ((y mod 16) * 16 + z div 4) # char_of ((z mod 4) * 64 + w) # r)
                        (b64_groups s)))))
      | _ \<Rightarrow> None)"
| "b64_groups _ = None"

definition b64_decode :: "string \<Rightarrow> string option" where
  "b64_decode s = b64_groups (filter (\<lambda>c. byte c \<noteq> 10 \<and> byte c \<noteq> 13) s)"

text \<open>\<open>EncodeToString\<close>: groups of three bytes give four digits, a shorter last group is padded.\<close>

definition b64_digit :: "nat \<Rightarrow> char" where
  "b64_digit d = b64_alphabet ! d"

fun b64_encode :: "string \<Rightarrow> string" where
  "b64_encode [] = []"
| "b64_encode [a] = [b64_digit (byte a div 4), b64_digit (byte a mod 4 * 16), CHR ''='', CHR ''='']"
| "b64_encode [a, b] =
     [b64_digit (byte a div 4), b64_digit (byte a mod 4 * 16 + byte b div 16),
      b64_digit (byte b mod 16 * 4), CHR ''='']"
| "b64_encode (a # b # c # s) =
     b64_digit (byte a div 4) # b64_digit (byte a mod 4 * 16 + byte b div 16) #
     b64_digit (byte b mod 16 * 4 + byte c div 64) # b64_digit (byte c mod 64) # b64_encode s"

section \<open>Third-party functions\<close>

text \<open>
  The packages below are not part of the repository; the functions of them that the code calls
  are the fields of this record, which the definitions using them take as an argument.
  \<open>minio-go/pkg/set.StringSet\<close> is a \<open>map[string]struct{}\<close>, represented here by a list.
  \<open>unicode_lower\<close> stands for the Unicode tables that \<open>strings.ToLower\<close> consults for a string
  that has a byte beyond ASCII, and \<open>unicode_print\<close> for the table of the printable code points
  beyond ASCII (\<open>strconv.IsPrint\<close>).
\<close>

record ext_lib =
  ss_create :: "string list \<Rightarrow> string list"
  ss_apply :: "(string \<Rightarrow> string) \<Rightarrow> string list \<Rightarrow> string list"
  ss_inter :: "string list \<Rightarrow> string list \<Rightarrow> string list"
  ss_equals :: "string list \<Rightarrow> string list \<Rightarrow> bool"
  ss_isempty :: "string list \<Rightarrow> bool"
  ss_funcmatch :: "(string \<Rightarrow> string \<Rightarrow> bool) \<Rightarrow> string list \<Rightarrow> string \<Rightarrow> string list"
  ss_toslice :: "string list \<Rightarrow> string list"
  ss_union :: "string list \<Rightarrow> string list \<Rightarrow> string list"
  ss_add :: "string list \<Rightarrow> string \<Rightarrow> string list"
  valid_bucket_name :: "string \<Rightarrow> bool"
  unicode_lower :: "string \<Rightarrow> string"
  unicode_print :: "nat \<Rightarrow> bool"

text \<open>The documented behaviour of \<open>set.StringSet\<close>: each operation is the one on sets.\<close>

definition string_set_laws :: "ext_lib \<Rightarrow> bool" where
  "string_set_laws L \<longleftrightarrow>
     (\<forall>xs. set (ss_create L xs) = set xs) \<and>
     (\<forall>f xs. set (ss_apply L f xs) = f ` set xs) \<and>
     (\<forall>xs ys. set (ss_inter L xs ys) = set xs \<inter> set ys) \<and>
     (\<forall>xs ys. ss_equals L xs ys \<longleftrightarrow> set xs = set ys) \<and>
     (\<forall>xs. ss_isempty L xs \<longleftrightarrow> xs = []) \<and>
     (\<forall>m xs v. set (ss_funcmatch L m xs v) = {x \<in> set xs. m x v}) \<and>
     (\<forall>xs. set (ss_toslice L xs) = set xs \<and> distinct (ss_toslice L xs)) \<and>
     (\<forall>xs ys. set (ss_union L xs ys) = set xs \<union> set ys) \<and>
     (\<forall>xs x. set (ss_add L xs x) = insert x (set xs))"

text \<open>An implementation that meets the laws, for the closed examples of the development.\<close>

definition list_lib :: ext_lib where
  "list_lib = \<lparr>ss_create = remdups, ss_apply = (\<lambda>f xs. remdups (map f xs)),
     ss_inter = (\<lambda>xs ys. filter (\<lambda>x. x \<in> set ys) xs),
     ss_equals = (\<lambda>xs ys. set xs = set ys), ss_isempty = (\<lambda>xs. xs = []),
     ss_funcmatch = (\<lambda>m xs v. filter (\<lambda>x. m x v) xs), ss_toslice = remdups,
     ss_union = (\<lambda>xs ys. remdups (xs @ ys)), ss_add = (\<lambda>xs x. remdups (xs @ [x])), valid_bucket_name = (\<lambda>s. 3 \<le> length s),
     unicode_lower = (\<lambda>s. s), unicode_print = (\<lambda>r. False)\<rparr>"

lemma list_lib_laws: "string_set_laws list_lib"
  by (auto simp: string_set_laws_def list_lib_def)

lemma ss_simps [go_simps]:
  assumes "string_set_laws L"
  shows "set (ss_create L xs) = set xs" "set (ss_apply L f xs) = f ` set xs"
    "set (ss_inter L xs ys) = set xs \<inter> set ys" "ss_equals L xs ys \<longleftrightarrow> set xs = set ys"
    "ss_isempty L xs \<longleftrightarrow> set xs = {}" "set (ss_funcmatch L m xs v) = {x \<in> set xs. m x v}"
    "set (ss_toslice L xs) = set xs" "distinct (ss_toslice L xs)"
    "set (ss_union L xs ys) = set xs \<union> set ys" "set (ss_add L xs x) = insert x (set xs)"
  using assms unfolding string_set_laws_def by auto

definition to_lower :: "ext_lib \<Rightarrow> string \<Rightarrow> string" where
  "to_lower L s = (if is_ascii s then map ascii_lower s else unicode_lower L s)"

end
