(* ===== verification/CondKeys.thy ===== *)
theory CondKeys
  imports GoStrings
begin

text \<open>
  Condition keys: the key names of \<open>policy/condition/keyname.go\<close> and the keys and key sets of
  \<open>policy/condition/key.go\<close>. A \<open>KeySet\<close> is a Go map used as a set, here a list of keys.
\<close>

section \<open>Key names (\<open>keyname.go\<close>)\<close>

abbreviation (input) S3TablesKMSKeyArn :: string where
  "S3TablesKMSKeyArn \<equiv> ''s3tables:KMSKeyArn''"

abbreviation (input) S3TablesSSEAlgorithm :: string where
  "S3TablesSSEAlgorithm \<equiv> ''s3tables:SSEAlgorithm''"

abbreviation (input) S3TablesNamespace :: string where
  "S3TablesNamespace \<equiv> ''s3tables:namespace''"

abbreviation (input) S3TablesTableName :: string where
  "S3TablesTableName \<equiv> ''s3tables:tableName''"

abbreviation (input) S3TablesViewName :: string where
  "S3TablesViewName \<equiv> ''s3tables:viewName''"

abbreviation (input) S3TablesRegisterLocation :: string where
  "S3TablesRegisterLocation \<equiv> ''s3tables:registerLocation''"

abbreviation (input) S3XAmzCopySource :: string where
  "S3XAmzCopySource \<equiv> ''s3:x-amz-copy-source''"

abbreviation (input) S3XAmzServerSideEncryption :: string where
  "S3XAmzServerSideEncryption \<equiv> ''s3:x-amz-server-side-encryption''"

abbreviation (input) S3XAmzServerSideEncryptionCustomerAlgorithm :: string where
  "S3XAmzServerSideEncryptionCustomerAlgorithm \<equiv> ''s3:x-amz-server-side-encryption-customer-algorithm''"

abbreviation (input) S3XAmzMetadataDirective :: string where
  "S3XAmzMetadataDirective \<equiv> ''s3:x-amz-metadata-directive''"

abbreviation (input) S3XAmzContentSha256 :: string where
  "S3XAmzContentSha256 \<equiv> ''s3:x-amz-content-sha256''"

abbreviation (input) S3XAmzStorageClass :: string where
  "S3XAmzStorageClass \<equiv> ''s3:x-amz-storage-class''"

abbreviation (input) S3XAmzServerSideEncryptionAwsKmsKeyID :: string where
  "S3XAmzServerSideEncryptionAwsKmsKeyID \<equiv> ''s3:x-amz-server-side-encryption-aws-kms-key-id''"

abbreviation (input) S3LocationConstraint :: string where
  "S3LocationConstraint \<equiv> ''s3:LocationConstraint''"

abbreviation (input) S3Prefix :: string where
  "S3Prefix \<equiv> ''s3:prefix''"

abbreviation (input) S3Delimiter :: string where
  "S3Delimiter \<equiv> ''s3:delimiter''"

abbreviation (input) S3VersionID :: string where
  "S3VersionID \<equiv> ''s3:versionid''"

abbreviation (input) S3MaxKeys :: string where
  "S3MaxKeys \<equiv> ''s3:max-keys''"

abbreviation (input) S3ObjectLockRemainingRetentionDays :: string where
  "S3ObjectLockRemainingRetentionDays \<equiv> ''s3:object-lock-remaining-retention-days''"

abbreviation (input) S3ObjectLockMode :: string where
  "S3ObjectLockMode \<equiv> ''s3:object-lock-mode''"

abbreviation (input) S3ObjectLockRetainUntilDate :: string where
  "S3ObjectLockRetainUntilDate \<equiv> ''s3:object-lock-retain-until-date''"

abbreviation (input) S3ObjectLockLegalHold :: string where
  "S3ObjectLockLegalHold \<equiv> ''s3:object-lock-legal-hold''"

abbreviation (input) AWSReferer :: string where
  "AWSReferer \<equiv> ''aws:Referer''"

abbreviation (input) AWSSourceIP :: string where
  "AWSSourceIP \<equiv> ''aws:SourceIp''"

abbreviation (input) AWSUserAgent :: string where
  "AWSUserAgent \<equiv> ''aws:UserAgent''"

abbreviation (input) AWSSecureTransport :: string where
  "AWSSecureTransport \<equiv> ''aws:SecureTransport''"

abbreviation (input) AWSCurrentTime :: string where
  "AWSCurrentTime \<equiv> ''aws:CurrentTime''"

abbreviation (input) AWSEpochTime :: string where
  "AWSEpochTime \<equiv> ''aws:EpochTime''"

abbreviation (input) AWSPrincipalType :: string where
  "AWSPrincipalType \<equiv> ''aws:principaltype''"

abbreviation (input) AWSUserID :: string where
  "AWSUserID \<equiv> ''aws:userid''"

abbreviation (input) AWSUsername :: string where
  "AWSUsername \<equiv> ''aws:username''"

abbreviation (input) AWSGroups :: string where
  "AWSGroups \<equiv> ''aws:groups''"

abbreviation (input) S3SignatureVersion :: string where
  "S3SignatureVersion \<equiv> ''s3:signatureversion''"

abbreviation (input) S3SignatureAge :: string where
  "S3SignatureAge \<equiv> ''s3:signatureAge''"

abbreviation (input) S3AuthType :: string where
  "S3AuthType \<equiv> ''s3:authType''"

abbreviation (input) S3ExpressSessionMode :: string where
  "S3ExpressSessionMode \<equiv> ''s3express:SessionMode''"

abbreviation (input) ExistingObjectTag :: string where
  "ExistingObjectTag \<equiv> ''s3:ExistingObjectTag''"

abbreviation (input) RequestObjectTagKeys :: string where
  "RequestObjectTagKeys \<equiv> ''s3:RequestObjectTagKeys''"

abbreviation (input) RequestObjectTag :: string where
  "RequestObjectTag \<equiv> ''s3:RequestObjectTag''"

abbreviation (input) JWTSub :: string where
  "JWTSub \<equiv> ''jwt:sub''"

abbreviation (input) JWTIss :: string where
  "JWTIss \<equiv> ''jwt:iss''"

abbreviation (input) JWTAud :: string where
  "JWTAud \<equiv> ''jwt:aud''"

abbreviation (input) JWTJti :: string where
  "JWTJti \<equiv> ''jwt:jti''"

abbreviation (input) JWTUpn :: string where
  "JWTUpn \<equiv> ''jwt:upn''"

abbreviation (input) JWTName :: string where
  "JWTName \<equiv> ''jwt:name''"

abbreviation (input) JWTGroups :: string where
  "JWTGroups \<equiv> ''jwt:groups''"

abbreviation (input) JWTGivenName :: string where
  "JWTGivenName \<equiv> ''jwt:given_name''"

abbreviation (input) JWTFamilyName :: string where
  "JWTFamilyName \<equiv> ''jwt:family_name''"

abbreviation (input) JWTMiddleName :: string where
  "JWTMiddleName \<equiv> ''jwt:middle_name''"

abbreviation (input) JWTNickName :: string where
  "JWTNickName \<equiv> ''jwt:nickname''"

abbreviation (input) JWTPrefUsername :: string where
  "JWTPrefUsername \<equiv> ''jwt:preferred_username''"

abbreviation (input) JWTProfile :: string where
  "JWTProfile \<equiv> ''jwt:profile''"

abbreviation (input) JWTPicture :: string where
  "JWTPicture \<equiv> ''jwt:picture''"

abbreviation (input) JWTWebsite :: string where
  "JWTWebsite \<equiv> ''jwt:website''"

abbreviation (input) JWTEmail :: string where
  "JWTEmail \<equiv> ''jwt:email''"

abbreviation (input) JWTGender :: string where
  "JWTGender \<equiv> ''jwt:gender''"

abbreviation (input) JWTBirthdate :: string where
  "JWTBirthdate \<equiv> ''jwt:birthdate''"

abbreviation (input) JWTPhoneNumber :: string where
  "JWTPhoneNumber \<equiv> ''jwt:phone_number''"

abbreviation (input) JWTAddress :: string where
  "JWTAddress \<equiv> ''jwt:address''"

abbreviation (input) JWTScope :: string where
  "JWTScope \<equiv> ''jwt:scope''"

abbreviation (input) JWTClientID :: string where
  "JWTClientID \<equiv> ''jwt:client_id''"

abbreviation (input) LDAPUser :: string where
  "LDAPUser \<equiv> ''ldap:user''"

abbreviation (input) LDAPUsername :: string where
  "LDAPUsername \<equiv> ''ldap:username''"

abbreviation (input) LDAPGroups :: string where
  "LDAPGroups \<equiv> ''ldap:groups''"

abbreviation (input) STSDurationSeconds :: string where
  "STSDurationSeconds \<equiv> ''sts:DurationSeconds''"

abbreviation (input) SVCDurationSeconds :: string where
  "SVCDurationSeconds \<equiv> ''svc:DurationSeconds''"

definition toTrim :: "string list" where
  "toTrim = [
     ''aws'', ''jwt'', ''ldap'', ''sts'', ''svc'', ''s3'', ''s3tables'']"

definition JWTKeys :: "string list" where
  "JWTKeys = [
     JWTSub, JWTIss, JWTAud, JWTJti, JWTName, JWTUpn, JWTGroups, JWTGivenName, JWTFamilyName,
     JWTMiddleName, JWTNickName, JWTPrefUsername, JWTProfile, JWTPicture, JWTWebsite, JWTEmail,
     JWTGender, JWTBirthdate, JWTPhoneNumber, JWTAddress, JWTScope, JWTClientID]"

definition AllSupportedKeys :: "string list" where
  "AllSupportedKeys = [
     S3SignatureVersion, S3AuthType, S3SignatureAge, S3XAmzCopySource,
     S3XAmzServerSideEncryption, S3XAmzServerSideEncryptionCustomerAlgorithm,
     S3XAmzMetadataDirective, S3XAmzStorageClass, S3XAmzServerSideEncryptionAwsKmsKeyID,
     S3XAmzContentSha256, S3LocationConstraint, S3Prefix, S3Delimiter, S3MaxKeys, S3VersionID,
     S3ObjectLockRemainingRetentionDays, S3ObjectLockMode, S3ObjectLockLegalHold,
     S3ObjectLockRetainUntilDate, S3TablesKMSKeyArn, S3TablesSSEAlgorithm, S3TablesNamespace,
     S3TablesTableName, S3TablesViewName, S3TablesRegisterLocation, AWSReferer, AWSSourceIP,
     AWSUserAgent, AWSSecureTransport, AWSCurrentTime, AWSEpochTime, AWSPrincipalType, AWSUserID,
     AWSUsername, AWSGroups, LDAPUser, LDAPUsername, LDAPGroups, RequestObjectTag,
     ExistingObjectTag, RequestObjectTagKeys, JWTSub, JWTIss, JWTAud, JWTJti, JWTName, JWTUpn,
     JWTGroups, JWTGivenName, JWTFamilyName, JWTMiddleName, JWTNickName, JWTPrefUsername,
     JWTProfile, JWTPicture, JWTWebsite, JWTEmail, JWTGender, JWTBirthdate, JWTPhoneNumber,
     JWTAddress, JWTScope, JWTClientID, STSDurationSeconds, SVCDurationSeconds]"

definition CommonKeys :: "string list" where
  "CommonKeys = [
     S3SignatureVersion, S3AuthType, S3SignatureAge, S3XAmzContentSha256, S3LocationConstraint,
     S3ExpressSessionMode, AWSReferer, AWSSourceIP, AWSUserAgent, AWSSecureTransport,
     AWSCurrentTime, AWSEpochTime, AWSPrincipalType, AWSUserID, AWSUsername, AWSGroups, LDAPUser,
     LDAPUsername, LDAPGroups] @ JWTKeys"

definition AllSupportedAdminKeys :: "string list" where
  "AllSupportedAdminKeys = [
     AWSReferer, AWSSourceIP, AWSUserAgent, AWSSecureTransport, AWSCurrentTime, AWSEpochTime,
     AWSPrincipalType, AWSUserID, AWSUsername, AWSGroups, LDAPUser, LDAPUsername, LDAPGroups,
     SVCDurationSeconds] @ JWTKeys"

definition AllSupportedSTSKeys :: "string list" where
  "AllSupportedSTSKeys = [
     AWSPrincipalType, AWSSecureTransport, STSDurationSeconds, LDAPUser, AWSUserID, AWSGroups,
     LDAPGroups, LDAPUsername, AWSUsername]"

definition KeyName_Name :: "string \<Rightarrow> string" where
  "KeyName_Name key =
     (case index_byte key (CHR '':'') of
        None \<Rightarrow> key
      | Some idx \<Rightarrow> if take idx key \<notin> set toTrim then key else drop (Suc idx) key)"

definition KeyName_VarName :: "string \<Rightarrow> string" where
  "KeyName_VarName key = ''${'' @ key @ ''}''"

text \<open>\<open>CommonKeysMap\<close> is filled from \<open>CommonKeys\<close> by \<open>init\<close>; a missing key reads as false.\<close>

definition CommonKeysMap :: "string \<Rightarrow> bool" where
  "CommonKeysMap key = (key \<in> set CommonKeys)"

section \<open>Keys (\<open>key.go\<close>)\<close>

record key =
  key_name :: string
  key_variable :: string

datatype cond_error =
    ErrInvalidKey string
  | ErrInvalidName string
  | ErrNotHandled string
  | ErrNotString string
  | ErrInvalidValue string string string
  | ErrInvalidBucket string
  | ErrQualifier string
  | ErrOneValue string
  | ErrKeyNotAllowed string
  | ErrNotBool string
  | ErrNotInt string
  | ErrNotTime string
  | ErrNotCIDR string
  | ErrBase64 string

definition NewKey :: "string \<Rightarrow> string \<Rightarrow> key" where
  "NewKey n v = \<lparr>key_name = n, key_variable = v\<rparr>"

definition KeyName_ToKey :: "string \<Rightarrow> key" where
  "KeyName_ToKey n = NewKey n ''''"

definition Key_IsValid :: "key \<Rightarrow> bool" where
  "Key_IsValid k = list_ex (\<lambda>n. key_name k = n) AllSupportedKeys"

definition Key_Is :: "key \<Rightarrow> string \<Rightarrow> bool" where
  "Key_Is k n = (key_name k = n)"

definition Key_String :: "key \<Rightarrow> string" where
  "Key_String k =
     (if key_variable k \<noteq> '''' then key_name k @ ''/'' @ key_variable k else key_name k)"

definition Key_VarName :: "key \<Rightarrow> string" where
  "Key_VarName k = KeyName_VarName (key_name k)"

definition Key_Name :: "key \<Rightarrow> string" where
  "Key_Name k =
     (let name = KeyName_Name (key_name k)
      in if key_variable k \<noteq> '''' then name @ ''/'' @ key_variable k else name)"

definition parseKey :: "string \<Rightarrow> cond_error + key" where
  "parseKey s =
     (let (name, variable) =
            (if contains_byte s (CHR ''/'') then
               (case split_two s (CHR ''/'') of None \<Rightarrow> (s, '''') | Some nv \<Rightarrow> nv)
             else (s, ''''));
          k = \<lparr>key_name = name, key_variable = variable\<rparr>
      in if Key_IsValid k then Inr k else Inl (ErrInvalidKey s))"

section \<open>Key sets\<close>

type_synonym keyset = "key list"

definition KeySet_Add :: "key \<Rightarrow> keyset \<Rightarrow> keyset" where
  "KeySet_Add k s = set_add k s"

definition NewKeySet :: "key list \<Rightarrow> keyset" where
  "NewKeySet ks = foldl (\<lambda>s k. KeySet_Add k s) [] ks"

definition KeySet_Merge :: "keyset \<Rightarrow> keyset \<Rightarrow> keyset" where
  "KeySet_Merge s m = foldl (\<lambda>s k. set_add k s) s m"

definition KeySet_Match :: "keyset \<Rightarrow> key \<Rightarrow> bool" where
  "KeySet_Match s k = (if k \<in> set s then True else KeyName_ToKey (key_name k) \<in> set s)"

definition KeySet_Difference :: "keyset \<Rightarrow> keyset \<Rightarrow> keyset" where
  "KeySet_Difference s t =
     foldl (\<lambda>n k. if \<not> KeySet_Match t k then KeySet_Add k n else n) [] s"

definition KeySet_IsEmpty :: "keyset \<Rightarrow> bool" where
  "KeySet_IsEmpty s = (length s = 0)"

definition KeySet_ToSlice :: "keyset \<Rightarrow> key list" where
  "KeySet_ToSlice s = s"

section \<open>Facts\<close>

lemma KeySet_Merge_eq: "KeySet_Merge s m = set_adds m s"
  by (simp add: KeySet_Merge_def set_adds_def)

lemma NewKeySet_eq: "NewKeySet ks = set_adds ks []"
  by (simp add: NewKeySet_def KeySet_Add_def set_adds_def)

lemma set_NewKeySet [simp]: "set (NewKeySet ks) = set ks"
  by (simp add: NewKeySet_eq)

lemma distinct_NewKeySet [simp]: "distinct (NewKeySet ks)"
  by (simp add: NewKeySet_eq)

lemma set_KeySet_Merge [simp]: "set (KeySet_Merge s m) = set s \<union> set m"
  by (simp add: KeySet_Merge_eq)

lemma set_KeySet_Difference [simp]:
  "set (KeySet_Difference s t) = {k \<in> set s. \<not> KeySet_Match t k}"
proof -
  have "set (foldl (\<lambda>n k. if \<not> KeySet_Match t k then KeySet_Add k n else n) u s) =
        set u \<union> {k \<in> set s. \<not> KeySet_Match t k}" for u
    by (induction s arbitrary: u) (auto simp: KeySet_Add_def)
  from this [of "[]"] show ?thesis by (simp add: KeySet_Difference_def)
qed

lemma KeySet_Difference_empty:
  "KeySet_IsEmpty (KeySet_Difference s t) \<longleftrightarrow> (\<forall>k\<in>set s. KeySet_Match t k)"
proof -
  have "KeySet_IsEmpty (KeySet_Difference s t) \<longleftrightarrow> set (KeySet_Difference s t) = {}"
    by (simp add: KeySet_IsEmpty_def del: set_KeySet_Difference)
  then show ?thesis by auto
qed

lemma Key_IsValid_iff: "Key_IsValid k \<longleftrightarrow> key_name k \<in> set AllSupportedKeys"
  by (auto simp: Key_IsValid_def list_ex_iff)

text \<open>A parsed key is valid, and its name has no slash.\<close>

lemma parseKey_valid: "parseKey s = Inr k \<Longrightarrow> Key_IsValid k"
  by (auto simp: parseKey_def Let_def split: if_splits option.splits)

lemma AllSupportedKeys_no_slash: "\<forall>n\<in>set AllSupportedKeys. CHR ''/'' \<notin> set n"
  by (simp add: AllSupportedKeys_def JWTKeys_def)

lemma index_byte_append: "c \<notin> set s \<Longrightarrow> index_byte (s @ c # t) c = Some (length s)"
  unfolding index_byte_def by (induction s) auto

lemma parse_printed_key:
  assumes "Key_IsValid k"
  shows "parseKey (Key_String k) = Inr k"
proof -
  have "CHR ''/'' \<notin> set (key_name k)"
    using assms AllSupportedKeys_no_slash by (auto simp: Key_IsValid_iff)
  then show ?thesis
    using assms by (cases k)
      (auto simp: parseKey_def Key_String_def contains_byte_def split_two_def index_byte_append)
qed

lemma Key_String_inj: "Key_IsValid k \<Longrightarrow> Key_IsValid k' \<Longrightarrow> Key_String k = Key_String k' \<longleftrightarrow> k = k'"
  by (metis parse_printed_key sum.inject(2))

text \<open>
  C18: printing a valid key, with or without a variable part, and parsing the text gives the key back.
\<close>

theorem parseKey_Key_String:
  assumes "Key_IsValid k"
  shows "parseKey (Key_String k) = Inr k"
  using assms by (rule parse_printed_key)

theorem parseKey_Key_String_witness:
  "parseKey (Key_String \<lparr>key_name = ExistingObjectTag, key_variable = ''team''\<rparr>) =
   Inr \<lparr>key_name = ExistingObjectTag, key_variable = ''team''\<rparr>"
  by (rule parseKey_Key_String) code_simp

end
