(* ===== verification/GoTime.thy ===== *)
theory GoTime
  imports GoStrings "HOL-Library.Monad_Syntax"
begin

text \<open>
  \<open>time.Parse(time.RFC3339, _)\<close> and the comparison of times, as the date conditions use them.
  A \<open>time.Time\<close> is the instant in nanoseconds since the Unix epoch and the offset of its zone.
\<close>

record go_time =
  unix_nano :: int
  zone_offset :: int

text \<open>\<open>getnum\<close>: two digits, or one digit when \<open>fixed\<close> is not set.\<close>

fun getnum :: "bool \<Rightarrow> string \<Rightarrow> (int \<times> string) option" where
  "getnum fixed [] = None"
| "getnum fixed [a] =
     (if is_digit a \<and> \<not> fixed then Some (digits_value [a], []) else None)"
| "getnum fixed (a # b # s) =
     (if \<not> is_digit a then None
      else if is_digit b then Some (digits_value [a, b], s)
      else if fixed then None else Some (digits_value [a], b # s))"

fun skip_byte :: "char \<Rightarrow> string \<Rightarrow> string option" where
  "skip_byte c [] = None"
| "skip_byte c (x # s) = (if x = c then Some s else None)"

definition guard_m :: "bool \<Rightarrow> unit option" where
  "guard_m b = (if b then Some () else None)"

definition get_year :: "string \<Rightarrow> (int \<times> string) option" where
  "get_year s =
     (if length s \<ge> 4 \<and> list_all is_digit (take 4 s) then Some (digits_value (take 4 s), drop 4 s)
      else None)"

text \<open>A fraction of a second: at most nine of its digits count.\<close>

definition get_fraction :: "string \<Rightarrow> int \<times> string" where
  "get_fraction s =
     (case s of
        p # d # _ \<Rightarrow>
          (if (p = CHR ''.'' \<or> p = CHR '','') \<and> is_digit d then
             (let ds = takeWhile is_digit (tl s); used = take 9 ds
              in (digits_value used * 10 ^ (9 - length used), drop (length ds) (tl s)))
           else (0, s))
      | _ \<Rightarrow> (0, s))"

definition get_zone :: "string \<Rightarrow> (int \<times> string) option" where
  "get_zone s =
     (if s \<noteq> [] \<and> hd s = CHR ''Z'' then Some (0, tl s)
      else if length s < 6 \<or> s ! 3 \<noteq> CHR '':'' then None
      else do {
        (hr, _) \<leftarrow> getnum True (take 2 (drop 1 s));
        (mm, _) \<leftarrow> getnum True (take 2 (drop 4 s));
        guard_m (hr \<le> 24 \<and> mm \<le> 60);
        (if s ! 0 = CHR ''+'' then Some ((hr * 60 + mm) * 60, drop 6 s)
         else if s ! 0 = CHR ''-'' then Some (- ((hr * 60 + mm) * 60), drop 6 s)
         else None)
      })"

definition leap_year :: "int \<Rightarrow> bool" where
  "leap_year y = (y mod 4 = 0 \<and> (y mod 100 \<noteq> 0 \<or> y mod 400 = 0))"

definition days_in :: "int \<Rightarrow> int \<Rightarrow> int" where
  "days_in m y =
     (if m = 2 then (if leap_year y then 29 else 28)
      else if m \<in> {4, 6, 9, 11} then 30 else 31)"

definition days_before_month :: "int \<Rightarrow> int \<Rightarrow> int" where
  "days_before_month m y = sum_list (map (\<lambda>k. days_in k y) [1..m - 1])"

text \<open>Days from 1970-01-01, in the proleptic Gregorian calendar.\<close>

definition unix_days :: "int \<Rightarrow> int \<Rightarrow> int \<Rightarrow> int" where
  "unix_days y m d =
     (y - 1) * 365 + (y - 1) div 4 - (y - 1) div 100 + (y - 1) div 400 +
     days_before_month m y + (d - 1) - 719162"

definition parse_rfc3339 :: "string \<Rightarrow> go_time option" where
  "parse_rfc3339 s = do {
     (year, s) \<leftarrow> get_year s;
     s \<leftarrow> skip_byte (CHR ''-'') s;
     (month, s) \<leftarrow> getnum True s;
     guard_m (1 \<le> month \<and> month \<le> 12);
     s \<leftarrow> skip_byte (CHR ''-'') s;
     (day, s) \<leftarrow> getnum True s;
     s \<leftarrow> skip_byte (CHR ''T'') s;
     (hour, s) \<leftarrow> getnum False s;
     guard_m (hour < 24);
     s \<leftarrow> skip_byte (CHR '':'') s;
     (minute, s) \<leftarrow> getnum True s;
     guard_m (minute < 60);
     s \<leftarrow> skip_byte (CHR '':'') s;
     (second, s) \<leftarrow> getnum True s;
     guard_m (second < 60);
     let (nsec, s) = get_fraction s;
     (offset, s) \<leftarrow> get_zone s;
     guard_m (s = []);
     guard_m (1 \<le> day \<and> day \<le> days_in month year);
     Some \<lparr>unix_nano =
         (unix_days year month day * 86400 + hour * 3600 + minute * 60 + second - offset)
           * 1000000000 + nsec,
       zone_offset = offset\<rparr>
   }"

definition time_equal :: "go_time \<Rightarrow> go_time \<Rightarrow> bool" where
  "time_equal t u = (unix_nano t = unix_nano u)"

definition time_after :: "go_time \<Rightarrow> go_time \<Rightarrow> bool" where
  "time_after t u = (unix_nano t > unix_nano u)"

definition time_before :: "go_time \<Rightarrow> go_time \<Rightarrow> bool" where
  "time_before t u = (unix_nano t < unix_nano u)"

lemmas time_defs = time_equal_def time_after_def time_before_def

section \<open>\<open>Time.Format(time.RFC3339)\<close>\<close>

text \<open>
  The calendar date of a day: the cycles of 400, 100, 4 and 1 years are cut off in turn, where the
  last cycle of 100 years and the last year of four are one day longer; \<open>yday\<close> counts from 0.
\<close>

definition year_yday :: "int \<Rightarrow> int \<times> int" where
  "year_yday days =
     (let d = days + 719162;
          n400 = d div 146097; d400 = d mod 146097;
          n100 = min 3 (d400 div 36524); d100 = d400 - 36524 * n100;
          n4 = d100 div 1461; d4 = d100 mod 1461;
          n1 = min 3 (d4 div 365); yday = d4 - 365 * n1
      in (400 * n400 + 100 * n100 + 4 * n4 + n1 + 1, yday))"

fun month_loop :: "int \<Rightarrow> int \<Rightarrow> int list \<Rightarrow> int \<times> int" where
  "month_loop y yday [] = (12, yday + 1)"
| "month_loop y yday (m # ms) =
     (if yday < days_in m y then (m, yday + 1) else month_loop y (yday - days_in m y) ms)"

definition civil_date :: "int \<Rightarrow> int \<times> int \<times> int" where
  "civil_date days =
     (let (y, yday) = year_yday days; (m, d) = month_loop y yday [1..12] in (y, m, d))"

text \<open>\<open>appendInt(x, width)\<close>: decimal, padded with zeros.\<close>

definition append_int :: "int \<Rightarrow> nat \<Rightarrow> string" where
  "append_int x w =
     (let ds = nat_digits (nat \<bar>x\<bar>)
      in (if x < 0 then ''-'' else '''') @ replicate (w - length ds) (CHR ''0'') @ ds)"

definition format_zone :: "int \<Rightarrow> string" where
  "format_zone offset =
     (if offset = 0 then ''Z''
      else (let zone = (if offset < 0 then - (\<bar>offset\<bar> div 60) else offset div 60)
            in (if zone < 0 then ''-'' else ''+'') @ append_int (\<bar>zone\<bar> div 60) 2 @ '':'' @
               append_int (\<bar>zone\<bar> mod 60) 2))"

definition format_rfc3339 :: "go_time \<Rightarrow> string" where
  "format_rfc3339 t =
     (let secs = unix_nano t div 1000000000 + zone_offset t;
          (y, m, d) = civil_date (secs div 86400);
          sod = secs mod 86400
      in append_int y 4 @ ''-'' @ append_int m 2 @ ''-'' @ append_int d 2 @ ''T'' @
         append_int (sod div 3600) 2 @ '':'' @ append_int (sod div 60 mod 60) 2 @ '':'' @
         append_int (sod mod 60) 2 @ format_zone (zone_offset t))"

end
