(* ===== verification/GoNet.thy ===== *)
theory GoNet
  imports GoStrings
begin

text \<open>
  IP addresses and networks of Go's \<open>net\<close> package, as the IP conditions use them: \<open>ParseIP\<close>,
  \<open>ParseCIDR\<close>, \<open>IPNet.Contains\<close>. An address is its list of bytes, 4 or 16 of them.
\<close>

type_synonym ip = "int list"

record ipnet =
  net_ip :: ip
  net_mask :: "int list"

section \<open>Parsing addresses (\<open>netip.ParseAddr\<close>)\<close>

text \<open>A field of a dotted address: one to three digits, no leading zero, at most 255.\<close>

definition ipv4_field :: "string \<Rightarrow> int option" where
  "ipv4_field s =
     (if s \<noteq> [] \<and> list_all is_digit s \<and> (length s = 1 \<or> hd s \<noteq> CHR ''0'') \<and> digits_value s \<le> 255
      then Some (digits_value s) else None)"

definition parse_ipv4 :: "string \<Rightarrow> ip option" where
  "parse_ipv4 s =
     (case map ipv4_field (split_on (CHR ''.'') s) of
        [Some a, Some b, Some c, Some d] \<Rightarrow> Some [a, b, c, d]
      | _ \<Rightarrow> None)"

definition hex_val :: "char \<Rightarrow> int option" where
  "hex_val c =
     (if is_digit c then Some (int (byte c) - 48)
      else if 97 \<le> byte c \<and> byte c \<le> 102 then Some (int (byte c) - 87)
      else if 65 \<le> byte c \<and> byte c \<le> 70 then Some (int (byte c) - 55)
      else None)"

definition hex_value :: "string \<Rightarrow> int" where
  "hex_value s = foldl (\<lambda>v c. 16 * v + (case hex_val c of None \<Rightarrow> 0 | Some d \<Rightarrow> d)) 0 s"

text \<open>
  The loop of \<open>parseIPv6\<close>: the rest of the text, the bytes read so far and the position of the
  \<open>::\<close>, if one was read. It stops after 16 bytes or at the end of the text.
\<close>

function v6_loop :: "string \<Rightarrow> int list \<Rightarrow> nat option \<Rightarrow> (int list \<times> nat option \<times> string) option" where
  "v6_loop s bs ell =
     (if length bs \<ge> 16 then Some (bs, ell, s)
      else
        (let ds = takeWhile (\<lambda>c. hex_val c \<noteq> None) s;
             rest = drop (length ds) s;
             bs' = bs @ [hex_value ds div 256, hex_value ds mod 256]
         in if ds = [] \<or> length ds > 4 then None
            else if rest = [] then Some (bs', ell, [])
            else if hd rest = CHR ''.'' then
              (if ell = None \<and> length bs \<noteq> 12 then None
               else if length bs + 4 > 16 then None
               else (case parse_ipv4 s of None \<Rightarrow> None | Some v \<Rightarrow> Some (bs @ v, ell, [])))
            else if hd rest \<noteq> CHR '':'' then None
            else if tl rest = [] then None
            else if hd (tl rest) = CHR '':'' then
              (if ell \<noteq> None then None
               else if tl (tl rest) = [] then Some (bs', Some (length bs'), [])
               else v6_loop (tl (tl rest)) bs' (Some (length bs')))
            else v6_loop (tl rest) bs' ell))"
  by pat_completeness auto
termination
  by (relation "measure (\<lambda>(s, bs, ell). 16 - length bs)") (auto simp: Let_def)

declare v6_loop.simps [simp del]

text \<open>An address with a zone is refused by both callers, \<open>ParseIP\<close> and \<open>ParseCIDR\<close>.\<close>

definition parse_ipv6 :: "string \<Rightarrow> ip option" where
  "parse_ipv6 s =
     (if contains_byte s (CHR ''%'') then None
      else if s = ''::'' then Some (replicate 16 0)
      else
        (let lead = has_prefix s ''::''
         in case v6_loop (if lead then drop 2 s else s) [] (if lead then Some 0 else None) of
              None \<Rightarrow> None
            | Some (bs, ell, rest) \<Rightarrow>
                (if rest \<noteq> [] then None
                 else if length bs < 16 then
                   (case ell of None \<Rightarrow> None
                    | Some k \<Rightarrow> Some (take k bs @ replicate (16 - length bs) 0 @ drop k bs))
                 else if ell \<noteq> None then None else Some bs)))"

text \<open>An IPv4 address has 4 bytes, an IPv6 one 16.\<close>

definition parse_addr :: "string \<Rightarrow> ip option" where
  "parse_addr s =
     (case index_func (\<lambda>c. c = CHR ''.'' \<or> c = CHR '':'' \<or> c = CHR ''%'') s of
        None \<Rightarrow> None
      | Some i \<Rightarrow>
          (if s ! i = CHR ''.'' then parse_ipv4 s
           else if s ! i = CHR '':'' then parse_ipv6 s else None))"

definition v4_in_v6_prefix :: "int list" where
  "v4_in_v6_prefix = [0, 0, 0, 0, 0, 0, 0, 0, 0, 0, 255, 255]"

definition as16 :: "ip \<Rightarrow> ip" where
  "as16 a = (if length a = 4 then v4_in_v6_prefix @ a else a)"

definition ParseIP :: "string \<Rightarrow> ip option" where
  "ParseIP s = map_option as16 (parse_addr s)"

section \<open>Networks\<close>

definition to4 :: "ip \<Rightarrow> ip option" where
  "to4 a =
     (if length a = 4 then Some a
      else if length a = 16 \<and> take 12 a = v4_in_v6_prefix then Some (drop 12 a) else None)"

definition cidr_mask :: "nat \<Rightarrow> nat \<Rightarrow> int list" where
  "cidr_mask ones bits =
     map (\<lambda>i. if ones \<ge> 8 * (i + 1) then 255
              else if ones \<le> 8 * i then 0 else 256 - 2 ^ (8 - (ones - 8 * i)))
       [0..<bits div 8]"

text \<open>\<open>AND\<close> of two byte lists.\<close>

definition mask_bytes :: "int list \<Rightarrow> int list \<Rightarrow> int list" where
  "mask_bytes xs ms = map2 (\<lambda>x m. and x m) xs ms"

text \<open>\<open>IP.Mask\<close> on a 16-byte address, where the mask has 4 or 16 bytes.\<close>

definition ip_mask :: "ip \<Rightarrow> int list \<Rightarrow> ip" where
  "ip_mask a m =
     (let a' = (if length m = 4 \<and> length a = 16 \<and> take 12 a = v4_in_v6_prefix then drop 12 a else a)
      in if length a' \<noteq> length m then [] else mask_bytes a' m)"

definition ParseCIDR :: "string \<Rightarrow> ipnet option" where
  "ParseCIDR s =
     (case split_two s (CHR ''/'') of None \<Rightarrow> None
      | Some (addr, msk) \<Rightarrow>
          (case parse_addr addr of None \<Rightarrow> None
           | Some a \<Rightarrow>
               (let n = digits_value msk; bits = 8 * length a
                in if msk = [] \<or> \<not> list_all is_digit msk \<or> n > int bits then None
                   else let m = cidr_mask (nat n) bits
                        in Some \<lparr>net_ip = ip_mask (as16 a) m, net_mask = m\<rparr>)))"

definition networkNumberAndMask :: "ipnet \<Rightarrow> (ip \<times> int list) option" where
  "networkNumberAndMask n =
     (let nip = (case to4 (net_ip n) of Some x \<Rightarrow> x | None \<Rightarrow> net_ip n);
          m = net_mask n
      in if length nip \<noteq> 4 \<and> length nip \<noteq> 16 then None
         else if length m = 4 then (if length nip \<noteq> 4 then None else Some (nip, m))
         else if length m = 16 then Some (nip, if length nip = 4 then drop 12 m else m)
         else None)"

definition IPNet_Contains :: "ipnet \<Rightarrow> ip \<Rightarrow> bool" where
  "IPNet_Contains n a =
     (let x = (case to4 a of Some x \<Rightarrow> x | None \<Rightarrow> a)
      in case networkNumberAndMask n of None \<Rightarrow> x = []
         | Some (nip, m) \<Rightarrow> length x = length nip \<and> mask_bytes nip m = mask_bytes x m)"

section \<open>Printing networks (\<open>IPNet.String\<close>)\<close>

text \<open>\<open>appendDecimal\<close> and \<open>appendHex\<close> print without leading zeros.\<close>

fun hex_of_nat :: "nat \<Rightarrow> string" where
  "hex_of_nat n =
     (if n < 16 then [''0123456789abcdef'' ! n]
      else hex_of_nat (n div 16) @ [''0123456789abcdef'' ! (n mod 16)])"

declare hex_of_nat.simps [simp del]

definition ipv4_string :: "ip \<Rightarrow> string" where
  "ipv4_string a = join_with (CHR ''.'') (map itoa a)"

text \<open>The eight 16-bit groups of a 16-byte address.\<close>

fun groups16 :: "int list \<Rightarrow> nat list" where
  "groups16 (a # b # s) = nat (256 * a + b) # groups16 s"
| "groups16 _ = []"

text \<open>
  The loop of \<open>appendTo6\<close> that looks for the longest run of at least two zero groups, the first of
  them when there are several; \<^term>\<open>None\<close> when there is none.
\<close>

definition zero_run :: "nat list \<Rightarrow> (nat \<times> nat) option" where
  "zero_run g =
     foldl (\<lambda>best i.
       let j = i + length (takeWhile (\<lambda>x. x = 0) (drop i g))
       in if j - i \<ge> 2 \<and> j - i > (case best of None \<Rightarrow> 0 | Some (s, e) \<Rightarrow> e - s)
          then Some (i, j) else best) None [0..<8]"

definition ipv6_string :: "ip \<Rightarrow> string" where
  "ipv6_string a =
     (let g = groups16 a
      in case zero_run g of
           None \<Rightarrow> join_with (CHR '':'') (map hex_of_nat g)
         | Some (s, e) \<Rightarrow> join_with (CHR '':'') (map hex_of_nat (take s g)) @ ''::'' @
             join_with (CHR '':'') (map hex_of_nat (drop e g)))"

text \<open>\<open>simpleMaskLength\<close>: the number of leading ones, if only zeros follow them.\<close>

definition leading_ones :: "int \<Rightarrow> nat option" where
  "leading_ones b =
     map_of [(0, 0), (128, 1), (192, 2), (224, 3), (240, 4), (248, 5), (252, 6), (254, 7)] b"

fun simpleMaskLength :: "int list \<Rightarrow> nat option" where
  "simpleMaskLength [] = Some 0"
| "simpleMaskLength (v # m) =
     (if v = 255 then map_option (\<lambda>n. n + 8) (simpleMaskLength m)
      else case leading_ones v of None \<Rightarrow> None
        | Some n \<Rightarrow> (if list_all (\<lambda>x. x = 0) m then Some n else None))"

definition byte_hex :: "int \<Rightarrow> string" where
  "byte_hex b = [''0123456789abcdef'' ! (nat b div 16), ''0123456789abcdef'' ! (nat b mod 16)]"

definition IPNet_String :: "ipnet \<Rightarrow> string" where
  "IPNet_String n =
     (case networkNumberAndMask n of
        None \<Rightarrow> ''<nil>''
      | Some (nn, m) \<Rightarrow>
          (let ips = (if length nn = 4 then ipv4_string nn else ipv6_string nn)
           in case simpleMaskLength m of
                None \<Rightarrow> ips @ ''/'' @ concat (map byte_hex m)
              | Some l \<Rightarrow> ips @ ''/'' @ itoa (int l)))"

end
