(* ===== verification/CondValues.thy ===== *)
theory CondValues
  imports CondKeys GoTime GoNet
begin

text \<open>
  The data of conditions: values and value sets (\<open>policy/condition/value.go\<close>, \<open>valueset.go\<close>),
  condition names (\<open>name.go\<close>) and the condition values of a request, a Go
  \<open>map[string][]string\<close>.
\<close>

section \<open>Request values (\<open>value.go\<close>)\<close>

type_synonym cond_values = "string \<rightharpoonup> string list"

text \<open>Reading a missing key of the map gives a nil slice.\<close>

definition getValuesByKey :: "cond_values \<Rightarrow> key \<Rightarrow> string list" where
  "getValuesByKey m k =
     (let name = Key_Name k
      in case m name of
           Some values \<Rightarrow> values
         | None \<Rightarrow> (case m (CanonicalHeaderKey name) of Some values \<Rightarrow> values | None \<Rightarrow> []))"

definition path2BucketAndObject :: "string \<Rightarrow> string \<times> string" where
  "path2BucketAndObject path =
     (let p = trim_prefix path ''/''
      in case split_two p (CHR ''/'') of None \<Rightarrow> (p, '''') | Some bo \<Rightarrow> bo)"

section \<open>Values (\<open>value.go\<close>)\<close>

text \<open>
  \<open>Value\<close> tags one of three fields with its kind, the others being zero; \<open>VNone\<close> is the zero
  \<open>Value\<close>, of kind \<open>reflect.Invalid\<close>. A \<open>Get\<close> of another kind gives the field's zero and an error.
\<close>

datatype val = VNone | VBool bool | VInt int | VString string

fun GetBool :: "val \<Rightarrow> bool option" where
  "GetBool (VBool b) = Some b"
| "GetBool _ = None"

fun GetInt :: "val \<Rightarrow> int option" where
  "GetInt (VInt i) = Some i"
| "GetInt _ = None"

fun GetString :: "val \<Rightarrow> string option" where
  "GetString (VString s) = Some s"
| "GetString _ = None"

fun Value_String :: "val \<Rightarrow> string" where
  "Value_String (VString s) = s"
| "Value_String (VInt i) = itoa i"
| "Value_String (VBool b) = format_bool b"
| "Value_String VNone = ''''"

definition NewBoolValue :: "bool \<Rightarrow> val" where "NewBoolValue b = VBool b"
definition NewIntValue :: "int \<Rightarrow> val" where "NewIntValue i = VInt i"
definition NewStringValue :: "string \<Rightarrow> val" where "NewStringValue s = VString s"

section \<open>Value sets (\<open>valueset.go\<close>)\<close>

type_synonym valueset = "val list"

definition ValueSet_Add :: "valueset \<Rightarrow> val \<Rightarrow> valueset" where
  "ValueSet_Add s v = set_add v s"

definition ValueSet_ToSlice :: "valueset \<Rightarrow> val list" where
  "ValueSet_ToSlice s = s"

definition NewValueSet :: "val list \<Rightarrow> valueset" where
  "NewValueSet vs = foldl ValueSet_Add [] vs"

definition ValueSet_Clone :: "valueset \<Rightarrow> valueset" where
  "ValueSet_Clone s = NewValueSet (ValueSet_ToSlice s)"

lemma NewValueSet_eq: "NewValueSet vs = set_adds vs []"
  by (simp add: NewValueSet_def ValueSet_Add_def [abs_def] set_adds_def)

lemma set_NewValueSet [simp]: "set (NewValueSet vs) = set vs"
  by (simp add: NewValueSet_eq)

lemma distinct_NewValueSet [simp]: "distinct (NewValueSet vs)"
  by (simp add: NewValueSet_eq)

lemma set_ValueSet_Clone: "set (ValueSet_Clone s) = set s"
  by (simp add: ValueSet_Clone_def ValueSet_ToSlice_def)

section \<open>Condition names (\<open>name.go\<close>)\<close>

abbreviation (input) stringEquals :: string where
  "stringEquals \<equiv> ''StringEquals''"

abbreviation (input) stringNotEquals :: string where
  "stringNotEquals \<equiv> ''StringNotEquals''"

abbreviation (input) stringEqualsIgnoreCase :: string where
  "stringEqualsIgnoreCase \<equiv> ''StringEqualsIgnoreCase''"

abbreviation (input) stringNotEqualsIgnoreCase :: string where
  "stringNotEqualsIgnoreCase \<equiv> ''StringNotEqualsIgnoreCase''"

abbreviation (input) stringLike :: string where
  "stringLike \<equiv> ''StringLike''"

abbreviation (input) stringNotLike :: string where
  "stringNotLike \<equiv> ''StringNotLike''"

abbreviation (input) binaryEquals :: string where
  "binaryEquals \<equiv> ''BinaryEquals''"

abbreviation (input) ipAddress :: string where
  "ipAddress \<equiv> ''IpAddress''"

abbreviation (input) notIPAddress :: string where
  "notIPAddress \<equiv> ''NotIpAddress''"

abbreviation (input) nullName :: string where
  "nullName \<equiv> ''Null''"

abbreviation (input) booleanName :: string where
  "booleanName \<equiv> ''Bool''"

abbreviation (input) numericEquals :: string where
  "numericEquals \<equiv> ''NumericEquals''"

abbreviation (input) numericNotEquals :: string where
  "numericNotEquals \<equiv> ''NumericNotEquals''"

abbreviation (input) numericLessThan :: string where
  "numericLessThan \<equiv> ''NumericLessThan''"

abbreviation (input) numericLessThanEquals :: string where
  "numericLessThanEquals \<equiv> ''NumericLessThanEquals''"

abbreviation (input) numericGreaterThan :: string where
  "numericGreaterThan \<equiv> ''NumericGreaterThan''"

abbreviation (input) numericGreaterThanIfExists :: string where
  "numericGreaterThanIfExists \<equiv> ''NumericGreaterThanIfExists''"

abbreviation (input) numericGreaterThanEquals :: string where
  "numericGreaterThanEquals \<equiv> ''NumericGreaterThanEquals''"

abbreviation (input) dateEquals :: string where
  "dateEquals \<equiv> ''DateEquals''"

abbreviation (input) dateNotEquals :: string where
  "dateNotEquals \<equiv> ''DateNotEquals''"

abbreviation (input) dateLessThan :: string where
  "dateLessThan \<equiv> ''DateLessThan''"

abbreviation (input) dateLessThanEquals :: string where
  "dateLessThanEquals \<equiv> ''DateLessThanEquals''"

abbreviation (input) dateGreaterThan :: string where
  "dateGreaterThan \<equiv> ''DateGreaterThan''"

abbreviation (input) dateGreaterThanEquals :: string where
  "dateGreaterThanEquals \<equiv> ''DateGreaterThanEquals''"

abbreviation (input) forAllValues :: string where
  "forAllValues \<equiv> ''ForAllValues''"

abbreviation (input) forAnyValue :: string where
  "forAnyValue \<equiv> ''ForAnyValue''"

definition Names :: "string list" where
  "Names = [
     stringEquals, stringNotEquals, stringEqualsIgnoreCase, stringNotEqualsIgnoreCase,
     binaryEquals, stringLike, stringNotLike, ipAddress, notIPAddress, nullName, booleanName,
     numericEquals, numericNotEquals, numericLessThan, numericLessThanEquals, numericGreaterThan,
     numericGreaterThanIfExists, numericGreaterThanEquals, dateEquals, dateNotEquals,
     dateLessThan, dateLessThanEquals, dateGreaterThan, dateGreaterThanEquals]"

definition Qualifiers :: "string list" where
  "Qualifiers = [
     forAllValues, forAnyValue]"

record cname =
  cn_qualifier :: string
  cn_name :: string

abbreviation (input) plain_name :: "string \<Rightarrow> cname" where
  "plain_name n \<equiv> \<lparr>cn_qualifier = '''', cn_name = n\<rparr>"

definition Name_String :: "cname \<Rightarrow> string" where
  "Name_String n =
     (if cn_qualifier n \<noteq> '''' then cn_qualifier n @ '':'' @ cn_name n else cn_name n)"

definition Name_IsValid :: "cname \<Rightarrow> bool" where
  "Name_IsValid n =
     (if cn_qualifier n \<noteq> '''' \<and> cn_qualifier n \<notin> set Qualifiers then False
      else cn_name n \<in> set Names)"

definition parseName :: "string \<Rightarrow> cond_error + cname" where
  "parseName s =
     (let check = (\<lambda>n. if Name_IsValid n then Inr n else Inl (ErrInvalidName s))
      in case split_on (CHR '':'') s of
           [] \<Rightarrow> check (plain_name s)
         | [_] \<Rightarrow> check (plain_name s)
         | [q, n] \<Rightarrow> check \<lparr>cn_qualifier = q, cn_name = n\<rparr>
         | _ \<Rightarrow> Inl (ErrInvalidName s))"

lemma split_on_append:
  "c \<notin> set s \<Longrightarrow> split_on c (s @ c # t) = s # split_on c t"
  by (induction s) (auto simp: split_on_nonempty)

lemma names_no_colon: "\<forall>n\<in>set Names. CHR '':'' \<notin> set n"
  "\<forall>q\<in>set Qualifiers. CHR '':'' \<notin> set q \<and> q \<noteq> ''''"
  by (simp_all add: Names_def Qualifiers_def)

text \<open>
  Printing a valid name, with or without a qualifier, and parsing the text gives the name back.
\<close>

theorem parseName_Name_String:
  assumes "Name_IsValid n"
  shows "parseName (Name_String n) = Inr n"
proof (cases "cn_qualifier n = ''''")
  case True
  with assms names_no_colon(1) show ?thesis
    by (cases n) (auto simp: parseName_def Name_String_def Name_IsValid_def Let_def split_on_no_sep)
next
  case False
  with assms have "CHR '':'' \<notin> set (cn_qualifier n)" "CHR '':'' \<notin> set (cn_name n)"
    using names_no_colon by (auto simp: Name_IsValid_def split: if_splits)
  with False assms show ?thesis
    by (cases n) (auto simp: parseName_def Name_String_def Let_def split_on_append split_on_no_sep)
qed

theorem parseName_Name_String_witness:
  "parseName (Name_String \<lparr>cn_qualifier = forAnyValue, cn_name = stringLike\<rparr>) =
   Inr \<lparr>cn_qualifier = forAnyValue, cn_name = stringLike\<rparr>"
  by (rule parseName_Name_String) code_simp

end
