(* ===== verification/Wildcard.thy ===== *)
theory Wildcard
  imports GoPrelude
begin

text \<open>
  The wildcard matcher of \<open>wildcard/match.go\<close>: \<open>Match\<close>, \<open>MatchSimple\<close>, \<open>Has\<close> and
  \<open>MatchAsPatternPrefix\<close>, with the backtracking loop of \<open>deepMatchRune\<close> kept as a loop over
  indices. The loop is proved to return and to agree with a recursive reference matcher.
\<close>

section \<open>The code\<close>

text \<open>
  \<open>matchFixedSuffix\<close>: the loop counts \<open>i\<close> down from \<open>len(pattern)-1\<close>; \<open>fixed_loop str pattern n\<close>
  has the indices below \<open>n\<close> left to check.
\<close>

primrec fixed_loop :: "string \<Rightarrow> string \<Rightarrow> nat \<Rightarrow> bool" where
  "fixed_loop str pattern 0 = True"
| "fixed_loop str pattern (Suc i) =
     (if pattern ! i \<noteq> CHR ''?'' \<and> pattern ! i \<noteq> str ! i then False
      else fixed_loop str pattern i)"

definition matchFixedSuffix :: "string \<Rightarrow> string \<Rightarrow> bool" where
  "matchFixedSuffix str pattern =
     fixed_loop (drop (length str - length pattern) str) pattern (length pattern)"

text \<open>
  The look-ahead loop of the \<open>'*'\<close> case, run when \<open>simple\<close> is set: \<open>e\<close> is the source's \<open>end\<close>.
\<close>

function lookahead_loop :: "string \<Rightarrow> string \<Rightarrow> nat \<Rightarrow> nat \<Rightarrow> nat \<Rightarrow> bool" where
  "lookahead_loop str pattern s p e =
     (if e < length pattern \<and> pattern ! e \<noteq> CHR ''*'' \<and> e - p \<le> length str - s then
        (if pattern ! e = CHR ''?'' \<and>
            matchFixedSuffix (drop s str) (take (e - p) (drop p pattern))
         then True
         else lookahead_loop str pattern s p (Suc e))
      else False)"
  by pat_completeness auto
termination
  by (relation "measure (\<lambda>(str, pattern, s, p, e). length pattern - e)") auto

declare lookahead_loop.simps [simp del]

text \<open>
  The loop of \<open>deepMatchRune\<close>. Its variables are the positions \<open>s\<close> and \<open>p\<close>, the position \<open>star\<close>
  of the \<open>'*'\<close> to resume from (\<open>None\<close> for the source's \<open>-1\<close>) and \<open>mark\<close>, how much of \<open>str\<close> that
  \<open>'*'\<close> has consumed. Nothing in the shape of the loop bounds it, so it is a partial function.
\<close>

partial_function (option) match_loop ::
  "string \<Rightarrow> string \<Rightarrow> bool \<Rightarrow> nat \<Rightarrow> nat \<Rightarrow> nat option \<Rightarrow> nat \<Rightarrow> bool option" where
  "match_loop str pattern simple s p star mark =
     (if s < length str \<or> p < length pattern then
        (if p < length pattern \<and> pattern ! p = CHR ''*'' then
           (if Suc p = length pattern then Some True
            else if simple \<and> lookahead_loop str pattern s (Suc p) (Suc p) then Some True
            else match_loop str pattern simple s (Suc p) (Some p) s)
         else if p < length pattern \<and> pattern ! p = CHR ''?'' \<and> simple \<and> s = length str then
           Some True
         else if p < length pattern \<and> s < length str \<and>
                 (pattern ! p = CHR ''?'' \<or> pattern ! p = str ! s) then
           match_loop str pattern simple (Suc s) (Suc p) star mark
         else (case star of
             None \<Rightarrow> Some False
           | Some st \<Rightarrow>
               (if Suc mark > length str then Some False
                else match_loop str pattern simple (Suc mark) (Suc st) star (Suc mark))))
      else Some True)"

definition deepMatchRune :: "string \<Rightarrow> string \<Rightarrow> bool \<Rightarrow> bool" where
  "deepMatchRune str pattern simple = the (match_loop str pattern simple 0 0 None 0)"

definition MatchSimple :: "string \<Rightarrow> string \<Rightarrow> bool" where
  "MatchSimple pattern name =
     (if pattern = '''' then name = pattern
      else if pattern = ''*'' then True
      else deepMatchRune name pattern True)"

definition Match :: "string \<Rightarrow> string \<Rightarrow> bool" where
  "Match pattern name =
     (if pattern = '''' then name = pattern
      else if pattern = ''*'' then True
      else deepMatchRune name pattern False)"

definition Has :: "string \<Rightarrow> bool" where
  "Has pattern = list_ex (\<lambda>c. c = CHR ''*'' \<or> c = CHR ''?'') pattern"

function prefix_loop :: "string \<Rightarrow> string \<Rightarrow> nat \<Rightarrow> bool" where
  "prefix_loop pattern name i =
     (if i < length name \<and> i < length pattern then
        (if pattern ! i = CHR ''*'' then True
         else if pattern ! i = CHR ''?'' then prefix_loop pattern name (Suc i)
         else if pattern ! i \<noteq> name ! i then False
         else prefix_loop pattern name (Suc i))
      else length name \<le> length pattern)"
  by pat_completeness auto
termination
  by (relation "measure (\<lambda>(pattern, name, i). length name - i)") auto

declare prefix_loop.simps [simp del]

definition MatchAsPatternPrefix :: "string \<Rightarrow> string \<Rightarrow> bool" where
  "MatchAsPatternPrefix pattern name = prefix_loop pattern name 0"

section \<open>The reference matcher\<close>

text \<open>
  \<open>'*'\<close> stands for any run of bytes, \<open>'?'\<close> for one byte, any other byte for itself. In the
  simple mode a \<open>'?'\<close> reached when the name is used up accepts.
\<close>

fun wild_ref :: "bool \<Rightarrow> string \<Rightarrow> string \<Rightarrow> bool" where
  "wild_ref simple [] t = (t = [])"
| "wild_ref simple (c # p) [] =
     (if c = CHR ''*'' then wild_ref simple p []
      else if c = CHR ''?'' then simple else False)"
| "wild_ref simple (c # p) (x # t) =
     (if c = CHR ''*'' then wild_ref simple p (x # t) \<or> wild_ref simple (c # p) t
      else if c = CHR ''?'' then wild_ref simple p t
      else c = x \<and> wild_ref simple p t)"


section \<open>The reference matcher's own properties\<close>

lemma ex_le_Suc: "(\<exists>k\<le>Suc n. P k) \<longleftrightarrow> P 0 \<or> (\<exists>k\<le>n. P (Suc k))"
  by (metis Suc_le_mono le0 not0_implies_Suc)

lemma wild_ref_star:
  "wild_ref sm (CHR ''*'' # p) t \<longleftrightarrow> (\<exists>k\<le>length t. wild_ref sm p (drop k t))"
  by (induction t) (simp_all add: ex_le_Suc)

lemma wild_ref_star_mono:
  assumes "wild_ref sm (CHR ''*'' # p) (drop j t)"
  shows "wild_ref sm (CHR ''*'' # p) t"
proof -
  from assms obtain k where "k \<le> length (drop j t)" "wild_ref sm p (drop (j + k) t)"
    by (auto simp: wild_ref_star add.commute)
  then show ?thesis
    by (cases "j \<le> length t") (auto simp: wild_ref_star intro!: exI [of _ "min (j + k) (length t)"])
qed

text \<open>Matching a segment without stars against a name of its length.\<close>

definition seg_match :: "string \<Rightarrow> string \<Rightarrow> bool" where
  "seg_match seg t \<longleftrightarrow> length seg = length t \<and>
     (\<forall>i<length seg. seg ! i = CHR ''?'' \<or> seg ! i = t ! i)"

lemma seg_match_Cons [simp]:
  "seg_match (c # seg) (x # t) \<longleftrightarrow> (c = CHR ''?'' \<or> c = x) \<and> seg_match seg t"
  unfolding seg_match_def by (auto simp: All_less_Suc2)

lemma seg_match_Nil [simp]: "seg_match [] t \<longleftrightarrow> t = []" "seg_match seg [] \<longleftrightarrow> seg = []"
  by (auto simp: seg_match_def)

text \<open>A segment without stars is consumed whole, or (simple mode) runs out of name at a \<open>'?'\<close>.\<close>

lemma wild_ref_seg:
  assumes "CHR ''*'' \<notin> set seg" "wild_ref sm (seg @ rest) t"
  shows "(length seg \<le> length t \<and> wild_ref sm rest (drop (length seg) t)) \<or>
         (sm \<and> length t < length seg \<and> seg ! length t = CHR ''?'' \<and> seg_match (take (length t) seg) t)"
  using assms
proof (induction seg arbitrary: t)
  case Nil
  then show ?case by simp
next
  case (Cons c seg)
  show ?case
  proof (cases t)
    case Nil
    with Cons.prems show ?thesis by (auto split: if_splits)
  next
    case (Cons x t')
    with Cons.prems Cons.IH [of t'] show ?thesis by (auto split: if_splits)
  qed
qed

section \<open>The loops meet the reference\<close>

lemma fixed_loop_iff:
  "fixed_loop str pat n \<longleftrightarrow> (\<forall>i<n. pat ! i = CHR ''?'' \<or> pat ! i = str ! i)"
  by (induction n) (auto simp: less_Suc_eq)

lemma matchFixedSuffix_iff:
  "length pat \<le> length str \<Longrightarrow>
   matchFixedSuffix str pat \<longleftrightarrow> seg_match pat (drop (length str - length pat) str)"
  by (auto simp: matchFixedSuffix_def fixed_loop_iff seg_match_def)

lemma lookahead_loop_iff:
  assumes "p \<le> e"
  shows "lookahead_loop str pat s p e \<longleftrightarrow>
    (\<exists>e'\<ge>e. e' < length pat \<and> e' - p \<le> length str - s \<and> pat ! e' = CHR ''?'' \<and>
       (\<forall>i\<in>{e..<e'}. pat ! i \<noteq> CHR ''*'') \<and>
       matchFixedSuffix (drop s str) (take (e' - p) (drop p pat)))"
  using assms
proof (induction str pat s p e rule: lookahead_loop.induct)
  case (1 str pat s p e)
  let ?P = "\<lambda>e'. e' < length pat \<and> e' - p \<le> length str - s \<and> pat ! e' = CHR ''?'' \<and>
       matchFixedSuffix (drop s str) (take (e' - p) (drop p pat))"
  let ?g = "e < length pat \<and> pat ! e \<noteq> CHR ''*'' \<and> e - p \<le> length str - s"
  let ?h = "pat ! e = CHR ''?'' \<and> matchFixedSuffix (drop s str) (take (e - p) (drop p pat))"
  show ?case
  proof (cases ?g)
    case False
    have "False" if "e' \<ge> e" "?P e'" "\<forall>i\<in>{e..<e'}. pat ! i \<noteq> CHR ''*''" for e'
      using that False by (cases "e' = e") (auto simp: le_less)
    with False show ?thesis by (subst lookahead_loop.simps) auto
  next
    case True
    show ?thesis
    proof (cases ?h)
      case h: True
      have "lookahead_loop str pat s p e"
        using True h by (subst lookahead_loop.simps) simp
      moreover have "e \<le> e \<and> ?P e \<and> (\<forall>i\<in>{e..<e}. pat ! i \<noteq> CHR ''*'')"
        using True h by simp
      ultimately show ?thesis by blast
    next
      case h: False
      have "lookahead_loop str pat s p e = lookahead_loop str pat s p (Suc e)"
        using True h by (subst lookahead_loop.simps) auto
      also have "\<dots> \<longleftrightarrow> (\<exists>e'\<ge>Suc e. ?P e' \<and> (\<forall>i\<in>{Suc e..<e'}. pat ! i \<noteq> CHR ''*''))"
        using 1 True h by auto
      also have "\<dots> \<longleftrightarrow> (\<exists>e'\<ge>e. ?P e' \<and> (\<forall>i\<in>{e..<e'}. pat ! i \<noteq> CHR ''*''))"
      proof
        assume "\<exists>e'\<ge>Suc e. ?P e' \<and> (\<forall>i\<in>{Suc e..<e'}. pat ! i \<noteq> CHR ''*'')"
        with True show "\<exists>e'\<ge>e. ?P e' \<and> (\<forall>i\<in>{e..<e'}. pat ! i \<noteq> CHR ''*'')"
          by (metis Suc_leI Suc_leD atLeastLessThan_iff le_neq_implies_less)
      next
        assume "\<exists>e'\<ge>e. ?P e' \<and> (\<forall>i\<in>{e..<e'}. pat ! i \<noteq> CHR ''*'')"
        then obtain e' where e': "e \<le> e'" "?P e'" "\<forall>i\<in>{e..<e'}. pat ! i \<noteq> CHR ''*''" by blast
        with h have "e \<noteq> e'" by auto
        with e' show "\<exists>e'\<ge>Suc e. ?P e' \<and> (\<forall>i\<in>{Suc e..<e'}. pat ! i \<noteq> CHR ''*'')"
          by (intro exI [of _ e']) auto
      qed
      finally show ?thesis by (simp only: conj_assoc conj_commute conj_left_commute)
    qed
  qed
qed

lemma wild_ref_star_skip: "wild_ref sm p t \<Longrightarrow> wild_ref sm (CHR ''*'' # p) (x # t)"
  by (simp add: wild_ref_star [of sm p t]) (metis drop0 le0)

lemma wild_ref_seg_exhausted:
  assumes "seg_match seg t"
  shows "wild_ref True (seg @ CHR ''?'' # rest) t"
  using assms
proof (induction seg arbitrary: t)
  case (Cons c seg)
  then obtain x t' where t: "t = x # t'" "c = CHR ''?'' \<or> c = x" "seg_match seg t'"
    by (cases t) auto
  then show ?case
    using Cons.IH [of t'] wild_ref_star_skip [of True "seg @ CHR ''?'' # rest" t' x] by auto
qed simp

text \<open>Once the look-ahead has failed, no later split runs out of name at a \<open>'?'\<close> of the segment.\<close>

definition no_lookahead :: "string \<Rightarrow> string \<Rightarrow> nat \<Rightarrow> nat \<Rightarrow> bool" where
  "no_lookahead str pat st mark \<longleftrightarrow>
     (\<forall>m e. mark \<le> m \<and> m \<le> length str \<and> Suc st \<le> e \<and> e < length pat \<and> pat ! e = CHR ''?'' \<and>
        (\<forall>i\<in>{Suc st..<e}. pat ! i \<noteq> CHR ''*'') \<and> e - Suc st = length str - m \<longrightarrow>
        \<not> seg_match (take (e - Suc st) (drop (Suc st) pat)) (drop m str))"

lemma no_lookahead_mono:
  "no_lookahead str pat st mark \<Longrightarrow> mark \<le> mark' \<Longrightarrow> no_lookahead str pat st mark'"
  unfolding no_lookahead_def using order_trans by blast

lemma lookahead_fits:
  assumes "m \<le> length str" "s \<le> m" "e < length pat" "Suc p \<le> e" "e - Suc p = length str - m"
  shows "matchFixedSuffix (drop s str) (take (e - Suc p) (drop (Suc p) pat)) \<longleftrightarrow>
         seg_match (take (e - Suc p) (drop (Suc p) pat)) (drop m str)"
  using assms by (simp add: matchFixedSuffix_iff)

lemma lookahead_False:
  assumes "\<not> lookahead_loop str pat s (Suc p) (Suc p)"
  shows "no_lookahead str pat p s"
  unfolding no_lookahead_def
proof (intro allI impI; elim conjE)
  fix m e
  assume A: "s \<le> m" "m \<le> length str" "Suc p \<le> e" "e < length pat" "pat ! e = CHR ''?''"
    "\<forall>i\<in>{Suc p..<e}. pat ! i \<noteq> CHR ''*''" "e - Suc p = length str - m"
  then have "e - Suc p \<le> length str - s" by linarith
  with A assms have "\<not> matchFixedSuffix (drop s str) (take (e - Suc p) (drop (Suc p) pat))"
    by (auto simp: lookahead_loop_iff)
  then show "\<not> seg_match (take (e - Suc p) (drop (Suc p) pat)) (drop m str)"
    using lookahead_fits [OF A(2,1,4,3,7)] by blast
qed

lemma lookahead_True:
  assumes "lookahead_loop str pat s (Suc p) (Suc p)" "s \<le> length str" "p < length pat"
    "pat ! p = CHR ''*''"
  shows "wild_ref True (drop p pat) (drop s str)"
proof -
  obtain e where e: "Suc p \<le> e" "e < length pat" "e - Suc p \<le> length str - s" "pat ! e = CHR ''?''"
      "matchFixedSuffix (drop s str) (take (e - Suc p) (drop (Suc p) pat))"
    using assms(1) by (auto simp: lookahead_loop_iff)
  define m where "m = length str - (e - Suc p)"
  have m: "s \<le> m" "m \<le> length str" "e - Suc p = length str - m"
    using e assms(2) by (auto simp: m_def)
  have "seg_match (take (e - Suc p) (drop (Suc p) pat)) (drop m str)"
    using lookahead_fits [OF m(2,1) e(2,1) m(3)] e(5) by blast
  then have "wild_ref True (take (e - Suc p) (drop (Suc p) pat) @ CHR ''?'' # drop (Suc e) pat) (drop m str)"
    by (rule wild_ref_seg_exhausted)
  also have "take (e - Suc p) (drop (Suc p) pat) @ CHR ''?'' # drop (Suc e) pat = drop (Suc p) pat"
    using e(1,2,4) Cons_nth_drop_Suc [of e pat] append_take_drop_id [of "e - Suc p" "drop (Suc p) pat"]
    by simp
  finally have "wild_ref True (drop (Suc p) pat) (drop (m - s) (drop s str))"
    using m by simp
  then have "wild_ref True (CHR ''*'' # drop (Suc p) pat) (drop s str)"
    using m by (auto simp: wild_ref_star intro!: exI [of _ "m - s"])
  with assms(3,4) show ?thesis by (metis Cons_nth_drop_Suc)
qed

definition star_inv :: "string \<Rightarrow> string \<Rightarrow> bool \<Rightarrow> nat \<Rightarrow> nat \<Rightarrow> nat option \<Rightarrow> nat \<Rightarrow> bool" where
  "star_inv str pat simple s p star mark = (case star of None \<Rightarrow> True
     | Some st \<Rightarrow> st < p \<and> mark \<le> s \<and> p - Suc st = s - mark \<and>
         (\<forall>i\<in>{Suc st..<p}. pat ! i \<noteq> CHR ''*'') \<and> (simple \<longrightarrow> no_lookahead str pat st mark))"

definition loop_spec :: "string \<Rightarrow> string \<Rightarrow> bool \<Rightarrow> nat \<Rightarrow> nat \<Rightarrow> nat option \<Rightarrow> nat \<Rightarrow> bool" where
  "loop_spec str pat simple s p star mark \<longleftrightarrow> wild_ref simple (drop p pat) (drop s str) \<or>
     (\<exists>st m. star = Some st \<and> mark < m \<and> m \<le> length str \<and>
        wild_ref simple (drop (Suc st) pat) (drop m str))"

text \<open>Committing to a later star loses no match of an earlier one.\<close>

lemma commit_star:
  assumes inv: "star_inv str pat simple s p (Some st) mark" "s \<le> length str" "p < length pat"
      "pat ! p = CHR ''*''"
    and m: "mark < m" "m \<le> length str" "wild_ref simple (drop (Suc st) pat) (drop m str)"
  shows "wild_ref simple (drop p pat) (drop s str)"
proof -
  define seg where "seg = take (p - Suc st) (drop (Suc st) pat)"
  from inv have st: "st < p" "mark \<le> s" "p - Suc st = s - mark"
    and free: "\<forall>i\<in>{Suc st..<p}. pat ! i \<noteq> CHR ''*''"
    and la: "simple \<Longrightarrow> no_lookahead str pat st mark"
    by (auto simp: star_inv_def)
  have len: "length seg = s - mark" using st inv(3) by (simp add: seg_def)
  have nth: "seg ! i = pat ! (Suc st + i)" if "i < length seg" for i
    using that st(1) inv(3) by (simp add: seg_def)
  have "CHR ''*'' \<notin> set seg"
    using free st len by (auto simp: in_set_conv_nth nth)
  moreover have "drop (Suc st) pat = seg @ drop p pat"
    using st(1) append_take_drop_id [of "p - Suc st" "drop (Suc st) pat"] by (simp add: seg_def)
  ultimately consider
      "length seg \<le> length str - m" "wild_ref simple (drop p pat) (drop (length seg) (drop m str))"
    | "simple" "length str - m < length seg" "seg ! (length str - m) = CHR ''?''"
      "seg_match (take (length str - m) seg) (drop m str)"
    using wild_ref_seg [of seg simple "drop p pat" "drop m str"] m(3) by auto
  then show ?thesis
  proof cases
    case 1
    have "wild_ref simple (CHR ''*'' # drop (Suc p) pat) (drop (length seg + m - s) (drop s str))"
      using 1 inv(3,4) m(1) st len Cons_nth_drop_Suc [of p pat] by (simp add: add.commute)
    then show ?thesis
      using wild_ref_star_mono inv(3,4) by (metis Cons_nth_drop_Suc)
  next
    case 2
    let ?e = "Suc st + (length str - m)"
    have "take (?e - Suc st) (drop (Suc st) pat) = take (length str - m) seg"
      using 2(2) len st(3) by (simp add: seg_def min_def)
    moreover have "pat ! ?e = CHR ''?''" using 2(2,3) nth by simp
    moreover have "?e < p" using 2(2) len st by linarith
    ultimately have False
      using la [OF 2(1)] 2(4) m(1,2) inv(3) free unfolding no_lookahead_def
      by (elim allE [of _ m] allE [of _ ?e]) (auto dest!: spec [of _ m] spec [of _ ?e])
    then show ?thesis ..
  qed
qed


lemma wild_ref_backtrack:
  assumes "s \<le> length str" "p \<le> length pat" "s < length str \<or> p < length pat"
    "\<not> (p < length pat \<and> pat ! p = CHR ''*'')"
    "\<not> (p < length pat \<and> pat ! p = CHR ''?'' \<and> simple \<and> s = length str)"
    "\<not> (p < length pat \<and> s < length str \<and> (pat ! p = CHR ''?'' \<or> pat ! p = str ! s))"
  shows "\<not> wild_ref simple (drop p pat) (drop s str)"
proof (cases "p < length pat")
  case True
  then show ?thesis
    using assms Cons_nth_drop_Suc [of p pat, symmetric] Cons_nth_drop_Suc [of s str, symmetric]
    by (cases "s < length str") auto
next
  case False
  with assms show ?thesis by auto
qed

lemma loop_spec_star:
  assumes "s \<le> length str"
  shows "loop_spec str pat simple s (Suc p) (Some p) s \<longleftrightarrow>
         wild_ref simple (CHR ''*'' # drop (Suc p) pat) (drop s str)"
proof -
  let ?W = "\<lambda>m. wild_ref simple (drop (Suc p) pat) (drop m str)"
  have "loop_spec str pat simple s (Suc p) (Some p) s \<longleftrightarrow> (\<exists>m\<ge>s. m \<le> length str \<and> ?W m)"
    using assms by (auto simp: loop_spec_def le_less)
  also have "\<dots> \<longleftrightarrow> (\<exists>k\<le>length str - s. ?W (k + s))"
    using assms by (metis Nat.le_diff_conv2 add.commute le_add2 le_add_diff_inverse2)
  finally show ?thesis by (simp add: wild_ref_star)
qed

lemma match_loop_correct:
  assumes "s \<le> length str" "p \<le> length pat" "star_inv str pat simple s p star mark"
    "star \<noteq> None \<longrightarrow> mark \<le> length str"
  shows "match_loop str pat simple s p star mark = Some (loop_spec str pat simple s p star mark)"
proof -
  let ?r = "measures [\<lambda>(s, p, star, mark). case star of None \<Rightarrow> Suc (length pat) | Some st \<Rightarrow> length pat - st,
       \<lambda>(s, p, star, mark). length str - mark, \<lambda>(s, p, star, mark). length pat - p]
       :: ((nat \<times> nat \<times> nat option \<times> nat) \<times> (nat \<times> nat \<times> nat option \<times> nat)) set"
  have "wf ?r" by simp
  then show ?thesis using assms
  proof (induction "(s, p, star, mark)" arbitrary: s p star mark rule: wf_induct_rule)
    case less
    note IH = less.hyps and s = less.prems(1) and p = less.prems(2) and inv = less.prems(3)
      and mark = less.prems(4)
    let ?star = "p < length pat \<and> pat ! p = CHR ''*''"
    let ?out = "p < length pat \<and> pat ! p = CHR ''?'' \<and> simple \<and> s = length str"
    let ?adv = "p < length pat \<and> s < length str \<and> (pat ! p = CHR ''?'' \<or> pat ! p = str ! s)"
    show ?case
    proof (cases "s < length str \<or> p < length pat")
      case False
      with s p show ?thesis by (subst match_loop.simps) (simp add: loop_spec_def)
    next
      case go: True
      consider (star) ?star | (out) "\<not> ?star" ?out | (adv) "\<not> ?star" "\<not> ?out" ?adv
        | (stuck) "\<not> ?star" "\<not> ?out" "\<not> ?adv" by blast
      then show ?thesis
      proof cases
        case out
        have "wild_ref simple (drop p pat) (drop s str)"
          using out Cons_nth_drop_Suc [of p pat, symmetric] by auto
        with go out show ?thesis by (subst match_loop.simps) (simp add: loop_spec_def)
      next
        case adv
        have "match_loop str pat simple s p star mark =
              match_loop str pat simple (Suc s) (Suc p) star mark"
          using go adv by (subst match_loop.simps) auto
        also have "\<dots> = Some (loop_spec str pat simple (Suc s) (Suc p) star mark)"
        proof (rule IH)
          show "star_inv str pat simple (Suc s) (Suc p) star mark"
            using inv adv by (auto simp: star_inv_def less_Suc_eq Suc_diff_le split: option.splits)
        qed (use s p adv mark in auto)
        also have "loop_spec str pat simple (Suc s) (Suc p) star mark =
                   loop_spec str pat simple s p star mark"
          using adv Cons_nth_drop_Suc [of p pat, symmetric] Cons_nth_drop_Suc [of s str, symmetric]
          by (auto simp: loop_spec_def)
        finally show ?thesis .
      next
        case stuck
        have no: "\<not> wild_ref simple (drop p pat) (drop s str)"
          using wild_ref_backtrack [OF s p go] stuck by blast
        show ?thesis
        proof (cases star)
          case None
          with go stuck no show ?thesis by (subst match_loop.simps) (auto simp: loop_spec_def)
        next
          case (Some st)
          show ?thesis
          proof (cases "Suc mark > length str")
            case True
            with go stuck no Some show ?thesis
              by (subst match_loop.simps) (auto simp: loop_spec_def)
          next
            case False
            have "match_loop str pat simple s p star mark =
                  match_loop str pat simple (Suc mark) (Suc st) star (Suc mark)"
              using go stuck Some False by (subst match_loop.simps) auto
            also have "\<dots> = Some (loop_spec str pat simple (Suc mark) (Suc st) star (Suc mark))"
            proof (rule IH)
              show "star_inv str pat simple (Suc mark) (Suc st) star (Suc mark)"
                using inv Some no_lookahead_mono [of str pat st mark "Suc mark"]
                by (auto simp: star_inv_def)
            qed (use inv p Some False in \<open>auto simp: star_inv_def\<close>)
            also have "loop_spec str pat simple (Suc mark) (Suc st) star (Suc mark) =
                       loop_spec str pat simple s p star mark"
              using no Some False by (auto simp: loop_spec_def Suc_le_eq dest: Suc_lessD)
                (metis Suc_lessI less_eq_Suc_le not_less)
            finally show ?thesis .
          qed
        qed
      next
        case star
        have split: "loop_spec str pat simple s p star mark =
            wild_ref simple (CHR ''*'' # drop (Suc p) pat) (drop s str)"
          using star commit_star [of str pat simple s p _ mark] inv s
          by (metis Cons_nth_drop_Suc loop_spec_def)
        show ?thesis
        proof (cases "Suc p = length pat")
          case True
          have "wild_ref simple (CHR ''*'' # drop (Suc p) pat) (drop s str)"
            using True by (auto simp: wild_ref_star intro!: exI [of _ "length str - s"])
          with go star True split show ?thesis by (subst match_loop.simps) simp
        next
          case notlast: False
          show ?thesis
          proof (cases "simple \<and> lookahead_loop str pat s (Suc p) (Suc p)")
            case True
            then have "wild_ref simple (drop p pat) (drop s str)"
              using lookahead_True [of str pat s p] s star by auto
            with go star True notlast show ?thesis
              by (subst match_loop.simps) (simp add: loop_spec_def)
          next
            case False
            have "match_loop str pat simple s p star mark =
                  match_loop str pat simple s (Suc p) (Some p) s"
              using go star notlast False by (subst match_loop.simps) auto
            also have "\<dots> = Some (loop_spec str pat simple s (Suc p) (Some p) s)"
            proof (rule IH)
              show "star_inv str pat simple s (Suc p) (Some p) s"
                using False lookahead_False [of str pat s p] by (auto simp: star_inv_def)
            qed (use s p star inv in \<open>auto simp: star_inv_def split: option.splits\<close>)
            also have "loop_spec str pat simple s (Suc p) (Some p) s =
                       wild_ref simple (CHR ''*'' # drop (Suc p) pat) (drop s str)"
              using s by (rule loop_spec_star)
            finally show ?thesis using split by simp
          qed
        qed
      qed
    qed
  qed
qed


lemma deepMatchRune_eq:
  "match_loop str pat simple 0 0 None 0 = Some (wild_ref simple pat str)"
  "deepMatchRune str pat simple = wild_ref simple pat str"
  using match_loop_correct [of 0 str 0 pat simple None 0]
  by (simp_all add: star_inv_def loop_spec_def deepMatchRune_def)

lemma wild_ref_star_only: "wild_ref simple ''*'' t"
  by (auto simp: wild_ref_star)

lemma Match_eq: "Match pattern name = wild_ref False pattern name"
  by (auto simp: Match_def deepMatchRune_eq wild_ref_star_only)

lemma MatchSimple_eq: "MatchSimple pattern name = wild_ref True pattern name"
  by (auto simp: MatchSimple_def deepMatchRune_eq wild_ref_star_only)

text \<open>Evaluation uses the reference matcher.\<close>

declare Match_eq [code] MatchSimple_eq [code]

lemma wild_ref_simple: "wild_ref False p t \<Longrightarrow> wild_ref True p t"
  by (induction "False" p t rule: wild_ref.induct) (auto split: if_splits)

lemma wild_ref_exact: "\<not> Has p \<Longrightarrow> wild_ref simple p t \<longleftrightarrow> p = t"
  by (induction simple p t rule: wild_ref.induct) (auto simp: Has_def)

lemma wild_ref_mem:
  "wild_ref False p t \<Longrightarrow> c \<in> set p \<Longrightarrow> c \<noteq> CHR ''*'' \<Longrightarrow> c \<noteq> CHR ''?'' \<Longrightarrow> c \<in> set t"
  by (induction "False" p t rule: wild_ref.induct) (auto split: if_splits)

text \<open>Every pattern matches some name.\<close>
lemma wild_ref_inhabited: "\<exists>e. wild_ref False p e"
proof (induction p)
  case (Cons c p)
  then obtain e where e: "wild_ref False p e" by blast
  show ?case
  proof (cases "c = CHR ''*''")
    case True
    have "wild_ref False (CHR ''*'' # p) e" using e wild_ref_star by fastforce
    with True show ?thesis by blast
  next
    case False
    with e have "wild_ref False (c # p) (c # e)" by simp
    then show ?thesis by blast
  qed
qed (auto intro: exI [of _ "[]"])

lemma prefix_loop_iff:
  assumes "i \<le> length name" "i \<le> length pat"
  shows "prefix_loop pat name i \<longleftrightarrow> (\<exists>e. wild_ref False (drop i pat) (drop i name @ e))"
  using assms
proof (induction pat name i rule: prefix_loop.induct)
  case (1 pat name i)
  show ?case
  proof (cases "i < length name \<and> i < length pat")
    case True
    have P: "drop i pat = pat ! i # drop (Suc i) pat" "drop i name = name ! i # drop (Suc i) name"
      using True by (simp_all add: Cons_nth_drop_Suc)
    show ?thesis
    proof (cases "pat ! i = CHR ''*''")
      case star: True
      obtain e where "wild_ref False (drop (Suc i) pat) e" using wild_ref_inhabited by blast
      then have "wild_ref False (CHR ''*'' # drop (Suc i) pat) (drop i name @ e)"
        unfolding wild_ref_star by (intro exI [of _ "length (drop i name)"]) simp
      then show ?thesis
        using True star P(1) by (subst prefix_loop.simps) auto
    next
      case False
      with True 1 P show ?thesis by (subst prefix_loop.simps) auto
    qed
  next
    case False
    then consider "i = length name" | "i < length name" "i = length pat" using "1.prems" by linarith
    then show ?thesis
    proof cases
      case 1
      then show ?thesis
        using \<open>i \<le> length pat\<close> wild_ref_inhabited by (subst prefix_loop.simps) auto
    next
      case 2
      then show ?thesis by (subst prefix_loop.simps) auto
    qed
  qed
qed


section \<open>The interface the policy engine relies on\<close>

text \<open>
  What the callers (actions, resources, principals, CORS origins) use of a matcher: a pattern
  without wildcards matches itself only, and \<open>*\<close> matches everything.
\<close>

locale pattern_matcher =
  fixes mtch :: "string \<Rightarrow> string \<Rightarrow> bool"
  assumes exact: "\<not> Has p \<Longrightarrow> mtch p n \<longleftrightarrow> p = n"
    and star: "mtch ''*'' n"
begin

lemma any_exact: "(\<And>p. p \<in> set ps \<Longrightarrow> \<not> Has p) \<Longrightarrow> (\<exists>p\<in>set ps. mtch p n) \<longleftrightarrow> n \<in> set ps"
  by (auto simp: exact)

lemma any_star: "''*'' \<in> set ps \<Longrightarrow> \<exists>p\<in>set ps. mtch p n"
  using star by (intro bexI)

lemma exact_names: "\<not> Has p \<Longrightarrow> (\<exists>n\<in>set ns. mtch p n) \<longleftrightarrow> p \<in> set ns"
  by (auto simp: exact)

lemma refl_exact: "\<not> Has p \<Longrightarrow> mtch p p"
  by (simp add: exact)

end

lemma Match_exact: "\<not> Has p \<Longrightarrow> Match p n \<longleftrightarrow> p = n"
  by (simp add: Match_eq wild_ref_exact)

interpretation wm: pattern_matcher Match
  by unfold_locales (rule Match_exact, assumption, simp add: Match_eq wild_ref_star_only)

interpretation ws: pattern_matcher MatchSimple
  by unfold_locales (simp_all add: MatchSimple_eq wild_ref_exact wild_ref_star_only)

lemma Match_mem:
  "Match p n \<Longrightarrow> c \<in> set p \<Longrightarrow> c \<noteq> CHR ''*'' \<Longrightarrow> c \<noteq> CHR ''?'' \<Longrightarrow> c \<in> set n"
  by (simp add: Match_eq wild_ref_mem)

section \<open>Properties\<close>

text \<open>
  C8: the backtracking loop behind \<open>Match\<close> always returns, and \<open>Match\<close> decides the reference
  matching relation: keeping a single backtracking point loses no match.
\<close>

theorem Match_returns_reference:
  "match_loop name pattern False 0 0 None 0 = Some (wild_ref False pattern name) \<and>
   Match pattern name = wild_ref False pattern name"
  by (simp add: deepMatchRune_eq Match_eq)

text \<open>
  The loop behind \<open>MatchSimple\<close>, with its look-ahead, always returns, and it decides the
  reference relation in which a \<open>'?'\<close> reached with the name used up accepts.
\<close>

theorem MatchSimple_returns_reference:
  "match_loop name pattern True 0 0 None 0 = Some (wild_ref True pattern name) \<and>
   MatchSimple pattern name = wild_ref True pattern name"
  by (simp add: deepMatchRune_eq MatchSimple_eq)

text \<open>
  C13: \<open>MatchAsPatternPrefix\<close> accepts exactly the texts that can be extended to a name the
  pattern matches.
\<close>

theorem MatchAsPatternPrefix_exact:
  "MatchAsPatternPrefix pattern prefix = (\<exists>e. Match pattern (prefix @ e))"
  by (simp add: MatchAsPatternPrefix_def prefix_loop_iff Match_eq)

end
