(* ===== verification/CondFuncs.thy ===== *)
theory CondFuncs
  imports CondValues Wildcard
begin

text \<open>
  The condition functions of \<open>policy/condition\<close>: the structs of \<open>stringfunc.go\<close>, \<open>nullfunc.go\<close>,
  \<open>boolfunc.go\<close>, \<open>numericfunc.go\<close>, \<open>datefunc.go\<close> and \<open>ipaddrfunc.go\<close> are the constructors of one
  datatype, and the methods of the interface \<open>Function\<close> (\<open>func.go\<close>) are functions on it. The
  constructors \<open>new...Func\<close> are modelled with their validation.
\<close>

section \<open>The structs\<close>

datatype cond_op = CondEquals | CondNotEquals | CondGreaterThan | CondGreaterThanEquals
  | CondLessThan | CondLessThanEquals

record string_func =
  sf_n :: cname
  sf_k :: key
  sf_values :: "string list"
  sf_ignoreCase :: bool
  sf_base64 :: bool
  sf_negate :: bool

record null_func =
  nf_k :: key
  nf_value :: bool

record bool_func =
  bf_k :: key
  bf_value :: string

record numeric_func =
  mf_n :: cname
  mf_k :: key
  mf_value :: int
  mf_c :: cond_op
  mf_ifExists :: bool

record date_func =
  df_n :: cname
  df_k :: key
  df_value :: go_time
  df_c :: cond_op

record ipaddr_func =
  if_n :: cname
  if_k :: key
  if_values :: "ipnet list"
  if_negate :: bool

datatype cond_function = StringFunc string_func | StringLikeFunc string_func
  | NullFunc null_func | BooleanFunc bool_func | NumericFunc numeric_func
  | DateFunc date_func | IPAddrFunc ipaddr_func

section \<open>Substitution of policy variables\<close>

text \<open>
  The closure of \<open>substitute\<close>: for every common key whose value is set, its \<open>${...}\<close> is replaced.
  \<open>rvalues[0]\<close> of an empty slice panics.
\<close>

fun subst_keys :: "cond_values \<Rightarrow> string list \<Rightarrow> string \<Rightarrow> string may_panic" where
  "subst_keys values [] v = Some v"
| "subst_keys values (key # ks) v =
     (case values (KeyName_Name key) of
        None \<Rightarrow> subst_keys values ks v
      | Some [] \<Rightarrow> None
      | Some (r # _) \<Rightarrow>
          subst_keys values ks (if r \<noteq> '''' then replace_all (KeyName_VarName key) r v else v))"

definition substitute :: "cond_values \<Rightarrow> string \<Rightarrow> string may_panic" where
  "substitute values v = subst_keys values CommonKeys v"

text \<open>\<open>f.values.ApplyFunc(substitute(values))\<close>: panics when the function does on some element.\<close>

definition apply_substitute :: "ext_lib \<Rightarrow> cond_values \<Rightarrow> string list \<Rightarrow> string list may_panic" where
  "apply_substitute L values vs =
     (if list_all (\<lambda>v. substitute values v \<noteq> None) vs
      then Some (ss_apply L (\<lambda>v. case substitute values v of Some w \<Rightarrow> w | None \<Rightarrow> v) vs)
      else None)"

section \<open>\<open>evaluate\<close>\<close>

definition stringFunc_eval :: "ext_lib \<Rightarrow> string_func \<Rightarrow> cond_values \<Rightarrow> bool may_panic" where
  "stringFunc_eval L f values =
     map_option (\<lambda>fvalues0.
       let rvalues0 = ss_create L (getValuesByKey values (sf_k f));
           rvalues = (if sf_ignoreCase f then ss_apply L (to_lower L) rvalues0 else rvalues0);
           fvalues = (if sf_ignoreCase f then ss_apply L (to_lower L) fvalues0 else fvalues0);
           ivalues = ss_inter L rvalues fvalues
       in if cn_qualifier (sf_n f) = forAllValues
          then ss_isempty L rvalues \<or> ss_equals L rvalues ivalues
          else \<not> ss_isempty L ivalues)
     (apply_substitute L values (sf_values f))"

text \<open>The loop of \<open>stringLikeFunc.eval\<close> over the values of the request.\<close>

fun like_loop :: "ext_lib \<Rightarrow> bool \<Rightarrow> string list \<Rightarrow> string list \<Rightarrow> bool" where
  "like_loop L forall fvalues [] = forall"
| "like_loop L forall fvalues (v # vs) =
     (let matched = (\<not> ss_isempty L (ss_funcmatch L Match fvalues v))
      in if forall then (if \<not> matched then False else like_loop L forall fvalues vs)
         else if matched then True else like_loop L forall fvalues vs)"

definition stringLikeFunc_eval :: "ext_lib \<Rightarrow> string_func \<Rightarrow> cond_values \<Rightarrow> bool may_panic" where
  "stringLikeFunc_eval L f values =
     map_option (\<lambda>fvalues. like_loop L (cn_qualifier (sf_n f) = forAllValues) fvalues
         (getValuesByKey values (sf_k f)))
       (apply_substitute L values (sf_values f))"

definition nullFunc_evaluate :: "null_func \<Rightarrow> cond_values \<Rightarrow> bool" where
  "nullFunc_evaluate f values =
     (let rvalues = getValuesByKey values (nf_k f)
      in if nf_value f then length rvalues = 0 else length rvalues \<noteq> 0)"

definition booleanFunc_evaluate :: "bool_func \<Rightarrow> cond_values \<Rightarrow> bool" where
  "booleanFunc_evaluate f values =
     (case getValuesByKey values (bf_k f) of [] \<Rightarrow> False | r # _ \<Rightarrow> bf_value f = r)"

definition numericFunc_evaluate :: "numeric_func \<Rightarrow> cond_values \<Rightarrow> bool" where
  "numericFunc_evaluate f values =
     (case getValuesByKey values (mf_k f) of
        [] \<Rightarrow> mf_ifExists f
      | r # _ \<Rightarrow>
          (case atoi r of
             None \<Rightarrow> False
           | Some rv \<Rightarrow>
               (case mf_c f of
                  CondEquals \<Rightarrow> rv = mf_value f
                | CondNotEquals \<Rightarrow> rv \<noteq> mf_value f
                | CondGreaterThan \<Rightarrow> rv > mf_value f
                | CondGreaterThanEquals \<Rightarrow> rv \<ge> mf_value f
                | CondLessThan \<Rightarrow> rv < mf_value f
                | CondLessThanEquals \<Rightarrow> rv \<le> mf_value f)))"

definition dateFunc_evaluate :: "date_func \<Rightarrow> cond_values \<Rightarrow> bool" where
  "dateFunc_evaluate f values =
     (case getValuesByKey values (df_k f) of
        [] \<Rightarrow> False
      | r # _ \<Rightarrow>
          (case parse_rfc3339 r of
             None \<Rightarrow> False
           | Some t \<Rightarrow>
               (case df_c f of
                  CondEquals \<Rightarrow> time_equal (df_value f) t
                | CondNotEquals \<Rightarrow> \<not> time_equal (df_value f) t
                | CondGreaterThan \<Rightarrow> time_after t (df_value f)
                | CondGreaterThanEquals \<Rightarrow> time_after t (df_value f) \<or> time_equal t (df_value f)
                | CondLessThan \<Rightarrow> time_before t (df_value f)
                | CondLessThanEquals \<Rightarrow> time_before t (df_value f) \<or> time_equal t (df_value f))))"

definition ipaddrFunc_eval :: "ipaddr_func \<Rightarrow> cond_values \<Rightarrow> bool" where
  "ipaddrFunc_eval f values =
     (let parsed = map ParseIP (getValuesByKey values (if_k f))
      in if list_ex (\<lambda>p. p = None) parsed then False
         else list_ex (\<lambda>p. case p of None \<Rightarrow> False
                | Some a \<Rightarrow> list_ex (\<lambda>n. IPNet_Contains n a) (if_values f)) parsed)"

text \<open>The method \<open>evaluate\<close> of the interface, with the negation of the \<open>Not\<close> conditions.\<close>

fun evaluate :: "ext_lib \<Rightarrow> cond_function \<Rightarrow> cond_values \<Rightarrow> bool may_panic" where
  "evaluate L (StringFunc f) values =
     map_option (\<lambda>result. if sf_negate f then \<not> result else result) (stringFunc_eval L f values)"
| "evaluate L (StringLikeFunc f) values =
     map_option (\<lambda>result. if sf_negate f then \<not> result else result) (stringLikeFunc_eval L f values)"
| "evaluate L (NullFunc f) values = Some (nullFunc_evaluate f values)"
| "evaluate L (BooleanFunc f) values = Some (booleanFunc_evaluate f values)"
| "evaluate L (NumericFunc f) values = Some (numericFunc_evaluate f values)"
| "evaluate L (DateFunc f) values = Some (dateFunc_evaluate f values)"
| "evaluate L (IPAddrFunc f) values =
     Some (let result = ipaddrFunc_eval f values in if if_negate f then \<not> result else result)"

fun fn_key :: "cond_function \<Rightarrow> key" where
  "fn_key (StringFunc f) = sf_k f"
| "fn_key (StringLikeFunc f) = sf_k f"
| "fn_key (NullFunc f) = nf_k f"
| "fn_key (BooleanFunc f) = bf_k f"
| "fn_key (NumericFunc f) = mf_k f"
| "fn_key (DateFunc f) = df_k f"
| "fn_key (IPAddrFunc f) = if_k f"

fun fn_name :: "cond_function \<Rightarrow> cname" where
  "fn_name (StringFunc f) = sf_n f"
| "fn_name (StringLikeFunc f) = sf_n f"
| "fn_name (NullFunc f) = plain_name nullName"
| "fn_name (BooleanFunc f) = plain_name booleanName"
| "fn_name (NumericFunc f) = mf_n f"
| "fn_name (DateFunc f) = df_n f"
| "fn_name (IPAddrFunc f) = if_n f"

section \<open>Lists of functions (\<open>func.go\<close>)\<close>

type_synonym fn_list = "cond_function list"

definition Functions_Evaluate :: "ext_lib \<Rightarrow> fn_list \<Rightarrow> cond_values \<Rightarrow> bool may_panic" where
  "Functions_Evaluate L fs values = all_m (\<lambda>f. evaluate L f values) fs"

definition Functions_Keys :: "fn_list \<Rightarrow> keyset" where
  "Functions_Keys fs = foldl (\<lambda>ks f. KeySet_Add (fn_key f) ks) (NewKeySet []) fs"

definition NewFunctions :: "cond_function list \<Rightarrow> fn_list" where
  "NewFunctions fs = fs"

section \<open>Constructors\<close>

text \<open>The loop over a value set of \<open>valuesToStringSlice\<close>.\<close>

fun valuesToStringSlice :: "string \<Rightarrow> valueset \<Rightarrow> cond_error + string list" where
  "valuesToStringSlice n [] = Inr []"
| "valuesToStringSlice n (v # vs) =
     (case GetString v of
        None \<Rightarrow> Inl (ErrNotString n)
      | Some s \<Rightarrow>
          (case valuesToStringSlice n vs of Inl e \<Rightarrow> Inl e | Inr ss \<Rightarrow> Inr (s # ss)))"

definition validateStringValue :: "ext_lib \<Rightarrow> string \<Rightarrow> key \<Rightarrow> string \<Rightarrow> cond_error option" where
  "validateStringValue L n k s =
     and_then
       (if Key_Is k S3XAmzCopySource then
          (let (bucket, object) = path2BucketAndObject s
           in and_then (fail_if (object = '''') (ErrInvalidValue s S3XAmzCopySource n))
                (fail_if (\<not> valid_bucket_name L bucket) (ErrInvalidBucket bucket)))
        else None)
       (if n = stringLike \<or> n = stringNotLike then None
        else if Key_Is k S3XAmzServerSideEncryptionCustomerAlgorithm then
          fail_if (s \<noteq> ''AES256'') (ErrInvalidValue s S3XAmzServerSideEncryptionCustomerAlgorithm n)
        else if Key_Is k S3XAmzServerSideEncryption then
          fail_if (s \<noteq> ''AES256'' \<and> s \<noteq> ''aws:kms'') (ErrInvalidValue s S3XAmzServerSideEncryption n)
        else if Key_Is k S3XAmzMetadataDirective then
          fail_if (s \<noteq> ''COPY'' \<and> s \<noteq> ''REPLACE'') (ErrInvalidValue s S3XAmzMetadataDirective n)
        else if Key_Is k S3XAmzContentSha256 then
          fail_if (s = '''') (ErrInvalidValue s S3XAmzContentSha256 n)
        else None)"

definition validateStringValues :: "ext_lib \<Rightarrow> string \<Rightarrow> key \<Rightarrow> string list \<Rightarrow> cond_error option" where
  "validateStringValues L n k values = first_err (validateStringValue L n k) (ss_toslice L values)"

definition newStringFunc ::
  "ext_lib \<Rightarrow> string \<Rightarrow> key \<Rightarrow> valueset \<Rightarrow> string \<Rightarrow> bool \<Rightarrow> bool \<Rightarrow> bool \<Rightarrow> cond_error + string_func" where
  "newStringFunc L n k values qualifier ignoreCase b64 negate =
     (case valuesToStringSlice n values of
        Inl e \<Rightarrow> Inl e
      | Inr valueStrings \<Rightarrow>
          (let sset = ss_create L valueStrings
           in case validateStringValues L n k sset of
                Some e \<Rightarrow> Inl e
              | None \<Rightarrow>
                  (if qualifier \<noteq> '''' \<and> qualifier \<notin> set Qualifiers then Inl (ErrQualifier qualifier)
                   else Inr \<lparr>sf_n = \<lparr>cn_qualifier = qualifier, cn_name = n\<rparr>, sf_k = k,
                     sf_values = sset, sf_ignoreCase = ignoreCase, sf_base64 = b64,
                     sf_negate = negate\<rparr>)))"

definition map_fn :: "('a \<Rightarrow> cond_function) \<Rightarrow> cond_error + 'a \<Rightarrow> cond_error + cond_function" where
  "map_fn c r = (case r of Inl e \<Rightarrow> Inl e | Inr f \<Rightarrow> Inr (c f))"

type_synonym fn_constructor = "key \<Rightarrow> valueset \<Rightarrow> string \<Rightarrow> cond_error + cond_function"

definition newStringEqualsFunc :: "ext_lib \<Rightarrow> fn_constructor" where
  "newStringEqualsFunc L k values q =
     map_fn StringFunc (newStringFunc L stringEquals k values q False False False)"

definition newStringNotEqualsFunc :: "ext_lib \<Rightarrow> fn_constructor" where
  "newStringNotEqualsFunc L k values q =
     map_fn StringFunc (newStringFunc L stringNotEquals k values q False False True)"

definition newStringEqualsIgnoreCaseFunc :: "ext_lib \<Rightarrow> fn_constructor" where
  "newStringEqualsIgnoreCaseFunc L k values q =
     map_fn StringFunc (newStringFunc L stringEqualsIgnoreCase k values q True False False)"

definition newStringNotEqualsIgnoreCaseFunc :: "ext_lib \<Rightarrow> fn_constructor" where
  "newStringNotEqualsIgnoreCaseFunc L k values q =
     map_fn StringFunc (newStringFunc L stringNotEqualsIgnoreCase k values q True False True)"

definition newStringLikeFunc :: "ext_lib \<Rightarrow> fn_constructor" where
  "newStringLikeFunc L k values q =
     map_fn StringLikeFunc (newStringFunc L stringLike k values q False False False)"

definition newStringNotLikeFunc :: "ext_lib \<Rightarrow> fn_constructor" where
  "newStringNotLikeFunc L k values q =
     map_fn StringLikeFunc (newStringFunc L stringNotLike k values q False False True)"

text \<open>The loop of \<open>NewBinaryEqualsFunc\<close> over its arguments.\<close>

fun binary_values :: "valueset \<Rightarrow> string list \<Rightarrow> cond_error + valueset" where
  "binary_values vset [] = Inr vset"
| "binary_values vset (v # vs) =
     (case b64_decode v of
        None \<Rightarrow> Inl (ErrBase64 v)
      | Some data \<Rightarrow> binary_values (ValueSet_Add vset (NewStringValue data)) vs)"

definition NewBinaryEqualsFunc :: "ext_lib \<Rightarrow> string \<Rightarrow> key \<Rightarrow> string list \<Rightarrow> cond_error + cond_function" where
  "NewBinaryEqualsFunc L q k values =
     (case binary_values (NewValueSet []) values of
        Inl e \<Rightarrow> Inl e
      | Inr vset \<Rightarrow> map_fn StringFunc (newStringFunc L binaryEquals k vset q False True False))"

definition newBinaryEqualsFunc :: "ext_lib \<Rightarrow> fn_constructor" where
  "newBinaryEqualsFunc L k values q =
     (case valuesToStringSlice binaryEquals values of
        Inl e \<Rightarrow> Inl e
      | Inr valueStrings \<Rightarrow> NewBinaryEqualsFunc L q k valueStrings)"

text \<open>The exported constructors take plain strings.\<close>

definition string_vset :: "string list \<Rightarrow> valueset" where
  "string_vset values = foldl (\<lambda>vset v. ValueSet_Add vset (NewStringValue v)) (NewValueSet []) values"

definition NewStringEqualsFunc :: "ext_lib \<Rightarrow> string \<Rightarrow> key \<Rightarrow> string list \<Rightarrow> cond_error + cond_function" where
  "NewStringEqualsFunc L q k values =
     map_fn StringFunc (newStringFunc L stringEquals k (string_vset values) q False False False)"

definition NewStringNotEqualsFunc :: "ext_lib \<Rightarrow> string \<Rightarrow> key \<Rightarrow> string list \<Rightarrow> cond_error + cond_function" where
  "NewStringNotEqualsFunc L q k values =
     map_fn StringFunc (newStringFunc L stringNotEquals k (string_vset values) q False False True)"

definition NewStringEqualsIgnoreCaseFunc ::
  "ext_lib \<Rightarrow> string \<Rightarrow> key \<Rightarrow> string list \<Rightarrow> cond_error + cond_function" where
  "NewStringEqualsIgnoreCaseFunc L q k values =
     map_fn StringFunc
       (newStringFunc L stringEqualsIgnoreCase k (string_vset values) q True False False)"

definition NewStringNotEqualsIgnoreCaseFunc ::
  "ext_lib \<Rightarrow> string \<Rightarrow> key \<Rightarrow> string list \<Rightarrow> cond_error + cond_function" where
  "NewStringNotEqualsIgnoreCaseFunc L q k values =
     map_fn StringFunc
       (newStringFunc L stringNotEqualsIgnoreCase k (string_vset values) q True False True)"

definition NewStringLikeFunc :: "ext_lib \<Rightarrow> string \<Rightarrow> key \<Rightarrow> string list \<Rightarrow> cond_error + cond_function" where
  "NewStringLikeFunc L q k values = newStringLikeFunc L k (string_vset values) q"

definition NewStringNotLikeFunc :: "ext_lib \<Rightarrow> string \<Rightarrow> key \<Rightarrow> string list \<Rightarrow> cond_error + cond_function" where
  "NewStringNotLikeFunc L q k values = newStringNotLikeFunc L k (string_vset values) q"

definition newNullFunc :: "fn_constructor" where
  "newNullFunc k values q =
     (case values of
        [VBool b] \<Rightarrow> Inr (NullFunc \<lparr>nf_k = k, nf_value = b\<rparr>)
      | [VString s] \<Rightarrow>
          (case parse_bool s of
             None \<Rightarrow> Inl (ErrNotBool nullName)
           | Some b \<Rightarrow> Inr (NullFunc \<lparr>nf_k = k, nf_value = b\<rparr>))
      | [_] \<Rightarrow> Inl (ErrNotBool nullName)
      | _ \<Rightarrow> Inl (ErrOneValue nullName))"

definition NewNullFunc :: "key \<Rightarrow> bool \<Rightarrow> cond_error + cond_function" where
  "NewNullFunc k b = newNullFunc k (NewValueSet [NewBoolValue b]) ''''"

definition newBooleanFunc :: "fn_constructor" where
  "newBooleanFunc k values q =
     (if \<not> Key_Is k AWSSecureTransport then Inl (ErrKeyNotAllowed booleanName)
      else (case values of
         [v] \<Rightarrow>
           (case v of
              VBool _ \<Rightarrow> Inr (BooleanFunc \<lparr>bf_k = k, bf_value = Value_String v\<rparr>)
            | VString s \<Rightarrow>
                (case parse_bool s of
                   None \<Rightarrow> Inl (ErrNotBool booleanName)
                 | Some _ \<Rightarrow> Inr (BooleanFunc \<lparr>bf_k = k, bf_value = Value_String v\<rparr>))
            | _ \<Rightarrow> Inl (ErrNotBool booleanName))
       | _ \<Rightarrow> Inl (ErrOneValue booleanName)))"

definition NewBoolFunc :: "key \<Rightarrow> bool \<Rightarrow> cond_error + cond_function" where
  "NewBoolFunc k b = newBooleanFunc k (NewValueSet [NewBoolValue b]) ''''"

definition valueToInt :: "string \<Rightarrow> valueset \<Rightarrow> cond_error + int" where
  "valueToInt n values =
     (case values of
        [VInt i] \<Rightarrow> Inr i
      | [VString s] \<Rightarrow> (case atoi s of None \<Rightarrow> Inl (ErrNotInt n) | Some i \<Rightarrow> Inr i)
      | [_] \<Rightarrow> Inl (ErrNotInt n)
      | _ \<Rightarrow> Inl (ErrOneValue n))"

definition newNumericFunc :: "string \<Rightarrow> bool \<Rightarrow> key \<Rightarrow> valueset \<Rightarrow> cond_op \<Rightarrow> cond_error + cond_function" where
  "newNumericFunc n ifExists k values c =
     (case valueToInt n values of
        Inl e \<Rightarrow> Inl e
      | Inr v \<Rightarrow> Inr (NumericFunc \<lparr>mf_n = plain_name n, mf_k = k, mf_value = v, mf_c = c,
          mf_ifExists = ifExists\<rparr>))"

definition newNumericEqualsFunc :: "fn_constructor" where
  "newNumericEqualsFunc k values q = newNumericFunc numericEquals False k values CondEquals"

definition newNumericNotEqualsFunc :: "fn_constructor" where
  "newNumericNotEqualsFunc k values q = newNumericFunc numericNotEquals False k values CondNotEquals"

definition newNumericGreaterThanFunc :: "fn_constructor" where
  "newNumericGreaterThanFunc k values q =
     newNumericFunc numericGreaterThan False k values CondGreaterThan"

definition newNumericGreaterThanIfExistsFunc :: "fn_constructor" where
  "newNumericGreaterThanIfExistsFunc k values q =
     newNumericFunc numericGreaterThanIfExists True k values CondGreaterThan"

definition newNumericGreaterThanEqualsFunc :: "fn_constructor" where
  "newNumericGreaterThanEqualsFunc k values q =
     newNumericFunc numericGreaterThanEquals False k values CondGreaterThanEquals"

definition newNumericLessThanFunc :: "fn_constructor" where
  "newNumericLessThanFunc k values q = newNumericFunc numericLessThan False k values CondLessThan"

definition newNumericLessThanEqualsFunc :: "fn_constructor" where
  "newNumericLessThanEqualsFunc k values q =
     newNumericFunc numericLessThanEquals False k values CondLessThanEquals"

definition valueToTime :: "string \<Rightarrow> valueset \<Rightarrow> cond_error + go_time" where
  "valueToTime n values =
     (case values of
        [VString s] \<Rightarrow> (case parse_rfc3339 s of None \<Rightarrow> Inl (ErrNotTime n) | Some t \<Rightarrow> Inr t)
      | [_] \<Rightarrow> Inl (ErrNotTime n)
      | _ \<Rightarrow> Inl (ErrOneValue n))"

definition newDateFunc :: "string \<Rightarrow> key \<Rightarrow> valueset \<Rightarrow> cond_op \<Rightarrow> cond_error + cond_function" where
  "newDateFunc n k values c =
     (case valueToTime n values of
        Inl e \<Rightarrow> Inl e
      | Inr t \<Rightarrow> Inr (DateFunc \<lparr>df_n = plain_name n, df_k = k, df_value = t, df_c = c\<rparr>))"

definition newDateEqualsFunc :: "fn_constructor" where
  "newDateEqualsFunc k values q = newDateFunc dateEquals k values CondEquals"

definition newDateNotEqualsFunc :: "fn_constructor" where
  "newDateNotEqualsFunc k values q = newDateFunc dateNotEquals k values CondNotEquals"

definition newDateGreaterThanFunc :: "fn_constructor" where
  "newDateGreaterThanFunc k values q = newDateFunc dateGreaterThan k values CondGreaterThan"

definition newDateGreaterThanEqualsFunc :: "fn_constructor" where
  "newDateGreaterThanEqualsFunc k values q =
     newDateFunc dateGreaterThanEquals k values CondGreaterThanEquals"

definition newDateLessThanFunc :: "fn_constructor" where
  "newDateLessThanFunc k values q = newDateFunc dateLessThan k values CondLessThan"

definition newDateLessThanEqualsFunc :: "fn_constructor" where
  "newDateLessThanEqualsFunc k values q =
     newDateFunc dateLessThanEquals k values CondLessThanEquals"

text \<open>The loop of \<open>valuesToIPNets\<close>: an address without a prefix length gets \<open>/32\<close>.\<close>

fun valuesToIPNets :: "string \<Rightarrow> valueset \<Rightarrow> cond_error + ipnet list" where
  "valuesToIPNets n [] = Inr []"
| "valuesToIPNets n (v # vs) =
     (case GetString v of
        None \<Rightarrow> Inl (ErrNotCIDR n)
      | Some s0 \<Rightarrow>
          (let s = (if index_byte s0 (CHR ''/'') = None then s0 @ ''/32'' else s0)
           in case ParseCIDR s of
                None \<Rightarrow> Inl (ErrNotCIDR n)
              | Some net \<Rightarrow>
                  (case valuesToIPNets n vs of Inl e \<Rightarrow> Inl e | Inr nets \<Rightarrow> Inr (net # nets))))"

definition newIPAddrFunc :: "string \<Rightarrow> key \<Rightarrow> ipnet list \<Rightarrow> bool \<Rightarrow> cond_error + cond_function" where
  "newIPAddrFunc n k values negate =
     (if \<not> Key_Is k AWSSourceIP then Inl (ErrKeyNotAllowed n)
      else Inr (IPAddrFunc \<lparr>if_n = plain_name n, if_k = k, if_values = values, if_negate = negate\<rparr>))"

definition NewIPAddressFunc :: "key \<Rightarrow> ipnet list \<Rightarrow> cond_error + cond_function" where
  "NewIPAddressFunc k nets = newIPAddrFunc ipAddress k nets False"

definition NewNotIPAddressFunc :: "key \<Rightarrow> ipnet list \<Rightarrow> cond_error + cond_function" where
  "NewNotIPAddressFunc k nets = newIPAddrFunc notIPAddress k nets True"

definition newIPAddressFunc :: "fn_constructor" where
  "newIPAddressFunc k values q =
     (case valuesToIPNets ipAddress values of
        Inl e \<Rightarrow> Inl e | Inr nets \<Rightarrow> NewIPAddressFunc k nets)"

definition newNotIPAddressFunc :: "fn_constructor" where
  "newNotIPAddressFunc k values q =
     (case valuesToIPNets notIPAddress values of
        Inl e \<Rightarrow> Inl e | Inr nets \<Rightarrow> NewNotIPAddressFunc k nets)"

definition conditionFuncMap :: "ext_lib \<Rightarrow> (string \<times> fn_constructor) list" where
  "conditionFuncMap L = [
     (stringEquals, newStringEqualsFunc L),
     (stringNotEquals, newStringNotEqualsFunc L),
     (stringEqualsIgnoreCase, newStringEqualsIgnoreCaseFunc L),
     (stringNotEqualsIgnoreCase, newStringNotEqualsIgnoreCaseFunc L),
     (binaryEquals, newBinaryEqualsFunc L),
     (stringLike, newStringLikeFunc L),
     (stringNotLike, newStringNotLikeFunc L),
     (ipAddress, newIPAddressFunc),
     (notIPAddress, newNotIPAddressFunc),
     (nullName, newNullFunc),
     (booleanName, newBooleanFunc),
     (numericEquals, newNumericEqualsFunc),
     (numericNotEquals, newNumericNotEqualsFunc),
     (numericLessThan, newNumericLessThanFunc),
     (numericLessThanEquals, newNumericLessThanEqualsFunc),
     (numericGreaterThan, newNumericGreaterThanFunc),
     (numericGreaterThanIfExists, newNumericGreaterThanIfExistsFunc),
     (numericGreaterThanEquals, newNumericGreaterThanEqualsFunc),
     (dateEquals, newDateEqualsFunc),
     (dateNotEquals, newDateNotEqualsFunc),
     (dateLessThan, newDateLessThanFunc),
     (dateLessThanEquals, newDateLessThanEqualsFunc),
     (dateGreaterThan, newDateGreaterThanFunc),
     (dateGreaterThanEquals, newDateGreaterThanEqualsFunc)]"

text \<open>The body of the loops of \<open>Functions.UnmarshalJSON\<close>, for one name, key and value set.\<close>

definition new_function ::
  "ext_lib \<Rightarrow> string \<Rightarrow> string \<Rightarrow> valueset \<Rightarrow> cond_error + cond_function" where
  "new_function L nameString keyString values =
     (case parseName nameString of
        Inl e \<Rightarrow> Inl e
      | Inr n \<Rightarrow>
          (case parseKey keyString of
             Inl e \<Rightarrow> Inl e
           | Inr k \<Rightarrow>
               (case map_of (conditionFuncMap L) (cn_name n) of
                  None \<Rightarrow> Inl (ErrNotHandled nameString)
                | Some fn \<Rightarrow> fn k values (cn_qualifier n))))"

end
