(* ===== verification/CondFacts.thy ===== *)
theory CondFacts
  imports CondFuncs
begin

text \<open>
  What the condition functions decide: when an evaluation can panic, the abstract meaning of each
  string condition and the proof that \<open>evaluate\<close> computes it, the complementary pairs of
  conditions, and what a decoded condition carries.
\<close>


section \<open>When an evaluation panics\<close>

text \<open>No key of the request is present with an empty list of values.\<close>

definition wf_values :: "cond_values \<Rightarrow> bool" where
  "wf_values values \<longleftrightarrow> (\<forall>k vs. values k = Some vs \<longrightarrow> vs \<noteq> [])"

lemma wf_values_empty [simp]: "wf_values Map.empty"
  by (simp add: wf_values_def)

lemma wf_values_upd [simp]: "wf_values m \<Longrightarrow> wf_values (m(k \<mapsto> v # vs))"
  by (simp add: wf_values_def)

lemma subst_keys_None:
  "subst_keys values ks v = None \<longleftrightarrow> (\<exists>k\<in>set ks. values (KeyName_Name k) = Some [])"
  by (induction ks arbitrary: v) (auto split: option.splits list.splits)

lemma substitute_None:
  "substitute values v = None \<longleftrightarrow> (\<exists>k\<in>set CommonKeys. values (KeyName_Name k) = Some [])"
  by (simp add: substitute_def subst_keys_None)

lemma substitute_total [no_panic]: "wf_values values \<Longrightarrow> substitute values v \<noteq> None"
  unfolding substitute_None wf_values_def by blast

definition subst_pure :: "cond_values \<Rightarrow> string \<Rightarrow> string" where
  "subst_pure values v = (case substitute values v of Some w \<Rightarrow> w | None \<Rightarrow> v)"

lemma apply_substitute_wf:
  "wf_values values \<Longrightarrow> apply_substitute L values vs = Some (ss_apply L (subst_pure values) vs)"
  using substitute_total by (simp add: apply_substitute_def subst_pure_def [abs_def] list_all_iff)

lemma apply_substitute_None:
  "apply_substitute L values vs = None \<longleftrightarrow>
   vs \<noteq> [] \<and> (\<exists>k\<in>set CommonKeys. values (KeyName_Name k) = Some [])"
  by (cases vs) (auto simp: apply_substitute_def list_all_iff substitute_None)

fun string_values :: "cond_function \<Rightarrow> string list" where
  "string_values (StringFunc f) = sf_values f"
| "string_values (StringLikeFunc f) = sf_values f"
| "string_values _ = []"

lemma evaluate_None:
  "evaluate L f values = None \<longleftrightarrow>
   string_values f \<noteq> [] \<and> (\<exists>k\<in>set CommonKeys. values (KeyName_Name k) = Some [])"
  by (cases f) (simp_all add: stringFunc_eval_def stringLikeFunc_eval_def apply_substitute_None)

lemma evaluate_total [no_panic]: "wf_values values \<Longrightarrow> evaluate L f values \<noteq> None"
  unfolding evaluate_None wf_values_def by blast

lemma Functions_Evaluate_total [no_panic]:
  "wf_values values \<Longrightarrow> Functions_Evaluate L fs values \<noteq> None"
  unfolding Functions_Evaluate_def by (intro all_m_total evaluate_total)

lemma Functions_Evaluate_True:
  "Functions_Evaluate L fs values = Some True \<longleftrightarrow> (\<forall>f\<in>set fs. evaluate L f values = Some True)"
  by (simp add: Functions_Evaluate_def all_m_SomeTrue)

section \<open>What the string conditions decide\<close>

lemma eq_Int_iff: "A = A \<inter> B \<longleftrightarrow> A \<subseteq> B"
  by blast

lemma empty_or_subset: "A = {} \<or> A \<subseteq> B \<longleftrightarrow> A \<subseteq> B"
  by blast

lemma like_loop_eq:
  assumes "string_set_laws L"
  shows "like_loop L forall fv rv \<longleftrightarrow>
    (if forall then \<forall>r\<in>set rv. \<exists>p\<in>set fv. Match p r else \<exists>r\<in>set rv. \<exists>p\<in>set fv. Match p r)"
  by (induction rv) (auto simp: Let_def ss_simps [OF assms])

lemma stringFunc_eval_eq:
  assumes "string_set_laws L" "wf_values values"
  shows "stringFunc_eval L f values =
    (let nrm = (if sf_ignoreCase f then to_lower L else (\<lambda>s. s));
         req = nrm ` set (getValuesByKey values (sf_k f));
         pol = nrm ` subst_pure values ` set (sf_values f)
     in Some (if cn_qualifier (sf_n f) = forAllValues then req \<subseteq> pol else req \<inter> pol \<noteq> {}))"
  using assms
  by (simp add: stringFunc_eval_def apply_substitute_wf Let_def ss_simps eq_Int_iff empty_or_subset
      image_image del: set_empty)

lemma stringLikeFunc_eval_eq:
  assumes "string_set_laws L" "wf_values values"
  shows "stringLikeFunc_eval L f values =
    (let req = set (getValuesByKey values (sf_k f));
         pol = subst_pure values ` set (sf_values f)
     in Some (if cn_qualifier (sf_n f) = forAllValues then \<forall>r\<in>req. \<exists>p\<in>pol. Match p r
              else \<exists>r\<in>req. \<exists>p\<in>pol. Match p r))"
  using assms
  by (simp add: stringLikeFunc_eval_def apply_substitute_wf Let_def ss_simps like_loop_eq)

lemma negate_xor: "(if n then \<not> r else r) = (r \<noteq> n)"
  by auto

section \<open>Constructors\<close>

lemma newStringFunc_Inr:
  "newStringFunc L n k vs q ic b neg = Inr f \<Longrightarrow>
   f = \<lparr>sf_n = \<lparr>cn_qualifier = q, cn_name = n\<rparr>, sf_k = k, sf_values = sf_values f,
        sf_ignoreCase = ic, sf_base64 = b, sf_negate = neg\<rparr> \<and>
   (\<exists>ss. valuesToStringSlice n vs = Inr ss \<and> sf_values f = ss_create L ss)"
  by (auto simp: newStringFunc_def Let_def split: sum.splits option.splits if_splits)

lemma map_fn_Inr: "map_fn c r = Inr f \<longleftrightarrow> (\<exists>g. r = Inr g \<and> f = c g)"
  by (auto simp: map_fn_def split: sum.splits)

lemma valuesToStringSlice_name:
  "valuesToStringSlice n vs = Inr ss \<Longrightarrow> valuesToStringSlice m vs = Inr ss"
  by (induction vs arbitrary: ss) (auto split: option.splits sum.splits)

lemmas string_constructors =
  newStringEqualsFunc_def newStringNotEqualsFunc_def newStringEqualsIgnoreCaseFunc_def
  newStringNotEqualsIgnoreCaseFunc_def newStringLikeFunc_def newStringNotLikeFunc_def

lemma valuesToIPNets_name:
  "valuesToIPNets n vs = Inr ss \<Longrightarrow> valuesToIPNets m vs = Inr ss"
  by (induction vs arbitrary: ss) (auto simp: Let_def split: option.splits sum.splits if_splits)

lemma newStringFunc_fields:
  assumes "newStringFunc L n k vs q ic b neg = Inr f"
  shows "cn_qualifier (sf_n f) = q" "cn_name (sf_n f) = n" "sf_k f = k" "sf_ignoreCase f = ic"
    "sf_base64 f = b" "sf_negate f = neg"
  using newStringFunc_Inr [OF assms] by (metis string_func.select_convs cname.select_convs)+

lemma newStringFunc_negate:
  assumes "newStringFunc L n k vs q ic b False = Inr f" "newStringFunc L m k vs q ic b True = Inr g"
  shows "sf_values g = sf_values f" "sf_k g = sf_k f" "sf_ignoreCase g = sf_ignoreCase f"
    "cn_qualifier (sf_n g) = cn_qualifier (sf_n f)" "sf_negate f = False" "sf_negate g = True"
proof -
  obtain ss where ss: "valuesToStringSlice n vs = Inr ss" "sf_values f = ss_create L ss"
    using newStringFunc_Inr [OF assms(1)] by blast
  obtain tt where tt: "valuesToStringSlice m vs = Inr tt" "sf_values g = ss_create L tt"
    using newStringFunc_Inr [OF assms(2)] by blast
  have "ss = tt"
    using ss(1) tt(1) valuesToStringSlice_name [of n vs ss m] by simp
  then show "sf_values g = sf_values f" using ss tt by simp
  show "sf_k g = sf_k f" "sf_ignoreCase g = sf_ignoreCase f"
    "cn_qualifier (sf_n g) = cn_qualifier (sf_n f)" "sf_negate f = False" "sf_negate g = True"
    by (simp_all add: newStringFunc_fields [OF assms(1)] newStringFunc_fields [OF assms(2)])
qed


lemma stringFunc_eval_cong:
  assumes "sf_values g = sf_values f" "sf_k g = sf_k f" "sf_ignoreCase g = sf_ignoreCase f"
    "cn_qualifier (sf_n g) = cn_qualifier (sf_n f)"
  shows "stringFunc_eval L g values = stringFunc_eval L f values"
    "stringLikeFunc_eval L g values = stringLikeFunc_eval L f values"
  using assms by (simp_all add: stringFunc_eval_def stringLikeFunc_eval_def)

lemma negated_string_pair:
  assumes "newStringFunc L n k vs q ic b False = Inr f" "newStringFunc L m k vs q ic b True = Inr g"
  shows "evaluate L (StringFunc g) values = map_option Not (evaluate L (StringFunc f) values)"
    "evaluate L (StringLikeFunc g) values = map_option Not (evaluate L (StringLikeFunc f) values)"
  using newStringFunc_negate [OF assms] stringFunc_eval_cong [of g f L "values"]
  by (simp_all add: option.map_comp o_def option.map_ident)

lemma negated_ip_pair:
  assumes "newIPAddressFunc k vs q = Inr f" "newNotIPAddressFunc k vs q = Inr g"
  shows "evaluate L g values = map_option Not (evaluate L f values)"
proof -
  obtain nets where nets: "valuesToIPNets ipAddress vs = Inr nets"
    and f: "NewIPAddressFunc k nets = Inr f"
    using assms(1) by (auto simp: newIPAddressFunc_def split: sum.splits)
  from assms(2) valuesToIPNets_name [OF nets, of notIPAddress]
  have g: "NewNotIPAddressFunc k nets = Inr g"
    by (simp add: newNotIPAddressFunc_def)
  from f g show ?thesis
    by (auto simp: NewIPAddressFunc_def NewNotIPAddressFunc_def newIPAddrFunc_def ipaddrFunc_eval_def
        Let_def split: if_splits)
qed

text \<open>
  A \<open>Not\<close> condition built from the same key, values and qualifier is the exact complement of
  the positive one on every request, panics included, for the string and the address conditions.
\<close>

theorem negated_conditions:
  assumes "(mk, mk_not) \<in> {(newStringEqualsFunc L, newStringNotEqualsFunc L),
      (newStringEqualsIgnoreCaseFunc L, newStringNotEqualsIgnoreCaseFunc L),
      (newStringLikeFunc L, newStringNotLikeFunc L),
      (newIPAddressFunc, newNotIPAddressFunc)}"
    and "mk k vs q = Inr f" "mk_not k vs q = Inr g"
  shows "evaluate L g values = map_option Not (evaluate L f values)"
  using assms negated_string_pair negated_ip_pair
  by (elim insertE emptyE) (auto simp: string_constructors map_fn_Inr)

theorem negated_conditions_witness:
  "evaluate list_lib
     (IPAddrFunc \<lparr>if_n = plain_name notIPAddress, if_k = KeyName_ToKey AWSSourceIP, if_values = [], if_negate = True\<rparr>)
     Map.empty =
   map_option Not (evaluate list_lib
     (IPAddrFunc \<lparr>if_n = plain_name ipAddress, if_k = KeyName_ToKey AWSSourceIP, if_values = [], if_negate = False\<rparr>)
     Map.empty)"
  by (rule negated_conditions [where mk = newIPAddressFunc and mk_not = newNotIPAddressFunc
        and k = "KeyName_ToKey AWSSourceIP" and vs = "[]" and q = "''''" and L = list_lib])
    (simp_all add: newIPAddressFunc_def newNotIPAddressFunc_def NewIPAddressFunc_def
      NewNotIPAddressFunc_def newIPAddrFunc_def Key_Is_def KeyName_ToKey_def NewKey_def)

text \<open>
  C17: evaluating a condition panics exactly when it is a string condition with at least one value
  and the request carries one of the keys common to all actions with an empty list of values: the
  substitution of policy variables then indexes the empty slice. No other condition ever panics.
\<close>

theorem evaluate_panics_iff:
  "evaluate L f values = None \<longleftrightarrow>
   string_values f \<noteq> [] \<and> (\<exists>k. k \<in> set CommonKeys \<and> values (KeyName_Name k) = Some [])"
  unfolding evaluate_None by blast

text \<open>
  A \<open>StringLike\<close> condition whose values hold no wildcard after substitution decides as the
  \<open>StringEquals\<close> condition with the same values does.
\<close>

theorem stringLike_without_wildcards:
  assumes "string_set_laws L" "wf_values values"
    and "newStringEqualsFunc L k vs q = Inr f" "newStringLikeFunc L k vs q = Inr g"
    and "\<forall>v\<in>set (string_values f). \<not> Has (subst_pure values v)"
  shows "evaluate L g values = evaluate L f values"
proof -
  obtain f' where f': "newStringFunc L stringEquals k vs q False False False = Inr f'" "f = StringFunc f'"
    using assms(3) by (auto simp: newStringEqualsFunc_def map_fn_Inr)
  obtain g' where g': "newStringFunc L stringLike k vs q False False False = Inr g'" "g = StringLikeFunc g'"
    using assms(4) by (auto simp: newStringLikeFunc_def map_fn_Inr)
  obtain ss where ss: "valuesToStringSlice stringEquals vs = Inr ss" "sf_values f' = ss_create L ss"
    using newStringFunc_Inr [OF f'(1)] by blast
  have g_values: "sf_values g' = sf_values f'"
    using newStringFunc_Inr [OF g'(1)] valuesToStringSlice_name [OF ss(1), of stringLike] ss(2) by auto
  have exact: "Match p r \<longleftrightarrow> p = r" if "p \<in> subst_pure values ` set (sf_values f')" for p r
    using assms(5) that f'(2) Match_exact by auto
  show ?thesis
    using newStringFunc_fields [OF f'(1)] newStringFunc_fields [OF g'(1)]
    by (auto simp: f' g' stringFunc_eval_eq [OF assms(1,2)] stringLikeFunc_eval_eq [OF assms(1,2)]
        g_values exact Let_def)
qed

section \<open>The decided relation of each string condition\<close>

text \<open>
  The abstract meaning of a string condition: with \<open>ForAllValues\<close> every value of the request is
  matched by some value of the policy, otherwise some value of the request is.
\<close>

definition string_spec :: "(string \<Rightarrow> string \<Rightarrow> bool) \<Rightarrow> bool \<Rightarrow> string set \<Rightarrow> string set \<Rightarrow> bool" where
  "string_spec m forall pol req =
     (if forall then \<forall>r\<in>req. \<exists>p\<in>pol. m p r else \<exists>r\<in>req. \<exists>p\<in>pol. m p r)"

lemma set_valuesToStringSlice:
  "valuesToStringSlice n vs = Inr ss \<Longrightarrow> set ss = {s. VString s \<in> set vs}"
proof (induction vs arbitrary: ss)
  case (Cons v vs)
  then obtain s tt where "v = VString s" "valuesToStringSlice n vs = Inr tt" "ss = s # tt"
    by (cases v) (auto split: sum.splits)
  with Cons.IH show ?case by auto
qed simp

lemma newStringFunc_values:
  assumes "string_set_laws L" "newStringFunc L n k vs q ic b neg = Inr f"
  shows "set (sf_values f) = {s. VString s \<in> set vs}"
  using newStringFunc_Inr [OF assms(2)] set_valuesToStringSlice ss_simps(1) [OF assms(1)] by metis

lemma string_spec_image:
  "string_spec (\<lambda>p r. f p = f r) forall P R = (if forall then f ` R \<subseteq> f ` P else f ` R \<inter> f ` P \<noteq> {})"
proof -
  have "f ` R \<subseteq> f ` P \<longleftrightarrow> (\<forall>r\<in>R. \<exists>p\<in>P. f p = f r)"
    by (auto simp: image_subset_iff image_iff eq_commute)
  moreover have "f ` R \<inter> f ` P \<noteq> {} \<longleftrightarrow> (\<exists>r\<in>R. \<exists>p\<in>P. f p = f r)"
    by (fastforce simp: set_eq_iff image_iff)
  ultimately show ?thesis by (simp add: string_spec_def)
qed

lemma evaluate_StringFunc_spec:
  assumes "string_set_laws L" "wf_values values" "newStringFunc L n k vs q ic b neg = Inr f"
  shows "evaluate L (StringFunc f) values = Some (string_spec
      (\<lambda>p r. (if ic then to_lower L else (\<lambda>s. s)) p = (if ic then to_lower L else (\<lambda>s. s)) r)
      (q = forAllValues)
      (subst_pure values ` {s. VString s \<in> set vs}) (set (getValuesByKey values k)) \<noteq> neg)"
  unfolding string_spec_image
  using newStringFunc_values [OF assms(1,3)] newStringFunc_fields [OF assms(3)]
  by (simp add: stringFunc_eval_eq [OF assms(1,2)] Let_def)

lemma evaluate_StringLikeFunc_spec:
  assumes "string_set_laws L" "wf_values values" "newStringFunc L n k vs q ic b neg = Inr f"
  shows "evaluate L (StringLikeFunc f) values = Some (string_spec (wild_ref False) (q = forAllValues)
      (subst_pure values ` {s. VString s \<in> set vs}) (set (getValuesByKey values k)) \<noteq> neg)"
  using newStringFunc_values [OF assms(1,3)] newStringFunc_fields [OF assms(3)]
  by (auto simp: stringLikeFunc_eval_eq [OF assms(1,2)] Let_def string_spec_def Match_eq)

text \<open>
  C7: each of the six string conditions decides its abstract meaning. The values of the policy,
  with the policy variables substituted, are compared with the values of the request under the key
  by equality, by equality of the lower-case forms, or by the reference matcher; with the qualifier
  \<open>ForAllValues\<close> every value of the request must be matched, otherwise some value; a \<open>Not\<close>
  condition is the negation of that.
\<close>

theorem string_conditions_refine_spec:
  assumes "string_set_laws L" "wf_values values"
    and "(mk, m, neg) \<in> {(newStringEqualsFunc L, \<lambda>p r. p = r, False),
      (newStringNotEqualsFunc L, \<lambda>p r. p = r, True),
      (newStringEqualsIgnoreCaseFunc L, \<lambda>p r. to_lower L p = to_lower L r, False),
      (newStringNotEqualsIgnoreCaseFunc L, \<lambda>p r. to_lower L p = to_lower L r, True),
      (newStringLikeFunc L, wild_ref False, False), (newStringNotLikeFunc L, wild_ref False, True)}"
    and "mk k vs q = Inr f"
  shows "evaluate L f values = Some (string_spec m (q = forAllValues)
    (subst_pure values ` {s. VString s \<in> set vs}) (set (getValuesByKey values k)) \<noteq> neg)"
  using assms(3,4)
  by (elim insertE emptyE)
    (auto simp: string_constructors map_fn_Inr evaluate_StringFunc_spec [OF assms(1,2)]
      evaluate_StringLikeFunc_spec [OF assms(1,2)] simp del: evaluate.simps)

section \<open>Numeric and date conditions\<close>

lemma valueToInt_name: "valueToInt n vs = Inr v \<Longrightarrow> valueToInt m vs = Inr v"
  by (auto simp: valueToInt_def split: list.splits val.splits option.splits)

lemma valueToTime_name: "valueToTime n vs = Inr v \<Longrightarrow> valueToTime m vs = Inr v"
  by (auto simp: valueToTime_def split: list.splits val.splits option.splits)

text \<open>The comparison of a condition, with the request's value on the left.\<close>

fun compare_op :: "cond_op \<Rightarrow> int \<Rightarrow> int \<Rightarrow> bool" where
  "compare_op CondEquals x y = (x = y)"
| "compare_op CondNotEquals x y = (x \<noteq> y)"
| "compare_op CondGreaterThan x y = (x > y)"
| "compare_op CondGreaterThanEquals x y = (x \<ge> y)"
| "compare_op CondLessThan x y = (x < y)"
| "compare_op CondLessThanEquals x y = (x \<le> y)"

lemma newNumericFunc_eval:
  assumes "newNumericFunc n ife k vs c = Inr f" "getValuesByKey values k = r # rs" "atoi r = Some x"
    and "valueToInt m vs = Inr v"
  shows "evaluate L f values = Some (compare_op c x v)"
  using assms valueToInt_name [OF assms(4), of n]
  by (cases c) (auto simp: newNumericFunc_def numericFunc_evaluate_def)

lemma newDateFunc_eval:
  assumes "newDateFunc n k vs c = Inr f" "getValuesByKey values k = r # rs"
    and "parse_rfc3339 r = Some t" "valueToTime m vs = Inr v"
  shows "evaluate L f values = Some (compare_op c (unix_nano t) (unix_nano v))"
  using assms valueToTime_name [OF assms(4), of n]
  by (cases c) (auto simp: newDateFunc_def dateFunc_evaluate_def time_defs)

lemma newNumericFunc_value: "newNumericFunc n ife k vs c = Inr f \<Longrightarrow> \<exists>v. valueToInt n vs = Inr v"
  by (auto simp: newNumericFunc_def split: sum.splits)

lemma newDateFunc_value: "newDateFunc n k vs c = Inr f \<Longrightarrow> \<exists>v. valueToTime n vs = Inr v"
  by (auto simp: newDateFunc_def split: sum.splits)

lemmas numeric_constructors =
  newNumericEqualsFunc_def newNumericNotEqualsFunc_def newNumericLessThanFunc_def
  newNumericLessThanEqualsFunc_def newNumericGreaterThanFunc_def newNumericGreaterThanEqualsFunc_def
  newNumericGreaterThanIfExistsFunc_def

lemmas date_constructors =
  newDateEqualsFunc_def newDateNotEqualsFunc_def newDateLessThanFunc_def
  newDateLessThanEqualsFunc_def newDateGreaterThanFunc_def newDateGreaterThanEqualsFunc_def

lemma numeric_complement:
  assumes "newNumericFunc n ife k vs c = Inr f" "newNumericFunc n' ife' k vs c' = Inr g"
    and "getValuesByKey values k = r # rs" "atoi r = Some x"
    and "(c, c') \<in> {(CondEquals, CondNotEquals), (CondLessThan, CondGreaterThanEquals),
        (CondGreaterThan, CondLessThanEquals)}"
  shows "evaluate L g values = map_option Not (evaluate L f values)"
proof -
  obtain v where "valueToInt n vs = Inr v"
    using newNumericFunc_value [OF assms(1)] by blast
  then show ?thesis
    using newNumericFunc_eval [OF assms(1,3,4)] newNumericFunc_eval [OF assms(2,3,4)] assms(5)
    by auto
qed

lemma date_complement:
  assumes "newDateFunc n k vs c = Inr f" "newDateFunc n' k vs c' = Inr g"
    and "getValuesByKey values k = r # rs" "parse_rfc3339 r = Some t"
    and "(c, c') \<in> {(CondEquals, CondNotEquals), (CondLessThan, CondGreaterThanEquals),
        (CondGreaterThan, CondLessThanEquals)}"
  shows "evaluate L g values = map_option Not (evaluate L f values)"
proof -
  obtain v where "valueToTime n vs = Inr v"
    using newDateFunc_value [OF assms(1)] by blast
  then show ?thesis
    using newDateFunc_eval [OF assms(1,3,4)] newDateFunc_eval [OF assms(2,3,4)] assms(5)
    by auto
qed

text \<open>
  For a request value that parses, the numeric and the date comparisons come in complementary
  pairs: equal and not equal, less and not less, greater and not greater.
\<close>

theorem ordered_conditions_complement:
  assumes "(mk, mk') \<in> {(newNumericEqualsFunc, newNumericNotEqualsFunc),
      (newNumericLessThanFunc, newNumericGreaterThanEqualsFunc),
      (newNumericGreaterThanFunc, newNumericLessThanEqualsFunc)} \<and> atoi r \<noteq> None \<or>
    (mk, mk') \<in> {(newDateEqualsFunc, newDateNotEqualsFunc),
      (newDateLessThanFunc, newDateGreaterThanEqualsFunc),
      (newDateGreaterThanFunc, newDateLessThanEqualsFunc)} \<and> parse_rfc3339 r \<noteq> None"
    and "mk k vs q = Inr f" "mk' k vs q = Inr g"
    and "getValuesByKey values k = r # rs"
  shows "evaluate L g values = map_option Not (evaluate L f values)"
  using assms(1)
proof (elim disjE conjE)
  assume "(mk, mk') \<in> {(newNumericEqualsFunc, newNumericNotEqualsFunc),
      (newNumericLessThanFunc, newNumericGreaterThanEqualsFunc),
      (newNumericGreaterThanFunc, newNumericLessThanEqualsFunc)}" and "atoi r \<noteq> None"
  then obtain x where "atoi r = Some x" and "mk = newNumericEqualsFunc \<and> mk' = newNumericNotEqualsFunc \<or>
      mk = newNumericLessThanFunc \<and> mk' = newNumericGreaterThanEqualsFunc \<or>
      mk = newNumericGreaterThanFunc \<and> mk' = newNumericLessThanEqualsFunc" by auto
  with assms(2,3) show ?thesis
    by (elim disjE conjE) (auto simp: numeric_constructors intro!: numeric_complement [OF _ _ assms(4)])
next
  assume "(mk, mk') \<in> {(newDateEqualsFunc, newDateNotEqualsFunc),
      (newDateLessThanFunc, newDateGreaterThanEqualsFunc),
      (newDateGreaterThanFunc, newDateLessThanEqualsFunc)}" and "parse_rfc3339 r \<noteq> None"
  then obtain x where "parse_rfc3339 r = Some x" and "mk = newDateEqualsFunc \<and> mk' = newDateNotEqualsFunc \<or>
      mk = newDateLessThanFunc \<and> mk' = newDateGreaterThanEqualsFunc \<or>
      mk = newDateGreaterThanFunc \<and> mk' = newDateLessThanEqualsFunc" by auto
  with assms(2,3) show ?thesis
    by (elim disjE conjE) (auto simp: date_constructors intro!: date_complement [OF _ _ assms(4)])
qed

section \<open>Decoded conditions\<close>

lemma conditionFuncMap_keeps:
  assumes "(n, mk) \<in> set (conditionFuncMap L)" "mk k vs q = Inr f"
  shows "fn_key f = k \<and> cn_name (fn_name f) = n \<and> cn_qualifier (fn_name f) \<in> {q, ''''}"
proof -
  have str: "newStringFunc L n k vs q ic b neg = Inr g \<Longrightarrow>
      sf_k g = k \<and> cn_name (sf_n g) = n \<and> cn_qualifier (sf_n g) = q" for n vs ic b neg g
    by (auto simp: newStringFunc_fields)
  show ?thesis
    using assms
    by (auto simp: conditionFuncMap_def string_constructors newBinaryEqualsFunc_def NewBinaryEqualsFunc_def
        map_fn_Inr newIPAddressFunc_def newNotIPAddressFunc_def NewIPAddressFunc_def
        NewNotIPAddressFunc_def newIPAddrFunc_def newNullFunc_def newBooleanFunc_def
        numeric_constructors newNumericFunc_def date_constructors newDateFunc_def
        dest!: str split: sum.splits list.splits val.splits option.splits if_splits)
qed

text \<open>
  A condition decoded from its name, key and values carries the key that the key text names
  and the condition name that the name text names, whichever constructor the table selects; only
  the qualifier may be dropped.
\<close>

theorem new_function_key_name:
  assumes "new_function L nameString keyString vs = Inr f"
  shows "parseKey keyString = Inr (fn_key f) \<and>
    (\<exists>n. parseName nameString = Inr n \<and> cn_name (fn_name f) = cn_name n \<and>
         cn_qualifier (fn_name f) \<in> {cn_qualifier n, ''''})"
  using assms
  by (auto simp: new_function_def split: sum.splits option.splits dest!: map_of_SomeD conditionFuncMap_keeps)



lemma subst_pure_empty [simp]: "subst_pure Map.empty v = v"
proof -
  have "subst_keys Map.empty ks v = Some v" for ks
    by (induction ks) auto
  then show ?thesis by (simp add: subst_pure_def substitute_def)
qed

abbreviation (input) referer :: key where
  "referer \<equiv> KeyName_ToKey ''aws:Referer''"

lemma newString_example:
  "newStringEqualsFunc list_lib referer [VString ''a''] '''' = Inr (StringFunc \<lparr>sf_n = plain_name stringEquals,
     sf_k = referer, sf_values = [''a''], sf_ignoreCase = False, sf_base64 = False, sf_negate = False\<rparr>)"
  "newStringLikeFunc list_lib referer [VString ''a''] '''' = Inr (StringLikeFunc \<lparr>sf_n = plain_name stringLike,
     sf_k = referer, sf_values = [''a''], sf_ignoreCase = False, sf_base64 = False, sf_negate = False\<rparr>)"
  by code_simp+

theorem stringLike_without_wildcards_witness:
  "evaluate list_lib (StringLikeFunc \<lparr>sf_n = plain_name stringLike,
     sf_k = referer, sf_values = [''a''], sf_ignoreCase = False, sf_base64 = False, sf_negate = False\<rparr>) Map.empty =
   evaluate list_lib (StringFunc \<lparr>sf_n = plain_name stringEquals,
     sf_k = referer, sf_values = [''a''], sf_ignoreCase = False, sf_base64 = False, sf_negate = False\<rparr>) Map.empty"
  by (rule stringLike_without_wildcards [OF list_lib_laws wf_values_empty newString_example])
    (simp add: Has_def)

theorem string_conditions_refine_spec_witness:
  "evaluate list_lib (StringLikeFunc \<lparr>sf_n = plain_name stringLike,
     sf_k = referer, sf_values = [''a''], sf_ignoreCase = False, sf_base64 = False, sf_negate = False\<rparr>)
     [''Referer'' \<mapsto> [''a'']] =
   Some (string_spec (wild_ref False) False
     (subst_pure [''Referer'' \<mapsto> [''a'']] ` {s. VString s \<in> set [VString ''a'']})
     (set (getValuesByKey [''Referer'' \<mapsto> [''a'']] referer)) \<noteq> False)"
  using string_conditions_refine_spec [OF list_lib_laws, of "[''Referer'' \<mapsto> [''a'']]"
    "newStringLikeFunc list_lib" "wild_ref False" False referer "[VString ''a'']" "''''",
    OF _ _ newString_example(2)]
  by simp

theorem ordered_conditions_complement_witness:
  "evaluate list_lib (NumericFunc \<lparr>mf_n = plain_name numericGreaterThanEquals,
       mf_k = KeyName_ToKey ''s3:max-keys'', mf_value = 7, mf_c = CondGreaterThanEquals, mf_ifExists = False\<rparr>)
     [''max-keys'' \<mapsto> [''12'']] =
   map_option Not (evaluate list_lib (NumericFunc \<lparr>mf_n = plain_name numericLessThan,
       mf_k = KeyName_ToKey ''s3:max-keys'', mf_value = 7, mf_c = CondLessThan, mf_ifExists = False\<rparr>)
     [''max-keys'' \<mapsto> [''12'']])"
proof (rule ordered_conditions_complement [where mk = newNumericLessThanFunc and
      mk' = newNumericGreaterThanEqualsFunc and r = "''12''" and rs = "[]" and
      k = "KeyName_ToKey ''s3:max-keys''" and vs = "[VInt 7]" and q = "''''"])
  have "atoi ''12'' \<noteq> None" by code_simp
  then show "(newNumericLessThanFunc, newNumericGreaterThanEqualsFunc)
      \<in> {(newNumericEqualsFunc, newNumericNotEqualsFunc),
         (newNumericLessThanFunc, newNumericGreaterThanEqualsFunc),
         (newNumericGreaterThanFunc, newNumericLessThanEqualsFunc)} \<and> atoi ''12'' \<noteq> None \<or>
    (newNumericLessThanFunc, newNumericGreaterThanEqualsFunc) \<in> {(newDateEqualsFunc, newDateNotEqualsFunc),
      (newDateLessThanFunc, newDateGreaterThanEqualsFunc),
      (newDateGreaterThanFunc, newDateLessThanEqualsFunc)} \<and> parse_rfc3339 ''12'' \<noteq> None"
    by simp
  show "getValuesByKey [''max-keys'' \<mapsto> [''12'']] (KeyName_ToKey ''s3:max-keys'') = ''12'' # []"
    by code_simp
qed (code_simp+)

theorem new_function_key_name_witness:
  "parseKey ''s3:max-keys'' = Inr (fn_key (NumericFunc \<lparr>mf_n = plain_name numericLessThan,
       mf_k = KeyName_ToKey ''s3:max-keys'', mf_value = 7, mf_c = CondLessThan, mf_ifExists = False\<rparr>)) \<and>
    (\<exists>n. parseName ''NumericLessThan'' = Inr n \<and> cn_name (fn_name (NumericFunc \<lparr>mf_n = plain_name numericLessThan,
       mf_k = KeyName_ToKey ''s3:max-keys'', mf_value = 7, mf_c = CondLessThan, mf_ifExists = False\<rparr>)) = cn_name n \<and>
         cn_qualifier (fn_name (NumericFunc \<lparr>mf_n = plain_name numericLessThan,
       mf_k = KeyName_ToKey ''s3:max-keys'', mf_value = 7, mf_c = CondLessThan, mf_ifExists = False\<rparr>)) \<in> {cn_qualifier n, ''''})"
  by (rule new_function_key_name [where L = list_lib and vs = "[VInt 7]"]) code_simp

section \<open>Behaviour worth knowing\<close>

lemma bare_ipv6_matches_its_network:
  "(case newIPAddressFunc (KeyName_ToKey AWSSourceIP) [VString ''2001:db8::1''] '''' of
      Inl e \<Rightarrow> False
    | Inr f \<Rightarrow> evaluate list_lib f [''SourceIp'' \<mapsto> [''2001:db8:ffff::9'']] = Some True)"
  by code_simp

lemma bool_condition_compares_text:
  "(case newBooleanFunc (KeyName_ToKey AWSSecureTransport) [VString ''True''] '''' of
      Inl e \<Rightarrow> False
    | Inr f \<Rightarrow> evaluate list_lib f [''SecureTransport'' \<mapsto> [''true'']] = Some False)"
  by code_simp

lemma session_mode_is_not_a_policy_key:
  "''s3express:SessionMode'' \<in> set CommonKeys" "isl (parseKey ''s3express:SessionMode'')"
  by code_simp+

end
