(* ===== verification/GoQuote.thy ===== *)
theory GoQuote
  imports GoStrings "HOL-Library.List_Lexorder" "HOL-Library.Char_ord"
begin

text \<open>
  How Go prints lists of strings: \<open>strconv.Quote\<close>, \<open>sort.Strings\<close> and the verbs \<open>%v\<close> and \<open>%q\<close>
  of \<open>fmt.Sprintf\<close> on a slice of strings. The quoted form determines the list it was made from.
\<close>

section \<open>Runes\<close>

text \<open>
  \<open>utf8.DecodeRuneInString\<close> on a non-empty string: the code point and the number of its bytes, or
  no code point and one byte where the encoding is invalid.
\<close>

definition decode_rune :: "string \<Rightarrow> nat option \<times> nat" where
  "decode_rune s =
     (case s of
        [] \<Rightarrow> (None, 0)
      | a # t \<Rightarrow>
          (let x = byte a in
           if x < 128 then (Some x, 1)
           else if 194 \<le> x \<and> x \<le> 223 then
             (case t of
                b # _ \<Rightarrow> if cont_byte b then (Some ((x - 192) * 64 + (byte b - 128)), 2) else (None, 1)
              | _ \<Rightarrow> (None, 1))
           else if 224 \<le> x \<and> x \<le> 239 then
             (case t of
                b # c # _ \<Rightarrow>
                  if cont_byte b \<and> (x = 224 \<longrightarrow> 160 \<le> byte b) \<and> (x = 237 \<longrightarrow> byte b \<le> 159) \<and> cont_byte c
                  then (Some ((x - 224) * 4096 + (byte b - 128) * 64 + (byte c - 128)), 3)
                  else (None, 1)
              | _ \<Rightarrow> (None, 1))
           else if 240 \<le> x \<and> x \<le> 244 then
             (case t of
                b # c # d # _ \<Rightarrow>
                  if cont_byte b \<and> (x = 240 \<longrightarrow> 144 \<le> byte b) \<and> (x = 244 \<longrightarrow> byte b \<le> 143) \<and>
                     cont_byte c \<and> cont_byte d
                  then (Some ((x - 240) * 262144 + (byte b - 128) * 4096 + (byte c - 128) * 64 +
                    (byte d - 128)), 4)
                  else (None, 1)
              | _ \<Rightarrow> (None, 1))
           else (None, 1)))"

lemma byte_less: "byte c < 256"
  unfolding byte_def by (metis nat_of_char_less_256)

lemma char_of_byte [simp]: "char_of (byte c) = c"
  by (simp add: byte_def)

lemma byte_char_of [simp]: "n < 256 \<Longrightarrow> byte (char_of n) = n"
  by (simp add: byte_def)

text \<open>The bytes of a code point (\<open>utf8.AppendRune\<close>).\<close>

definition encode_rune :: "nat \<Rightarrow> string" where
  "encode_rune r =
     (if r < 128 then [char_of r]
      else if r < 2048 then [char_of (192 + r div 64), char_of (128 + r mod 64)]
      else if r < 65536 then
        [char_of (224 + r div 4096), char_of (128 + r div 64 mod 64), char_of (128 + r mod 64)]
      else [char_of (240 + r div 262144), char_of (128 + r div 4096 mod 64),
        char_of (128 + r div 64 mod 64), char_of (128 + r mod 64)])"

lemma radix_64:
  fixes p q t :: nat
  assumes "q < 64" "t < 64"
  shows "(p * 64 + t) div 64 = p" "(p * 64 + t) mod 64 = t"
    "(p * 4096 + q * 64 + t) div 4096 = p" "(p * 4096 + q * 64 + t) div 64 mod 64 = q"
    "(p * 4096 + q * 64 + t) mod 64 = t"
proof -
  have e: "p * 4096 + q * 64 + t = (p * 64 + q) * 64 + t" by simp
  show d: "(p * 64 + t) div 64 = p" for p using assms by simp
  show m: "(p * 64 + t) mod 64 = t" for p using assms by simp
  show "(p * 4096 + q * 64 + t) div 4096 = p"
    using assms by (intro div_nat_eqI) auto
  show "(p * 4096 + q * 64 + t) div 64 mod 64 = q"
    unfolding e d using assms by simp
  show "(p * 4096 + q * 64 + t) mod 64 = t"
    unfolding e m ..
qed

lemma radix_64_4:
  fixes p q t u :: nat
  assumes "q < 64" "t < 64" "u < 64"
  shows "(p * 262144 + q * 4096 + t * 64 + u) div 262144 = p"
    "(p * 262144 + q * 4096 + t * 64 + u) div 4096 mod 64 = q"
    "(p * 262144 + q * 4096 + t * 64 + u) div 64 mod 64 = t"
    "(p * 262144 + q * 4096 + t * 64 + u) mod 64 = u"
proof -
  have e: "p * 262144 + q * 4096 + t * 64 + u = (p * 64 + q) * 4096 + t * 64 + u" by simp
  show "(p * 262144 + q * 4096 + t * 64 + u) div 262144 = p"
    using assms by (intro div_nat_eqI) auto
  show "(p * 262144 + q * 4096 + t * 64 + u) div 4096 mod 64 = q"
    unfolding e radix_64 [OF assms(2,3)] using assms by simp
  show "(p * 262144 + q * 4096 + t * 64 + u) div 64 mod 64 = t"
    unfolding e radix_64 [OF assms(2,3)] ..
  show "(p * 262144 + q * 4096 + t * 64 + u) mod 64 = u"
    unfolding e radix_64 [OF assms(2,3)] ..
qed

lemma encode_two:
  assumes "194 \<le> byte a" "byte a \<le> 223" "cont_byte b"
  shows "encode_rune ((byte a - 192) * 64 + (byte b - 128)) = [a, b]"
proof -
  obtain p t where x: "byte a = 192 + p" "byte b = 128 + t" "2 \<le> p" "p < 32" "t < 64"
    using assms le_Suc_ex [of 192 "byte a"] le_Suc_ex [of 128 "byte b"] by (auto simp: cont_byte_def)
  then have "\<not> p * 64 + t < 128" "p * 64 + t < 2048" by auto
  then show ?thesis
    using x radix_64 [OF x(5) x(5)] char_of_byte [of a] char_of_byte [of b]
    by (simp add: encode_rune_def)
qed

lemma encode_three:
  assumes "224 \<le> byte a" "byte a \<le> 239" "cont_byte b" "cont_byte c" "byte a = 224 \<longrightarrow> 160 \<le> byte b"
  shows "encode_rune ((byte a - 224) * 4096 + (byte b - 128) * 64 + (byte c - 128)) = [a, b, c]"
proof -
  obtain p q t where x: "byte a = 224 + p" "byte b = 128 + q" "byte c = 128 + t"
      "p < 16" "q < 64" "t < 64" "p = 0 \<longrightarrow> 32 \<le> q"
    using assms le_Suc_ex [of 224 "byte a"] le_Suc_ex [of 128 "byte b"] le_Suc_ex [of 128 "byte c"]
    by (auto simp: cont_byte_def)
  then have "\<not> p * 4096 + q * 64 + t < 128" "\<not> p * 4096 + q * 64 + t < 2048"
    "p * 4096 + q * 64 + t < 65536" by (cases p; auto)+
  then show ?thesis
    using x radix_64 [OF x(5,6)] char_of_byte [of a] char_of_byte [of b] char_of_byte [of c]
    by (simp add: encode_rune_def)
qed

lemma encode_four:
  assumes "240 \<le> byte a" "byte a \<le> 244" "cont_byte b" "cont_byte c" "cont_byte d"
    "byte a = 240 \<longrightarrow> 144 \<le> byte b"
  shows "encode_rune ((byte a - 240) * 262144 + (byte b - 128) * 4096 + (byte c - 128) * 64 +
    (byte d - 128)) = [a, b, c, d]"
proof -
  obtain p q t u where x: "byte a = 240 + p" "byte b = 128 + q" "byte c = 128 + t" "byte d = 128 + u"
      "q < 64" "t < 64" "u < 64" "p = 0 \<longrightarrow> 16 \<le> q"
    using assms le_Suc_ex [of 240 "byte a"] le_Suc_ex [of 128 "byte b"] le_Suc_ex [of 128 "byte c"]
      le_Suc_ex [of 128 "byte d"]
    by (auto simp: cont_byte_def)
  then have "\<not> p * 262144 + q * 4096 + t * 64 + u < 128" "\<not> p * 262144 + q * 4096 + t * 64 + u < 2048"
    "\<not> p * 262144 + q * 4096 + t * 64 + u < 65536" by (cases p; auto)+
  then show ?thesis
    using x radix_64_4 [OF x(5-7)] char_of_byte [of a] char_of_byte [of b] char_of_byte [of c]
      char_of_byte [of d]
    by (simp add: encode_rune_def)
qed

lemma decode_rune_Some:
  assumes "decode_rune s = (Some r, w)"
  shows "take w s = encode_rune r \<and> 0 < w \<and> w \<le> length s"
proof (cases s)
  case (Cons a t)
  consider "byte a < 128" | "194 \<le> byte a" "byte a \<le> 223" | "224 \<le> byte a" "byte a \<le> 239"
    | "240 \<le> byte a" "byte a \<le> 244"
    using assms Cons by (auto simp: decode_rune_def Let_def split: if_splits)
  then show ?thesis
  proof cases
    case 1
    then show ?thesis using assms Cons by (auto simp: decode_rune_def encode_rune_def)
  next
    case 2
    then show ?thesis using assms Cons encode_two [OF 2]
      by (auto simp: decode_rune_def Let_def split: list.splits if_splits)
  next
    case 3
    then show ?thesis using assms Cons encode_three [OF 3]
      by (auto simp: decode_rune_def Let_def split: list.splits if_splits)
  next
    case 4
    then show ?thesis using assms Cons encode_four [OF 4]
      by (auto simp: decode_rune_def Let_def split: list.splits if_splits)
  qed
qed (use assms in \<open>simp add: decode_rune_def\<close>)

lemma decode_rune_None:
  assumes "decode_rune (a # s) = (None, w)"
  shows "w = 1 \<and> 128 \<le> byte a"
  using assms
  by (auto simp: decode_rune_def Let_def split: list.splits if_splits)

lemma decode_rune_stable:
  assumes "decode_rune s = (Some r, w)"
  shows "decode_rune (take w s @ u) = (Some r, w)"
proof (cases s)
  case (Cons a t)
  note d = assms [unfolded Cons decode_rune_def, simplified Let_def list.case]
  consider "byte a < 128" | "194 \<le> byte a" "byte a \<le> 223" | "224 \<le> byte a" "byte a \<le> 239"
    | "240 \<le> byte a" "byte a \<le> 244"
    using d by (auto split: if_splits)
  then show ?thesis
  proof cases
    case 1
    then show ?thesis using d Cons by (auto simp: decode_rune_def)
  next
    case 2
    then obtain b t' where "t = b # t'" "cont_byte b"
      using d by (cases t) (auto split: if_splits)
    with 2 d Cons show ?thesis by (auto simp: decode_rune_def)
  next
    case 3
    then obtain b c t' where t: "t = b # c # t'"
      using d by (auto split: list.splits)
    show ?thesis
      using 3 d Cons unfolding t decode_rune_def by (auto split: if_splits)
  next
    case 4
    then obtain b c e t' where t: "t = b # c # e # t'"
      using d by (auto split: list.splits)
    show ?thesis
      using 4 d Cons unfolding t decode_rune_def by (auto split: if_splits)
  qed
qed (use assms in \<open>simp add: decode_rune_def\<close>)

lemma decode_rune_prefix_free:
  assumes "decode_rune s = (Some r, w)" "decode_rune s' = (Some r', w')"
    and "take w s @ u = take w' s' @ v"
  shows "r = r' \<and> take w s = take w' s' \<and> u = v"
proof -
  have "(Some r, w) = (Some r', w')"
    using decode_rune_stable [OF assms(1), of u] decode_rune_stable [OF assms(2), of v] assms(3) by simp
  then show ?thesis
    using assms decode_rune_Some [OF assms(1)] decode_rune_Some [OF assms(2)] by auto
qed

section \<open>\<open>strconv.Quote\<close>\<close>

text \<open>
  \<open>lowerhex\<close> digits. The printable code points beyond ASCII are a Unicode table, a field of the
  record of external functions. \<open>"\<close> is byte 34 and the backslash byte 92.
\<close>

definition hex_digit :: "nat \<Rightarrow> char" where
  "hex_digit d = (if d < 10 then char_of (48 + d) else char_of (87 + d))"

fun hex_digits :: "nat \<Rightarrow> nat \<Rightarrow> string" where
  "hex_digits 0 v = []"
| "hex_digits (Suc n) v = hex_digits n (v div 16) @ [hex_digit (v mod 16)]"

definition is_print :: "ext_lib \<Rightarrow> nat \<Rightarrow> bool" where
  "is_print L r = (if r < 128 then 32 \<le> r \<and> r \<le> 126 else unicode_print L r)"

abbreviation bslash :: char where "bslash \<equiv> CHR 0x5C"
abbreviation dquote :: char where "dquote \<equiv> CHR 0x22"

definition simple_escape :: "nat \<Rightarrow> char option" where
  "simple_escape r =
     map_of [(7, CHR ''a''), (8, CHR ''b''), (12, CHR ''f''), (10, CHR ''n''), (13, CHR ''r''),
       (9, CHR ''t''), (11, CHR ''v'')] r"

text \<open>\<open>appendEscapedRune\<close>, and the escape of an invalid byte.\<close>

definition escape_rune :: "ext_lib \<Rightarrow> nat \<Rightarrow> string" where
  "escape_rune L r =
     (if r = 34 \<or> r = 92 then [bslash, char_of r]
      else if is_print L r then encode_rune r
      else (case simple_escape r of
              Some c \<Rightarrow> [bslash, c]
            | None \<Rightarrow>
                (if r < 32 \<or> r = 127 then bslash # CHR ''x'' # hex_digits 2 r
                 else if r < 65536 then bslash # CHR ''u'' # hex_digits 4 r
                 else bslash # CHR ''U'' # hex_digits 8 r)))"

function quote_loop :: "ext_lib \<Rightarrow> string \<Rightarrow> string" where
  "quote_loop L s =
     (if s = [] then []
      else (case decode_rune s of
              (None, w) \<Rightarrow> bslash # CHR ''x'' # hex_digits 2 (byte (hd s)) @ quote_loop L (tl s)
            | (Some r, w) \<Rightarrow> escape_rune L r @ quote_loop L (drop w s)))"
  by pat_completeness auto
termination
  by (relation "measure (\<lambda>(L, s). length s)") (auto dest: decode_rune_Some [OF sym])

declare quote_loop.simps [simp del]

definition strconv_quote :: "ext_lib \<Rightarrow> string \<Rightarrow> string" where
  "strconv_quote L s = dquote # quote_loop L s @ [dquote]"

text \<open>A piece of a quoted string determines the bytes it stands for.\<close>

lemma hex_digit_inj: "a < 16 \<Longrightarrow> b < 16 \<Longrightarrow> hex_digit a = hex_digit b \<longleftrightarrow> a = b"
proof -
  assume "a < 16" "b < 16"
  moreover have "byte (hex_digit a) = byte (hex_digit b) \<longrightarrow> a = b" if "a < 16" "b < 16"
    using that by (auto simp: hex_digit_def split: if_splits)
  ultimately show ?thesis by auto
qed

lemma length_hex_digits [simp]: "length (hex_digits n v) = n"
  by (induction n arbitrary: v) auto

lemma hex_digits_inj: "a < 16 ^ n \<Longrightarrow> b < 16 ^ n \<Longrightarrow> hex_digits n a = hex_digits n b \<longleftrightarrow> a = b"
proof (induction n arbitrary: a b)
  case (Suc n)
  have "a div 16 < 16 ^ n" "b div 16 < 16 ^ n"
    using Suc.prems by (auto simp: less_mult_imp_div_less mult.commute)
  then have "hex_digits (Suc n) a = hex_digits (Suc n) b \<longleftrightarrow> a div 16 = b div 16 \<and> a mod 16 = b mod 16"
    using Suc.IH by (auto simp: hex_digit_inj)
  also have "\<dots> \<longleftrightarrow> a = b" by (metis div_mult_mod_eq)
  finally show ?case .
qed simp

lemma decode_rune_bound:
  assumes "decode_rune s = (Some r, w)"
  shows "r < 16 ^ 8"
proof (cases s)
  case (Cons a t)
  have b: "byte x \<le> 255" for x using byte_less [of x] by simp
  show ?thesis
    using assms Cons b [of a] b [of "t ! 0"] b [of "t ! 1"] b [of "t ! 2"]
    by (auto simp: decode_rune_def Let_def cont_byte_def split: list.splits if_splits)
qed (use assms in \<open>simp add: decode_rune_def\<close>)

definition escape_tail :: "nat \<Rightarrow> string" where
  "escape_tail r =
     (if r = 34 \<or> r = 92 then [char_of r]
      else (case simple_escape r of
              Some c \<Rightarrow> [c]
            | None \<Rightarrow>
                (if r < 32 \<or> r = 127 then CHR ''x'' # hex_digits 2 r
                 else if r < 65536 then CHR ''u'' # hex_digits 4 r
                 else CHR ''U'' # hex_digits 8 r)))"

lemma escape_rune_eq:
  "escape_rune L r =
     (if r \<noteq> 34 \<and> r \<noteq> 92 \<and> is_print L r then encode_rune r else bslash # escape_tail r)"
  by (auto simp: escape_rune_def escape_tail_def split: option.splits)

lemma hex_digits_append:
  assumes "hex_digits n a @ u = hex_digits n b @ v" "a < 16 ^ n" "b < 16 ^ n"
  shows "a = b \<and> u = v"
  using assms by (auto simp: hex_digits_inj)

definition escape_chars :: "(nat \<times> char) list" where
  "escape_chars = [(34, dquote), (92, bslash), (7, CHR ''a''), (8, CHR ''b''), (12, CHR ''f''),
     (10, CHR ''n''), (13, CHR ''r''), (9, CHR ''t''), (11, CHR ''v'')]"

lemma escape_tail_cases:
  obtains (simple) c where "escape_tail r = [c]" "(r, c) \<in> set escape_chars"
    | (hex2) "escape_tail r = CHR ''x'' # hex_digits 2 r" "r < 128"
    | (hex4) "escape_tail r = CHR ''u'' # hex_digits 4 r" "r < 65536"
    | (hex8) "escape_tail r = CHR ''U'' # hex_digits 8 r"
proof -
  have q: "char_of (34 :: nat) = dquote" "char_of (92 :: nat) = bslash" by code_simp+
  consider "r = 34 \<or> r = 92" | c where "r \<noteq> 34" "r \<noteq> 92" "simple_escape r = Some c"
    | "r \<noteq> 34" "r \<noteq> 92" "simple_escape r = None" by fastforce
  then show thesis
  proof cases
    case 1
    then show ?thesis using that(1) q by (auto simp: escape_tail_def escape_chars_def)
  next
    case 2
    then have "(r, c) \<in> set escape_chars"
      by (auto simp: escape_chars_def simple_escape_def split: if_splits)
    with 2 show ?thesis using that(1) by (simp add: escape_tail_def)
  next
    case 3
    then have "escape_tail r = (if r < 32 \<or> r = 127 then CHR ''x'' # hex_digits 2 r
        else if r < 65536 then CHR ''u'' # hex_digits 4 r else CHR ''U'' # hex_digits 8 r)"
      by (simp add: escape_tail_def)
    then show ?thesis
      using that(2-4) by (cases "r < 32 \<or> r = 127"; cases "r < 65536") auto
  qed
qed

lemma escape_chars_inj:
  "(r, c) \<in> set escape_chars \<Longrightarrow> (r', c) \<in> set escape_chars \<Longrightarrow> r = r'"
  "(r, c) \<in> set escape_chars \<Longrightarrow> c \<noteq> CHR ''x'' \<and> c \<noteq> CHR ''u'' \<and> c \<noteq> CHR ''U''"
  by (auto simp: escape_chars_def)

lemma escape_tail_inj:
  assumes "escape_tail r @ u = escape_tail r' @ v" "r < 16 ^ 8" "r' < 16 ^ 8"
  shows "r = r' \<and> u = v"
proof (cases r rule: escape_tail_cases)
  case (simple c)
  then show ?thesis
    by (cases r' rule: escape_tail_cases)
      (use assms(1) in \<open>auto dest: escape_chars_inj\<close>)
next
  case hex2
  have "r' < 128 \<Longrightarrow> hex_digits 2 r @ u = hex_digits 2 r' @ v \<Longrightarrow> ?thesis"
    using hex2 by (intro hex_digits_append) auto
  with hex2 show ?thesis
    by (cases r' rule: escape_tail_cases)
      (use assms(1) in \<open>auto dest: escape_chars_inj simp del: append_eq_append_conv\<close>)
next
  case hex4
  have "r' < 65536 \<Longrightarrow> hex_digits 4 r @ u = hex_digits 4 r' @ v \<Longrightarrow> ?thesis"
    using hex4 by (intro hex_digits_append) auto
  with hex4 show ?thesis
    by (cases r' rule: escape_tail_cases)
      (use assms(1) in \<open>auto dest: escape_chars_inj simp del: append_eq_append_conv\<close>)
next
  case hex8
  have "hex_digits 8 r @ u = hex_digits 8 r' @ v \<Longrightarrow> ?thesis"
    by (rule hex_digits_append [of 8 r u r' v]) (use assms(2,3) in simp_all)
  with hex8 show ?thesis
    by (cases r' rule: escape_tail_cases)
      (use assms(1) in \<open>auto dest: escape_chars_inj simp del: append_eq_append_conv\<close>)
qed

lemma escape_tail_not_byte:
  assumes "escape_tail r @ u = CHR ''x'' # hex_digits 2 b @ v" "128 \<le> b" "b < 256"
  shows False
proof (cases r rule: escape_tail_cases)
  case hex2
  with assms have "r = b \<and> u = v" by (intro hex_digits_append [of 2]) auto
  with hex2 assms show ?thesis by simp
qed (use assms in \<open>auto dest: escape_chars_inj\<close>)

text \<open>The text emitted for the first rune of a string, and the bytes of that rune.\<close>

definition piece :: "ext_lib \<Rightarrow> string \<Rightarrow> string" where
  "piece L s = (case decode_rune s of
     (None, w) \<Rightarrow> bslash # CHR ''x'' # hex_digits 2 (byte (hd s))
   | (Some r, w) \<Rightarrow> escape_rune L r)"

abbreviation width :: "string \<Rightarrow> nat" where
  "width s \<equiv> snd (decode_rune s)"

lemma quote_loop_Nil [simp]: "quote_loop L [] = []"
  by (simp add: quote_loop.simps)

lemma quote_loop_piece:
  assumes "s \<noteq> []"
  shows "quote_loop L s = piece L s @ quote_loop L (drop (width s) s)"
  using assms decode_rune_None [of "hd s" "tl s"]
  by (subst quote_loop.simps) (auto simp: piece_def drop_Suc split: prod.splits option.splits)

lemma width_bounds: "s \<noteq> [] \<Longrightarrow> 0 < width s \<and> width s \<le> length s"
  using decode_rune_Some [of s] decode_rune_None [of "hd s" "tl s"]
  by (cases "decode_rune s"; cases "fst (decode_rune s)") (auto simp: neq_Nil_conv)

text \<open>A printed rune does not start with a backslash or a quote.\<close>

lemma printed_rune:
  assumes "decode_rune s = (Some r, w)" "r \<noteq> 34" "r \<noteq> 92"
  shows "\<exists>c cs. encode_rune r = c # cs \<and> c \<noteq> bslash \<and> c \<noteq> dquote"
proof -
  have "encode_rune r \<noteq> []" using decode_rune_Some [OF assms(1)] by auto
  then obtain c cs where e: "encode_rune r = c # cs" by (cases "encode_rune r") auto
  obtain rest where s: "s = c # rest"
    using decode_rune_Some [OF assms(1)] e by (cases s; cases w) auto
  have "byte c = r" if "byte c < 128"
    using assms(1) that unfolding s decode_rune_def by simp
  moreover have "byte bslash = 92" "byte dquote = 34" by code_simp+
  ultimately have "c \<noteq> bslash \<and> c \<noteq> dquote" using assms(2,3) by auto
  with e show ?thesis by blast
qed

lemma piece_cases:
  assumes "s \<noteq> []"
  obtains (raw) r c cs where "decode_rune s = (Some r, width s)" "piece L s = take (width s) s"
      "piece L s = c # cs" "c \<noteq> bslash" "c \<noteq> dquote"
    | (escape) r where "decode_rune s = (Some r, width s)" "piece L s = bslash # escape_tail r"
    | (invalid) "width s = 1" "128 \<le> byte (hd s)"
      "piece L s = bslash # CHR ''x'' # hex_digits 2 (byte (hd s))"
proof (cases "decode_rune s")
  case (Pair ro w)
  show thesis
  proof (cases ro)
    case None
    then show ?thesis
      using Pair assms that(3) decode_rune_None [of "hd s" "tl s"] by (simp add: piece_def)
  next
    case (Some r)
    show ?thesis
    proof (cases "r \<noteq> 34 \<and> r \<noteq> 92 \<and> is_print L r")
      case True
      with Pair Some show ?thesis
        using that(1) [of r] printed_rune [of s r w] decode_rune_Some [of s r w]
        by (auto simp: piece_def escape_rune_eq)
    next
      case False
      with Pair Some show ?thesis using that(2) [of r] by (auto simp: piece_def escape_rune_eq)
    qed
  qed
qed

lemma piece_inj:
  assumes "s \<noteq> []" "t \<noteq> []" "piece L s @ u = piece L t @ v"
  shows "take (width s) s = take (width t) t \<and> u = v"
proof -
  note eq = assms(3)
  from assms(1) show ?thesis
proof (cases rule: piece_cases [where L = L])
  case (raw r c cs)
  note r = raw
  from assms(2) show ?thesis
  proof (cases rule: piece_cases [where L = L])
    case (raw r')
    have "take (width s) s @ u = take (width t) t @ v"
      using eq r(2) raw(2) by simp
    from decode_rune_prefix_free [OF r(1) raw(1) this] show ?thesis by simp
  next
    case (escape r')
    show ?thesis using eq [unfolded r(3) escape(2)] r(4) by simp
  next
    case invalid
    show ?thesis using eq [unfolded r(3) invalid(3)] r(4) by simp
  qed
next
  case (escape r)
  note r = escape
  from assms(2) show ?thesis
  proof (cases rule: piece_cases [where L = L])
    case (raw r' c cs)
    show ?thesis using eq [unfolded r(2) raw(3)] raw(4) by simp
  next
    case (escape r')
    have "escape_tail r @ u = escape_tail r' @ v"
      using r(2) escape(2) eq by simp
    then have "r = r' \<and> u = v"
      by (rule escape_tail_inj) (use decode_rune_bound [OF r(1)] decode_rune_bound [OF escape(1)] in auto)
    then show ?thesis
      using decode_rune_Some [OF r(1)] decode_rune_Some [OF escape(1)] by simp
  next
    case invalid
    have "escape_tail r @ u = CHR ''x'' # hex_digits 2 (byte (hd t)) @ v"
      using r(2) invalid(3) eq by simp
    then have False by (rule escape_tail_not_byte) (use invalid(2) byte_less in auto)
    then show ?thesis ..
  qed
next
  case invalid
  note i = invalid
  from assms(2) show ?thesis
  proof (cases rule: piece_cases [where L = L])
    case (raw r' c cs)
    show ?thesis using eq [unfolded i(3) raw(3)] raw(4) by simp
  next
    case (escape r)
    have "escape_tail r @ v = CHR ''x'' # hex_digits 2 (byte (hd s)) @ u"
      using escape(2) i(3) eq by simp
    then have False by (rule escape_tail_not_byte) (use i(2) byte_less in auto)
    then show ?thesis ..
  next
    case invalid
    have "hex_digits 2 (byte (hd s)) @ u = hex_digits 2 (byte (hd t)) @ v"
      using i(3) invalid(3) eq by simp
    then have "byte (hd s) = byte (hd t) \<and> u = v"
      by (rule hex_digits_append) (use byte_less in auto)
    then have "hd s = hd t \<and> u = v" by (simp add: byte_def)
    then show ?thesis using i(1) invalid(1) assms(1,2) by (cases s; cases t) auto
  qed
qed
qed

lemma piece_no_quote:
  assumes "s \<noteq> []"
  shows "piece L s @ u \<noteq> dquote # v"
  using assms
proof (cases rule: piece_cases [where L = L])
  case (raw r c cs)
  show ?thesis unfolding raw(3) using raw(5) by simp
qed simp_all

theorem quote_loop_prefix_free:
  "quote_loop L s @ dquote # u = quote_loop L t @ dquote # v \<Longrightarrow> s = t \<and> u = v"
proof (induction "length s" arbitrary: s t rule: less_induct)
  case less
  consider "s = []" "t = []" | "s = []" "t \<noteq> []" | "s \<noteq> []" "t = []" | "s \<noteq> []" "t \<noteq> []" by blast
  then show ?case
  proof cases
    case 1
    then show ?thesis using less.prems by simp
  next
    case 2
    then show ?thesis
      using less.prems piece_no_quote [of t L "quote_loop L (drop (width t) t) @ dquote # v" u]
      by (simp add: quote_loop_piece [of t])
  next
    case 3
    then show ?thesis
      using less.prems piece_no_quote [of s L "quote_loop L (drop (width s) s) @ dquote # u" v]
      by (simp add: quote_loop_piece [of s])
  next
    case 4
    have "piece L s @ quote_loop L (drop (width s) s) @ dquote # u =
        piece L t @ quote_loop L (drop (width t) t) @ dquote # v"
      using less.prems 4 by (simp add: quote_loop_piece)
    from piece_inj [OF 4 this]
    have eq: "take (width s) s = take (width t) t"
      "quote_loop L (drop (width s) s) @ dquote # u = quote_loop L (drop (width t) t) @ dquote # v"
      by blast+
    have "length (drop (width s) s) < length s"
      using width_bounds [OF 4(1)] unfolding length_drop by linarith
    from less.hyps [OF this eq(2)] eq(1) show ?thesis
      by (metis append_take_drop_id)
  qed
qed

text \<open>The quoted forms of two strings are equal only when the strings are.\<close>

lemma strconv_quote_prefix_free: "strconv_quote L s @ u = strconv_quote L t @ v \<longleftrightarrow> s = t \<and> u = v"
  using quote_loop_prefix_free [of L s u t v] by (auto simp: strconv_quote_def)

section \<open>Lists of strings\<close>

text \<open>
  \<open>sort.Strings\<close> orders by bytes, as the library order on \<^typ>\<open>string\<close> does. \<open>%q\<close> on a slice quotes
  every element and \<open>%v\<close> leaves it as it is; both put spaces between them and brackets around.
\<close>

definition sort_strings :: "string list \<Rightarrow> string list" where
  "sort_strings ss = sort ss"

definition format_q :: "ext_lib \<Rightarrow> string list \<Rightarrow> string" where
  "format_q L ss = ''['' @ join_with (CHR '' '') (map (strconv_quote L) ss) @ '']''"

definition format_v :: "string list \<Rightarrow> string" where
  "format_v ss = ''['' @ join_with (CHR '' '') ss @ '']''"

lemma quoted_list_inj:
  "join_with (CHR '' '') (map (strconv_quote L) ss) @ CHR '']'' # u =
   join_with (CHR '' '') (map (strconv_quote L) ts) @ CHR '']'' # v \<Longrightarrow> ss = ts \<and> u = v"
proof (induction ss arbitrary: ts)
  case Nil
  then show ?case by (cases ts; cases "tl ts") (auto simp: strconv_quote_def)
next
  case (Cons s ss)
  obtain t ts' where ts: "ts = t # ts'"
    using Cons.prems by (cases ts; cases ss) (auto simp: strconv_quote_def)
  define rest where "rest zs w = (if zs = [] then CHR '']'' # w
    else CHR '' '' # join_with (CHR '' '') (map (strconv_quote L) zs) @ CHR '']'' # w)" for zs w
  have j: "join_with (CHR '' '') (map (strconv_quote L) (z # zs)) @ CHR '']'' # w =
      strconv_quote L z @ rest zs w" for z zs w
    by (cases zs) (auto simp: rest_def)
  have "s = t \<and> rest ss u = rest ts' v"
    using Cons.prems unfolding ts j strconv_quote_prefix_free .
  then show ?case
    using Cons.IH [of ts'] unfolding ts rest_def by (auto split: if_splits)
qed

lemma format_q_inj: "format_q L ss @ u = format_q L ts @ v \<longleftrightarrow> ss = ts \<and> u = v"
  using quoted_list_inj [of L ss u ts v] by (auto simp: format_q_def)

subsection \<open>The quoted list at the end of a text\<close>

text \<open>
  In a quoted list every quote either delimits an element or follows a backslash. Reading the text
  of one list from the inside of another exchanges the inside and the outside of the elements, and
  no text can be read in both ways: a text that ends in a colon and a quoted list has only one.
\<close>

fun outside :: "ext_lib \<Rightarrow> string list \<Rightarrow> string" where
  "outside L [] = '']''"
| "outside L (s # ss) = CHR '' '' # strconv_quote L s @ outside L ss"

definition inside :: "ext_lib \<Rightarrow> string \<Rightarrow> string list \<Rightarrow> string" where
  "inside L s ss = quote_loop L s @ dquote # outside L ss"

lemma format_q_Nil: "format_q L [] = ''[]''"
  by (simp add: format_q_def)

lemma format_q_Cons: "format_q L (s # ss) = CHR ''['' # dquote # inside L s ss"
proof -
  have "join_with (CHR '' '') (map (strconv_quote L) (s # ss)) @ '']'' =
      strconv_quote L s @ outside L ss" for s
    by (induction ss arbitrary: s) auto
  then show ?thesis by (simp add: format_q_def inside_def strconv_quote_def)
qed

lemma quote_loop_space: "quote_loop L '' '' = '' ''"
proof -
  have b: "byte (CHR '' '') = 32" by code_simp
  have c: "char_of (32 :: nat) = CHR '' ''" by code_simp
  show ?thesis
    by (simp add: quote_loop.simps decode_rune_def escape_rune_def is_print_def encode_rune_def b c)
qed

lemma outside_not_inside: "outside L ss \<noteq> inside L t ts"
proof (induction "length (outside L ss)" arbitrary: ss t ts rule: less_induct)
  case less
  show ?case
  proof
    assume eq: "outside L ss = inside L t ts"
    show False
    proof (cases ss)
      case Nil
      have "outside L ts \<noteq> []" by (cases ts) auto
      with eq Nil show False by (cases "quote_loop L t") (auto simp: inside_def)
    next
      case (Cons s ss')
      have "quote_loop L '' '' @ dquote # inside L s ss' = quote_loop L t @ dquote # outside L ts"
        using eq unfolding Cons quote_loop_space by (simp add: inside_def strconv_quote_def)
      from quote_loop_prefix_free [OF this]
      have "outside L ts = inside L s ss'" by simp
      moreover have "length (outside L ts) < length (outside L ss)"
        unfolding eq by (simp add: inside_def)
      ultimately show False using less.hyps by blast
    qed
  qed
qed

lemma hex_digit_not_quote: "d < 16 \<Longrightarrow> hex_digit d \<noteq> dquote"
proof
  assume "d < 16" "hex_digit d = dquote"
  moreover have "byte dquote = 34" by code_simp
  ultimately have "byte (hex_digit d) = 34" by simp
  then show False using \<open>d < 16\<close> by (auto simp: hex_digit_def split: if_splits)
qed

lemma hex_digits_no_quote: "dquote \<notin> set (hex_digits n v)"
  by (induction n arbitrary: v) (auto simp: hex_digit_not_quote [symmetric])

lemma cont_not_quote: "char_of (128 + n mod 64 :: nat) \<noteq> dquote"
proof
  have "128 + n mod 64 < 256" by (simp add: add_less_le_mono less_imp_le)
  moreover assume "char_of (128 + n mod 64) = dquote"
  moreover have "byte dquote = 34" by code_simp
  ultimately have "128 + n mod 64 = 34" by (metis byte_char_of)
  then show False by simp
qed

lemma piece_quote:
  assumes "s \<noteq> []" "piece L s = x @ dquote # z"
  shows "x \<noteq> [] \<and> last x = bslash"
  using assms(1)
proof (cases rule: piece_cases [where L = L])
  case (raw r c cs)
  have e: "encode_rune r = c # cs"
    using decode_rune_Some [OF raw(1)] raw(2,3) by simp
  have "dquote \<notin> set cs"
    using e cont_not_quote [THEN not_sym] by (auto simp: encode_rune_def split: if_splits)
  then have "dquote \<notin> set (piece L s)" unfolding raw(3) using raw(5) by simp
  then show ?thesis unfolding assms(2) by simp
next
  case (escape r)
  have q: "dquote \<in> set (bslash # escape_tail r)"
    unfolding escape(2) [symmetric] assms(2) by simp
  show ?thesis
  proof (cases r rule: escape_tail_cases)
    case (simple c)
    have "[bslash, c] = x @ dquote # z"
      using escape(2) [unfolded assms(2) simple(1)] by simp
    then show ?thesis by (cases x; cases "tl x") auto
  qed (use q hex_digits_no_quote in simp_all)
next
  case invalid
  have "dquote \<in> set (bslash # CHR ''x'' # hex_digits 2 (byte (hd s)))"
    unfolding invalid(3) [symmetric] assms(2) by simp
  then show ?thesis using hex_digits_no_quote by simp
qed

lemma quote_loop_quote:
  "quote_loop L s = x @ dquote # z \<Longrightarrow> x \<noteq> [] \<and> last x = bslash"
proof (induction "length s" arbitrary: s x rule: less_induct)
  case less
  then have ne: "s \<noteq> []" by auto
  have "piece L s @ quote_loop L (drop (width s) s) = x @ dquote # z"
    using less.prems quote_loop_piece [OF ne] by simp
  then consider y where "piece L s = x @ dquote # y"
    | y where "x = piece L s @ y" "quote_loop L (drop (width s) s) = y @ dquote # z"
    by (auto simp: append_eq_append_conv2 append_eq_Cons_conv)
  then show ?case
  proof cases
    case 1
    then show ?thesis using piece_quote [OF ne] by blast
  next
    case 2
    have "length (drop (width s) s) < length s"
      using width_bounds [OF ne] unfolding length_drop by linarith
    from less.hyps [OF this 2(2)] 2(1) show ?thesis by simp
  qed
qed

text \<open>A quote after a bracket inside a list closes an element.\<close>

lemma inside_bracket_quote:
  "inside L s ss = p @ dquote # w \<Longrightarrow> p \<noteq> [] \<Longrightarrow> last p = CHR ''['' \<Longrightarrow> \<exists>ss'. w = outside L ss'"
proof (induction ss arbitrary: s p)
  case Nil
  then consider y where "quote_loop L s = p @ dquote # y" | "p = quote_loop L s" "w = outside L []"
    by (auto simp: inside_def append_eq_append_conv2 append_eq_Cons_conv Cons_eq_append_conv)
  then show ?case
    by cases (use quote_loop_quote Nil.prems in fastforce)+
next
  case (Cons s2 ss)
  then consider (within) y where "quote_loop L s = p @ dquote # y"
    | (at) "p = quote_loop L s" "w = outside L (s2 # ss)"
    | (space) "p = quote_loop L s @ [dquote, CHR '' '']"
    | (later) p' where "p = quote_loop L s @ [dquote, CHR '' '', dquote] @ p'"
        "inside L s2 ss = p' @ dquote # w"
    by (auto simp: inside_def strconv_quote_def append_eq_append_conv2 append_eq_Cons_conv
        Cons_eq_append_conv)
  then show ?case
  proof cases
    case within
    then show ?thesis using quote_loop_quote Cons.prems(3) by fastforce
  next
    case later
    then show ?thesis using Cons.IH [OF later(2)] Cons.prems(3) by (cases "p' = []") auto
  next
    case at
    then show ?thesis by blast
  qed (use Cons.prems(3) in auto)
qed

lemma outside_end: "\<exists>x. outside L ss = x @ '']''"
  by (induction ss) (auto simp: strconv_quote_def)

lemma format_q_end:
  assumes "ss \<noteq> []"
  shows "\<exists>x. format_q L ss = x @ [dquote, CHR '']'']"
proof -
  have "\<exists>x. dquote # outside L ss = x @ [dquote, CHR '']'']" for ss
  proof (induction ss)
    case (Cons s ss)
    then obtain x where "dquote # outside L ss = x @ [dquote, CHR '']'']" by blast
    then have "dquote # outside L (s # ss) =
        (dquote # CHR '' '' # dquote # quote_loop L s @ x) @ [dquote, CHR '']'']"
      by (simp add: strconv_quote_def)
    then show ?case by blast
  qed simp
  then obtain x where "dquote # outside L (tl ss) = x @ [dquote, CHR '']'']" by blast
  then have "format_q L ss = (CHR ''['' # dquote # quote_loop L (hd ss) @ x) @ [dquote, CHR '']'']"
    using assms format_q_Cons [of L "hd ss" "tl ss"] by (simp add: inside_def)
  then show ?thesis by blast
qed

lemma format_q_not_nested: "format_q L ss \<noteq> x @ CHR '':'' # format_q L ts"
proof
  assume eq: "format_q L ss = x @ CHR '':'' # format_q L ts"
  have x: "x \<noteq> []" using eq by (auto simp: format_q_def)
  have ss: "ss \<noteq> []"
  proof
    assume "ss = []"
    then have "length (format_q L ss) = 2" by (simp add: format_q_Nil)
    moreover have "length (format_q L ts) \<ge> 2" by (simp add: format_q_def)
    ultimately show False using eq by simp
  qed
  show False
  proof (cases ts)
    case Nil
    from format_q_end [OF ss] obtain y where "format_q L ss = y @ [dquote, CHR '']'']" by blast
    then have "(y @ [dquote]) @ '']'' = (x @ '':['') @ '']''"
      using eq unfolding Nil format_q_Nil by simp
    then have "y @ [dquote] = x @ '':[''" by blast
    then have "last (y @ [dquote]) = last (x @ '':['')" by simp
    then show False by simp
  next
    case (Cons t ts')
    have "CHR ''['' # dquote # inside L (hd ss) (tl ss) =
        (x @ '':['') @ dquote # inside L t ts'"
      using eq format_q_Cons [of L "hd ss" "tl ss"] ss
      unfolding Cons format_q_Cons list.collapse [OF ss] by simp
    then obtain p where p: "x @ '':['' = CHR ''['' # dquote # p"
        "inside L (hd ss) (tl ss) = p @ dquote # inside L t ts'"
      using x by (cases x; cases "tl x") (auto simp: Cons_eq_append_conv)
    have "last (CHR ''['' # dquote # p) = CHR ''[''" unfolding p(1) [symmetric] by simp
    then have "p \<noteq> [] \<and> last p = CHR ''[''" by (cases p) auto
    then obtain ss' where "inside L t ts' = outside L ss'"
      using inside_bracket_quote [OF p(2)] by blast
    then show False using outside_not_inside by metis
  qed
qed

theorem text_with_list:
  assumes "k @ CHR '':'' # format_q L ss = k' @ CHR '':'' # format_q L ts"
  shows "k = k' \<and> ss = ts"
proof -
  consider x where "k' = k @ x" "CHR '':'' # format_q L ss = x @ CHR '':'' # format_q L ts"
    | x where "k = k' @ x" "CHR '':'' # format_q L ts = x @ CHR '':'' # format_q L ss"
    using assms by (auto simp: append_eq_append_conv2)
  then show ?thesis
  proof cases
    case 1
    then show ?thesis
      using format_q_not_nested [of L ss "tl x" ts] format_q_inj [of L ss "[]" ts "[]"]
      by (cases x) auto
  next
    case 2
    then show ?thesis
      using format_q_not_nested [of L ts "tl x" ss] format_q_inj [of L ss "[]" ts "[]"]
      by (cases x) auto
  qed
qed

end
