(* ===== verification/CondPrint.thy ===== *)
theory CondPrint
  imports CondFacts GoQuote
begin

text \<open>
  The text of a condition function (\<open>String\<close>), its map form (\<open>toMap\<close>), its copy (\<open>clone\<close>), and the
  list operations of \<open>func.go\<close> that rest on them: equality of two lists of functions compares texts.
  The text determines a string, null, boolean or numeric condition; it does not determine a date
  condition, since \<open>time.RFC3339\<close> prints no fraction of a second.
\<close>

section \<open>\<open>String\<close>\<close>

definition stringFunc_String :: "ext_lib \<Rightarrow> string_func \<Rightarrow> string" where
  [simp]: "stringFunc_String L f =
     Name_String (sf_n f) @ '':'' @ Key_String (sf_k f) @ '':'' @
     format_q L (sort_strings (ss_toslice L (sf_values f)))"

definition nullFunc_String :: "null_func \<Rightarrow> string" where
  [simp]: "nullFunc_String f = nullName @ '':'' @ Key_String (nf_k f) @ '':'' @ format_bool (nf_value f)"

definition booleanFunc_String :: "bool_func \<Rightarrow> string" where
  [simp]: "booleanFunc_String f = booleanName @ '':'' @ Key_String (bf_k f) @ '':'' @ bf_value f"

definition numericFunc_String :: "numeric_func \<Rightarrow> string" where
  [simp]: "numericFunc_String f =
     Name_String (mf_n f) @ '':'' @ format_bool (mf_ifExists f) @ '':'' @ Key_String (mf_k f) @ '':'' @
     itoa (mf_value f)"

definition dateFunc_String :: "date_func \<Rightarrow> string" where
  [simp]: "dateFunc_String f =
     Name_String (df_n f) @ '':'' @ Key_String (df_k f) @ '':'' @ format_rfc3339 (df_value f)"

definition ipaddrFunc_String :: "ipaddr_func \<Rightarrow> string" where
  [simp]: "ipaddrFunc_String f =
     Name_String (if_n f) @ '':'' @ Key_String (if_k f) @ '':'' @
     format_v (sort_strings (map IPNet_String (if_values f)))"

fun fn_String :: "ext_lib \<Rightarrow> cond_function \<Rightarrow> string" where
  "fn_String L (StringFunc f) = stringFunc_String L f"
| "fn_String L (StringLikeFunc f) = stringFunc_String L f"
| "fn_String L (NullFunc f) = nullFunc_String f"
| "fn_String L (BooleanFunc f) = booleanFunc_String f"
| "fn_String L (NumericFunc f) = numericFunc_String f"
| "fn_String L (DateFunc f) = dateFunc_String f"
| "fn_String L (IPAddrFunc f) = ipaddrFunc_String f"

section \<open>\<open>toMap\<close>\<close>

text \<open>The map has one key; \<^term>\<open>None\<close> is the nil map of an invalid key.\<close>

definition stringFunc_toMap :: "ext_lib \<Rightarrow> string_func \<Rightarrow> (key \<times> valueset) option" where
  "stringFunc_toMap L f =
     (if \<not> Key_IsValid (sf_k f) then None
      else Some (sf_k f, foldl (\<lambda>values value. ValueSet_Add values
          (NewStringValue (if sf_base64 f then b64_encode value else value)))
        (NewValueSet []) (ss_toslice L (sf_values f))))"

definition nullFunc_toMap :: "null_func \<Rightarrow> (key \<times> valueset) option" where
  "nullFunc_toMap f =
     (if \<not> Key_IsValid (nf_k f) then None else Some (nf_k f, NewValueSet [NewBoolValue (nf_value f)]))"

definition booleanFunc_toMap :: "bool_func \<Rightarrow> (key \<times> valueset) option" where
  "booleanFunc_toMap f =
     (if \<not> Key_IsValid (bf_k f) then None else Some (bf_k f, NewValueSet [NewStringValue (bf_value f)]))"

definition numericFunc_toMap :: "numeric_func \<Rightarrow> (key \<times> valueset) option" where
  "numericFunc_toMap f =
     (if \<not> Key_IsValid (mf_k f) then None
      else Some (mf_k f, ValueSet_Add (NewValueSet []) (NewIntValue (mf_value f))))"

definition dateFunc_toMap :: "date_func \<Rightarrow> (key \<times> valueset) option" where
  "dateFunc_toMap f =
     (if \<not> Key_IsValid (df_k f) then None
      else Some (df_k f,
        ValueSet_Add (NewValueSet []) (NewStringValue (format_rfc3339 (df_value f)))))"

definition ipaddrFunc_toMap :: "ipaddr_func \<Rightarrow> (key \<times> valueset) option" where
  "ipaddrFunc_toMap f =
     (if \<not> Key_IsValid (if_k f) then None
      else Some (if_k f, foldl (\<lambda>values value. ValueSet_Add values (NewStringValue (IPNet_String value)))
        (NewValueSet []) (if_values f)))"

fun fn_toMap :: "ext_lib \<Rightarrow> cond_function \<Rightarrow> (key \<times> valueset) option" where
  "fn_toMap L (StringFunc f) = stringFunc_toMap L f"
| "fn_toMap L (StringLikeFunc f) = stringFunc_toMap L f"
| "fn_toMap L (NullFunc f) = nullFunc_toMap f"
| "fn_toMap L (BooleanFunc f) = booleanFunc_toMap f"
| "fn_toMap L (NumericFunc f) = numericFunc_toMap f"
| "fn_toMap L (DateFunc f) = dateFunc_toMap f"
| "fn_toMap L (IPAddrFunc f) = ipaddrFunc_toMap f"

section \<open>\<open>clone\<close>\<close>

definition stringFunc_copy :: "ext_lib \<Rightarrow> string_func \<Rightarrow> string_func" where
  "stringFunc_copy L f = f\<lparr>sf_values := ss_union L (sf_values f) (ss_create L [])\<rparr>"

definition stringFunc_clone :: "ext_lib \<Rightarrow> string_func \<Rightarrow> cond_function" where
  "stringFunc_clone L f = StringFunc (stringFunc_copy L f)"

definition stringLikeFunc_clone :: "ext_lib \<Rightarrow> string_func \<Rightarrow> cond_function" where
  "stringLikeFunc_clone L f = StringLikeFunc (stringFunc_copy L f)"

definition nullFunc_clone :: "null_func \<Rightarrow> cond_function" where
  "nullFunc_clone f = NullFunc \<lparr>nf_k = nf_k f, nf_value = nf_value f\<rparr>"

definition booleanFunc_clone :: "bool_func \<Rightarrow> cond_function" where
  "booleanFunc_clone f = BooleanFunc \<lparr>bf_k = bf_k f, bf_value = bf_value f\<rparr>"

definition numericFunc_clone :: "numeric_func \<Rightarrow> cond_function" where
  "numericFunc_clone f = NumericFunc \<lparr>mf_n = mf_n f, mf_k = mf_k f, mf_value = mf_value f,
     mf_c = mf_c f, mf_ifExists = mf_ifExists f\<rparr>"

definition dateFunc_clone :: "date_func \<Rightarrow> cond_function" where
  "dateFunc_clone f = DateFunc \<lparr>df_n = df_n f, df_k = df_k f, df_value = df_value f, df_c = df_c f\<rparr>"

text \<open>
  A network is copied by parsing its text; \<^term>\<open>None\<close> is a copy with a nil network, left by a
  text that does not parse, which the next evaluation of the copy dereferences.
\<close>

definition ipaddrFunc_clone :: "ipaddr_func \<Rightarrow> cond_function may_panic" where
  "ipaddrFunc_clone f =
     (let nets = map (\<lambda>n. ParseCIDR (IPNet_String n)) (if_values f)
      in if None \<in> set nets then None else Some (IPAddrFunc (f\<lparr>if_values := map the nets\<rparr>)))"

fun fn_clone :: "ext_lib \<Rightarrow> cond_function \<Rightarrow> cond_function may_panic" where
  "fn_clone L (StringFunc f) = Some (stringFunc_clone L f)"
| "fn_clone L (StringLikeFunc f) = Some (stringLikeFunc_clone L f)"
| "fn_clone L (NullFunc f) = Some (nullFunc_clone f)"
| "fn_clone L (BooleanFunc f) = Some (booleanFunc_clone f)"
| "fn_clone L (NumericFunc f) = Some (numericFunc_clone f)"
| "fn_clone L (DateFunc f) = Some (dateFunc_clone f)"
| "fn_clone L (IPAddrFunc f) = ipaddrFunc_clone f"

section \<open>Lists of functions\<close>

text \<open>The inner loop of \<open>Functions.Equals\<close> looks for a function with the same text.\<close>

definition Functions_Equals :: "ext_lib \<Rightarrow> fn_list \<Rightarrow> fn_list \<Rightarrow> bool" where
  "Functions_Equals L fs gs =
     (if length fs \<noteq> length gs then False
      else list_all (\<lambda>fi. list_ex (\<lambda>fj. fn_String L fi = fn_String L fj) gs) fs)"

definition Functions_String :: "ext_lib \<Rightarrow> fn_list \<Rightarrow> string" where
  "Functions_String L fs = format_v (sort_strings (map (fn_String L) fs))"

fun Functions_Clone :: "ext_lib \<Rightarrow> fn_list \<Rightarrow> fn_list may_panic" where
  "Functions_Clone L [] = Some []"
| "Functions_Clone L (f # fs) =
     (case fn_clone L f of None \<Rightarrow> None
      | Some g \<Rightarrow> map_option ((#) g) (Functions_Clone L fs))"

section \<open>Exported constructors\<close>

text \<open>
  \<open>NewNumericGreaterThanIfExistsFunc\<close> gives the function the name \<open>NumericGreaterThan\<close>.
\<close>

definition NewNumericEqualsFunc :: "key \<Rightarrow> int \<Rightarrow> cond_function" where
  "NewNumericEqualsFunc k v = NumericFunc \<lparr>mf_n = plain_name numericEquals, mf_k = k, mf_value = v,
     mf_c = CondEquals, mf_ifExists = False\<rparr>"

definition NewNumericNotEqualsFunc :: "key \<Rightarrow> int \<Rightarrow> cond_function" where
  "NewNumericNotEqualsFunc k v = NumericFunc \<lparr>mf_n = plain_name numericNotEquals, mf_k = k, mf_value = v,
     mf_c = CondNotEquals, mf_ifExists = False\<rparr>"

definition NewNumericGreaterThanFunc :: "key \<Rightarrow> int \<Rightarrow> cond_function" where
  "NewNumericGreaterThanFunc k v = NumericFunc \<lparr>mf_n = plain_name numericGreaterThan, mf_k = k, mf_value = v,
     mf_c = CondGreaterThan, mf_ifExists = False\<rparr>"

definition NewNumericGreaterThanIfExistsFunc :: "key \<Rightarrow> int \<Rightarrow> cond_function" where
  "NewNumericGreaterThanIfExistsFunc k v = NumericFunc \<lparr>mf_n = plain_name numericGreaterThan, mf_k = k, mf_value = v,
     mf_c = CondGreaterThan, mf_ifExists = True\<rparr>"

definition NewNumericGreaterThanEqualsFunc :: "key \<Rightarrow> int \<Rightarrow> cond_function" where
  "NewNumericGreaterThanEqualsFunc k v = NumericFunc \<lparr>mf_n = plain_name numericGreaterThanEquals, mf_k = k, mf_value = v,
     mf_c = CondGreaterThanEquals, mf_ifExists = False\<rparr>"

definition NewNumericLessThanFunc :: "key \<Rightarrow> int \<Rightarrow> cond_function" where
  "NewNumericLessThanFunc k v = NumericFunc \<lparr>mf_n = plain_name numericLessThan, mf_k = k, mf_value = v,
     mf_c = CondLessThan, mf_ifExists = False\<rparr>"

definition NewNumericLessThanEqualsFunc :: "key \<Rightarrow> int \<Rightarrow> cond_function" where
  "NewNumericLessThanEqualsFunc k v = NumericFunc \<lparr>mf_n = plain_name numericLessThanEquals, mf_k = k, mf_value = v,
     mf_c = CondLessThanEquals, mf_ifExists = False\<rparr>"

definition NewDateEqualsFunc :: "key \<Rightarrow> go_time \<Rightarrow> cond_function" where
  "NewDateEqualsFunc k v = DateFunc \<lparr>df_n = plain_name dateEquals, df_k = k, df_value = v, df_c = CondEquals\<rparr>"

definition NewDateNotEqualsFunc :: "key \<Rightarrow> go_time \<Rightarrow> cond_function" where
  "NewDateNotEqualsFunc k v = DateFunc \<lparr>df_n = plain_name dateNotEquals, df_k = k, df_value = v, df_c = CondNotEquals\<rparr>"

definition NewDateGreaterThanFunc :: "key \<Rightarrow> go_time \<Rightarrow> cond_function" where
  "NewDateGreaterThanFunc k v = DateFunc \<lparr>df_n = plain_name dateGreaterThan, df_k = k, df_value = v, df_c = CondGreaterThan\<rparr>"

definition NewDateGreaterThanEqualsFunc :: "key \<Rightarrow> go_time \<Rightarrow> cond_function" where
  "NewDateGreaterThanEqualsFunc k v = DateFunc \<lparr>df_n = plain_name dateGreaterThanEquals, df_k = k, df_value = v, df_c = CondGreaterThanEquals\<rparr>"

definition NewDateLessThanFunc :: "key \<Rightarrow> go_time \<Rightarrow> cond_function" where
  "NewDateLessThanFunc k v = DateFunc \<lparr>df_n = plain_name dateLessThan, df_k = k, df_value = v, df_c = CondLessThan\<rparr>"

definition NewDateLessThanEqualsFunc :: "key \<Rightarrow> go_time \<Rightarrow> cond_function" where
  "NewDateLessThanEqualsFunc k v = DateFunc \<lparr>df_n = plain_name dateLessThanEquals, df_k = k, df_value = v, df_c = CondLessThanEquals\<rparr>"

text \<open>The printed name of the first says nothing of the missing key it accepts.\<close>

lemma if_exists_constructor_name:
  "Name_String (fn_name (NewNumericGreaterThanIfExistsFunc k v)) = numericGreaterThan"
  by (simp add: NewNumericGreaterThanIfExistsFunc_def Name_String_def)

end
