(* ===== verification/ActionsS3.thy ===== *)
theory ActionsS3
  imports CondKeys Wildcard
begin

text \<open>
  The S3 actions: the action names, the supported ones and the condition keys each supports, from
  \<open>policy/action.go\<close>. A Go map is the list of its entries in one iteration order.
\<close>

type_synonym action = string

abbreviation (input) AbortMultipartUploadAction :: string where
  "AbortMultipartUploadAction \<equiv> ''s3:AbortMultipartUpload''"

abbreviation (input) CreateBucketAction :: string where
  "CreateBucketAction \<equiv> ''s3:CreateBucket''"

abbreviation (input) DeleteBucketAction :: string where
  "DeleteBucketAction \<equiv> ''s3:DeleteBucket''"

abbreviation (input) ForceDeleteBucketAction :: string where
  "ForceDeleteBucketAction \<equiv> ''s3:ForceDeleteBucket''"

abbreviation (input) DeleteBucketPolicyAction :: string where
  "DeleteBucketPolicyAction \<equiv> ''s3:DeleteBucketPolicy''"

abbreviation (input) DeleteBucketCorsAction :: string where
  "DeleteBucketCorsAction \<equiv> ''s3:DeleteBucketCors''"

abbreviation (input) DeleteObjectAction :: string where
  "DeleteObjectAction \<equiv> ''s3:DeleteObject''"

abbreviation (input) GetBucketLocationAction :: string where
  "GetBucketLocationAction \<equiv> ''s3:GetBucketLocation''"

abbreviation (input) GetBucketNotificationAction :: string where
  "GetBucketNotificationAction \<equiv> ''s3:GetBucketNotification''"

abbreviation (input) GetBucketPolicyAction :: string where
  "GetBucketPolicyAction \<equiv> ''s3:GetBucketPolicy''"

abbreviation (input) GetBucketCorsAction :: string where
  "GetBucketCorsAction \<equiv> ''s3:GetBucketCors''"

abbreviation (input) GetObjectAction :: string where
  "GetObjectAction \<equiv> ''s3:GetObject''"

abbreviation (input) GetObjectAttributesAction :: string where
  "GetObjectAttributesAction \<equiv> ''s3:GetObjectAttributes''"

abbreviation (input) HeadBucketAction :: string where
  "HeadBucketAction \<equiv> ''s3:HeadBucket''"

abbreviation (input) ListAllMyBucketsAction :: string where
  "ListAllMyBucketsAction \<equiv> ''s3:ListAllMyBuckets''"

abbreviation (input) ListBucketAction :: string where
  "ListBucketAction \<equiv> ''s3:ListBucket''"

abbreviation (input) GetBucketPolicyStatusAction :: string where
  "GetBucketPolicyStatusAction \<equiv> ''s3:GetBucketPolicyStatus''"

abbreviation (input) ListBucketVersionsAction :: string where
  "ListBucketVersionsAction \<equiv> ''s3:ListBucketVersions''"

abbreviation (input) ListBucketMultipartUploadsAction :: string where
  "ListBucketMultipartUploadsAction \<equiv> ''s3:ListBucketMultipartUploads''"

abbreviation (input) ListenNotificationAction :: string where
  "ListenNotificationAction \<equiv> ''s3:ListenNotification''"

abbreviation (input) ListenBucketNotificationAction :: string where
  "ListenBucketNotificationAction \<equiv> ''s3:ListenBucketNotification''"

abbreviation (input) ListMultipartUploadPartsAction :: string where
  "ListMultipartUploadPartsAction \<equiv> ''s3:ListMultipartUploadParts''"

abbreviation (input) PutBucketLifecycleAction :: string where
  "PutBucketLifecycleAction \<equiv> ''s3:PutLifecycleConfiguration''"

abbreviation (input) GetBucketLifecycleAction :: string where
  "GetBucketLifecycleAction \<equiv> ''s3:GetLifecycleConfiguration''"

abbreviation (input) PutBucketNotificationAction :: string where
  "PutBucketNotificationAction \<equiv> ''s3:PutBucketNotification''"

abbreviation (input) PutBucketPolicyAction :: string where
  "PutBucketPolicyAction \<equiv> ''s3:PutBucketPolicy''"

abbreviation (input) PutBucketCorsAction :: string where
  "PutBucketCorsAction \<equiv> ''s3:PutBucketCors''"

abbreviation (input) PutBucketQOSAction :: string where
  "PutBucketQOSAction \<equiv> ''s3:PutBucketQOS''"

abbreviation (input) GetBucketQOSAction :: string where
  "GetBucketQOSAction \<equiv> ''s3:GetBucketQOS''"

abbreviation (input) PutObjectAction :: string where
  "PutObjectAction \<equiv> ''s3:PutObject''"

abbreviation (input) DeleteObjectVersionAction :: string where
  "DeleteObjectVersionAction \<equiv> ''s3:DeleteObjectVersion''"

abbreviation (input) DeleteObjectVersionTaggingAction :: string where
  "DeleteObjectVersionTaggingAction \<equiv> ''s3:DeleteObjectVersionTagging''"

abbreviation (input) GetObjectVersionAction :: string where
  "GetObjectVersionAction \<equiv> ''s3:GetObjectVersion''"

abbreviation (input) GetObjectVersionAttributesAction :: string where
  "GetObjectVersionAttributesAction \<equiv> ''s3:GetObjectVersionAttributes''"

abbreviation (input) GetObjectVersionTaggingAction :: string where
  "GetObjectVersionTaggingAction \<equiv> ''s3:GetObjectVersionTagging''"

abbreviation (input) PutObjectVersionTaggingAction :: string where
  "PutObjectVersionTaggingAction \<equiv> ''s3:PutObjectVersionTagging''"

abbreviation (input) BypassGovernanceRetentionAction :: string where
  "BypassGovernanceRetentionAction \<equiv> ''s3:BypassGovernanceRetention''"

abbreviation (input) PutObjectRetentionAction :: string where
  "PutObjectRetentionAction \<equiv> ''s3:PutObjectRetention''"

abbreviation (input) GetObjectRetentionAction :: string where
  "GetObjectRetentionAction \<equiv> ''s3:GetObjectRetention''"

abbreviation (input) GetObjectLegalHoldAction :: string where
  "GetObjectLegalHoldAction \<equiv> ''s3:GetObjectLegalHold''"

abbreviation (input) PutObjectLegalHoldAction :: string where
  "PutObjectLegalHoldAction \<equiv> ''s3:PutObjectLegalHold''"

abbreviation (input) GetBucketObjectLockConfigurationAction :: string where
  "GetBucketObjectLockConfigurationAction \<equiv> ''s3:GetBucketObjectLockConfiguration''"

abbreviation (input) PutBucketObjectLockConfigurationAction :: string where
  "PutBucketObjectLockConfigurationAction \<equiv> ''s3:PutBucketObjectLockConfiguration''"

abbreviation (input) GetBucketTaggingAction :: string where
  "GetBucketTaggingAction \<equiv> ''s3:GetBucketTagging''"

abbreviation (input) PutBucketTaggingAction :: string where
  "PutBucketTaggingAction \<equiv> ''s3:PutBucketTagging''"

abbreviation (input) GetObjectTaggingAction :: string where
  "GetObjectTaggingAction \<equiv> ''s3:GetObjectTagging''"

abbreviation (input) PutObjectTaggingAction :: string where
  "PutObjectTaggingAction \<equiv> ''s3:PutObjectTagging''"

abbreviation (input) DeleteObjectTaggingAction :: string where
  "DeleteObjectTaggingAction \<equiv> ''s3:DeleteObjectTagging''"

abbreviation (input) UpdateObjectEncryptionAction :: string where
  "UpdateObjectEncryptionAction \<equiv> ''s3:UpdateObjectEncryption''"

abbreviation (input) PutBucketEncryptionAction :: string where
  "PutBucketEncryptionAction \<equiv> ''s3:PutEncryptionConfiguration''"

abbreviation (input) GetBucketEncryptionAction :: string where
  "GetBucketEncryptionAction \<equiv> ''s3:GetEncryptionConfiguration''"

abbreviation (input) PutBucketVersioningAction :: string where
  "PutBucketVersioningAction \<equiv> ''s3:PutBucketVersioning''"

abbreviation (input) GetBucketVersioningAction :: string where
  "GetBucketVersioningAction \<equiv> ''s3:GetBucketVersioning''"

abbreviation (input) GetReplicationConfigurationAction :: string where
  "GetReplicationConfigurationAction \<equiv> ''s3:GetReplicationConfiguration''"

abbreviation (input) PutReplicationConfigurationAction :: string where
  "PutReplicationConfigurationAction \<equiv> ''s3:PutReplicationConfiguration''"

abbreviation (input) ReplicateObjectAction :: string where
  "ReplicateObjectAction \<equiv> ''s3:ReplicateObject''"

abbreviation (input) ReplicateDeleteAction :: string where
  "ReplicateDeleteAction \<equiv> ''s3:ReplicateDelete''"

abbreviation (input) ReplicateTagsAction :: string where
  "ReplicateTagsAction \<equiv> ''s3:ReplicateTags''"

abbreviation (input) GetObjectVersionForReplicationAction :: string where
  "GetObjectVersionForReplicationAction \<equiv> ''s3:GetObjectVersionForReplication''"

abbreviation (input) RestoreObjectAction :: string where
  "RestoreObjectAction \<equiv> ''s3:RestoreObject''"

abbreviation (input) ResetBucketReplicationStateAction :: string where
  "ResetBucketReplicationStateAction \<equiv> ''s3:ResetBucketReplicationState''"

abbreviation (input) PutObjectFanOutAction :: string where
  "PutObjectFanOutAction \<equiv> ''s3:PutObjectFanOut''"

abbreviation (input) PutInventoryConfigurationAction :: string where
  "PutInventoryConfigurationAction \<equiv> ''s3:PutInventoryConfiguration''"

abbreviation (input) GetInventoryConfigurationAction :: string where
  "GetInventoryConfigurationAction \<equiv> ''s3:GetInventoryConfiguration''"

abbreviation (input) CreateSessionAction :: string where
  "CreateSessionAction \<equiv> ''s3express:CreateSession''"

abbreviation (input) AllActions :: string where
  "AllActions \<equiv> ''s3:*''"

definition SupportedActions :: "string list" where
  "SupportedActions = [
     AbortMultipartUploadAction, CreateBucketAction, DeleteBucketAction, ForceDeleteBucketAction,
     DeleteBucketPolicyAction, DeleteBucketCorsAction, DeleteObjectAction,
     GetBucketLocationAction, GetBucketNotificationAction, GetBucketPolicyAction,
     GetBucketCorsAction, GetObjectAction, HeadBucketAction, ListAllMyBucketsAction,
     ListBucketAction, GetBucketPolicyStatusAction, ListBucketVersionsAction,
     ListBucketMultipartUploadsAction, ListenNotificationAction, ListenBucketNotificationAction,
     ListMultipartUploadPartsAction, PutBucketLifecycleAction, GetBucketLifecycleAction,
     PutBucketNotificationAction, PutBucketPolicyAction, PutBucketCorsAction, PutBucketQOSAction,
     GetBucketQOSAction, PutObjectAction, BypassGovernanceRetentionAction,
     PutObjectRetentionAction, GetObjectRetentionAction, GetObjectLegalHoldAction,
     PutObjectLegalHoldAction, GetBucketObjectLockConfigurationAction,
     PutBucketObjectLockConfigurationAction, GetBucketTaggingAction, PutBucketTaggingAction,
     GetObjectVersionAction, GetObjectAttributesAction, GetObjectVersionAttributesAction,
     GetObjectVersionTaggingAction, DeleteObjectVersionAction, DeleteObjectVersionTaggingAction,
     PutObjectVersionTaggingAction, GetObjectTaggingAction, PutObjectTaggingAction,
     DeleteObjectTaggingAction, UpdateObjectEncryptionAction, PutBucketEncryptionAction,
     GetBucketEncryptionAction, PutBucketVersioningAction, GetBucketVersioningAction,
     GetReplicationConfigurationAction, PutReplicationConfigurationAction, ReplicateObjectAction,
     ReplicateDeleteAction, ReplicateTagsAction, GetObjectVersionForReplicationAction,
     RestoreObjectAction, ResetBucketReplicationStateAction, PutObjectFanOutAction,
     PutInventoryConfigurationAction, GetInventoryConfigurationAction, CreateSessionAction,
     AllActions]"

definition SupportedObjectActions :: "string list" where
  "SupportedObjectActions = [
     AllActions, AbortMultipartUploadAction, DeleteObjectAction, GetObjectAction,
     ListMultipartUploadPartsAction, PutObjectAction, BypassGovernanceRetentionAction,
     PutObjectRetentionAction, GetObjectRetentionAction, PutObjectLegalHoldAction,
     GetObjectLegalHoldAction, GetObjectTaggingAction, PutObjectTaggingAction,
     DeleteObjectTaggingAction, UpdateObjectEncryptionAction, GetObjectVersionAction,
     GetObjectVersionTaggingAction, DeleteObjectVersionAction, DeleteObjectVersionTaggingAction,
     PutObjectVersionTaggingAction, ReplicateObjectAction, ReplicateDeleteAction,
     ReplicateTagsAction, GetObjectVersionForReplicationAction, RestoreObjectAction,
     ResetBucketReplicationStateAction, PutObjectFanOutAction, GetObjectAttributesAction,
     GetObjectVersionAttributesAction]"

section \<open>Supported condition keys\<close>

text \<open>\<open>condition.NewKeySet(append([]condition.Key{...}, commonKeys...)...)\<close>.\<close>

definition with_common :: "string list \<Rightarrow> keyset" where
  "with_common ks = NewKeySet (map KeyName_ToKey (ks @ CommonKeys))"

type_synonym action_key_map = "(action \<times> keyset) list"

definition createActionConditionKeyMap :: "action_key_map" where
  "createActionConditionKeyMap = [
     (AllActions, NewKeySet (map KeyName_ToKey AllSupportedKeys)),
     (AbortMultipartUploadAction, with_common []),
     (CreateBucketAction, with_common []),
     (DeleteObjectAction, with_common [S3VersionID]),
     (GetBucketLocationAction, with_common []),
     (GetBucketPolicyStatusAction, with_common []),
     (GetObjectAction, with_common
        [S3XAmzServerSideEncryption, S3XAmzServerSideEncryptionCustomerAlgorithm,
        S3XAmzServerSideEncryptionAwsKmsKeyID, S3VersionID, ExistingObjectTag]),
     (HeadBucketAction, with_common []),
     (GetObjectAttributesAction, with_common [ExistingObjectTag]),
     (GetObjectVersionAttributesAction, with_common [S3VersionID, ExistingObjectTag]),
     (ListAllMyBucketsAction, with_common []),
     (ListBucketAction, with_common [S3Prefix, S3Delimiter, S3MaxKeys]),
     (ListBucketVersionsAction, with_common [S3Prefix, S3Delimiter, S3MaxKeys]),
     (ListBucketMultipartUploadsAction, with_common []),
     (ListenNotificationAction, with_common []),
     (ListenBucketNotificationAction, with_common []),
     (ListMultipartUploadPartsAction, with_common []),
     (PutObjectAction, with_common
        [S3XAmzCopySource, S3XAmzServerSideEncryption,
        S3XAmzServerSideEncryptionCustomerAlgorithm, S3XAmzServerSideEncryptionAwsKmsKeyID,
        S3XAmzMetadataDirective, S3XAmzStorageClass, S3VersionID,
        S3ObjectLockRetainUntilDate, S3ObjectLockMode, S3ObjectLockLegalHold,
        RequestObjectTagKeys, RequestObjectTag]),
     (PutObjectRetentionAction, with_common
        [S3XAmzServerSideEncryption, S3XAmzServerSideEncryptionCustomerAlgorithm,
        S3XAmzServerSideEncryptionAwsKmsKeyID, S3ObjectLockRemainingRetentionDays,
        S3ObjectLockRetainUntilDate, S3ObjectLockMode, S3VersionID]),
     (GetObjectRetentionAction, with_common
        [S3XAmzServerSideEncryption, S3XAmzServerSideEncryptionCustomerAlgorithm,
        S3XAmzServerSideEncryptionAwsKmsKeyID, S3VersionID]),
     (PutObjectLegalHoldAction, with_common
        [S3XAmzServerSideEncryption, S3XAmzServerSideEncryptionCustomerAlgorithm,
        S3XAmzServerSideEncryptionAwsKmsKeyID, S3ObjectLockLegalHold, S3VersionID]),
     (GetObjectLegalHoldAction, with_common []),
     (BypassGovernanceRetentionAction, with_common
        [S3VersionID, S3ObjectLockRemainingRetentionDays, S3ObjectLockRetainUntilDate,
        S3ObjectLockMode, S3ObjectLockLegalHold, RequestObjectTagKeys, RequestObjectTag]),
     (GetBucketObjectLockConfigurationAction, with_common []),
     (PutBucketObjectLockConfigurationAction, with_common []),
     (GetBucketTaggingAction, with_common []),
     (PutBucketTaggingAction, with_common [RequestObjectTagKeys, RequestObjectTag]),
     (PutObjectTaggingAction, with_common
        [S3VersionID, ExistingObjectTag, RequestObjectTagKeys, RequestObjectTag]),
     (GetObjectTaggingAction, with_common [S3VersionID, ExistingObjectTag]),
     (DeleteObjectTaggingAction, with_common [S3VersionID, ExistingObjectTag]),
     (UpdateObjectEncryptionAction, with_common
        [S3XAmzServerSideEncryption, S3XAmzServerSideEncryptionCustomerAlgorithm,
        S3XAmzServerSideEncryptionAwsKmsKeyID, S3VersionID]),
     (PutObjectVersionTaggingAction, with_common
        [S3VersionID, ExistingObjectTag, RequestObjectTagKeys, RequestObjectTag]),
     (GetObjectVersionAction, with_common [S3VersionID, ExistingObjectTag]),
     (GetObjectVersionTaggingAction, with_common [S3VersionID, ExistingObjectTag]),
     (DeleteObjectVersionAction, with_common [S3VersionID]),
     (DeleteObjectVersionTaggingAction, with_common [S3VersionID, ExistingObjectTag]),
     (GetReplicationConfigurationAction, with_common []),
     (PutReplicationConfigurationAction, with_common []),
     (ReplicateObjectAction, with_common [S3VersionID, ExistingObjectTag]),
     (ReplicateDeleteAction, with_common [S3VersionID, ExistingObjectTag]),
     (ReplicateTagsAction, with_common [S3VersionID, ExistingObjectTag]),
     (GetObjectVersionForReplicationAction, with_common [S3VersionID, ExistingObjectTag]),
     (RestoreObjectAction, with_common []),
     (ResetBucketReplicationStateAction, with_common []),
     (PutObjectFanOutAction, with_common [])]"

section \<open>Matching\<close>

definition Action_Match :: "action \<Rightarrow> action \<Rightarrow> bool" where
  "Action_Match action a = Match action a"

definition Action_IsObjectAction :: "action \<Rightarrow> bool" where
  "Action_IsObjectAction action = list_ex (\<lambda>supAction. Action_Match action supAction) SupportedObjectActions"

definition Action_IsValid :: "action \<Rightarrow> bool" where
  "Action_IsValid action = list_ex (\<lambda>supAction. Action_Match action supAction) SupportedActions"

text \<open>The keys of every entry whose action the looked-up action matches, with the common keys.\<close>

definition ActionConditionKeyMap_Lookup :: "action_key_map \<Rightarrow> action \<Rightarrow> keyset" where
  "ActionConditionKeyMap_Lookup a action =
     foldl (\<lambda>merged (act, ckey). if Action_Match action act then KeySet_Merge merged ckey else merged)
       (NewKeySet (map KeyName_ToKey CommonKeys)) a"

definition IAMActionConditionKeyMap :: action_key_map where
  "IAMActionConditionKeyMap = createActionConditionKeyMap"

end
