(* ===== verification/ActionsAdmin.thy ===== *)
theory ActionsAdmin
  imports ActionsS3
begin

text \<open>
  The admin actions of \<open>policy/admin-action.go\<close>: names, the supported ones, the ones that act on a
  bucket, the validity test with its two shortcuts, and the condition keys. \<open>assigned\<close> reads a Go
  map built by a sequence of assignments.
\<close>

definition assigned :: "action_key_map \<Rightarrow> action \<Rightarrow> keyset" where
  "assigned m a = (case map_of (rev m) a of None \<Rightarrow> [] | Some ks \<Rightarrow> ks)"

abbreviation (input) HealAdminAction :: string where
  "HealAdminAction \<equiv> ''admin:Heal''"

abbreviation (input) DecommissionAdminAction :: string where
  "DecommissionAdminAction \<equiv> ''admin:Decommission''"

abbreviation (input) RebalanceAdminAction :: string where
  "RebalanceAdminAction \<equiv> ''admin:Rebalance''"

abbreviation (input) StorageInfoAdminAction :: string where
  "StorageInfoAdminAction \<equiv> ''admin:StorageInfo''"

abbreviation (input) PrometheusAdminAction :: string where
  "PrometheusAdminAction \<equiv> ''admin:Prometheus''"

abbreviation (input) DataUsageInfoAdminAction :: string where
  "DataUsageInfoAdminAction \<equiv> ''admin:DataUsageInfo''"

abbreviation (input) ForceUnlockAdminAction :: string where
  "ForceUnlockAdminAction \<equiv> ''admin:ForceUnlock''"

abbreviation (input) TopLocksAdminAction :: string where
  "TopLocksAdminAction \<equiv> ''admin:TopLocksInfo''"

abbreviation (input) ProfilingAdminAction :: string where
  "ProfilingAdminAction \<equiv> ''admin:Profiling''"

abbreviation (input) TraceAdminAction :: string where
  "TraceAdminAction \<equiv> ''admin:ServerTrace''"

abbreviation (input) ConsoleLogAdminAction :: string where
  "ConsoleLogAdminAction \<equiv> ''admin:ConsoleLog''"

abbreviation (input) KMSEnableAdminAction :: string where
  "KMSEnableAdminAction \<equiv> ''admin:KMSEnable''"

abbreviation (input) KMSBackupAdminAction :: string where
  "KMSBackupAdminAction \<equiv> ''admin:KMSBackup''"

abbreviation (input) KMSRestoreAdminAction :: string where
  "KMSRestoreAdminAction \<equiv> ''admin:KMSRestore''"

abbreviation (input) KMSCreateKeyAdminAction :: string where
  "KMSCreateKeyAdminAction \<equiv> ''admin:KMSCreateKey''"

abbreviation (input) KMSKeyStatusAdminAction :: string where
  "KMSKeyStatusAdminAction \<equiv> ''admin:KMSKeyStatus''"

abbreviation (input) KMSKeyRotateAdminAction :: string where
  "KMSKeyRotateAdminAction \<equiv> ''admin:KMSKeyRotate''"

abbreviation (input) ServerInfoAdminAction :: string where
  "ServerInfoAdminAction \<equiv> ''admin:ServerInfo''"

abbreviation (input) HealthInfoAdminAction :: string where
  "HealthInfoAdminAction \<equiv> ''admin:OBDInfo''"

abbreviation (input) LicenseInfoAdminAction :: string where
  "LicenseInfoAdminAction \<equiv> ''admin:LicenseInfo''"

abbreviation (input) BandwidthMonitorAction :: string where
  "BandwidthMonitorAction \<equiv> ''admin:BandwidthMonitor''"

abbreviation (input) InspectDataAction :: string where
  "InspectDataAction \<equiv> ''admin:InspectData''"

abbreviation (input) ServerUpdateAdminAction :: string where
  "ServerUpdateAdminAction \<equiv> ''admin:ServerUpdate''"

abbreviation (input) ServiceRestartAdminAction :: string where
  "ServiceRestartAdminAction \<equiv> ''admin:ServiceRestart''"

abbreviation (input) ServiceStopAdminAction :: string where
  "ServiceStopAdminAction \<equiv> ''admin:ServiceStop''"

abbreviation (input) ServiceFreezeAdminAction :: string where
  "ServiceFreezeAdminAction \<equiv> ''admin:ServiceFreeze''"

abbreviation (input) ServiceCordonAdminAction :: string where
  "ServiceCordonAdminAction \<equiv> ''admin:ServiceCordon''"

abbreviation (input) ConfigUpdateAdminAction :: string where
  "ConfigUpdateAdminAction \<equiv> ''admin:ConfigUpdate''"

abbreviation (input) CreateUserAdminAction :: string where
  "CreateUserAdminAction \<equiv> ''admin:CreateUser''"

abbreviation (input) DeleteUserAdminAction :: string where
  "DeleteUserAdminAction \<equiv> ''admin:DeleteUser''"

abbreviation (input) ListUsersAdminAction :: string where
  "ListUsersAdminAction \<equiv> ''admin:ListUsers''"

abbreviation (input) EnableUserAdminAction :: string where
  "EnableUserAdminAction \<equiv> ''admin:EnableUser''"

abbreviation (input) DisableUserAdminAction :: string where
  "DisableUserAdminAction \<equiv> ''admin:DisableUser''"

abbreviation (input) GetUserAdminAction :: string where
  "GetUserAdminAction \<equiv> ''admin:GetUser''"

abbreviation (input) ChangeMyPasswordAdminAction :: string where
  "ChangeMyPasswordAdminAction \<equiv> ''admin:ChangeMyPassword''"

abbreviation (input) SiteReplicationAddAction :: string where
  "SiteReplicationAddAction \<equiv> ''admin:SiteReplicationAdd''"

abbreviation (input) SiteReplicationDisableAction :: string where
  "SiteReplicationDisableAction \<equiv> ''admin:SiteReplicationDisable''"

abbreviation (input) SiteReplicationRemoveAction :: string where
  "SiteReplicationRemoveAction \<equiv> ''admin:SiteReplicationRemove''"

abbreviation (input) SiteReplicationResyncAction :: string where
  "SiteReplicationResyncAction \<equiv> ''admin:SiteReplicationResync''"

abbreviation (input) SiteReplicationInfoAction :: string where
  "SiteReplicationInfoAction \<equiv> ''admin:SiteReplicationInfo''"

abbreviation (input) SiteReplicationOperationAction :: string where
  "SiteReplicationOperationAction \<equiv> ''admin:SiteReplicationOperation''"

abbreviation (input) TablesReplicationAddAction :: string where
  "TablesReplicationAddAction \<equiv> ''admin:TablesReplicationAdd''"

abbreviation (input) TablesReplicationRemoveAction :: string where
  "TablesReplicationRemoveAction \<equiv> ''admin:TablesReplicationRemove''"

abbreviation (input) TablesReplicationInfoAction :: string where
  "TablesReplicationInfoAction \<equiv> ''admin:TablesReplicationInfo''"

abbreviation (input) CreateServiceAccountAdminAction :: string where
  "CreateServiceAccountAdminAction \<equiv> ''admin:CreateServiceAccount''"

abbreviation (input) UpdateServiceAccountAdminAction :: string where
  "UpdateServiceAccountAdminAction \<equiv> ''admin:UpdateServiceAccount''"

abbreviation (input) RemoveServiceAccountAdminAction :: string where
  "RemoveServiceAccountAdminAction \<equiv> ''admin:RemoveServiceAccount''"

abbreviation (input) ListServiceAccountsAdminAction :: string where
  "ListServiceAccountsAdminAction \<equiv> ''admin:ListServiceAccounts''"

abbreviation (input) ListTemporaryAccountsAdminAction :: string where
  "ListTemporaryAccountsAdminAction \<equiv> ''admin:ListTemporaryAccounts''"

abbreviation (input) AddUserToGroupAdminAction :: string where
  "AddUserToGroupAdminAction \<equiv> ''admin:AddUserToGroup''"

abbreviation (input) RemoveUserFromGroupAdminAction :: string where
  "RemoveUserFromGroupAdminAction \<equiv> ''admin:RemoveUserFromGroup''"

abbreviation (input) GetGroupAdminAction :: string where
  "GetGroupAdminAction \<equiv> ''admin:GetGroup''"

abbreviation (input) ListGroupsAdminAction :: string where
  "ListGroupsAdminAction \<equiv> ''admin:ListGroups''"

abbreviation (input) EnableGroupAdminAction :: string where
  "EnableGroupAdminAction \<equiv> ''admin:EnableGroup''"

abbreviation (input) DisableGroupAdminAction :: string where
  "DisableGroupAdminAction \<equiv> ''admin:DisableGroup''"

abbreviation (input) CreatePolicyAdminAction :: string where
  "CreatePolicyAdminAction \<equiv> ''admin:CreatePolicy''"

abbreviation (input) DeletePolicyAdminAction :: string where
  "DeletePolicyAdminAction \<equiv> ''admin:DeletePolicy''"

abbreviation (input) GetPolicyAdminAction :: string where
  "GetPolicyAdminAction \<equiv> ''admin:GetPolicy''"

abbreviation (input) AttachPolicyAdminAction :: string where
  "AttachPolicyAdminAction \<equiv> ''admin:AttachUserOrGroupPolicy''"

abbreviation (input) UpdatePolicyAssociationAction :: string where
  "UpdatePolicyAssociationAction \<equiv> ''admin:UpdatePolicyAssociation''"

abbreviation (input) ListUserPoliciesAdminAction :: string where
  "ListUserPoliciesAdminAction \<equiv> ''admin:ListUserPolicies''"

abbreviation (input) SetBucketQuotaAdminAction :: string where
  "SetBucketQuotaAdminAction \<equiv> ''admin:SetBucketQuota''"

abbreviation (input) GetBucketQuotaAdminAction :: string where
  "GetBucketQuotaAdminAction \<equiv> ''admin:GetBucketQuota''"

abbreviation (input) SetBucketTargetAction :: string where
  "SetBucketTargetAction \<equiv> ''admin:SetBucketTarget''"

abbreviation (input) GetBucketTargetAction :: string where
  "GetBucketTargetAction \<equiv> ''admin:GetBucketTarget''"

abbreviation (input) ReplicationDiff :: string where
  "ReplicationDiff \<equiv> ''admin:ReplicationDiff''"

abbreviation (input) ImportBucketMetadataAction :: string where
  "ImportBucketMetadataAction \<equiv> ''admin:ImportBucketMetadata''"

abbreviation (input) ExportBucketMetadataAction :: string where
  "ExportBucketMetadataAction \<equiv> ''admin:ExportBucketMetadata''"

abbreviation (input) SetTierAction :: string where
  "SetTierAction \<equiv> ''admin:SetTier''"

abbreviation (input) ListTierAction :: string where
  "ListTierAction \<equiv> ''admin:ListTier''"

abbreviation (input) ExportIAMAction :: string where
  "ExportIAMAction \<equiv> ''admin:ExportIAM''"

abbreviation (input) ImportIAMAction :: string where
  "ImportIAMAction \<equiv> ''admin:ImportIAM''"

abbreviation (input) ListBatchJobsAction :: string where
  "ListBatchJobsAction \<equiv> ''admin:ListBatchJobs''"

abbreviation (input) DescribeBatchJobAction :: string where
  "DescribeBatchJobAction \<equiv> ''admin:DescribeBatchJob''"

abbreviation (input) StartBatchJobAction :: string where
  "StartBatchJobAction \<equiv> ''admin:StartBatchJob''"

abbreviation (input) CancelBatchJobAction :: string where
  "CancelBatchJobAction \<equiv> ''admin:CancelBatchJob''"

abbreviation (input) GenerateBatchJobAction :: string where
  "GenerateBatchJobAction \<equiv> ''admin:GenerateBatchJob''"

abbreviation (input) InventoryControlAction :: string where
  "InventoryControlAction \<equiv> ''admin:InventoryControl''"

abbreviation (input) ClusterInfoAction :: string where
  "ClusterInfoAction \<equiv> ''admin:ClusterInfo''"

abbreviation (input) PoolListAction :: string where
  "PoolListAction \<equiv> ''admin:PoolList''"

abbreviation (input) PoolInfoAction :: string where
  "PoolInfoAction \<equiv> ''admin:PoolInfo''"

abbreviation (input) NodeListAction :: string where
  "NodeListAction \<equiv> ''admin:NodeList''"

abbreviation (input) NodeInfoAction :: string where
  "NodeInfoAction \<equiv> ''admin:NodeInfo''"

abbreviation (input) SetInfoAction :: string where
  "SetInfoAction \<equiv> ''admin:SetInfo''"

abbreviation (input) DriveListAction :: string where
  "DriveListAction \<equiv> ''admin:DriveList''"

abbreviation (input) DriveInfoAction :: string where
  "DriveInfoAction \<equiv> ''admin:DriveInfo''"

abbreviation (input) DeltaSharingAdminAction :: string where
  "DeltaSharingAdminAction \<equiv> ''admin:DeltaSharing''"

abbreviation (input) DeltaSharingCreateShareAction :: string where
  "DeltaSharingCreateShareAction \<equiv> ''admin:DeltaSharingCreateShare''"

abbreviation (input) DeltaSharingDeleteShareAction :: string where
  "DeltaSharingDeleteShareAction \<equiv> ''admin:DeltaSharingDeleteShare''"

abbreviation (input) DeltaSharingListSharesAction :: string where
  "DeltaSharingListSharesAction \<equiv> ''admin:DeltaSharingListShares''"

abbreviation (input) DeltaSharingGetShareAction :: string where
  "DeltaSharingGetShareAction \<equiv> ''admin:DeltaSharingGetShare''"

abbreviation (input) DeltaSharingUpdateShareAction :: string where
  "DeltaSharingUpdateShareAction \<equiv> ''admin:DeltaSharingUpdateShare''"

abbreviation (input) DeltaSharingCreateTokenAction :: string where
  "DeltaSharingCreateTokenAction \<equiv> ''admin:DeltaSharingCreateToken''"

abbreviation (input) DeltaSharingDeleteTokenAction :: string where
  "DeltaSharingDeleteTokenAction \<equiv> ''admin:DeltaSharingDeleteToken''"

abbreviation (input) DeltaSharingListTokensAction :: string where
  "DeltaSharingListTokensAction \<equiv> ''admin:DeltaSharingListTokens''"

abbreviation (input) ReadAlertsAction :: string where
  "ReadAlertsAction \<equiv> ''admin:ReadAlerts''"

abbreviation (input) ReadAPILogsAction :: string where
  "ReadAPILogsAction \<equiv> ''admin:ReadAPILogs''"

abbreviation (input) ReadErrorLogsAction :: string where
  "ReadErrorLogsAction \<equiv> ''admin:ReadErrorLogs''"

abbreviation (input) ReadAuditLogsAction :: string where
  "ReadAuditLogsAction \<equiv> ''admin:ReadAuditLogs''"

abbreviation (input) AllAdminActions :: string where
  "AllAdminActions \<equiv> ''admin:*''"

definition SupportedAdminActions :: "string list" where
  "SupportedAdminActions = [
     HealAdminAction, StorageInfoAdminAction, DataUsageInfoAdminAction, TopLocksAdminAction,
     ProfilingAdminAction, PrometheusAdminAction, TraceAdminAction, ConsoleLogAdminAction,
     KMSCreateKeyAdminAction, KMSKeyStatusAdminAction, ServerInfoAdminAction,
     HealthInfoAdminAction, LicenseInfoAdminAction, BandwidthMonitorAction, InspectDataAction,
     ServerUpdateAdminAction, ServiceRestartAdminAction, ServiceStopAdminAction,
     ServiceFreezeAdminAction, ConfigUpdateAdminAction, CreateUserAdminAction,
     DeleteUserAdminAction, ListUsersAdminAction, EnableUserAdminAction, DisableUserAdminAction,
     GetUserAdminAction, ChangeMyPasswordAdminAction, AddUserToGroupAdminAction,
     RemoveUserFromGroupAdminAction, GetGroupAdminAction, ListGroupsAdminAction,
     EnableGroupAdminAction, DisableGroupAdminAction, CreateServiceAccountAdminAction,
     UpdateServiceAccountAdminAction, RemoveServiceAccountAdminAction,
     ListServiceAccountsAdminAction, ListTemporaryAccountsAdminAction, CreatePolicyAdminAction,
     DeletePolicyAdminAction, GetPolicyAdminAction, AttachPolicyAdminAction,
     UpdatePolicyAssociationAction, ListUserPoliciesAdminAction, SetBucketQuotaAdminAction,
     GetBucketQuotaAdminAction, SetBucketTargetAction, GetBucketTargetAction, ReplicationDiff,
     SetTierAction, ListTierAction, DecommissionAdminAction, RebalanceAdminAction,
     SiteReplicationAddAction, SiteReplicationDisableAction, SiteReplicationInfoAction,
     SiteReplicationOperationAction, SiteReplicationRemoveAction, SiteReplicationResyncAction,
     TablesReplicationAddAction, TablesReplicationRemoveAction, TablesReplicationInfoAction,
     ImportBucketMetadataAction, ExportBucketMetadataAction, ExportIAMAction, ImportIAMAction,
     ForceUnlockAdminAction, ListBatchJobsAction, DescribeBatchJobAction, StartBatchJobAction,
     CancelBatchJobAction, GenerateBatchJobAction, InventoryControlAction, ClusterInfoAction,
     PoolListAction, PoolInfoAction, NodeListAction, NodeInfoAction, SetInfoAction,
     DriveListAction, DriveInfoAction, ServiceCordonAdminAction, DeltaSharingAdminAction,
     DeltaSharingCreateShareAction, DeltaSharingDeleteShareAction, DeltaSharingListSharesAction,
     DeltaSharingGetShareAction, DeltaSharingUpdateShareAction, DeltaSharingCreateTokenAction,
     DeltaSharingDeleteTokenAction, DeltaSharingListTokensAction, ReadAPILogsAction,
     ReadErrorLogsAction, ReadAuditLogsAction, ReadAlertsAction, AllAdminActions]"

definition AdminActionsWithResource :: "string list" where
  "AdminActionsWithResource = [
     SetBucketQuotaAdminAction, GetBucketQuotaAdminAction, SetBucketTargetAction,
     GetBucketTargetAction, ReplicationDiff, ImportBucketMetadataAction,
     ExportBucketMetadataAction, HealAdminAction, InventoryControlAction]"

section \<open>Matching and validity\<close>

definition AdminAction_Match :: "action \<Rightarrow> action \<Rightarrow> bool" where
  "AdminAction_Match action a = Match action a"

definition AdminAction_HasResource :: "action \<Rightarrow> bool" where
  "AdminAction_HasResource action =
     (if action \<in> set AdminActionsWithResource then True
      else if \<not> Has action then False
      else list_ex (\<lambda>a. AdminAction_Match action a) AdminActionsWithResource)"

definition adminActionPrefix :: string where
  "adminActionPrefix = ''admin:''"

definition canMatchPrefix :: "string \<Rightarrow> string \<Rightarrow> bool" where
  "canMatchPrefix head pre =
     (if length head > length pre then has_prefix head pre else has_prefix pre head)"

text \<open>\<open>strings.IndexAny(s, "*?")\<close> is the first index of either byte.\<close>

definition AdminAction_IsValid :: "action \<Rightarrow> bool" where
  "AdminAction_IsValid action =
     (if action \<in> set SupportedAdminActions then True
      else (case index_func (\<lambda>c. c = CHR ''*'' \<or> c = CHR ''?'') action of
              None \<Rightarrow> False
            | Some star \<Rightarrow>
                (if \<not> canMatchPrefix (take star action) adminActionPrefix then False
                 else list_ex (\<lambda>supAction. AdminAction_Match action supAction) SupportedAdminActions)))"

definition adminActionConditionKeyMap :: action_key_map where
  "adminActionConditionKeyMap =
     map (\<lambda>act. (act, NewKeySet (map KeyName_ToKey AllSupportedAdminKeys))) SupportedAdminActions"

end
