(* ===== verification/ActionsOther.thy ===== *)
theory ActionsOther
  imports ActionsAdmin
begin

text \<open>
  The STS, KMS, S3 Vectors and S3 Tables actions, from \<open>policy/sts-action.go\<close>, \<open>kms-action.go\<close>,
  \<open>vectors-action.go\<close> and \<open>table-action.go\<close>.
\<close>

section \<open>STS\<close>

abbreviation (input) AssumeRoleAction :: string where
  "AssumeRoleAction \<equiv> ''sts:AssumeRole''"

abbreviation (input) AssumeRoleLDAPIdentityAction :: string where
  "AssumeRoleLDAPIdentityAction \<equiv> ''sts:AssumeRoleLDAPIdentity''"

abbreviation (input) AssumeRoleWithCustomTokenAction :: string where
  "AssumeRoleWithCustomTokenAction \<equiv> ''sts:AssumeRoleWithCustomToken''"

abbreviation (input) AssumeRoleWithWebIdentityAction :: string where
  "AssumeRoleWithWebIdentityAction \<equiv> ''sts:AssumeRoleWithWebIdentity''"

abbreviation (input) AssumeRoleWithClientGrantsAction :: string where
  "AssumeRoleWithClientGrantsAction \<equiv> ''sts:AssumeRoleWithClientGrants''"

abbreviation (input) AssumeRoleWithClientCertificateAction :: string where
  "AssumeRoleWithClientCertificateAction \<equiv> ''sts:AssumeRoleWithClientCertificate''"

abbreviation (input) AllSTSActions :: string where
  "AllSTSActions \<equiv> ''sts:*''"

definition supportedSTSActions :: "string list" where
  "supportedSTSActions = [
     AllSTSActions, AssumeRoleAction, AssumeRoleLDAPIdentityAction,
     AssumeRoleWithWebIdentityAction, AssumeRoleWithCustomTokenAction,
     AssumeRoleWithClientGrantsAction, AssumeRoleWithClientCertificateAction]"

definition STSAction_IsValid :: "action \<Rightarrow> bool" where
  "STSAction_IsValid action = (action \<in> set supportedSTSActions)"

definition stsActionConditionKeyMap :: action_key_map where
  "stsActionConditionKeyMap =
     (let ks = NewKeySet (map KeyName_ToKey AllSupportedSTSKeys)
      in [(AllSTSActions, ks),
     (AssumeRoleAction, ks),
     (AssumeRoleLDAPIdentityAction, ks),
     (AssumeRoleWithWebIdentityAction, ks),
     (AssumeRoleWithCustomTokenAction, ks),
     (AssumeRoleWithClientGrantsAction, ks),
     (AssumeRoleWithClientCertificateAction, ks)])"

section \<open>KMS\<close>

abbreviation (input) KMSCreateKeyAction :: string where
  "KMSCreateKeyAction \<equiv> ''kms:CreateKey''"

abbreviation (input) KMSDeleteKeyAction :: string where
  "KMSDeleteKeyAction \<equiv> ''kms:DeleteKey''"

abbreviation (input) KMSListKeysAction :: string where
  "KMSListKeysAction \<equiv> ''kms:ListKeys''"

abbreviation (input) KMSImportKeyAction :: string where
  "KMSImportKeyAction \<equiv> ''kms:ImportKey''"

abbreviation (input) KMSDescribePolicyAction :: string where
  "KMSDescribePolicyAction \<equiv> ''kms:DescribePolicy''"

abbreviation (input) KMSAssignPolicyAction :: string where
  "KMSAssignPolicyAction \<equiv> ''kms:AssignPolicy''"

abbreviation (input) KMSDeletePolicyAction :: string where
  "KMSDeletePolicyAction \<equiv> ''kms:DeletePolicy''"

abbreviation (input) KMSSetPolicyAction :: string where
  "KMSSetPolicyAction \<equiv> ''kms:SetPolicy''"

abbreviation (input) KMSGetPolicyAction :: string where
  "KMSGetPolicyAction \<equiv> ''kms:GetPolicy''"

abbreviation (input) KMSListPoliciesAction :: string where
  "KMSListPoliciesAction \<equiv> ''kms:ListPolicies''"

abbreviation (input) KMSDescribeIdentityAction :: string where
  "KMSDescribeIdentityAction \<equiv> ''kms:DescribeIdentity''"

abbreviation (input) KMSDescribeSelfIdentityAction :: string where
  "KMSDescribeSelfIdentityAction \<equiv> ''kms:DescribeSelfIdentity''"

abbreviation (input) KMSDeleteIdentityAction :: string where
  "KMSDeleteIdentityAction \<equiv> ''kms:DeleteIdentity''"

abbreviation (input) KMSListIdentitiesAction :: string where
  "KMSListIdentitiesAction \<equiv> ''kms:ListIdentities''"

abbreviation (input) KMSKeyStatusAction :: string where
  "KMSKeyStatusAction \<equiv> ''kms:KeyStatus''"

abbreviation (input) KMSStatusAction :: string where
  "KMSStatusAction \<equiv> ''kms:Status''"

abbreviation (input) KMSAPIAction :: string where
  "KMSAPIAction \<equiv> ''kms:API''"

abbreviation (input) KMSMetricsAction :: string where
  "KMSMetricsAction \<equiv> ''kms:Metrics''"

abbreviation (input) KMSVersionAction :: string where
  "KMSVersionAction \<equiv> ''kms:Version''"

abbreviation (input) KMSAuditLogAction :: string where
  "KMSAuditLogAction \<equiv> ''kms:AuditLog''"

abbreviation (input) KMSErrorLogAction :: string where
  "KMSErrorLogAction \<equiv> ''kms:ErrorLog''"

abbreviation (input) AllKMSActions :: string where
  "AllKMSActions \<equiv> ''kms:*''"

definition supportedKMSActions :: "string list" where
  "supportedKMSActions = [
     KMSCreateKeyAction, KMSDeleteKeyAction, KMSListKeysAction, KMSImportKeyAction,
     KMSDescribePolicyAction, KMSAssignPolicyAction, KMSDeletePolicyAction, KMSSetPolicyAction,
     KMSGetPolicyAction, KMSListPoliciesAction, KMSDescribeIdentityAction,
     KMSDescribeSelfIdentityAction, KMSDeleteIdentityAction, KMSListIdentitiesAction,
     KMSKeyStatusAction, KMSStatusAction, KMSAPIAction, KMSMetricsAction, KMSVersionAction,
     KMSAuditLogAction, KMSErrorLogAction, AllKMSActions]"

definition KMSAction_IsValid :: "action \<Rightarrow> bool" where
  "KMSAction_IsValid action = (action \<in> set supportedKMSActions)"

section \<open>S3 Vectors\<close>

abbreviation (input) S3VectorsCreateVectorBucketAction :: string where
  "S3VectorsCreateVectorBucketAction \<equiv> ''s3vectors:CreateVectorBucket''"

abbreviation (input) S3VectorsDeleteVectorBucketAction :: string where
  "S3VectorsDeleteVectorBucketAction \<equiv> ''s3vectors:DeleteVectorBucket''"

abbreviation (input) S3VectorsGetVectorBucketAction :: string where
  "S3VectorsGetVectorBucketAction \<equiv> ''s3vectors:GetVectorBucket''"

abbreviation (input) S3VectorsListVectorBucketsAction :: string where
  "S3VectorsListVectorBucketsAction \<equiv> ''s3vectors:ListVectorBuckets''"

abbreviation (input) S3VectorsCreateIndexAction :: string where
  "S3VectorsCreateIndexAction \<equiv> ''s3vectors:CreateIndex''"

abbreviation (input) S3VectorsDeleteIndexAction :: string where
  "S3VectorsDeleteIndexAction \<equiv> ''s3vectors:DeleteIndex''"

abbreviation (input) S3VectorsGetIndexAction :: string where
  "S3VectorsGetIndexAction \<equiv> ''s3vectors:GetIndex''"

abbreviation (input) S3VectorsListIndexesAction :: string where
  "S3VectorsListIndexesAction \<equiv> ''s3vectors:ListIndexes''"

abbreviation (input) S3VectorsPutVectorsAction :: string where
  "S3VectorsPutVectorsAction \<equiv> ''s3vectors:PutVectors''"

abbreviation (input) S3VectorsGetVectorsAction :: string where
  "S3VectorsGetVectorsAction \<equiv> ''s3vectors:GetVectors''"

abbreviation (input) S3VectorsDeleteVectorsAction :: string where
  "S3VectorsDeleteVectorsAction \<equiv> ''s3vectors:DeleteVectors''"

abbreviation (input) S3VectorsListVectorsAction :: string where
  "S3VectorsListVectorsAction \<equiv> ''s3vectors:ListVectors''"

abbreviation (input) S3VectorsQueryVectorsAction :: string where
  "S3VectorsQueryVectorsAction \<equiv> ''s3vectors:QueryVectors''"

abbreviation (input) AllS3VectorsActions :: string where
  "AllS3VectorsActions \<equiv> ''s3vectors:*''"

definition SupportedVectorsActions :: "string list" where
  "SupportedVectorsActions = [
     S3VectorsCreateVectorBucketAction, S3VectorsDeleteVectorBucketAction,
     S3VectorsGetVectorBucketAction, S3VectorsListVectorBucketsAction,
     S3VectorsCreateIndexAction, S3VectorsDeleteIndexAction, S3VectorsGetIndexAction,
     S3VectorsListIndexesAction, S3VectorsPutVectorsAction, S3VectorsGetVectorsAction,
     S3VectorsDeleteVectorsAction, S3VectorsListVectorsAction, S3VectorsQueryVectorsAction,
     AllS3VectorsActions]"

definition VectorsAction_IsValid :: "action \<Rightarrow> bool" where
  "VectorsAction_IsValid action = (action \<in> set SupportedVectorsActions)"

definition VectorsActionConditionKeyMap :: action_key_map where
  "VectorsActionConditionKeyMap = map (\<lambda>act. (act, with_common [])) SupportedVectorsActions"

section \<open>S3 Tables\<close>

abbreviation (input) S3TablesCreateNamespaceAction :: string where
  "S3TablesCreateNamespaceAction \<equiv> ''s3tables:CreateNamespace''"

abbreviation (input) S3TablesCreateTableAction :: string where
  "S3TablesCreateTableAction \<equiv> ''s3tables:CreateTable''"

abbreviation (input) S3TablesDeleteNamespaceAction :: string where
  "S3TablesDeleteNamespaceAction \<equiv> ''s3tables:DeleteNamespace''"

abbreviation (input) S3TablesDeleteTableAction :: string where
  "S3TablesDeleteTableAction \<equiv> ''s3tables:DeleteTable''"

abbreviation (input) S3TablesDeleteTablePolicyAction :: string where
  "S3TablesDeleteTablePolicyAction \<equiv> ''s3tables:DeleteTablePolicy''"

abbreviation (input) S3TablesGetNamespaceAction :: string where
  "S3TablesGetNamespaceAction \<equiv> ''s3tables:GetNamespace''"

abbreviation (input) S3TablesGetTableAction :: string where
  "S3TablesGetTableAction \<equiv> ''s3tables:GetTable''"

abbreviation (input) S3TablesGetTableDataAction :: string where
  "S3TablesGetTableDataAction \<equiv> ''s3tables:GetTableData''"

abbreviation (input) S3TablesGetTableEncryptionAction :: string where
  "S3TablesGetTableEncryptionAction \<equiv> ''s3tables:GetTableEncryption''"

abbreviation (input) S3TablesGetTableMaintenanceConfigurationAction :: string where
  "S3TablesGetTableMaintenanceConfigurationAction \<equiv> ''s3tables:GetTableMaintenanceConfiguration''"

abbreviation (input) S3TablesGetTableMaintenanceJobStatusAction :: string where
  "S3TablesGetTableMaintenanceJobStatusAction \<equiv> ''s3tables:GetTableMaintenanceJobStatus''"

abbreviation (input) S3TablesGetTableMetadataLocationAction :: string where
  "S3TablesGetTableMetadataLocationAction \<equiv> ''s3tables:GetTableMetadataLocation''"

abbreviation (input) S3TablesGetTablePolicyAction :: string where
  "S3TablesGetTablePolicyAction \<equiv> ''s3tables:GetTablePolicy''"

abbreviation (input) S3TablesListNamespacesAction :: string where
  "S3TablesListNamespacesAction \<equiv> ''s3tables:ListNamespaces''"

abbreviation (input) S3TablesListTablesAction :: string where
  "S3TablesListTablesAction \<equiv> ''s3tables:ListTables''"

abbreviation (input) S3TablesPutTableDataAction :: string where
  "S3TablesPutTableDataAction \<equiv> ''s3tables:PutTableData''"

abbreviation (input) S3TablesPutTableEncryptionAction :: string where
  "S3TablesPutTableEncryptionAction \<equiv> ''s3tables:PutTableEncryption''"

abbreviation (input) S3TablesPutTableMaintenanceConfigurationAction :: string where
  "S3TablesPutTableMaintenanceConfigurationAction \<equiv> ''s3tables:PutTableMaintenanceConfiguration''"

abbreviation (input) S3TablesPutTablePolicyAction :: string where
  "S3TablesPutTablePolicyAction \<equiv> ''s3tables:PutTablePolicy''"

abbreviation (input) S3TablesRegisterTableAction :: string where
  "S3TablesRegisterTableAction \<equiv> ''s3tables:RegisterTable''"

abbreviation (input) S3TablesRenameTableAction :: string where
  "S3TablesRenameTableAction \<equiv> ''s3tables:RenameTable''"

abbreviation (input) S3TablesUpdateTableMetadataLocationAction :: string where
  "S3TablesUpdateTableMetadataLocationAction \<equiv> ''s3tables:UpdateTableMetadataLocation''"

abbreviation (input) S3TablesCreateWarehouseAction :: string where
  "S3TablesCreateWarehouseAction \<equiv> ''s3tables:CreateWarehouse''"

abbreviation (input) S3TablesCreateTableBucketAction :: string where
  "S3TablesCreateTableBucketAction \<equiv> ''s3tables:CreateTableBucket''"

abbreviation (input) S3TablesDeleteWarehouseAction :: string where
  "S3TablesDeleteWarehouseAction \<equiv> ''s3tables:DeleteWarehouse''"

abbreviation (input) S3TablesDeleteTableBucketAction :: string where
  "S3TablesDeleteTableBucketAction \<equiv> ''s3tables:DeleteTableBucket''"

abbreviation (input) S3TablesDeleteWarehouseEncryptionAction :: string where
  "S3TablesDeleteWarehouseEncryptionAction \<equiv> ''s3tables:DeleteWarehouseEncryption''"

abbreviation (input) S3TablesDeleteTableBucketEncryptionAction :: string where
  "S3TablesDeleteTableBucketEncryptionAction \<equiv> ''s3tables:DeleteTableBucketEncryption''"

abbreviation (input) S3TablesDeleteWarehousePolicyAction :: string where
  "S3TablesDeleteWarehousePolicyAction \<equiv> ''s3tables:DeleteWarehousePolicy''"

abbreviation (input) S3TablesDeleteTableBucketPolicyAction :: string where
  "S3TablesDeleteTableBucketPolicyAction \<equiv> ''s3tables:DeleteTableBucketPolicy''"

abbreviation (input) S3TablesGetWarehouseAction :: string where
  "S3TablesGetWarehouseAction \<equiv> ''s3tables:GetWarehouse''"

abbreviation (input) S3TablesGetTableBucketAction :: string where
  "S3TablesGetTableBucketAction \<equiv> ''s3tables:GetTableBucket''"

abbreviation (input) S3TablesGetWarehouseEncryptionAction :: string where
  "S3TablesGetWarehouseEncryptionAction \<equiv> ''s3tables:GetWarehouseEncryption''"

abbreviation (input) S3TablesGetTableBucketEncryptionAction :: string where
  "S3TablesGetTableBucketEncryptionAction \<equiv> ''s3tables:GetTableBucketEncryption''"

abbreviation (input) S3TablesGetWarehouseMaintenanceConfigurationAction :: string where
  "S3TablesGetWarehouseMaintenanceConfigurationAction \<equiv> ''s3tables:GetWarehouseMaintenanceConfiguration''"

abbreviation (input) S3TablesGetTableBucketMaintenanceConfigurationAction :: string where
  "S3TablesGetTableBucketMaintenanceConfigurationAction \<equiv> ''s3tables:GetTableBucketMaintenanceConfiguration''"

abbreviation (input) S3TablesGetWarehousePolicyAction :: string where
  "S3TablesGetWarehousePolicyAction \<equiv> ''s3tables:GetWarehousePolicy''"

abbreviation (input) S3TablesGetTableBucketPolicyAction :: string where
  "S3TablesGetTableBucketPolicyAction \<equiv> ''s3tables:GetTableBucketPolicy''"

abbreviation (input) S3TablesListWarehousesAction :: string where
  "S3TablesListWarehousesAction \<equiv> ''s3tables:ListWarehouses''"

abbreviation (input) S3TablesListTableBucketsAction :: string where
  "S3TablesListTableBucketsAction \<equiv> ''s3tables:ListTableBuckets''"

abbreviation (input) S3TablesPutWarehouseEncryptionAction :: string where
  "S3TablesPutWarehouseEncryptionAction \<equiv> ''s3tables:PutWarehouseEncryption''"

abbreviation (input) S3TablesPutTableBucketEncryptionAction :: string where
  "S3TablesPutTableBucketEncryptionAction \<equiv> ''s3tables:PutTableBucketEncryption''"

abbreviation (input) S3TablesPutWarehouseMaintenanceConfigurationAction :: string where
  "S3TablesPutWarehouseMaintenanceConfigurationAction \<equiv> ''s3tables:PutWarehouseMaintenanceConfiguration''"

abbreviation (input) S3TablesPutTableBucketMaintenanceConfigurationAction :: string where
  "S3TablesPutTableBucketMaintenanceConfigurationAction \<equiv> ''s3tables:PutTableBucketMaintenanceConfiguration''"

abbreviation (input) S3TablesPutWarehousePolicyAction :: string where
  "S3TablesPutWarehousePolicyAction \<equiv> ''s3tables:PutWarehousePolicy''"

abbreviation (input) S3TablesPutTableBucketPolicyAction :: string where
  "S3TablesPutTableBucketPolicyAction \<equiv> ''s3tables:PutTableBucketPolicy''"

abbreviation (input) S3TablesGetConfigAction :: string where
  "S3TablesGetConfigAction \<equiv> ''s3tables:GetConfig''"

abbreviation (input) S3TablesTableMetricsAction :: string where
  "S3TablesTableMetricsAction \<equiv> ''s3tables:TableMetrics''"

abbreviation (input) S3TablesUpdateTableAction :: string where
  "S3TablesUpdateTableAction \<equiv> ''s3tables:UpdateTable''"

abbreviation (input) S3TablesCreateViewAction :: string where
  "S3TablesCreateViewAction \<equiv> ''s3tables:CreateView''"

abbreviation (input) S3TablesDeleteViewAction :: string where
  "S3TablesDeleteViewAction \<equiv> ''s3tables:DeleteView''"

abbreviation (input) S3TablesGetViewAction :: string where
  "S3TablesGetViewAction \<equiv> ''s3tables:GetView''"

abbreviation (input) S3TablesRenameViewAction :: string where
  "S3TablesRenameViewAction \<equiv> ''s3tables:RenameView''"

abbreviation (input) S3TablesUpdateViewAction :: string where
  "S3TablesUpdateViewAction \<equiv> ''s3tables:UpdateView''"

abbreviation (input) S3TablesListViewsAction :: string where
  "S3TablesListViewsAction \<equiv> ''s3tables:ListViews''"

abbreviation (input) S3TablesRegisterViewAction :: string where
  "S3TablesRegisterViewAction \<equiv> ''s3tables:RegisterView''"

abbreviation (input) S3TablesUpdateNamespacePropertiesAction :: string where
  "S3TablesUpdateNamespacePropertiesAction \<equiv> ''s3tables:UpdateNamespaceProperties''"

abbreviation (input) S3TablesTagResourceAction :: string where
  "S3TablesTagResourceAction \<equiv> ''s3tables:TagResource''"

abbreviation (input) S3TablesUntagResourceAction :: string where
  "S3TablesUntagResourceAction \<equiv> ''s3tables:UntagResource''"

abbreviation (input) S3TablesListTagsForResourceAction :: string where
  "S3TablesListTagsForResourceAction \<equiv> ''s3tables:ListTagsForResource''"

abbreviation (input) AllS3TablesActions :: string where
  "AllS3TablesActions \<equiv> ''s3tables:*''"

definition SupportedTableActions :: "string list" where
  "SupportedTableActions = [
     S3TablesCreateNamespaceAction, S3TablesCreateTableAction, S3TablesCreateTableBucketAction,
     S3TablesDeleteNamespaceAction, S3TablesDeleteTableAction, S3TablesDeleteTableBucketAction,
     S3TablesDeleteTableBucketEncryptionAction, S3TablesDeleteTableBucketPolicyAction,
     S3TablesDeleteTablePolicyAction, S3TablesGetNamespaceAction, S3TablesGetTableAction,
     S3TablesGetTableBucketAction, S3TablesGetTableBucketEncryptionAction,
     S3TablesGetTableBucketMaintenanceConfigurationAction, S3TablesGetTableBucketPolicyAction,
     S3TablesGetTableDataAction, S3TablesGetTableEncryptionAction,
     S3TablesGetTableMaintenanceConfigurationAction, S3TablesGetTableMaintenanceJobStatusAction,
     S3TablesGetTableMetadataLocationAction, S3TablesGetTablePolicyAction,
     S3TablesListNamespacesAction, S3TablesListTableBucketsAction, S3TablesListTablesAction,
     S3TablesPutTableBucketEncryptionAction,
     S3TablesPutTableBucketMaintenanceConfigurationAction, S3TablesPutTableBucketPolicyAction,
     S3TablesPutTableDataAction, S3TablesPutTableEncryptionAction,
     S3TablesPutTableMaintenanceConfigurationAction, S3TablesPutTablePolicyAction,
     S3TablesRegisterTableAction, S3TablesRenameTableAction,
     S3TablesUpdateTableMetadataLocationAction, S3TablesCreateWarehouseAction,
     S3TablesDeleteWarehouseAction, S3TablesDeleteWarehouseEncryptionAction,
     S3TablesDeleteWarehousePolicyAction, S3TablesGetWarehouseAction,
     S3TablesGetWarehouseEncryptionAction, S3TablesGetWarehouseMaintenanceConfigurationAction,
     S3TablesGetWarehousePolicyAction, S3TablesListWarehousesAction,
     S3TablesPutWarehouseEncryptionAction, S3TablesPutWarehouseMaintenanceConfigurationAction,
     S3TablesPutWarehousePolicyAction, S3TablesGetConfigAction, S3TablesTableMetricsAction,
     S3TablesUpdateTableAction, S3TablesCreateViewAction, S3TablesDeleteViewAction,
     S3TablesGetViewAction, S3TablesRenameViewAction, S3TablesUpdateViewAction,
     S3TablesListViewsAction, S3TablesRegisterViewAction,
     S3TablesUpdateNamespacePropertiesAction, S3TablesTagResourceAction,
     S3TablesUntagResourceAction, S3TablesListTagsForResourceAction, AllS3TablesActions]"


definition TableAction_IsValid :: "action \<Rightarrow> bool" where
  "TableAction_IsValid action = (action \<in> set SupportedTableActions)"

text \<open>The assignments made after every supported action was given the common keys.\<close>

definition tableKeyOverrides :: "(action \<times> string list) list" where
  "tableKeyOverrides = [
     (AllS3TablesActions,
        [S3TablesNamespace, S3TablesTableName, S3TablesViewName, S3TablesKMSKeyArn,
         S3TablesSSEAlgorithm, S3TablesRegisterLocation]),
     (S3TablesCreateNamespaceAction, [S3TablesNamespace]),
     (S3TablesCreateTableAction,
        [S3TablesNamespace, S3TablesTableName, S3TablesKMSKeyArn, S3TablesSSEAlgorithm]),
     (S3TablesCreateTableBucketAction, [S3TablesKMSKeyArn, S3TablesSSEAlgorithm]),
     (S3TablesDeleteNamespaceAction, [S3TablesNamespace]),
     (S3TablesDeleteTableAction, [S3TablesNamespace, S3TablesTableName]),
     (S3TablesDeleteTableBucketAction, []),
     (S3TablesDeleteTableBucketEncryptionAction, []),
     (S3TablesDeleteTableBucketPolicyAction, []),
     (S3TablesDeleteTablePolicyAction, [S3TablesNamespace, S3TablesTableName]),
     (S3TablesGetNamespaceAction, [S3TablesNamespace]),
     (S3TablesGetTableAction, [S3TablesNamespace, S3TablesTableName]),
     (S3TablesGetTableBucketAction, []),
     (S3TablesGetTableBucketEncryptionAction, []),
     (S3TablesGetTableBucketMaintenanceConfigurationAction, []),
     (S3TablesGetTableBucketPolicyAction, []),
     (S3TablesGetTableDataAction, [S3TablesNamespace, S3TablesTableName]),
     (S3TablesGetTableEncryptionAction, [S3TablesNamespace, S3TablesTableName]),
     (S3TablesGetTableMaintenanceConfigurationAction, [S3TablesNamespace, S3TablesTableName]),
     (S3TablesGetTableMaintenanceJobStatusAction, [S3TablesNamespace, S3TablesTableName]),
     (S3TablesGetTableMetadataLocationAction, [S3TablesNamespace, S3TablesTableName]),
     (S3TablesGetTablePolicyAction, [S3TablesNamespace, S3TablesTableName]),
     (S3TablesListNamespacesAction, [S3TablesNamespace]),
     (S3TablesListTableBucketsAction, []),
     (S3TablesListTablesAction, [S3TablesNamespace]),
     (S3TablesPutTableBucketEncryptionAction, [S3TablesKMSKeyArn, S3TablesSSEAlgorithm]),
     (S3TablesPutTableBucketMaintenanceConfigurationAction, []),
     (S3TablesPutTableBucketPolicyAction, []),
     (S3TablesPutTableDataAction, [S3TablesNamespace, S3TablesTableName]),
     (S3TablesPutTableEncryptionAction,
        [S3TablesNamespace, S3TablesTableName, S3TablesKMSKeyArn, S3TablesSSEAlgorithm]),
     (S3TablesPutTableMaintenanceConfigurationAction, [S3TablesNamespace, S3TablesTableName]),
     (S3TablesPutTablePolicyAction, [S3TablesNamespace, S3TablesTableName]),
     (S3TablesRegisterTableAction,
        [S3TablesNamespace, S3TablesTableName, S3TablesRegisterLocation]),
     (S3TablesRenameTableAction, [S3TablesNamespace, S3TablesTableName]),
     (S3TablesUpdateTableMetadataLocationAction, [S3TablesNamespace, S3TablesTableName]),
     (S3TablesCreateWarehouseAction, [S3TablesKMSKeyArn, S3TablesSSEAlgorithm]),
     (S3TablesDeleteWarehouseAction, []),
     (S3TablesDeleteWarehouseEncryptionAction, []),
     (S3TablesDeleteWarehousePolicyAction, []),
     (S3TablesGetWarehouseAction, []),
     (S3TablesGetWarehouseEncryptionAction, []),
     (S3TablesGetWarehouseMaintenanceConfigurationAction, []),
     (S3TablesGetWarehousePolicyAction, []),
     (S3TablesListWarehousesAction, []),
     (S3TablesPutWarehouseEncryptionAction, [S3TablesKMSKeyArn, S3TablesSSEAlgorithm]),
     (S3TablesPutWarehouseMaintenanceConfigurationAction, []),
     (S3TablesPutWarehousePolicyAction, []),
     (S3TablesGetConfigAction, []),
     (S3TablesTableMetricsAction, [S3TablesNamespace, S3TablesTableName]),
     (S3TablesUpdateTableAction, [S3TablesNamespace, S3TablesTableName]),
     (S3TablesCreateViewAction, [S3TablesNamespace, S3TablesViewName]),
     (S3TablesDeleteViewAction, [S3TablesNamespace, S3TablesViewName]),
     (S3TablesGetViewAction, [S3TablesNamespace, S3TablesViewName]),
     (S3TablesRenameViewAction, [S3TablesNamespace, S3TablesViewName]),
     (S3TablesUpdateViewAction, [S3TablesNamespace, S3TablesViewName]),
     (S3TablesRegisterViewAction,
        [S3TablesNamespace, S3TablesViewName, S3TablesRegisterLocation]),
     (S3TablesListViewsAction, [S3TablesNamespace]),
     (S3TablesUpdateNamespacePropertiesAction, [S3TablesNamespace]),
     (S3TablesTagResourceAction, []),
     (S3TablesUntagResourceAction, []),
     (S3TablesListTagsForResourceAction, [])]"

definition tableActionConditionKeyMap :: action_key_map where
  "tableActionConditionKeyMap =
     map (\<lambda>act. (act, with_common [])) SupportedTableActions @
     map (\<lambda>(act, ks). (act, NewKeySet (map KeyName_ToKey (CommonKeys @ ks)))) tableKeyOverrides"

end
