(* ===== verification/ActionSets.thy ===== *)
theory ActionSets
  imports ActionsOther
begin

text \<open>
  Sets of actions (\<open>policy/actionset.go\<close>): a \<open>map[Action]struct{}\<close> is the list of its keys in one
  iteration order. A set also matches the actions that its members imply.
\<close>

type_synonym actionset = "action list"

text \<open>The errors of package \<open>policy\<close>, one constructor for each message.\<close>

datatype policy_error =
    UnsupportedAction action | UnsupportedAdminAction action | UnsupportedSTSAction action
  | UnsupportedKMSAction action | UnsupportedTableAction action | UnsupportedVectorsAction action
  | InvalidResource | InvalidResourceText string | LeadingSlash string | BareARN string
  | NotS3Resource string | NotKMSResource string | NotTableResource string
  | DuplicateResource string | BucketMismatch
  | InvalidEffect string | InvalidPrincipal | InvalidSID string | InvalidVersion string
  | EmptyAction | ActionAndNotAction | MixedActionTypes | UnsupportedKeys keyset action
  | EmptyResource | ResourceAndNotResource | AdminResourceAndNotResource
  | UnsupportedResource action | UnsupportedNotResource action

definition ActionSet_Add :: "actionset \<Rightarrow> action \<Rightarrow> actionset" where
  "ActionSet_Add s action = set_add action s"

definition NewActionSet :: "action list \<Rightarrow> actionset" where
  "NewActionSet actions = foldl ActionSet_Add [] actions"

definition NewActionStrings :: "string list \<Rightarrow> actionset" where
  "NewActionStrings actions = foldl ActionSet_Add [] actions"

definition ActionSet_Contains :: "actionset \<Rightarrow> action \<Rightarrow> bool" where
  "ActionSet_Contains s action = (action \<in> set s)"

definition ActionSet_IsEmpty :: "actionset \<Rightarrow> bool" where
  "ActionSet_IsEmpty s = (length s = 0)"

definition ActionSet_ToSlice :: "actionset \<Rightarrow> action list" where
  "ActionSet_ToSlice s = s"

definition ActionSet_Clone :: "actionset \<Rightarrow> actionset" where
  "ActionSet_Clone s = NewActionSet (ActionSet_ToSlice s)"

text \<open>The conversions of a set to the narrower action types keep the strings.\<close>

definition ActionSet_ToAdminSlice :: "actionset \<Rightarrow> action list" where
  "ActionSet_ToAdminSlice s = s"

definition ActionSet_ToSTSSlice :: "actionset \<Rightarrow> action list" where
  "ActionSet_ToSTSSlice s = s"

definition ActionSet_ToKMSSlice :: "actionset \<Rightarrow> action list" where
  "ActionSet_ToKMSSlice s = s"

definition ActionSet_ToTableSlice :: "actionset \<Rightarrow> action list" where
  "ActionSet_ToTableSlice s = s"

definition ActionSet_ToVectorsSlice :: "actionset \<Rightarrow> action list" where
  "ActionSet_ToVectorsSlice s = s"

definition implicitActions :: "(action \<times> actionset) list" where
  "implicitActions = [
     (GetObjectVersionAction, NewActionSet [GetObjectAction]),
     (S3TablesGetTableDataAction,
        NewActionSet [GetObjectAction, ListMultipartUploadPartsAction]),
     (S3TablesPutTableDataAction,
        NewActionSet [PutObjectAction, AbortMultipartUploadAction, ListBucketAction]),
     (S3TablesDeleteTableAction, NewActionSet [DeleteObjectAction]),
     (AllS3TablesActions,
        NewActionSet [GetObjectAction, PutObjectAction, DeleteObjectAction, ListBucketAction,
           ListMultipartUploadPartsAction, AbortMultipartUploadAction]),
     (S3TablesCreateTableBucketAction, NewActionSet [S3TablesCreateWarehouseAction]),
     (S3TablesDeleteTableBucketAction, NewActionSet [S3TablesDeleteWarehouseAction]),
     (S3TablesDeleteTableBucketEncryptionAction,
        NewActionSet [S3TablesDeleteWarehouseEncryptionAction]),
     (S3TablesDeleteTableBucketPolicyAction,
        NewActionSet [S3TablesDeleteWarehousePolicyAction]),
     (S3TablesGetTableBucketAction, NewActionSet [S3TablesGetWarehouseAction]),
     (S3TablesGetTableBucketEncryptionAction,
        NewActionSet [S3TablesGetWarehouseEncryptionAction]),
     (S3TablesGetTableBucketMaintenanceConfigurationAction,
        NewActionSet [S3TablesGetWarehouseMaintenanceConfigurationAction]),
     (S3TablesGetTableBucketPolicyAction, NewActionSet [S3TablesGetWarehousePolicyAction]),
     (S3TablesListTableBucketsAction, NewActionSet [S3TablesListWarehousesAction]),
     (S3TablesPutTableBucketEncryptionAction,
        NewActionSet [S3TablesPutWarehouseEncryptionAction]),
     (S3TablesPutTableBucketMaintenanceConfigurationAction,
        NewActionSet [S3TablesPutWarehouseMaintenanceConfigurationAction]),
     (S3TablesPutTableBucketPolicyAction, NewActionSet [S3TablesPutWarehousePolicyAction]),
     (S3TablesCreateWarehouseAction, NewActionSet [S3TablesCreateTableBucketAction]),
     (S3TablesDeleteWarehouseAction, NewActionSet [S3TablesDeleteTableBucketAction]),
     (S3TablesDeleteWarehouseEncryptionAction,
        NewActionSet [S3TablesDeleteTableBucketEncryptionAction]),
     (S3TablesDeleteWarehousePolicyAction,
        NewActionSet [S3TablesDeleteTableBucketPolicyAction]),
     (S3TablesGetWarehouseAction, NewActionSet [S3TablesGetTableBucketAction]),
     (S3TablesGetWarehouseEncryptionAction,
        NewActionSet [S3TablesGetTableBucketEncryptionAction]),
     (S3TablesGetWarehouseMaintenanceConfigurationAction,
        NewActionSet [S3TablesGetTableBucketMaintenanceConfigurationAction]),
     (S3TablesGetWarehousePolicyAction, NewActionSet [S3TablesGetTableBucketPolicyAction]),
     (S3TablesListWarehousesAction, NewActionSet [S3TablesListTableBucketsAction]),
     (S3TablesPutWarehouseEncryptionAction,
        NewActionSet [S3TablesPutTableBucketEncryptionAction]),
     (S3TablesPutWarehouseMaintenanceConfigurationAction,
        NewActionSet [S3TablesPutTableBucketMaintenanceConfigurationAction]),
     (S3TablesPutWarehousePolicyAction, NewActionSet [S3TablesPutTableBucketPolicyAction])]"

definition ActionSet_Match :: "actionset \<Rightarrow> action \<Rightarrow> bool" where
  "ActionSet_Match s action =
     list_ex (\<lambda>r. if Action_Match r action then True
        else (case map_of implicitActions r of
                None \<Rightarrow> False
              | Some implicits \<Rightarrow> ActionSet_Contains implicits action)) s"

definition ActionSet_Equals :: "actionset \<Rightarrow> actionset \<Rightarrow> bool" where
  "ActionSet_Equals s t =
     (if length s \<noteq> length t then False else list_all (\<lambda>k. k \<in> set t) s)"

definition ActionSet_Intersection :: "actionset \<Rightarrow> actionset \<Rightarrow> actionset" where
  "ActionSet_Intersection s t =
     foldl (\<lambda>n k. if k \<in> set t then ActionSet_Add n k else n) (NewActionSet []) s"

definition ActionSet_ValidateAdmin :: "actionset \<Rightarrow> policy_error option" where
  "ActionSet_ValidateAdmin s =
     first_err (\<lambda>a. fail_if (\<not> AdminAction_IsValid a) (UnsupportedAdminAction a)) (ActionSet_ToAdminSlice s)"

definition ActionSet_ValidateSTS :: "actionset \<Rightarrow> policy_error option" where
  "ActionSet_ValidateSTS s =
     first_err (\<lambda>a. fail_if (\<not> STSAction_IsValid a) (UnsupportedSTSAction a)) (ActionSet_ToSTSSlice s)"

definition ActionSet_ValidateKMS :: "actionset \<Rightarrow> policy_error option" where
  "ActionSet_ValidateKMS s =
     first_err (\<lambda>a. fail_if (\<not> KMSAction_IsValid a) (UnsupportedKMSAction a)) (ActionSet_ToKMSSlice s)"

definition ActionSet_ValidateTable :: "actionset \<Rightarrow> policy_error option" where
  "ActionSet_ValidateTable s =
     first_err (\<lambda>a. fail_if (\<not> TableAction_IsValid a) (UnsupportedTableAction a)) (ActionSet_ToTableSlice s)"

definition ActionSet_ValidateVectors :: "actionset \<Rightarrow> policy_error option" where
  "ActionSet_ValidateVectors s =
     first_err (\<lambda>a. fail_if (\<not> VectorsAction_IsValid a) (UnsupportedVectorsAction a)) (ActionSet_ToVectorsSlice s)"

definition ActionSet_Validate :: "actionset \<Rightarrow> policy_error option" where
  "ActionSet_Validate s =
     first_err (\<lambda>a. fail_if (\<not> Action_IsValid a) (UnsupportedAction a)) (ActionSet_ToSlice s)"

lemmas to_slice_defs = ActionSet_ToSlice_def ActionSet_ToAdminSlice_def ActionSet_ToSTSSlice_def
  ActionSet_ToKMSSlice_def ActionSet_ToTableSlice_def ActionSet_ToVectorsSlice_def

end
