(* ===== verification/Resources.thy ===== *)
theory Resources
  imports ActionSets CondFacts
begin

text \<open>
  Resources of policy statements (\<open>policy/resource.go\<close>) and sets of them
  (\<open>policy/resourceset.go\<close>): parsing, validation, and matching with substitution of policy
  variables.
\<close>

section \<open>ARN types\<close>

abbreviation (input) ResourceARNPrefix :: string where
  "ResourceARNPrefix \<equiv> ''arn:aws:s3:::''"

abbreviation (input) ResourceARNS3TablesPrefix :: string where
  "ResourceARNS3TablesPrefix \<equiv> ''arn:aws:s3tables:::''"

abbreviation (input) ResourceARNKMSPrefix :: string where
  "ResourceARNKMSPrefix \<equiv> ''arn:minio:kms:::''"

datatype arn_type = UnknownARN | ResourceARNS3 | ResourceARNS3Tables | ResourceARNKMS | ResourceARNAll

definition ARNTypeToPrefix :: "(arn_type \<times> string) list" where
  "ARNTypeToPrefix = [
     (ResourceARNS3, ResourceARNPrefix),
     (ResourceARNS3Tables, ResourceARNS3TablesPrefix),
     (ResourceARNKMS, ResourceARNKMSPrefix),
     (ResourceARNAll, ''*'')]"

text \<open>Built by \<open>init\<close>; the list is one iteration order of the map.\<close>

definition ARNPrefixToType :: "(string \<times> arn_type) list" where
  "ARNPrefixToType = map (\<lambda>(k, v). (v, k)) ARNTypeToPrefix"

definition ResourceARNType_String :: "arn_type \<Rightarrow> string" where
  "ResourceARNType_String a = (case map_of ARNTypeToPrefix a of None \<Rightarrow> '''' | Some p \<Rightarrow> p)"

section \<open>Resources\<close>

record resource =
  res_pattern :: string
  res_type :: arn_type

definition Resource_IsBareARN :: "resource \<Rightarrow> bool" where
  "Resource_IsBareARN r =
     (if res_type r \<noteq> ResourceARNAll \<or> res_pattern r = ResourceARNType_String ResourceARNAll then False
      else map_of ARNPrefixToType (res_pattern r) \<noteq> None)"

definition Resource_isKMS :: "resource \<Rightarrow> bool" where
  "Resource_isKMS r = (res_type r = ResourceARNKMS \<or> res_type r = ResourceARNAll)"

definition Resource_isS3 :: "resource \<Rightarrow> bool" where
  "Resource_isS3 r = (res_type r = ResourceARNS3 \<or> res_type r = ResourceARNAll)"

definition Resource_isTable :: "resource \<Rightarrow> bool" where
  "Resource_isTable r = (res_type r = ResourceARNS3Tables \<or> res_type r = ResourceARNAll)"

definition Resource_isBucketPattern :: "resource \<Rightarrow> bool" where
  "Resource_isBucketPattern r = (\<not> contains_byte (res_pattern r) (CHR ''/'') \<or> res_pattern r = ''*'')"

definition Resource_isObjectPattern :: "resource \<Rightarrow> bool" where
  "Resource_isObjectPattern r =
     (contains_byte (res_pattern r) (CHR ''/'') \<or> contains_byte (res_pattern r) (CHR ''*''))"

text \<open>The bytes \<open>/\<close>, backslash (92) and \<open>.\<close> are refused in the name of a KMS key.\<close>

definition Resource_IsValid :: "resource \<Rightarrow> bool" where
  "Resource_IsValid r =
     (if res_type r = UnknownARN then False
      else if Resource_isS3 r \<and> has_prefix (res_pattern r) ''/'' then False
      else if Resource_isTable r \<and> has_prefix (res_pattern r) ''/'' then False
      else if Resource_isKMS r \<and>
        index_func (\<lambda>c. c = CHR ''/'' \<or> byte c = 92 \<or> c = CHR ''.'') (res_pattern r) \<noteq> None then False
      else res_pattern r \<noteq> '''')"

text \<open>
  The replacement of \<open>${ckey}\<close> in \<open>Match\<close>: a key common to all actions gives the request's first
  value under its name when that is not empty, and indexing an empty list of values panics; anything
  else is written as it was.
\<close>

definition replace_key :: "cond_values \<Rightarrow> string \<Rightarrow> string may_panic" where
  "replace_key values ckey =
     (let kept = ''${'' @ ckey @ ''}''
      in if \<not> CommonKeysMap ckey then Some kept
         else (case values (KeyName_Name ckey) of
                 None \<Rightarrow> Some kept
               | Some [] \<Rightarrow> None
               | Some (v # vs) \<Rightarrow> Some (if v \<noteq> '''' then v else kept)))"

text \<open>The replacement loop of \<open>Match\<close> over the rest of the pattern.\<close>

function replace_keys :: "cond_values \<Rightarrow> string \<Rightarrow> string may_panic" where
  "replace_keys values remain =
     (if remain = [] then Some []
      else if hd remain \<noteq> CHR ''$'' \<or> length remain < 3 then
        map_option (\<lambda>s. hd remain # s) (replace_keys values (tl remain))
      else (case index_byte remain (CHR ''}'') of
              None \<Rightarrow> map_option (\<lambda>s. CHR ''$'' # s) (replace_keys values (tl remain))
            | Some keyEnds \<Rightarrow>
                (if remain ! 1 \<noteq> CHR ''{'' then
                   map_option (\<lambda>s. CHR ''$'' # s) (replace_keys values (tl remain))
                 else
                   (case replace_key values (drop 2 (take keyEnds remain)) of
                      None \<Rightarrow> None
                    | Some w \<Rightarrow>
                        map_option (\<lambda>s. w @ s) (replace_keys values (drop (Suc keyEnds) remain))))))"
  by pat_completeness auto
termination
  by (relation "measure (\<lambda>(values, remain). length remain)")
    (auto simp: neq_Nil_conv split: if_splits)

declare replace_keys.simps [simp del]

text \<open>The test of both exits of \<open>Match\<close>.\<close>

definition match_pattern :: "string \<Rightarrow> string \<Rightarrow> bool" where
  "match_pattern pattern rsc =
     (let cp = path_clean rsc
      in if cp \<noteq> ''.'' \<and> cp = pattern then True else Match pattern rsc)"

definition Resource_Match :: "resource \<Rightarrow> string \<Rightarrow> cond_values \<Rightarrow> bool may_panic" where
  "Resource_Match r rsc values =
     (case index_byte (res_pattern r) (CHR ''$'') of
        None \<Rightarrow> Some (match_pattern (res_pattern r) rsc)
      | Some idx \<Rightarrow>
          map_option (\<lambda>s. match_pattern (take idx (res_pattern r) @ s) rsc)
            (replace_keys values (drop idx (res_pattern r))))"

definition Resource_MatchResource :: "resource \<Rightarrow> string \<Rightarrow> bool may_panic" where
  "Resource_MatchResource r rsc = Resource_Match r rsc Map.empty"

definition Resource_String :: "resource \<Rightarrow> string" where
  "Resource_String r = ResourceARNType_String (res_type r) @ res_pattern r"

definition Resource_Validate :: "resource \<Rightarrow> policy_error option" where
  "Resource_Validate r = fail_if (\<not> Resource_IsValid r) InvalidResource"

definition Resource_ValidateBucket :: "resource \<Rightarrow> string \<Rightarrow> policy_error option" where
  "Resource_ValidateBucket r bucketName =
     and_then (fail_if (\<not> Resource_IsValid r) InvalidResource)
       (fail_if (\<not> Match (res_pattern r) bucketName \<and>
                 \<not> MatchAsPatternPrefix (res_pattern r) (bucketName @ ''/'')) BucketMismatch)"

text \<open>The loop of \<open>ParseResource\<close> over the entries of \<open>ARNPrefixToType\<close>, in any order.\<close>

fun parse_resource_loop :: "(string \<times> arn_type) list \<Rightarrow> string \<Rightarrow> resource \<Rightarrow> resource" where
  "parse_resource_loop [] s r = r"
| "parse_resource_loop ((k, v) # entries) s r =
     (if s = k then
        parse_resource_loop entries s \<lparr>res_pattern = k, res_type = ResourceARNAll\<rparr>
      else (case cut_prefix s k of
              Some rem \<Rightarrow> \<lparr>res_pattern = rem, res_type = v\<rparr>
            | None \<Rightarrow> parse_resource_loop entries s r))"

definition ParseResource :: "(string \<times> arn_type) list \<Rightarrow> string \<Rightarrow> policy_error + resource" where
  "ParseResource entries s =
     (let r = parse_resource_loop entries s \<lparr>res_pattern = '''', res_type = UnknownARN\<rparr>
      in if res_type r = UnknownARN then Inl (InvalidResourceText s)
         else if has_prefix (res_pattern r) ''/'' then Inl (LeadingSlash s)
         else Inr r)"

definition NewResource :: "string \<Rightarrow> resource" where
  "NewResource pattern = \<lparr>res_pattern = pattern, res_type = ResourceARNS3\<rparr>"

definition NewKMSResource :: "string \<Rightarrow> resource" where
  "NewKMSResource pattern = \<lparr>res_pattern = pattern, res_type = ResourceARNKMS\<rparr>"

definition NewS3TablesResource :: "string \<Rightarrow> resource" where
  "NewS3TablesResource pattern = \<lparr>res_pattern = pattern, res_type = ResourceARNS3Tables\<rparr>"

definition isTableResourceString :: "string \<Rightarrow> bool" where
  "isTableResourceString s =
     (if \<not> has_prefix s ''bucket/'' then False
      else (case split_on (CHR ''/'') (trim_prefix s ''bucket/'') of
              [a, b] \<Rightarrow> a \<noteq> '''' \<and> (b = ''table'' \<or> b = ''view'')
            | [a, b, _] \<Rightarrow> a \<noteq> '''' \<and> (b = ''table'' \<or> b = ''view'')
            | _ \<Rightarrow> False))"

section \<open>Resource sets\<close>

type_synonym resourceset = "resource list"

definition ResourceSet_BucketResourceExists :: "resourceset \<Rightarrow> bool" where
  "ResourceSet_BucketResourceExists rs = list_ex Resource_isBucketPattern rs"

definition ResourceSet_ObjectResourceExists :: "resourceset \<Rightarrow> bool" where
  "ResourceSet_ObjectResourceExists rs = list_ex Resource_isObjectPattern rs"

definition ResourceSet_Add :: "resourceset \<Rightarrow> resource \<Rightarrow> resourceset" where
  "ResourceSet_Add rs r = set_add r rs"

definition NewResourceSet :: "resource list \<Rightarrow> resourceset" where
  "NewResourceSet rs = foldl ResourceSet_Add [] rs"

definition ResourceSet_Equals :: "resourceset \<Rightarrow> resourceset \<Rightarrow> bool" where
  "ResourceSet_Equals rs ss =
     (if length rs \<noteq> length ss then False else list_all (\<lambda>k. k \<in> set ss) rs)"

definition ResourceSet_Intersection :: "resourceset \<Rightarrow> resourceset \<Rightarrow> resourceset" where
  "ResourceSet_Intersection rs ss =
     foldl (\<lambda>n k. if k \<in> set ss then ResourceSet_Add n k else n) (NewResourceSet []) rs"

definition ResourceSet_MatchResource :: "resourceset \<Rightarrow> string \<Rightarrow> bool may_panic" where
  "ResourceSet_MatchResource rs rsc = any_m (\<lambda>r. Resource_MatchResource r rsc) rs"

definition ResourceSet_Match :: "resourceset \<Rightarrow> string \<Rightarrow> cond_values \<Rightarrow> bool may_panic" where
  "ResourceSet_Match rs rsc values = any_m (\<lambda>r. Resource_Match r rsc values) rs"

text \<open>The loop of \<open>UnmarshalJSON\<close> over the strings of the decoded string set.\<close>

fun unmarshal_resources ::
  "(string \<times> arn_type) list \<Rightarrow> resourceset \<Rightarrow> string list \<Rightarrow> policy_error + resourceset" where
  "unmarshal_resources entries rs [] = Inr rs"
| "unmarshal_resources entries rs (s # ss) =
     (case ParseResource entries s of
        Inl e \<Rightarrow> Inl e
      | Inr r \<Rightarrow>
          (if r \<in> set rs then Inl (DuplicateResource s)
           else unmarshal_resources entries (ResourceSet_Add rs r) ss))"

definition ResourceSet_ValidateStrict :: "resourceset \<Rightarrow> policy_error option" where
  "ResourceSet_ValidateStrict rs =
     first_err (\<lambda>r. fail_if (Resource_IsBareARN r) (BareARN (res_pattern r))) rs"

definition ResourceSet_ValidateS3 :: "resourceset \<Rightarrow> policy_error option" where
  "ResourceSet_ValidateS3 rs =
     first_err (\<lambda>r. and_then (fail_if (\<not> Resource_isS3 r) (NotS3Resource (Resource_String r)))
       (Resource_Validate r)) rs"

definition ResourceSet_ValidateKMS :: "resourceset \<Rightarrow> policy_error option" where
  "ResourceSet_ValidateKMS rs =
     first_err (\<lambda>r. and_then (fail_if (\<not> Resource_isKMS r) (NotKMSResource (Resource_String r)))
       (Resource_Validate r)) rs"

definition ResourceSet_ValidateTable :: "resourceset \<Rightarrow> policy_error option" where
  "ResourceSet_ValidateTable rs =
     first_err (\<lambda>r. and_then (fail_if (\<not> Resource_isTable r) (NotTableResource (Resource_String r)))
       (Resource_Validate r)) rs"

definition ResourceSet_ValidateVectors :: "resourceset \<Rightarrow> policy_error option" where
  "ResourceSet_ValidateVectors rs =
     first_err (\<lambda>r. and_then (fail_if (\<not> Resource_isS3 r) (NotS3Resource (Resource_String r)))
       (Resource_Validate r)) rs"

definition ResourceSet_ValidateBucket :: "resourceset \<Rightarrow> string \<Rightarrow> policy_error option" where
  "ResourceSet_ValidateBucket rs bucketName =
     first_err (\<lambda>r. Resource_ValidateBucket r bucketName) rs"

definition ResourceSet_ToSlice :: "resourceset \<Rightarrow> resource list" where
  "ResourceSet_ToSlice rs = rs"

definition ResourceSet_Clone :: "resourceset \<Rightarrow> resourceset" where
  "ResourceSet_Clone rs = NewResourceSet (ResourceSet_ToSlice rs)"

end
