(* ===== verification/ActionFacts.thy ===== *)
theory ActionFacts
  imports ActionSets
begin

text \<open>
  Facts about actions: the prefix tests of admin actions are exact, the namespaces are disjoint, the
  condition keys of an action do not depend on the order of the table, and which table actions
  imply each other.
\<close>

lemma Has_eq: "Has p \<longleftrightarrow> CHR ''*'' \<in> set p \<or> CHR ''?'' \<in> set p"
  by (auto simp: Has_def list_ex_iff)

lemma wild_ref_refl: "wild_ref sm p p"
proof (induction p)
  case (Cons c p)
  then show ?case using wild_ref_star_skip [of sm p p c] by auto
qed simp

lemma Match_refl: "Match p p"
  by (simp add: Match_eq wild_ref_refl)

text \<open>The text before the first wildcard of a pattern is a prefix of every name it matches.\<close>

lemma wild_ref_head:
  "wild_ref False p t \<Longrightarrow> (\<forall>c\<in>set (take i p). c \<noteq> CHR ''*'' \<and> c \<noteq> CHR ''?'') \<Longrightarrow> has_prefix t (take i p)"
proof (induction "False" p t arbitrary: i rule: wild_ref.induct)
  case (2 c p)
  then show ?case by (cases i) (auto simp: has_prefix_def split: if_splits)
next
  case (3 c p x t)
  then show ?case by (cases i) (auto simp: has_prefix_def split: if_splits)
qed (auto simp: has_prefix_def)

lemma has_prefix_comparable:
  "has_prefix s p \<Longrightarrow> has_prefix s q \<Longrightarrow> length p \<le> length q \<Longrightarrow> has_prefix q p"
  by (metis has_prefix_def min.absorb1 take_take)

lemma canMatchPrefix_complete:
  assumes "has_prefix t head" "has_prefix t pre"
  shows "canMatchPrefix head pre"
  using assms has_prefix_comparable [of t pre head] has_prefix_comparable [of t head pre]
  by (simp add: canMatchPrefix_def)

lemma admin_actions_prefix: "\<forall>a\<in>set SupportedAdminActions. has_prefix a adminActionPrefix"
  by code_simp

lemma admin_resource_actions_exact: "\<forall>a\<in>set AdminActionsWithResource. \<not> Has a"
  by code_simp

lemma IndexAny_None: "index_func (\<lambda>c. c = CHR ''*'' \<or> c = CHR ''?'') p = None \<longleftrightarrow> \<not> Has p"
  by (auto simp: index_func_None Has_eq)

lemma IndexAny_head:
  assumes "index_func (\<lambda>c. c = CHR ''*'' \<or> c = CHR ''?'') p = Some i"
  shows "\<forall>c\<in>set (take i p). c \<noteq> CHR ''*'' \<and> c \<noteq> CHR ''?''"
  using index_func_SomeD [OF assms] by (auto simp: in_set_conv_nth)

lemma AdminAction_IsValid_eq:
  "AdminAction_IsValid a \<longleftrightarrow> (\<exists>s\<in>set SupportedAdminActions. wild_ref False a s)"
proof
  assume "AdminAction_IsValid a"
  then show "\<exists>s\<in>set SupportedAdminActions. wild_ref False a s"
    using wild_ref_refl
    by (auto simp: AdminAction_IsValid_def AdminAction_Match_def list_ex_iff Match_eq
        split: if_splits option.splits)
next
  assume "\<exists>s\<in>set SupportedAdminActions. wild_ref False a s"
  then obtain s where s: "s \<in> set SupportedAdminActions" "wild_ref False a s" by blast
  show "AdminAction_IsValid a"
  proof (cases "index_func (\<lambda>c. c = CHR ''*'' \<or> c = CHR ''?'') a")
    case None
    then have "a = s" using s(2) by (simp add: IndexAny_None wild_ref_exact)
    with s show ?thesis by (simp add: AdminAction_IsValid_def)
  next
    case (Some i)
    have "has_prefix s (take i a)"
      using wild_ref_head [OF s(2) IndexAny_head [OF Some]] .
    with s(1) admin_actions_prefix have "canMatchPrefix (take i a) adminActionPrefix"
      by (blast intro: canMatchPrefix_complete)
    with Some s show ?thesis
      by (auto simp: AdminAction_IsValid_def AdminAction_Match_def list_ex_iff Match_eq)
  qed
qed

lemma AdminAction_HasResource_eq:
  "AdminAction_HasResource a \<longleftrightarrow> (\<exists>s\<in>set AdminActionsWithResource. wild_ref False a s)"
  using wild_ref_refl
  by (auto simp: AdminAction_HasResource_def AdminAction_Match_def list_ex_iff Match_eq wild_ref_exact)

text \<open>
  C16: the shortcuts of the admin action tests lose nothing: \<open>IsValid\<close>, with its exact lookup and
  its comparison of the text before the first wildcard with \<open>admin:\<close>, accepts exactly the patterns
  that match some supported admin action, and \<open>HasResource\<close> exactly those that match some
  bucket-scoped admin action.
\<close>

theorem admin_shortcuts_exact:
  "(AdminAction_IsValid a \<longleftrightarrow> (\<exists>s. s \<in> set SupportedAdminActions \<and> wild_ref False a s)) \<and>
   (AdminAction_HasResource a \<longleftrightarrow> (\<exists>s. s \<in> set AdminActionsWithResource \<and> wild_ref False a s))"
  using AdminAction_IsValid_eq [of a] AdminAction_HasResource_eq [of a] by blast

section \<open>The namespaces\<close>

lemma action_prefixes:
  "\<forall>a\<in>set supportedSTSActions. has_prefix a ''sts:''"
  "\<forall>a\<in>set supportedKMSActions. has_prefix a ''kms:''"
  "\<forall>a\<in>set SupportedVectorsActions. has_prefix a ''s3vectors:''"
  "\<forall>a\<in>set SupportedTableActions. has_prefix a ''s3tables:''"
  "\<forall>a\<in>set SupportedActions. has_prefix a ''s3:'' \<or> has_prefix a ''s3express:''"
  by code_simp+

definition action_namespaces :: "action \<Rightarrow> bool list" where
  "action_namespaces a = [AdminAction_IsValid a, STSAction_IsValid a, KMSAction_IsValid a,
     TableAction_IsValid a, VectorsAction_IsValid a, Action_IsValid a]"

text \<open>
  An action without wildcards is valid in at most one of the six action namespaces, so the
  order in which the tests of \<open>validateActionTypes\<close> are tried does not matter for it.
\<close>

theorem action_namespaces_disjoint:
  assumes "\<not> Has a"
  shows "length (filter (\<lambda>b. b) (action_namespaces a)) \<le> 1"
proof -
  have "AdminAction_IsValid a \<Longrightarrow> has_prefix a ''admin:''"
    using assms admin_actions_prefix by (auto simp: AdminAction_IsValid_eq wild_ref_exact adminActionPrefix_def)
  moreover have "Action_IsValid a \<Longrightarrow> has_prefix a ''s3:'' \<or> has_prefix a ''s3express:''"
    using assms action_prefixes(5)
    by (auto simp: Action_IsValid_def list_ex_iff Action_Match_def Match_exact)
  moreover note action_prefixes(1-4)
  ultimately show ?thesis
    by (cases a)
     (auto simp: action_namespaces_def STSAction_IsValid_def KMSAction_IsValid_def
        VectorsAction_IsValid_def TableAction_IsValid_def has_prefix_iff)
qed

section \<open>Condition keys of an action\<close>

lemma set_Lookup:
  "set (ActionConditionKeyMap_Lookup m action) =
   KeyName_ToKey ` set CommonKeys \<union> (\<Union>(act, ks)\<in>{e \<in> set m. wild_ref False action (fst e)}. set ks)"
proof -
  have "set (foldl (\<lambda>merged (act, ckey). if Action_Match action act then KeySet_Merge merged ckey else merged) z m) =
      set z \<union> (\<Union>(act, ks)\<in>{e \<in> set m. wild_ref False action (fst e)}. set ks)" for z
    by (induction m arbitrary: z) (auto simp: Action_Match_def Match_eq case_prod_unfold)
  then show ?thesis by (simp add: ActionConditionKeyMap_Lookup_def)
qed

text \<open>
  The condition keys supported for an action are the keys common to all actions and the keys of
  every entry of the table whose action the given one, read as a pattern, matches; the iteration
  order of the table has no influence.
\<close>

theorem lookup_supported_keys:
  "k \<in> set (ActionConditionKeyMap_Lookup m action) \<longleftrightarrow>
   k \<in> KeyName_ToKey ` set CommonKeys \<or> (\<exists>act ks. (act, ks) \<in> set m \<and> wild_ref False action act \<and> k \<in> set ks)"
  unfolding set_Lookup by auto

section \<open>Implied actions\<close>

lemma ActionSet_Match_eq:
  "ActionSet_Match s a \<longleftrightarrow>
   (\<exists>r\<in>set s. wild_ref False r a \<or> (\<exists>im. map_of implicitActions r = Some im \<and> a \<in> set im))"
  unfolding ActionSet_Match_def list_ex_iff
  by (intro bex_cong refl)
    (auto simp: Action_Match_def Match_eq ActionSet_Contains_def split: option.splits)

lemma implicit_counterparts:
  "\<forall>(k, vs)\<in>set implicitActions. \<forall>v\<in>set vs.
     has_prefix v ''s3tables:'' \<longrightarrow> map_of implicitActions v = Some [k]"
  by code_simp


lemma implicit_counterpart:
  assumes "map_of implicitActions k = Some vs" "v \<in> set vs" "TableAction_IsValid v"
  shows "map_of implicitActions v = Some [k]"
proof -
  from assms(3) have "has_prefix v ''s3tables:''"
    using action_prefixes(4) by (simp add: TableAction_IsValid_def)
  then show ?thesis
    using map_of_SomeD [OF assms(1)] assms(2) implicit_counterparts by fastforce
qed

text \<open>
  Of two S3 Tables actions, a statement naming the one covers the other exactly when a
  statement naming the other covers the one: the warehouse and the table bucket spellings imply each
  other, and no other table action implies a table action.
\<close>

theorem counterpart_actions_equivalent:
  assumes "TableAction_IsValid a" "TableAction_IsValid b" "\<not> Has a" "\<not> Has b"
  shows "ActionSet_Match [a] b \<longleftrightarrow> ActionSet_Match [b] a"
  using assms implicit_counterpart
  by (auto simp: ActionSet_Match_eq wild_ref_exact)

theorem counterpart_actions_equivalent_witness:
  "ActionSet_Match [S3TablesGetWarehouseAction] S3TablesGetTableBucketAction \<longleftrightarrow>
   ActionSet_Match [S3TablesGetTableBucketAction] S3TablesGetWarehouseAction"
  by (rule counterpart_actions_equivalent) code_simp+

theorem action_namespaces_disjoint_witness:
  "length (filter (\<lambda>b. b) (action_namespaces S3TablesGetTableAction)) \<le> 1"
  by (rule action_namespaces_disjoint) code_simp

section \<open>Action sets\<close>

lemma NewActionSet_eq: "NewActionSet xs = set_adds xs []"
  by (simp add: NewActionSet_def ActionSet_Add_def [abs_def] set_adds_def)

interpretation acts: map_set NewActionSet ActionSet_Equals ActionSet_Intersection
  unfolding ActionSet_Intersection_def ActionSet_Add_def
  by unfold_locales
    (simp_all add: NewActionSet_eq ActionSet_Equals_def equals_loop_iff inter_loop_set inter_loop_distinct)

lemma ActionSet_Match_cong: "set s = set t \<Longrightarrow> ActionSet_Match s a = ActionSet_Match t a"
  by (simp add: ActionSet_Match_eq)

end
