(* ===== verification/ResourceFacts.thy ===== *)
theory ResourceFacts
  imports Resources ActionFacts
begin

text \<open>
  Facts about resources: parsing does not depend on the iteration order of the prefix table and
  inverts printing; matching panics only on an empty list of values; a pattern with a slash never
  matches a name without one; which resources belong to a bucket.
\<close>

section \<open>Parsing does not depend on the iteration order\<close>

lemma ARNPrefixToType_eq: "ARNPrefixToType = [(ResourceARNPrefix, ResourceARNS3),
     (ResourceARNS3TablesPrefix, ResourceARNS3Tables), (ResourceARNKMSPrefix, ResourceARNKMS),
     (''*'', ResourceARNAll)]"
  by (simp add: ARNPrefixToType_def ARNTypeToPrefix_def)

text \<open>No prefix of the table begins another one.\<close>

lemma arn_prefixes_apart:
  "(k, v) \<in> set ARNPrefixToType \<Longrightarrow> (k', v') \<in> set ARNPrefixToType \<Longrightarrow> has_prefix k k' \<Longrightarrow> k = k' \<and> v = v'"
  by (auto simp: ARNPrefixToType_eq has_prefix_def)

lemma arn_prefix_unique:
  assumes "(k, v) \<in> set ARNPrefixToType" "(k', v') \<in> set ARNPrefixToType" "has_prefix s k" "has_prefix s k'"
  shows "k = k' \<and> v = v'"
proof (cases "length k \<le> length k'")
  case True
  then have "has_prefix k' k" using assms(3,4) has_prefix_comparable by blast
  then show ?thesis using arn_prefixes_apart assms(1,2) by metis
next
  case False
  then have "has_prefix k k'" using assms(3,4) has_prefix_comparable by (metis nle_le)
  then show ?thesis using arn_prefixes_apart assms(1,2) by metis
qed

text \<open>What the loop finds: the one entry whose prefix begins the text.\<close>

definition parsed :: "string \<Rightarrow> string \<Rightarrow> arn_type \<Rightarrow> resource" where
  "parsed s k v = (if s = k then \<lparr>res_pattern = k, res_type = ResourceARNAll\<rparr>
     else \<lparr>res_pattern = drop (length k) s, res_type = v\<rparr>)"

lemma parse_loop_skip:
  "(\<And>k v. (k, v) \<in> set entries \<Longrightarrow> \<not> has_prefix s k) \<Longrightarrow> parse_resource_loop entries s r = r"
proof (induction entries s r rule: parse_resource_loop.induct)
  case (2 k v entries s r)
  have "\<not> has_prefix s k" using 2(3) by auto
  then have "s \<noteq> k" by (auto simp: has_prefix_def)
  with \<open>\<not> has_prefix s k\<close> 2 show ?case by (auto simp: cut_prefix_def)
qed simp

lemma parse_loop_found:
  assumes "distinct entries" "set entries \<subseteq> set ARNPrefixToType" "(k, v) \<in> set entries" "has_prefix s k"
  shows "parse_resource_loop entries s r = parsed s k v"
  using assms
proof (induction entries arbitrary: r)
  case (Cons e entries)
  obtain k' v' where e: "e = (k', v')" by fastforce
  show ?case
  proof (cases "has_prefix s k'")
    case True
    have "k = k' \<and> v = v'"
      using Cons.prems(2-4) True arn_prefix_unique [of k v k' v' s] by (auto simp: e)
    then have kv: "k' = k" "v' = v" by auto
    have "\<not> has_prefix s k''" if "(k'', v'') \<in> set entries" for k'' v''
      using Cons.prems(1,2) that arn_prefix_unique [of k v k'' v'' s] True kv by (auto simp: e)
    then have "parse_resource_loop entries s r' = r'" for r'
      by (blast intro: parse_loop_skip)
    then show ?thesis
      using True by (cases "s = k") (simp_all add: e kv parsed_def cut_prefix_def)
  next
    case False
    then have "s \<noteq> k'" by (auto simp: has_prefix_def)
    with False Cons show ?thesis by (auto simp: e cut_prefix_def)
  qed
qed simp

lemma parse_loop_eq:
  assumes "distinct entries" "set entries = set ARNPrefixToType"
  shows "parse_resource_loop entries s r =
    (case find (\<lambda>(k, v). has_prefix s k) ARNPrefixToType of None \<Rightarrow> r | Some (k, v) \<Rightarrow> parsed s k v)"
proof (cases "find (\<lambda>(k, v). has_prefix s k) ARNPrefixToType")
  case None
  then have "parse_resource_loop entries s r = r"
    using assms(2) by (intro parse_loop_skip) (auto simp: find_None_iff)
  with None show ?thesis by simp
next
  case (Some e)
  then have "e \<in> set ARNPrefixToType" "case e of (k, v) \<Rightarrow> has_prefix s k"
    by (auto simp: find_Some_iff) (metis nth_mem)
  with Some assms show ?thesis
    by (cases e) (auto intro: parse_loop_found)
qed

text \<open>
  C14: the outcome of \<open>ParseResource\<close> does not depend on the iteration order of the prefix table,
  although its loop keeps going after an exact hit and stops at the first prefix: no prefix of the
  table begins another.
\<close>

theorem ParseResource_order_independent:
  assumes "distinct entries" "set entries = set ARNPrefixToType"
  shows "ParseResource entries s = ParseResource ARNPrefixToType s"
proof -
  have "distinct ARNPrefixToType" by (simp add: ARNPrefixToType_eq)
  then show ?thesis
    using assms by (simp add: ParseResource_def parse_loop_eq)
qed

lemma ParseResource_prefix:
  assumes "(k, v) \<in> set ARNPrefixToType" "rem \<noteq> ''''" "\<not> has_prefix rem ''/''"
  shows "ParseResource ARNPrefixToType (k @ rem) = Inr \<lparr>res_pattern = rem, res_type = v\<rparr>"
proof -
  have "distinct ARNPrefixToType" "v \<noteq> UnknownARN"
    using assms(1) by (auto simp: ARNPrefixToType_eq)
  then have "parse_resource_loop ARNPrefixToType (k @ rem) r = parsed (k @ rem) k v" for r
    using assms(1) by (intro parse_loop_found) auto
  with assms(2,3) \<open>v \<noteq> UnknownARN\<close> show ?thesis
    by (simp add: ParseResource_def parsed_def)
qed

lemma has_prefix_mem: "has_prefix s [c] \<Longrightarrow> c \<in> set s"
  by (cases s) (auto simp: has_prefix_def)

lemma Resource_IsValid_pattern:
  assumes "Resource_IsValid r"
  shows "\<not> has_prefix (res_pattern r) ''/''" "res_pattern r \<noteq> ''''" "res_type r \<noteq> UnknownARN"
proof -
  show "res_pattern r \<noteq> ''''" "res_type r \<noteq> UnknownARN"
    using assms by (auto simp: Resource_IsValid_def split: if_splits)
  have "\<not> has_prefix (res_pattern r) ''/''" if "res_type r = ResourceARNKMS"
    using assms that
    by (auto simp: Resource_IsValid_def Resource_isKMS_def index_func_None dest: has_prefix_mem split: if_splits)
  then show "\<not> has_prefix (res_pattern r) ''/''"
    using assms
    by (cases "res_type r")
      (auto simp: Resource_IsValid_def Resource_isS3_def Resource_isTable_def split: if_splits)
qed

lemma ARNType_prefix:
  "t \<noteq> UnknownARN \<Longrightarrow> (ResourceARNType_String t, t) \<in> set ARNPrefixToType"
  by (cases t) (simp_all add: ResourceARNType_String_def ARNTypeToPrefix_def ARNPrefixToType_eq)

text \<open>
  C15: parsing the text of a valid resource gives the resource back, also for the wildcard type,
  whose patterns can themselves be bare ARN prefixes.
\<close>

theorem ParseResource_String:
  assumes "Resource_IsValid r"
  shows "ParseResource ARNPrefixToType (Resource_String r) = Inr r"
  using Resource_IsValid_pattern [OF assms] ARNType_prefix [of "res_type r"]
  by (simp add: Resource_String_def ParseResource_prefix)

section \<open>Matching\<close>

lemma split_braces:
  assumes "hd s = CHR ''$''" "3 \<le> length s" "s ! 1 = CHR ''{''" "index_byte s (CHR ''}'') = Some i"
  shows "s = ''${'' @ drop 2 (take i s) @ ''}'' @ drop (Suc i) s"
proof -
  have i: "i < length s" "s ! i = CHR ''}''"
    using index_func_SomeD [OF assms(4) [unfolded index_byte_def]] by auto
  obtain c d t where s: "s = c # d # t"
    using assms(2) by (cases s; cases "tl s") auto
  have "i \<noteq> 0" using i(2) s assms(1) by (cases i) auto
  moreover have "i \<noteq> 1" using i(2) assms(3) by auto
  ultimately obtain j where j: "i = Suc (Suc j)" by (metis One_nat_def not0_implies_Suc)
  with s i have "t = take j t @ CHR ''}'' # drop (Suc j) t"
    using id_take_nth_drop [of j t] by simp
  with s j assms(1,3) show ?thesis by simp
qed

text \<open>One turn of the loop: one byte is copied, or one \<open>${...}\<close> is replaced.\<close>

lemma replace_keys_step:
  assumes "s \<noteq> []"
  shows "replace_keys m s = map_option (\<lambda>t. hd s # t) (replace_keys m (tl s)) \<or>
    (\<exists>ckey rest. s = ''${'' @ ckey @ ''}'' @ rest \<and>
       replace_keys m s = (case replace_key m ckey of None \<Rightarrow> None
         | Some w \<Rightarrow> map_option (\<lambda>t. w @ t) (replace_keys m rest)))"
proof (cases "hd s = CHR ''$'' \<and> 3 \<le> length s \<and> s ! 1 = CHR ''{'' \<and> index_byte s (CHR ''}'') \<noteq> None")
  case True
  then obtain i where i: "index_byte s (CHR ''}'') = Some i" by blast
  have "replace_keys m s = (case replace_key m (drop 2 (take i s)) of None \<Rightarrow> None
      | Some w \<Rightarrow> map_option (\<lambda>t. w @ t) (replace_keys m (drop (Suc i) s)))"
    using True i assms by (subst replace_keys.simps) simp
  then show ?thesis
    using split_braces [of s i] True i by blast
next
  case False
  then have "replace_keys m s = map_option (\<lambda>t. hd s # t) (replace_keys m (tl s))"
    using assms by (subst replace_keys.simps) (auto split: option.splits)
  then show ?thesis by blast
qed

lemma replace_keys_induct:
  assumes "P [] (Some [])"
    and "\<And>c s. P s (replace_keys m s) \<Longrightarrow> P (c # s) (map_option (\<lambda>t. c # t) (replace_keys m s))"
    and "\<And>ckey s. P s (replace_keys m s) \<Longrightarrow> P (''${'' @ ckey @ ''}'' @ s)
       (case replace_key m ckey of None \<Rightarrow> None | Some w \<Rightarrow> map_option (\<lambda>t. w @ t) (replace_keys m s))"
  shows "P s (replace_keys m s)"
proof (induction "length s" arbitrary: s rule: less_induct)
  case less
  show ?case
  proof (cases "s = []")
    case True
    then show ?thesis using assms(1) by (simp add: replace_keys.simps)
  next
    case False
    from replace_keys_step [OF False, of m] show ?thesis
    proof (elim disjE exE conjE)
      assume "replace_keys m s = map_option (\<lambda>t. hd s # t) (replace_keys m (tl s))"
      then show ?thesis
        using assms(2) [of "tl s" "hd s"] less False by simp
    next
      fix ckey rest
      assume s: "s = ''${'' @ ckey @ ''}'' @ rest"
        and "replace_keys m s = (case replace_key m ckey of None \<Rightarrow> None
           | Some w \<Rightarrow> map_option (\<lambda>t. w @ t) (replace_keys m rest))"
      then show ?thesis
        using assms(3) [of rest ckey] less by simp
    qed
  qed
qed

lemma replace_key_None:
  "replace_key m ckey = None \<longleftrightarrow> ckey \<in> set CommonKeys \<and> m (KeyName_Name ckey) = Some []"
  by (auto simp: replace_key_def CommonKeysMap_def Let_def split: option.splits list.splits)

lemma replace_keys_total:
  assumes "wf_values m"
  shows "replace_keys m s \<noteq> None"
proof -
  have "replace_key m ckey \<noteq> None" for ckey
    using assms by (auto simp: replace_key_None wf_values_def)
  then show ?thesis
    by (intro replace_keys_induct [where P = "\<lambda>s r. r \<noteq> None"]) (auto split: option.splits)
qed

lemma Resource_Match_total [no_panic]: "wf_values m \<Longrightarrow> Resource_Match r rsc m \<noteq> None"
  using replace_keys_total by (simp add: Resource_Match_def split: option.splits)

lemma ResourceSet_Match_total [no_panic]: "wf_values m \<Longrightarrow> ResourceSet_Match rs rsc m \<noteq> None"
  unfolding ResourceSet_Match_def by (intro any_m_total Resource_Match_total)

lemma CommonKeys_no_slash: "\<forall>k\<in>set CommonKeys. CHR ''/'' \<notin> set k"
  by code_simp

text \<open>Replacing variables keeps every slash of the pattern.\<close>

lemma replace_key_slash: "replace_key m ckey = Some w \<Longrightarrow> CHR ''/'' \<in> set ckey \<Longrightarrow> CHR ''/'' \<in> set w"
  using CommonKeys_no_slash
  by (cases "ckey \<in> set CommonKeys") (auto simp: replace_key_def CommonKeysMap_def Let_def)

lemma replace_keys_slash:
  assumes "replace_keys m s = Some t" "CHR ''/'' \<in> set s"
  shows "CHR ''/'' \<in> set t"
proof -
  have "\<forall>t. replace_keys m s = Some t \<longrightarrow> CHR ''/'' \<in> set s \<longrightarrow> CHR ''/'' \<in> set t"
  proof (rule replace_keys_induct [where P = "\<lambda>s r. \<forall>t. r = Some t \<longrightarrow> CHR ''/'' \<in> set s \<longrightarrow> CHR ''/'' \<in> set t"])
    fix ckey s
    assume IH: "\<forall>t. replace_keys m s = Some t \<longrightarrow> CHR ''/'' \<in> set s \<longrightarrow> CHR ''/'' \<in> set t"
    show "\<forall>t. (case replace_key m ckey of None \<Rightarrow> None
        | Some w \<Rightarrow> map_option (\<lambda>t. w @ t) (replace_keys m s)) = Some t \<longrightarrow>
        CHR ''/'' \<in> set (''${'' @ ckey @ ''}'' @ s) \<longrightarrow> CHR ''/'' \<in> set t"
    proof (cases "replace_key m ckey")
      case (Some w)
      then show ?thesis using IH replace_key_slash [OF Some] by auto
    qed simp
  qed auto
  with assms show ?thesis by blast
qed

lemma path_clean_slash: "CHR ''/'' \<notin> set rsc \<Longrightarrow> CHR ''/'' \<notin> set (path_clean rsc)"
  using path_clean_no_slash [of rsc] by (cases "rsc = ''''") (auto simp: path_clean_def)

lemma match_pattern_slash:
  "match_pattern p rsc \<Longrightarrow> CHR ''/'' \<in> set p \<Longrightarrow> CHR ''/'' \<in> set rsc"
  using path_clean_slash [of rsc] Match_mem [of p rsc "CHR ''/''"]
  by (auto simp: match_pattern_def Let_def split: if_splits)

text \<open>A pattern with a slash never matches a name without one.\<close>

lemma Resource_Match_slash:
  assumes "Resource_Match r rsc m = Some True" "CHR ''/'' \<in> set (res_pattern r)"
  shows "CHR ''/'' \<in> set rsc"
proof (cases "index_byte (res_pattern r) (CHR ''$'')")
  case None
  with assms show ?thesis by (auto simp: Resource_Match_def intro: match_pattern_slash)
next
  case (Some i)
  then obtain t where t: "replace_keys m (drop i (res_pattern r)) = Some t"
    "match_pattern (take i (res_pattern r) @ t) rsc"
    using assms(1) by (auto simp: Resource_Match_def)
  have "CHR ''/'' \<in> set (take i (res_pattern r) @ drop i (res_pattern r))"
    using assms(2) by (simp only: append_take_drop_id)
  then have "CHR ''/'' \<in> set (take i (res_pattern r) @ t)"
    using replace_keys_slash [OF t(1)] unfolding set_append by blast
  with t(2) show ?thesis by (rule match_pattern_slash)
qed

section \<open>Resources of a bucket\<close>

text \<open>
  A resource is accepted for a bucket exactly when it is valid and its pattern matches the
  bucket itself or some key inside the bucket.
\<close>

theorem ValidateBucket_exact:
  "Resource_ValidateBucket r bucket = None \<longleftrightarrow>
   Resource_IsValid r \<and>
   (wild_ref False (res_pattern r) bucket \<or> (\<exists>key. wild_ref False (res_pattern r) (bucket @ ''/'' @ key)))"
  by (auto simp: Resource_ValidateBucket_def MatchAsPatternPrefix_def prefix_loop_iff Match_eq)

section \<open>Resource sets\<close>

lemma NewResourceSet_eq: "NewResourceSet xs = set_adds xs []"
  by (simp add: NewResourceSet_def ResourceSet_Add_def [abs_def] set_adds_def)

interpretation ress: map_set NewResourceSet ResourceSet_Equals ResourceSet_Intersection
  unfolding ResourceSet_Intersection_def ResourceSet_Add_def
  by unfold_locales
    (simp_all add: NewResourceSet_eq ResourceSet_Equals_def equals_loop_iff inter_loop_set inter_loop_distinct)

section \<open>Witnesses\<close>

theorem ParseResource_order_independent_witness:
  "ParseResource (rev ARNPrefixToType) ''arn:aws:s3:::b'' = ParseResource ARNPrefixToType ''arn:aws:s3:::b''"
  by (rule ParseResource_order_independent) (auto simp: ARNPrefixToType_eq)

theorem ParseResource_String_witness:
  "ParseResource ARNPrefixToType (Resource_String (NewResource ''b/*'')) = Inr (NewResource ''b/*'')"
  by (rule ParseResource_String) code_simp


end
