(* ===== verification/Statement.thy ===== *)
theory Statement
  imports ResourceFacts
begin

text \<open>
  Policy statements (\<open>policy/statement.go\<close>, \<open>effect.go\<close>, \<open>id.go\<close>) and the arguments of a request
  (\<open>policy/policy.go\<close>): the decision \<open>IsAllowedPtr\<close> of one statement, and the two validations.
\<close>

section \<open>Effects, identifiers, arguments\<close>

type_synonym effect = string

abbreviation (input) Allow :: effect where
  "Allow \<equiv> ''Allow''"

abbreviation (input) Deny :: effect where
  "Deny \<equiv> ''Deny''"

definition Effect_IsAllowed :: "effect \<Rightarrow> bool \<Rightarrow> bool" where
  "Effect_IsAllowed effect b = (if effect = Allow then b else \<not> b)"

definition Effect_IsValid :: "effect \<Rightarrow> bool" where
  "Effect_IsValid effect = (effect = Allow \<or> effect = Deny)"

definition ID_IsValid :: "string \<Rightarrow> bool" where
  "ID_IsValid i = utf8_valid i"

text \<open>A claim is an \<open>any\<close>: a string, a list of them, or something the code ignores.\<close>

datatype claim = ClaimString string | ClaimList "claim list" | ClaimOther

record args =
  a_AccountName :: string
  a_Groups :: "string list"
  a_Action :: action
  a_OriginalAction :: action
  a_BucketName :: string
  a_ConditionValues :: cond_values
  a_IsOwner :: bool
  a_ObjectName :: string
  a_Claims :: "string \<rightharpoonup> claim"
  a_DenyOnly :: bool

section \<open>Statements\<close>

record statement =
  SID :: string
  Effect :: effect
  Actions :: actionset
  NotActions :: actionset
  Resources :: resourceset
  NotResources :: resourceset
  Conditions :: fn_list

definition sensitiveBucketMutationActions :: "action list" where
  "sensitiveBucketMutationActions = [
     DeleteBucketAction, ForceDeleteBucketAction, PutBucketPolicyAction, DeleteBucketPolicyAction,
     PutReplicationConfigurationAction, PutBucketLifecycleAction,
     PutBucketObjectLockConfigurationAction, PutBucketVersioningAction, PutBucketCorsAction,
     DeleteBucketCorsAction, PutBucketQOSAction, PutInventoryConfigurationAction]"

definition isSensitiveBucketMutation :: "action \<Rightarrow> bool" where
  "isSensitiveBucketMutation action = (action \<in> set sensitiveBucketMutationActions)"

definition Statement_isAdmin :: "statement \<Rightarrow> bool" where
  "Statement_isAdmin st = list_ex AdminAction_IsValid (Actions st)"

definition Statement_hasAdminResource :: "statement \<Rightarrow> bool" where
  "Statement_hasAdminResource st = list_ex AdminAction_HasResource (Actions st)"

definition Statement_isSTS :: "statement \<Rightarrow> bool" where
  "Statement_isSTS st = list_ex STSAction_IsValid (Actions st)"

definition Statement_isKMS :: "statement \<Rightarrow> bool" where
  "Statement_isKMS st = list_ex KMSAction_IsValid (Actions st)"

definition Statement_isTable :: "statement \<Rightarrow> bool" where
  "Statement_isTable st = list_ex TableAction_IsValid (Actions st)"

definition Statement_isVectors :: "statement \<Rightarrow> bool" where
  "Statement_isVectors st = list_ex VectorsAction_IsValid (Actions st)"

section \<open>The decision of a statement\<close>

text \<open>
  The resource text of a request and the flag \<open>withheldBucketSlash\<close>. The process-wide flag
  \<open>legacyBucketResourceMatch\<close> is the argument \<open>legacy\<close>.
\<close>

definition request_resource :: "bool \<Rightarrow> effect \<Rightarrow> args \<Rightarrow> string \<times> bool" where
  "request_resource legacy eff args =
     (if a_ObjectName args \<noteq> '''' then
        (a_BucketName args @ (if \<not> has_prefix (a_ObjectName args) ''/'' then ''/'' else '''') @
           a_ObjectName args, False)
      else if a_BucketName args = '''' then (''/'', False)
      else if legacy \<or> eff \<noteq> Allow \<or> \<not> isSensitiveBucketMutation (a_Action args) then
        (a_BucketName args @ ''/'', False)
      else (a_BucketName args, True))"

text \<open>
  The rewriting of the resource of a data-path request against an S3 Tables statement;
  \<^term>\<open>None\<close> is the early \<open>return false\<close>.
\<close>

definition table_resource :: "statement \<Rightarrow> args \<Rightarrow> string \<Rightarrow> string option" where
  "table_resource st args rsc =
     (if Statement_isTable st \<and> \<not> TableAction_IsValid (a_Action args) then
        (if \<not> isTableResourceString rsc then
           (if a_BucketName args = '''' \<or> a_ObjectName args = '''' then None
            else
              (let objectName =
                     (case index_byte (a_ObjectName args) (CHR ''/'') of
                        None \<Rightarrow> a_ObjectName args
                      | Some idx \<Rightarrow> take idx (a_ObjectName args));
                   rsc' = ''bucket/'' @ a_BucketName args @ ''/table/'' @ objectName
               in if \<not> isTableResourceString rsc' then None else Some rsc'))
         else Some rsc)
      else Some rsc)"

definition Statement_check :: "ext_lib \<Rightarrow> bool \<Rightarrow> statement \<Rightarrow> args \<Rightarrow> bool may_panic" where
  "Statement_check L legacy st args =
     (if (\<not> ActionSet_Match (Actions st) (a_Action args) \<and> \<not> ActionSet_IsEmpty (Actions st)) \<or>
         ActionSet_Match (NotActions st) (a_Action args) then Some False
      else
        (let (rsc0, withheldBucketSlash) = request_resource legacy (Effect st) args
         in case table_resource st args rsc0 of
              None \<Rightarrow> Some False
            | Some rsc \<Rightarrow>
                (if Statement_isKMS st \<and> (rsc = ''/'' \<or> length (Resources st) = 0) then
                   Functions_Evaluate L (Conditions st) (a_ConditionValues args)
                 else
                   (let ignoreResourceMatch =
                          (Statement_isSTS st \<or> (Statement_isAdmin st \<and> \<not> Statement_hasAdminResource st));
                        required = (\<lambda>s.
                          if \<not> ignoreResourceMatch \<and> length (Resources st) > 0
                          then ResourceSet_Match (Resources st) s (a_ConditionValues args)
                          else Some True);
                        full = (if withheldBucketSlash then rsc @ ''/'' else rsc);
                        not_excluded =
                          (if \<not> ignoreResourceMatch \<and> length (NotResources st) > 0
                           then map_option Not
                             (ResourceSet_Match (NotResources st) full (a_ConditionValues args))
                           else Some True)
                    in and_m (required rsc)
                        (and_m (if withheldBucketSlash then required full else Some True)
                          (and_m not_excluded
                            (Functions_Evaluate L (Conditions st) (a_ConditionValues args))))))))"

definition Statement_IsAllowedPtr :: "ext_lib \<Rightarrow> bool \<Rightarrow> statement \<Rightarrow> args \<Rightarrow> bool may_panic" where
  "Statement_IsAllowedPtr L legacy st args =
     map_option (Effect_IsAllowed (Effect st)) (Statement_check L legacy st args)"

definition Statement_IsAllowed :: "ext_lib \<Rightarrow> bool \<Rightarrow> statement \<Rightarrow> args \<Rightarrow> bool may_panic" where
  "Statement_IsAllowed L legacy st args = Statement_IsAllowedPtr L legacy st args"

section \<open>Validation\<close>

text \<open>The \<open>switch\<close> of \<open>validateActionTypes\<close> takes the first case that holds.\<close>

datatype action_type = TypeAdmin | TypeSTS | TypeKMS | TypeTable | TypeVectors | TypeS3

definition action_type_of :: "action \<Rightarrow> action_type" where
  "action_type_of a =
     (if AdminAction_IsValid a then TypeAdmin
      else if STSAction_IsValid a then TypeSTS
      else if KMSAction_IsValid a then TypeKMS
      else if TableAction_IsValid a then TypeTable
      else if VectorsAction_IsValid a then TypeVectors
      else TypeS3)"

definition validateActionTypes :: "statement \<Rightarrow> policy_error option" where
  "validateActionTypes st =
     (let actions = (if length (Actions st) = 0 then NotActions st else Actions st);
          has = (\<lambda>t. list_ex (\<lambda>a. action_type_of a = t) actions);
          count = length (filter (\<lambda>b. b)
            [has TypeS3, has TypeAdmin, has TypeSTS, has TypeKMS, has TypeTable, has TypeVectors])
      in fail_if (count > 1) MixedActionTypes)"

text \<open>The loop that compares the keys of the conditions with the keys each action supports.\<close>

definition check_keys :: "(action \<Rightarrow> keyset) \<Rightarrow> fn_list \<Rightarrow> action \<Rightarrow> policy_error option" where
  "check_keys supported conds action =
     (let keyDiff = KeySet_Difference (Functions_Keys conds) (supported action)
      in fail_if (\<not> KeySet_IsEmpty keyDiff) (UnsupportedKeys keyDiff action))"

definition check_resource_kinds :: "statement \<Rightarrow> action \<Rightarrow> policy_error option" where
  "check_resource_kinds st action =
     and_then
       (fail_if (length (Resources st) > 0 \<and> \<not> ResourceSet_ObjectResourceExists (Resources st) \<and>
           \<not> ResourceSet_BucketResourceExists (Resources st)) (UnsupportedResource action))
       (fail_if (length (NotResources st) > 0 \<and> \<not> ResourceSet_ObjectResourceExists (NotResources st) \<and>
           \<not> ResourceSet_BucketResourceExists (NotResources st)) (UnsupportedNotResource action))"

text \<open>The checks of the two resource sets that four of the branches share.\<close>

definition check_resources_given :: "statement \<Rightarrow> policy_error option" where
  "check_resources_given st =
     and_then (fail_if (length (Resources st) = 0 \<and> length (NotResources st) = 0) EmptyResource)
       (fail_if (length (Resources st) > 0 \<and> length (NotResources st) > 0) ResourceAndNotResource)"

definition validateAdmin :: "statement \<Rightarrow> bool \<Rightarrow> policy_error option" where
  "validateAdmin st strict =
     and_then (ActionSet_ValidateAdmin (Actions st))
     (and_then (first_err (check_keys (assigned adminActionConditionKeyMap) (Conditions st)) (Actions st))
       (if strict then
          and_then (fail_if (length (Resources st) > 0 \<and> length (NotResources st) > 0)
             AdminResourceAndNotResource)
          (and_then
             (if length (Resources st) > 0 \<and> Statement_hasAdminResource st
              then ResourceSet_ValidateS3 (Resources st) else None)
             (if length (NotResources st) > 0 \<and> Statement_hasAdminResource st
              then ResourceSet_ValidateS3 (NotResources st) else None))
        else None))"

definition validateSTS :: "statement \<Rightarrow> policy_error option" where
  "validateSTS st =
     and_then (ActionSet_ValidateSTS (Actions st))
       (first_err (check_keys (assigned stsActionConditionKeyMap) (Conditions st)) (Actions st))"

definition validateKMS :: "statement \<Rightarrow> policy_error option" where
  "validateKMS st =
     and_then (ActionSet_ValidateKMS (Actions st))
       (and_then (ResourceSet_ValidateKMS (Resources st)) (ResourceSet_ValidateKMS (NotResources st)))"

definition validateTable :: "statement \<Rightarrow> policy_error option" where
  "validateTable st =
     and_then (ActionSet_ValidateTable (Actions st))
     (and_then (first_err (check_keys (assigned tableActionConditionKeyMap) (Conditions st)) (Actions st))
     (and_then (check_resources_given st)
     (and_then (ResourceSet_ValidateTable (Resources st))
     (and_then (ResourceSet_ValidateTable (NotResources st))
       (first_err (check_resource_kinds st) (Actions st))))))"

definition validateVectors :: "statement \<Rightarrow> policy_error option" where
  "validateVectors st =
     and_then (ActionSet_ValidateVectors (Actions st))
     (and_then (first_err (check_keys (assigned VectorsActionConditionKeyMap) (Conditions st)) (Actions st))
     (and_then (check_resources_given st)
     (and_then (ResourceSet_ValidateVectors (Resources st))
     (and_then (ResourceSet_ValidateVectors (NotResources st))
       (first_err (check_resource_kinds st) (Actions st))))))"

definition validateS3 :: "statement \<Rightarrow> policy_error option" where
  "validateS3 st =
     and_then (fail_if (\<not> ID_IsValid (SID st)) (InvalidSID (SID st)))
     (and_then (check_resources_given st)
     (and_then (ResourceSet_ValidateS3 (Resources st))
     (and_then (ResourceSet_ValidateS3 (NotResources st))
     (and_then (ActionSet_Validate (Actions st))
       (first_err (\<lambda>action. and_then (check_resource_kinds st action)
          (check_keys (ActionConditionKeyMap_Lookup IAMActionConditionKeyMap) (Conditions st) action))
          (Actions st))))))"

text \<open>The checks \<open>isValid\<close> and \<open>isValidStrict\<close> start with.\<close>

definition check_head :: "statement \<Rightarrow> policy_error option" where
  "check_head st =
     and_then (fail_if (\<not> Effect_IsValid (Effect st)) (InvalidEffect (Effect st)))
     (and_then (fail_if (length (Actions st) = 0 \<and> length (NotActions st) = 0) EmptyAction)
     (and_then (fail_if (length (Actions st) > 0 \<and> length (NotActions st) > 0) ActionAndNotAction)
       (validateActionTypes st)))"

definition Statement_isValid :: "statement \<Rightarrow> policy_error option" where
  "Statement_isValid st =
     and_then (check_head st)
       (if Statement_isAdmin st then validateAdmin st False
        else if Statement_isSTS st then validateSTS st
        else if Statement_isKMS st then validateKMS st
        else if Statement_isTable st then validateTable st
        else if Statement_isVectors st then validateVectors st
        else validateS3 st)"

definition Statement_isValidStrict :: "statement \<Rightarrow> policy_error option" where
  "Statement_isValidStrict st =
     and_then (check_head st)
     (and_then (ResourceSet_ValidateStrict (Resources st))
     (and_then (ResourceSet_ValidateStrict (NotResources st))
       (if Statement_isAdmin st then validateAdmin st True else Statement_isValid st)))"

definition Statement_Validate :: "statement \<Rightarrow> policy_error option" where
  "Statement_Validate st = Statement_isValid st"

definition Statement_ValidateStrict :: "statement \<Rightarrow> policy_error option" where
  "Statement_ValidateStrict st = Statement_isValidStrict st"

section \<open>Constructors\<close>

definition NewStatement :: "string \<Rightarrow> effect \<Rightarrow> actionset \<Rightarrow> resourceset \<Rightarrow> fn_list \<Rightarrow> statement" where
  "NewStatement sid eff acts rs conds =
     \<lparr>SID = sid, Effect = eff, Actions = acts, NotActions = [], Resources = rs, NotResources = [],
      Conditions = conds\<rparr>"

definition NewStatementWithNotResource ::
  "string \<Rightarrow> effect \<Rightarrow> actionset \<Rightarrow> resourceset \<Rightarrow> fn_list \<Rightarrow> statement" where
  "NewStatementWithNotResource sid eff acts nrs conds =
     \<lparr>SID = sid, Effect = eff, Actions = acts, NotActions = [], Resources = [], NotResources = nrs,
      Conditions = conds\<rparr>"

definition NewStatementWithNotAction ::
  "string \<Rightarrow> effect \<Rightarrow> actionset \<Rightarrow> resourceset \<Rightarrow> fn_list \<Rightarrow> statement" where
  "NewStatementWithNotAction sid eff nacts rs conds =
     \<lparr>SID = sid, Effect = eff, Actions = [], NotActions = nacts, Resources = rs, NotResources = [],
      Conditions = conds\<rparr>"

end
