(* ===== verification/Policy.thy ===== *)
theory Policy
  imports Statement
begin

text \<open>
  Policies (\<open>policy/policy.go\<close>): the decision of one policy, with its action index, the serial
  decision of several, and validation. The two loops over the statements are shared with bucket
  policies (\<open>policy/bucket-policy.go\<close>).
\<close>

section \<open>The loops over the statements\<close>

text \<open>\<open>for s in statements { if s.Effect == Deny && !s.IsAllowed(args) { return deny } }\<close>.\<close>

definition deny_loop ::
  "('s \<Rightarrow> effect) \<Rightarrow> ('s \<Rightarrow> 'a \<Rightarrow> bool may_panic) \<Rightarrow> 's list \<Rightarrow> 'a \<Rightarrow> bool may_panic" where
  "deny_loop eff allowed sts a =
     any_m (\<lambda>s. if eff s = Deny then map_option Not (allowed s a) else Some False) sts"

text \<open>\<open>for s in statements { if s.Effect == Allow && s.IsAllowed(args) { return allow } }\<close>.\<close>

definition allow_loop ::
  "('s \<Rightarrow> effect) \<Rightarrow> ('s \<Rightarrow> 'a \<Rightarrow> bool may_panic) \<Rightarrow> 's list \<Rightarrow> 'a \<Rightarrow> bool may_panic" where
  "allow_loop eff allowed sts a = any_m (\<lambda>s. if eff s = Allow then allowed s a else Some False) sts"

section \<open>Policies\<close>

text \<open>
  The action index maps an action to the positions of the statements that name it; it is the list
  of the entries of the Go map. \<open>DefaultVersion\<close> is the only version.
\<close>

abbreviation (input) DefaultVersion :: string where
  "DefaultVersion \<equiv> ''2012-10-17''"

record policy =
  ID :: string
  Version :: string
  Statements :: "statement list"
  actionStatementIndex :: "(action \<times> nat list) list"
  hasDeny :: bool

datatype decision = NoDecision | AllowDecision | DenyDecision

definition Policy_HasDenyStatement :: "policy \<Rightarrow> bool" where
  "Policy_HasDenyStatement p =
     (if hasDeny p then True else list_ex (\<lambda>st. Effect st = Deny) (Statements p))"

definition Policy_MatchResource :: "policy \<Rightarrow> string \<Rightarrow> bool may_panic" where
  "Policy_MatchResource p rsc = any_m (\<lambda>st. ResourceSet_MatchResource (Resources st) rsc) (Statements p)"

text \<open>The loop over the indexed statements; a position out of range panics.\<close>

definition index_loop ::
  "ext_lib \<Rightarrow> bool \<Rightarrow> policy \<Rightarrow> args \<Rightarrow> nat list \<Rightarrow> bool may_panic" where
  "index_loop L legacy p args indexes =
     any_m (\<lambda>i. if i < length (Statements p)
        then (let st = Statements p ! i
              in if Effect st = Allow then Statement_IsAllowedPtr L legacy st args else Some False)
        else None) indexes"

definition Policy_Decide :: "ext_lib \<Rightarrow> bool \<Rightarrow> policy \<Rightarrow> args \<Rightarrow> decision may_panic" where
  "Policy_Decide L legacy p args =
     (case deny_loop Effect (Statement_IsAllowedPtr L legacy) (Statements p) args of
        None \<Rightarrow> None
      | Some True \<Rightarrow> Some DenyDecision
      | Some False \<Rightarrow>
          (if a_DenyOnly args then Some AllowDecision
           else if a_IsOwner args then Some AllowDecision
           else
             (case (if length (actionStatementIndex p) > 0 then
                      (case map_of (actionStatementIndex p) (a_Action args) of
                         Some indexes \<Rightarrow> index_loop L legacy p args indexes
                       | None \<Rightarrow> Some False)
                    else Some False) of
                None \<Rightarrow> None
              | Some True \<Rightarrow> Some AllowDecision
              | Some False \<Rightarrow>
                  map_option (\<lambda>b. if b then AllowDecision else NoDecision)
                    (allow_loop Effect (Statement_IsAllowedPtr L legacy) (Statements p) args))))"

definition Policy_IsAllowed :: "ext_lib \<Rightarrow> bool \<Rightarrow> policy \<Rightarrow> args \<Rightarrow> bool may_panic" where
  "Policy_IsAllowed L legacy p args =
     map_option (\<lambda>decision. if decision = NoDecision then False else decision = AllowDecision)
       (Policy_Decide L legacy p args)"

definition Policy_IsEmpty :: "policy \<Rightarrow> bool" where
  "Policy_IsEmpty p = (length (Statements p) = 0)"

text \<open>The loop of \<open>IsAllowedSerial\<close>, with its variable \<open>gotAllow\<close>.\<close>

fun serial_loop :: "ext_lib \<Rightarrow> bool \<Rightarrow> args \<Rightarrow> bool \<Rightarrow> policy list \<Rightarrow> bool may_panic" where
  "serial_loop L legacy args gotAllow [] = Some gotAllow"
| "serial_loop L legacy args gotAllow (p # ps) =
     (case Policy_Decide L legacy p args of
        None \<Rightarrow> None
      | Some res \<Rightarrow>
          (if res = DenyDecision then Some False
           else if res = AllowDecision then serial_loop L legacy args True ps
           else serial_loop L legacy args gotAllow ps))"

definition IsAllowedSerial :: "ext_lib \<Rightarrow> bool \<Rightarrow> policy list \<Rightarrow> args \<Rightarrow> bool may_panic" where
  "IsAllowedSerial L legacy policies args = serial_loop L legacy args False policies"

text \<open>The set of supported actions a request would be granted.\<close>

definition IsAllowedActions ::
  "ext_lib \<Rightarrow> bool \<Rightarrow> policy \<Rightarrow> string \<Rightarrow> string \<Rightarrow> cond_values \<Rightarrow> actionset may_panic" where
  "IsAllowedActions L legacy p bucketName objectName values =
     (let request = (\<lambda>action denyOnly. \<lparr>a_AccountName = '''', a_Groups = [], a_Action = action,
            a_OriginalAction = '''', a_BucketName = bucketName, a_ConditionValues = values,
            a_IsOwner = False, a_ObjectName = objectName, a_Claims = Map.empty, a_DenyOnly = denyOnly\<rparr>);
          add_if = (\<lambda>denyOnly acc action.
            case acc of None \<Rightarrow> None
            | Some s \<Rightarrow> map_option (\<lambda>b. if b then ActionSet_Add s action else s)
                (Policy_IsAllowed L legacy p (request action (denyOnly action))));
          s3 = foldl (add_if (\<lambda>_. False)) (Some (NewActionSet [])) SupportedActions;
          adm = foldl (add_if (\<lambda>action. action = CreateServiceAccountAdminAction \<or>
                                        action = ChangeMyPasswordAdminAction)) s3 SupportedAdminActions
      in foldl (add_if (\<lambda>_. False)) adm supportedKMSActions)"

section \<open>The action index\<close>

text \<open>\<open>index[action] = append(index[action], i)\<close>.\<close>

fun index_append :: "action \<Rightarrow> nat \<Rightarrow> (action \<times> nat list) list \<Rightarrow> (action \<times> nat list) list" where
  "index_append a i [] = [(a, [i])]"
| "index_append a i ((b, is) # idx) =
     (if b = a then (b, is @ [i]) # idx else (b, is) # index_append a i idx)"

text \<open>The body of \<open>updateActionIndex\<close> for the statement at position \<open>i\<close>.\<close>

definition index_statement :: "nat \<Rightarrow> statement \<Rightarrow> policy \<Rightarrow> policy" where
  "index_statement i st p =
     (if Effect st = Deny then p\<lparr>hasDeny := True\<rparr>
      else p\<lparr>actionStatementIndex :=
        foldl (\<lambda>idx action. if Has action then idx else index_append action i idx)
          (actionStatementIndex p) (Actions st)\<rparr>)"

definition updateActionIndex :: "policy \<Rightarrow> policy" where
  "updateActionIndex p = foldl (\<lambda>q (i, st). index_statement i st q) p
     (zip [0..<length (Statements p)] (Statements p))"

section \<open>Validation\<close>

definition check_version :: "string \<Rightarrow> policy_error option" where
  "check_version v = fail_if (v \<noteq> DefaultVersion \<and> v \<noteq> '''') (InvalidVersion v)"

definition Policy_isValid :: "policy \<Rightarrow> policy_error option" where
  "Policy_isValid p = and_then (check_version (Version p)) (first_err Statement_isValid (Statements p))"

definition Policy_Validate :: "policy \<Rightarrow> policy_error option" where
  "Policy_Validate p = Policy_isValid p"

definition Policy_ValidateStrict :: "policy \<Rightarrow> policy_error option" where
  "Policy_ValidateStrict p =
     and_then (check_version (Version p)) (first_err Statement_isValidStrict (Statements p))"

end
