(* ===== verification/BucketPolicy.thy ===== *)
theory BucketPolicy
  imports Policy
begin

text \<open>
  Bucket policies: principals (\<open>policy/principal.go\<close>), statements
  (\<open>policy/bucket-policy-statement.go\<close>) and the policies themselves (\<open>policy/bucket-policy.go\<close>).
\<close>

section \<open>Principals\<close>

record principal =
  AWS :: "string list"

definition Principal_IsValid :: "principal \<Rightarrow> bool" where
  "Principal_IsValid p = (length (AWS p) \<noteq> 0)"

definition Principal_Equals :: "ext_lib \<Rightarrow> principal \<Rightarrow> principal \<Rightarrow> bool" where
  "Principal_Equals L p pp = ss_equals L (AWS p) (AWS pp)"

definition Principal_Intersection :: "ext_lib \<Rightarrow> principal \<Rightarrow> principal \<Rightarrow> string list" where
  "Principal_Intersection L p pp = ss_inter L (AWS p) (AWS pp)"

definition Principal_Match :: "ext_lib \<Rightarrow> principal \<Rightarrow> string \<Rightarrow> bool" where
  "Principal_Match L p name = list_ex (\<lambda>pattern. MatchSimple pattern name) (ss_toslice L (AWS p))"

definition NewPrincipal :: "ext_lib \<Rightarrow> string list \<Rightarrow> principal" where
  "NewPrincipal L principals = \<lparr>AWS = ss_create L principals\<rparr>"

definition Principal_Clone :: "ext_lib \<Rightarrow> principal \<Rightarrow> principal" where
  "Principal_Clone L p = NewPrincipal L (ss_toslice L (AWS p))"

section \<open>Statements\<close>

record bp_args =
  b_AccountName :: string
  b_Groups :: "string list"
  b_Action :: action
  b_BucketName :: string
  b_ConditionValues :: cond_values
  b_IsOwner :: bool
  b_ObjectName :: string

record bp_statement =
  bp_SID :: string
  bp_Effect :: effect
  bp_Principal :: principal
  bp_Actions :: actionset
  bp_NotActions :: actionset
  bp_Resources :: resourceset
  bp_NotResources :: resourceset
  bp_Conditions :: fn_list

definition bp_resource :: "bp_args \<Rightarrow> string" where
  "bp_resource args =
     b_BucketName args @
     (if b_ObjectName args \<noteq> '''' then
        (if \<not> has_prefix (b_ObjectName args) ''/'' then ''/'' else '''') @ b_ObjectName args
      else '''')"

definition BPStatement_check :: "ext_lib \<Rightarrow> bp_statement \<Rightarrow> bp_args \<Rightarrow> bool may_panic" where
  "BPStatement_check L st args =
     (if \<not> Principal_Match L (bp_Principal st) (b_AccountName args) then Some False
      else if (\<not> ActionSet_Match (bp_Actions st) (b_Action args) \<and> \<not> ActionSet_IsEmpty (bp_Actions st)) \<or>
          ActionSet_Match (bp_NotActions st) (b_Action args) then Some False
      else
        (let rsc = bp_resource args
         in and_m (if length (bp_Resources st) > 0
                   then ResourceSet_Match (bp_Resources st) rsc (b_ConditionValues args) else Some True)
             (and_m (if length (bp_NotResources st) > 0
                     then map_option Not (ResourceSet_Match (bp_NotResources st) rsc (b_ConditionValues args))
                     else Some True)
               (Functions_Evaluate L (bp_Conditions st) (b_ConditionValues args)))))"

definition BPStatement_IsAllowed :: "ext_lib \<Rightarrow> bp_statement \<Rightarrow> bp_args \<Rightarrow> bool may_panic" where
  "BPStatement_IsAllowed L st args =
     map_option (Effect_IsAllowed (bp_Effect st)) (BPStatement_check L st args)"

text \<open>The body of the loop of \<open>isValid\<close> over the actions.\<close>

definition bp_check_action :: "bp_statement \<Rightarrow> action \<Rightarrow> policy_error option" where
  "bp_check_action st action =
     and_then
       (if Action_IsObjectAction action then
          and_then
            (fail_if (length (bp_Resources st) > 0 \<and> \<not> ResourceSet_ObjectResourceExists (bp_Resources st))
               (UnsupportedResource action))
            (fail_if (length (bp_NotResources st) > 0 \<and>
                \<not> ResourceSet_ObjectResourceExists (bp_NotResources st)) (UnsupportedNotResource action))
        else
          and_then
            (fail_if (length (bp_Resources st) > 0 \<and> \<not> ResourceSet_BucketResourceExists (bp_Resources st))
               (UnsupportedResource action))
            (fail_if (length (bp_NotResources st) > 0 \<and>
                \<not> ResourceSet_BucketResourceExists (bp_NotResources st)) (UnsupportedNotResource action)))
       (check_keys (ActionConditionKeyMap_Lookup IAMActionConditionKeyMap) (bp_Conditions st) action)"

definition BPStatement_isValid :: "bp_statement \<Rightarrow> policy_error option" where
  "BPStatement_isValid st =
     and_then (fail_if (\<not> Effect_IsValid (bp_Effect st)) (InvalidEffect (bp_Effect st)))
     (and_then (fail_if (\<not> Principal_IsValid (bp_Principal st)) InvalidPrincipal)
     (and_then (fail_if (length (bp_Actions st) = 0 \<and> length (bp_NotActions st) = 0) EmptyAction)
     (and_then (fail_if (length (bp_Actions st) > 0 \<and> length (bp_NotActions st) > 0) ActionAndNotAction)
     (and_then (fail_if (length (bp_Resources st) = 0 \<and> length (bp_NotResources st) = 0) EmptyResource)
     (and_then
       (fail_if (length (bp_Resources st) > 0 \<and> length (bp_NotResources st) > 0) ResourceAndNotResource)
       (first_err (bp_check_action st) (bp_Actions st)))))))"

definition BPStatement_Validate :: "bp_statement \<Rightarrow> string \<Rightarrow> policy_error option" where
  "BPStatement_Validate st bucketName =
     and_then (BPStatement_isValid st)
     (and_then
       (if length (bp_Resources st) > 0 then ResourceSet_ValidateBucket (bp_Resources st) bucketName
        else None)
       (if length (bp_NotResources st) > 0
        then ResourceSet_ValidateBucket (bp_NotResources st) bucketName else None))"

definition NewBPStatement ::
  "string \<Rightarrow> effect \<Rightarrow> principal \<Rightarrow> actionset \<Rightarrow> resourceset \<Rightarrow> fn_list \<Rightarrow> bp_statement" where
  "NewBPStatement sid eff pr acts rs conds =
     \<lparr>bp_SID = sid, bp_Effect = eff, bp_Principal = pr, bp_Actions = acts, bp_NotActions = [],
      bp_Resources = rs, bp_NotResources = [], bp_Conditions = conds\<rparr>"

definition NewBPStatementWithNotAction ::
  "string \<Rightarrow> effect \<Rightarrow> principal \<Rightarrow> actionset \<Rightarrow> resourceset \<Rightarrow> fn_list \<Rightarrow> bp_statement" where
  "NewBPStatementWithNotAction sid eff pr nacts rs conds =
     \<lparr>bp_SID = sid, bp_Effect = eff, bp_Principal = pr, bp_Actions = [], bp_NotActions = nacts,
      bp_Resources = rs, bp_NotResources = [], bp_Conditions = conds\<rparr>"

definition NewBPStatementWithNotResource ::
  "string \<Rightarrow> effect \<Rightarrow> principal \<Rightarrow> actionset \<Rightarrow> resourceset \<Rightarrow> fn_list \<Rightarrow> bp_statement" where
  "NewBPStatementWithNotResource sid eff pr acts nrs conds =
     \<lparr>bp_SID = sid, bp_Effect = eff, bp_Principal = pr, bp_Actions = acts, bp_NotActions = [],
      bp_Resources = [], bp_NotResources = nrs, bp_Conditions = conds\<rparr>"

section \<open>Policies\<close>

record bucket_policy =
  bk_ID :: string
  bk_Version :: string
  bk_Statements :: "bp_statement list"

definition BucketPolicy_IsAllowed :: "ext_lib \<Rightarrow> bucket_policy \<Rightarrow> bp_args \<Rightarrow> bool may_panic" where
  "BucketPolicy_IsAllowed L p args =
     (case deny_loop bp_Effect (BPStatement_IsAllowed L) (bk_Statements p) args of
        None \<Rightarrow> None
      | Some True \<Rightarrow> Some False
      | Some False \<Rightarrow>
          (if b_IsOwner args then Some True
           else allow_loop bp_Effect (BPStatement_IsAllowed L) (bk_Statements p) args))"

definition BucketPolicy_IsEmpty :: "bucket_policy \<Rightarrow> bool" where
  "BucketPolicy_IsEmpty p = (length (bk_Statements p) = 0)"

definition BucketPolicy_isValid :: "bucket_policy \<Rightarrow> policy_error option" where
  "BucketPolicy_isValid p =
     and_then (check_version (bk_Version p)) (first_err BPStatement_isValid (bk_Statements p))"

definition BucketPolicy_Validate :: "bucket_policy \<Rightarrow> string \<Rightarrow> policy_error option" where
  "BucketPolicy_Validate p bucketName =
     and_then (BucketPolicy_isValid p)
       (first_err (\<lambda>st. BPStatement_Validate st bucketName) (bk_Statements p))"

end
