(* ===== verification/PolicyMerge.thy ===== *)
theory PolicyMerge
  imports CondPrint BucketPolicy "HOL-Library.Word"
begin

text \<open>
  Equality, copies and hashes of statements, the removal of duplicate statements when a policy is
  decoded, and \<open>MergePolicies\<close> (\<open>policy/statement.go\<close>, \<open>policy/policy.go\<close>,
  \<open>policy/bucket-policy-statement.go\<close>, \<open>policy/bucket-policy.go\<close>).
\<close>

unbundle bit_operations_syntax

section \<open>Equality and copies of statements\<close>

definition Statement_Equals :: "ext_lib \<Rightarrow> statement \<Rightarrow> statement \<Rightarrow> bool" where
  "Statement_Equals L s st =
     (if Effect s \<noteq> Effect st then False
      else if \<not> ActionSet_Equals (Actions s) (Actions st) then False
      else if \<not> ActionSet_Equals (NotActions s) (NotActions st) then False
      else if \<not> ResourceSet_Equals (Resources s) (Resources st) then False
      else if \<not> ResourceSet_Equals (NotResources s) (NotResources st) then False
      else if \<not> Functions_Equals L (Conditions s) (Conditions st) then False
      else True)"

definition Statement_Clone :: "ext_lib \<Rightarrow> statement \<Rightarrow> statement may_panic" where
  "Statement_Clone L s =
     map_option (\<lambda>conds. \<lparr>SID = SID s, Effect = Effect s, Actions = ActionSet_Clone (Actions s),
         NotActions = ActionSet_Clone (NotActions s), Resources = ResourceSet_Clone (Resources s),
         NotResources = ResourceSet_Clone (NotResources s), Conditions = conds\<rparr>)
       (Functions_Clone L (Conditions s))"

definition BPStatement_Equals :: "ext_lib \<Rightarrow> bp_statement \<Rightarrow> bp_statement \<Rightarrow> bool" where
  "BPStatement_Equals L s st =
     (if bp_Effect s \<noteq> bp_Effect st then False
      else if \<not> Principal_Equals L (bp_Principal s) (bp_Principal st) then False
      else if \<not> ActionSet_Equals (bp_Actions s) (bp_Actions st) then False
      else if \<not> ActionSet_Equals (bp_NotActions s) (bp_NotActions st) then False
      else if \<not> ResourceSet_Equals (bp_Resources s) (bp_Resources st) then False
      else if \<not> ResourceSet_Equals (bp_NotResources s) (bp_NotResources st) then False
      else if \<not> Functions_Equals L (bp_Conditions s) (bp_Conditions st) then False
      else True)"

definition BPStatement_Clone :: "ext_lib \<Rightarrow> bp_statement \<Rightarrow> bp_statement may_panic" where
  "BPStatement_Clone L s =
     map_option (\<lambda>conds. \<lparr>bp_SID = bp_SID s, bp_Effect = bp_Effect s,
         bp_Principal = Principal_Clone L (bp_Principal s),
         bp_Actions = ActionSet_Clone (bp_Actions s), bp_NotActions = ActionSet_Clone (bp_NotActions s),
         bp_Resources = ResourceSet_Clone (bp_Resources s),
         bp_NotResources = ResourceSet_Clone (bp_NotResources s), bp_Conditions = conds\<rparr>)
       (Functions_Clone L (bp_Conditions s))"

section \<open>The hash of a statement\<close>

text \<open>
  The functions of package \<open>xxh3\<close>: the seeded 128-bit hashes of a string and of a byte slice, and
  the bytes of a hash. Nothing is assumed of them.
\<close>

record u128 =
  Hi :: "64 word"
  Lo :: "64 word"

record hash_lib =
  HashString128Seed :: "string \<Rightarrow> 64 word \<Rightarrow> u128"
  Hash128Seed :: "string \<Rightarrow> 64 word \<Rightarrow> u128"
  u128_Bytes :: "u128 \<Rightarrow> string"

definition xorTo :: "u128 \<Rightarrow> u128 \<Rightarrow> u128" where
  "xorTo dst v = dst\<lparr>Lo := Lo dst XOR Lo v, Hi := Hi dst XOR Hi v\<rparr>"

text \<open>\<open>binary.LittleEndian.PutUint64\<close>.\<close>

definition put_uint64 :: "64 word \<Rightarrow> string" where
  "put_uint64 w = map (\<lambda>i. char_of (unat (drop_bit (8 * i) w) mod 256)) [0..<8]"

definition xorInt :: "hash_lib \<Rightarrow> u128 \<Rightarrow> nat \<Rightarrow> 64 word \<Rightarrow> u128" where
  "xorInt H dst n seed = xorTo dst (Hash128Seed H (put_uint64 (of_nat n)) seed)"

definition xor_strings :: "hash_lib \<Rightarrow> 64 word \<Rightarrow> string list \<Rightarrow> u128 \<Rightarrow> u128" where
  "xor_strings H seed xs h = foldl (\<lambda>h x. xorTo h (HashString128Seed H x seed)) h xs"

definition res_text :: "resource \<Rightarrow> string" where
  "res_text r = res_pattern r @ ResourceARNType_String (res_type r)"

definition Statement_sum :: "ext_lib \<Rightarrow> hash_lib \<Rightarrow> 64 word \<Rightarrow> statement \<Rightarrow> u128" where
  "Statement_sum L H seed s =
     (let h = HashString128Seed H (Effect s) seed;
          h = xor_strings H (seed + 2) (Actions s) (xorInt H h (length (Actions s)) (seed + 1));
          h = xor_strings H (seed + 4) (NotActions s) (xorInt H h (length (NotActions s)) (seed + 3));
          h = xor_strings H (seed + 6) (map res_text (Resources s))
                (xorInt H h (length (Resources s)) (seed + 5));
          h = xor_strings H (seed + 10) (map res_text (NotResources s))
                (xorInt H h (length (NotResources s)) (seed + 9))
      in xor_strings H (seed + 8) (map (fn_String L) (Conditions s))
           (xorInt H h (length (Conditions s)) (seed + 7)))"

definition Statement_hash :: "ext_lib \<Rightarrow> hash_lib \<Rightarrow> 64 word \<Rightarrow> statement \<Rightarrow> string" where
  "Statement_hash L H seed s = u128_Bytes H (Statement_sum L H seed s)"

section \<open>Removing duplicates from a slice\<close>

text \<open>
  The two nested loops that collect the positions equal to an earlier kept one in the map \<open>dups\<close>.
\<close>

definition dup_row :: "('s \<Rightarrow> 's \<Rightarrow> bool) \<Rightarrow> 's list \<Rightarrow> nat \<Rightarrow> nat list \<Rightarrow> nat list" where
  "dup_row eq sts i dups =
     (if i \<in> set dups then dups
      else foldl (\<lambda>d j. if \<not> eq (sts ! i) (sts ! j) then d else set_add j d) dups [i + 1..<length sts])"

definition find_dups :: "('s \<Rightarrow> 's \<Rightarrow> bool) \<Rightarrow> 's list \<Rightarrow> nat list" where
  "find_dups eq sts = foldl (\<lambda>dups i. dup_row eq sts i dups) [] [0..<length sts]"

text \<open>
  The loop that moves the elements kept to the front of the slice, in place, and the final
  \<open>sts[:c]\<close>.
\<close>

definition compact_step :: "(nat \<Rightarrow> bool) \<Rightarrow> nat \<times> 's list \<Rightarrow> nat \<Rightarrow> nat \<times> 's list" where
  "compact_step dropped = (\<lambda>(c, sts) i. if dropped i then (c, sts) else (c + 1, sts[c := sts ! i]))"

definition compact :: "(nat \<Rightarrow> bool) \<Rightarrow> 's list \<Rightarrow> 's list" where
  "compact dropped sts =
     (let (c, out) = foldl (compact_step dropped) (0, sts) [0..<length sts] in take c out)"

definition drop_equal :: "('s \<Rightarrow> 's \<Rightarrow> bool) \<Rightarrow> 's list \<Rightarrow> 's list" where
  "drop_equal eq sts = (let dups = find_dups eq sts in compact (\<lambda>i. i \<in> set dups) sts)"

text \<open>The loop that keeps the first statement of each hash, writing in place at \<open>writeAt\<close>.\<close>

definition many_step ::
  "('s \<Rightarrow> string) \<Rightarrow> string list \<times> nat \<times> 's list \<Rightarrow> nat \<Rightarrow> string list \<times> nat \<times> 's list" where
  "many_step hash = (\<lambda>(found, writeAt, sts) i.
     (let s = sts ! i; h = hash s
      in if h \<in> set found then (found, writeAt, sts)
         else (set_add h found, writeAt + 1, sts[writeAt := s])))"

definition drop_hashed :: "('s \<Rightarrow> string) \<Rightarrow> 's list \<Rightarrow> 's list" where
  "drop_hashed hash sts =
     (let (found, writeAt, out) = foldl (many_step hash) ([], 0, sts) [0..<length sts]
      in take writeAt out)"

section \<open>Policies\<close>

text \<open>
  The seed of the hashes is always zero: the random bytes read into \<open>baseSeed\<close> are overwritten with
  the variable \<open>seed\<close> instead of being read into it.
\<close>

definition dropDuplicateStatementsOriginal :: "ext_lib \<Rightarrow> policy \<Rightarrow> policy" where
  "dropDuplicateStatementsOriginal L p = p\<lparr>Statements := drop_equal (Statement_Equals L) (Statements p)\<rparr>"

definition dropDuplicateStatementsMany :: "ext_lib \<Rightarrow> hash_lib \<Rightarrow> policy \<Rightarrow> policy" where
  "dropDuplicateStatementsMany L H p = p\<lparr>Statements := drop_hashed (Statement_hash L H 0) (Statements p)\<rparr>"

definition dropDuplicateStatements :: "ext_lib \<Rightarrow> hash_lib \<Rightarrow> policy \<Rightarrow> policy" where
  "dropDuplicateStatements L H p =
     (if length (Statements p) \<le> 10 then dropDuplicateStatementsOriginal L p
      else dropDuplicateStatementsMany L H p)"

text \<open>What \<open>UnmarshalJSON\<close> does with the struct \<open>encoding/json\<close> has filled.\<close>

definition Policy_decoded :: "ext_lib \<Rightarrow> hash_lib \<Rightarrow> policy \<Rightarrow> policy" where
  "Policy_decoded L H sp = updateActionIndex (dropDuplicateStatements L H sp)"

text \<open>The checks \<open>ParseConfig\<close> and \<open>ParseConfigStrict\<close> add.\<close>

definition ParseConfig_decoded :: "ext_lib \<Rightarrow> hash_lib \<Rightarrow> policy \<Rightarrow> policy \<times> policy_error option" where
  "ParseConfig_decoded L H sp = (let p = Policy_decoded L H sp in (p, Policy_Validate p))"

definition ParseConfigStrict_decoded ::
  "ext_lib \<Rightarrow> hash_lib \<Rightarrow> policy \<Rightarrow> policy \<times> policy_error option" where
  "ParseConfigStrict_decoded L H sp = (let p = Policy_decoded L H sp in (p, Policy_ValidateStrict p))"

definition zero_policy :: policy where
  "zero_policy = \<lparr>ID = '''', Version = '''', Statements = [], actionStatementIndex = [], hasDeny = False\<rparr>"

text \<open>The first loop of \<open>MergePolicies\<close>, and the loops over the statements of all inputs.\<close>

definition merged_version :: "policy list \<Rightarrow> string" where
  "merged_version inputs = foldl (\<lambda>v p. if v = '''' then Version p else v) '''' inputs"

definition merge_step ::
  "('s \<Rightarrow> string) \<Rightarrow> string list \<times> 's list \<Rightarrow> 's \<Rightarrow> string list \<times> 's list" where
  "merge_step hash = (\<lambda>(found, out) st.
     (let h = hash st in if h \<in> set found then (found, out) else (set_add h found, out @ [st])))"

definition MergePolicies :: "ext_lib \<Rightarrow> hash_lib \<Rightarrow> policy list \<Rightarrow> policy" where
  "MergePolicies L H inputs =
     (if length inputs = 0 then zero_policy
      else if length inputs = 1 then inputs ! 0
      else
        (let (found, sts) = foldl (\<lambda>acc p. foldl (merge_step (Statement_hash L H 0)) acc (Statements p))
               ([], []) inputs
         in updateActionIndex (zero_policy\<lparr>Version := merged_version inputs, Statements := sts\<rparr>)))"

text \<open>\<open>Equals\<close> walks both slices of statements in step.\<close>

definition Policy_Equals :: "ext_lib \<Rightarrow> policy \<Rightarrow> policy \<Rightarrow> bool" where
  "Policy_Equals L iamp p =
     (if ID iamp \<noteq> ID p \<or> Version iamp \<noteq> Version p then False
      else if length (Statements iamp) \<noteq> length (Statements p) then False
      else list_all (\<lambda>(st, st'). Statement_Equals L st' st) (zip (Statements iamp) (Statements p)))"

section \<open>Bucket policies\<close>

definition BucketPolicy_dropDuplicateStatements :: "ext_lib \<Rightarrow> bucket_policy \<Rightarrow> bucket_policy" where
  "BucketPolicy_dropDuplicateStatements L p =
     p\<lparr>bk_Statements := drop_equal (BPStatement_Equals L) (bk_Statements p)\<rparr>"

text \<open>\<open>UnmarshalJSON\<close> after the decoding of the struct: the error, or the policy stored.\<close>

definition BucketPolicy_decoded :: "ext_lib \<Rightarrow> bucket_policy \<Rightarrow> policy_error + bucket_policy" where
  "BucketPolicy_decoded L sp =
     (case BucketPolicy_isValid sp of Some e \<Rightarrow> Inl e
      | None \<Rightarrow> Inr (BucketPolicy_dropDuplicateStatements L sp))"

text \<open>\<open>ParseBucketPolicyConfig\<close> returns the policy beside the error of \<open>Validate\<close>.\<close>

definition ParseBucketPolicyConfig_decoded ::
  "ext_lib \<Rightarrow> bucket_policy \<Rightarrow> string \<Rightarrow> policy_error + bucket_policy \<times> policy_error option" where
  "ParseBucketPolicyConfig_decoded L sp bucketName =
     (case BucketPolicy_decoded L sp of Inl e \<Rightarrow> Inl e
      | Inr p \<Rightarrow> Inr (p, BucketPolicy_Validate p bucketName))"

definition BucketPolicy_Equals :: "ext_lib \<Rightarrow> bucket_policy \<Rightarrow> bucket_policy \<Rightarrow> bool" where
  "BucketPolicy_Equals L p q =
     (if bk_ID p \<noteq> bk_ID q \<or> bk_Version p \<noteq> bk_Version q then False
      else if length (bk_Statements p) \<noteq> length (bk_Statements q) then False
      else list_all (\<lambda>(st, st'). BPStatement_Equals L st' st) (zip (bk_Statements p) (bk_Statements q)))"

end
