(* ===== verification/GoTimeFacts.thy ===== *)
theory GoTimeFacts
  imports GoTime
begin

text \<open>
  The calendar functions are inverse to each other, and a time read from RFC 3339 text without a
  fraction of a second is read back from the text it prints.
\<close>

section \<open>Calendar\<close>

lemma year_parts:
  obtains a b c e :: int
  where "Y = 400 * a + 100 * b + 4 * c + e" "0 \<le> b" "b \<le> 3" "0 \<le> c" "c \<le> 24" "0 \<le> e" "e \<le> 3"
    "Y div 4 = 100 * a + 25 * b + c" "Y div 100 = 4 * a + b" "Y div 400 = a"
proof -
  define a r where "a = Y div 400" and "r = Y mod 400"
  define b s where "b = r div 100" and "s = r mod 100"
  define c e where "c = s div 4" and "e = s mod 4"
  have r: "Y = 400 * a + r" "0 \<le> r" "r < 400" unfolding a_def r_def by auto
  have s: "r = 100 * b + s" "0 \<le> s" "s < 100" unfolding b_def s_def by auto
  have e: "s = 4 * c + e" "0 \<le> e" "e < 4" unfolding c_def e_def by auto
  have b: "0 \<le> b" "b \<le> 3" using r s by linarith+
  have c: "0 \<le> c" "c \<le> 24" using s e by linarith+
  have Y: "Y = 400 * a + 100 * b + 4 * c + e" using r s e by simp
  have "Y div 4 = 100 * a + 25 * b + c"
    using Y e by (intro int_div_pos_eq [of _ _ _ e]) auto
  moreover have "Y div 100 = 4 * a + b"
    using Y e s by (intro int_div_pos_eq [of _ _ _ s]) auto
  ultimately show thesis
    using e a_def by (intro that [OF Y b c]) simp_all
qed

lemma leap_parts:
  fixes a b c e :: int
  assumes "0 \<le> b" "b \<le> 3" "0 \<le> c" "c \<le> 24" "0 \<le> e" "e \<le> 3"
  shows "leap_year (400 * a + 100 * b + 4 * c + e + 1) \<longleftrightarrow> e = 3 \<and> (c \<noteq> 24 \<or> b = 3)"
proof -
  define y where "y = 400 * a + 100 * b + 4 * c + e + 1"
  show ?thesis
  proof (cases "e = 3")
    case False
    have "y mod 4 = e + 1"
      using False assms unfolding y_def
      by (intro int_mod_pos_eq [of _ _ "100 * a + 25 * b + c"]) auto
    then show ?thesis using False assms unfolding leap_year_def y_def [symmetric] by auto
  next
    case True
    have "y mod 4 = 0"
      using True unfolding y_def by (intro int_mod_pos_eq [of _ _ "100 * a + 25 * b + c + 1"]) auto
    moreover have "y mod 100 = 4 * (c + 1)" if "c \<noteq> 24"
      using True that assms unfolding y_def by (intro int_mod_pos_eq [of _ _ "4 * a + b"]) auto
    moreover have "y mod 100 = 0" if "c = 24"
      using True that unfolding y_def by (intro int_mod_pos_eq [of _ _ "4 * a + b + 1"]) auto
    moreover have "y mod 400 = 0" if "c = 24" "b = 3"
      using True that unfolding y_def by (intro int_mod_pos_eq [of _ _ "a + 1"]) auto
    moreover have "y mod 400 = 100 * (b + 1)" if "c = 24" "b \<noteq> 3"
      using True that assms unfolding y_def by (intro int_mod_pos_eq [of _ _ "a"]) auto
    ultimately show ?thesis
      using True assms unfolding leap_year_def y_def [symmetric] by (cases "c = 24"; cases "b = 3") auto
  qed
qed

lemma year_yday_parts:
  fixes a b c e yd :: int
  assumes r: "0 \<le> b" "b \<le> 3" "0 \<le> c" "c \<le> 24" "0 \<le> e" "e \<le> 3" "0 \<le> yd"
    and yd: "yd < (if e = 3 \<and> (c \<noteq> 24 \<or> b = 3) then 366 else 365)"
  shows "year_yday (146097 * a + 36524 * b + 1461 * c + 365 * e + yd - 719162) =
    (400 * a + 100 * b + 4 * c + e + 1, yd)"
proof -
  have q: "365 * e + yd < 1461" "365 * e + yd \<ge> 0" using r yd by (auto split: if_splits)
  have p: "1461 * c + (365 * e + yd) < (if b = 3 then 36525 else 36524)"
  proof (cases "c = 24")
    case True
    then show ?thesis using r yd by (auto split: if_splits)
  next
    case False
    then have "1461 * c \<le> 1461 * 23" using r by simp
    then show ?thesis using q by auto
  qed
  define d400 where "d400 = 36524 * b + 1461 * c + 365 * e + yd"
  have d400: "0 \<le> d400" "d400 < 146097" using p q r unfolding d400_def by (auto split: if_splits)
  have n400: "(146097 * a + d400) div 146097 = a" "(146097 * a + d400) mod 146097 = d400"
    using d400 by (auto simp: div_add1_eq)
  have n100: "min 3 (d400 div 36524) = b"
  proof (cases "b = 3")
    case True
    then have "36524 * 3 \<le> d400" using q r unfolding d400_def by simp
    then have "3 \<le> d400 div 36524" by linarith
    then show ?thesis using True by simp
  next
    case False
    then have "d400 div 36524 = b"
      using p q r unfolding d400_def by (intro int_div_pos_eq [of _ _ _ "1461 * c + 365 * e + yd"]) auto
    then show ?thesis using r by simp
  qed
  have n4: "(d400 - 36524 * b) div 1461 = c" "(d400 - 36524 * b) mod 1461 = 365 * e + yd"
    using q unfolding d400_def
    by (intro int_div_pos_eq [of _ _ _ "365 * e + yd"] int_mod_pos_eq [of _ _ c]; simp)+
  have n1: "min 3 ((365 * e + yd) div 365) = e"
  proof (cases "e = 3")
    case True
    then have "3 \<le> (365 * e + yd) div 365" using r by simp
    then show ?thesis using True by simp
  next
    case False
    then have "(365 * e + yd) div 365 = e"
      using yd r by (intro int_div_pos_eq [of _ _ _ yd]) auto
    then show ?thesis using r by simp
  qed
  have s: "146097 * a + 36524 * b + 1461 * c + 365 * e + yd - 719162 + 719162 = 146097 * a + d400"
    unfolding d400_def by simp
  show ?thesis
    unfolding year_yday_def Let_def s n400 n100 n4 n1 by simp
qed

definition year_length :: "int \<Rightarrow> int" where
  "year_length y = (if leap_year y then 366 else 365)"

lemma year_yday_unix_days:
  assumes "0 \<le> days_before_month m y + (d - 1)" "days_before_month m y + (d - 1) < year_length y"
  shows "year_yday (unix_days y m d) = (y, days_before_month m y + (d - 1))"
proof -
  obtain a b c e where p: "y - 1 = 400 * a + 100 * b + 4 * c + e" "0 \<le> b" "b \<le> 3" "0 \<le> c" "c \<le> 24"
      "0 \<le> e" "e \<le> 3" "(y - 1) div 4 = 100 * a + 25 * b + c" "(y - 1) div 100 = 4 * a + b"
      "(y - 1) div 400 = a"
    by (rule year_parts)
  have y: "y = 400 * a + 100 * b + 4 * c + e + 1" using p(1) by simp
  define yd where "yd = days_before_month m y + (d - 1)"
  have "unix_days y m d = 365 * (y - 1) + (y - 1) div 4 - (y - 1) div 100 + (y - 1) div 400 + yd - 719162"
    by (simp add: unix_days_def yd_def)
  also have "\<dots> = 146097 * a + 36524 * b + 1461 * c + 365 * e + yd - 719162"
    unfolding p(8-10) using p(1) by simp
  finally have u: "unix_days y m d = 146097 * a + 36524 * b + 1461 * c + 365 * e + yd - 719162" .
  have "leap_year y \<longleftrightarrow> e = 3 \<and> (c \<noteq> 24 \<or> b = 3)"
    unfolding y by (rule leap_parts) (use p in auto)
  then have "year_yday (unix_days y m d) = (400 * a + 100 * b + 4 * c + e + 1, yd)"
    unfolding u using assms p(2-7)
    by (intro year_yday_parts) (auto simp: yd_def year_length_def)
  then show ?thesis using y yd_def by simp
qed

lemma upto_months: "[1..12] = [1, 2, 3, 4, 5, 6, 7, 8, 9, 10, 11, 12 :: int]"
  by (simp add: upto.simps)

lemma month_cases:
  fixes m :: int
  assumes "1 \<le> m" "m \<le> 12"
  obtains "m = 1" | "m = 2" | "m = 3" | "m = 4" | "m = 5" | "m = 6" | "m = 7" | "m = 8" | "m = 9"
    | "m = 10" | "m = 11" | "m = 12"
proof -
  have "m \<in> set [1..12]" using assms by simp
  then have "m = 1 \<or> m = 2 \<or> m = 3 \<or> m = 4 \<or> m = 5 \<or> m = 6 \<or> m = 7 \<or> m = 8 \<or> m = 9 \<or>
      m = 10 \<or> m = 11 \<or> m = 12"
    unfolding upto_months by simp
  then show thesis using that by blast
qed

lemma month_loop_date:
  assumes "1 \<le> m" "m \<le> 12" "1 \<le> d" "d \<le> days_in m y"
  shows "month_loop y (days_before_month m y + (d - 1)) [1..12] = (m, d)"
    "0 \<le> days_before_month m y + (d - 1)" "days_before_month m y + (d - 1) < year_length y"
  using assms(3,4)
  by (cases rule: month_cases [OF assms(1,2)];
      simp add: upto_months days_before_month_def upto.simps days_in_def year_length_def split: if_splits)+

lemma civil_date_unix_days:
  assumes "1 \<le> m" "m \<le> 12" "1 \<le> d" "d \<le> days_in m y"
  shows "civil_date (unix_days y m d) = (y, m, d)"
  using month_loop_date [OF assms] by (simp add: civil_date_def year_yday_unix_days)

section \<open>Digits\<close>

lemma is_digit_char [simp]: "d < 10 \<Longrightarrow> is_digit (char_of (48 + d :: nat))"
  by (simp add: is_digit_def byte_def)

lemma digits_value_append: "digits_value (s @ [c]) = 10 * digits_value s + (int (byte c) - 48)"
  by (simp add: digits_value_def)

lemma nat_digits_digits: "set (nat_digits n) \<subseteq> Collect is_digit"
  by (induction n rule: nat_digits.induct) (subst nat_digits.simps, auto)

lemma digits_value_nat_digits [simp]: "digits_value (nat_digits n) = int n"
proof (induction n rule: nat_digits.induct)
  case (1 n)
  show ?case
  proof (cases "n < 10")
    case True
    then show ?thesis by (subst nat_digits.simps) (simp add: digits_value_def byte_def)
  next
    case False
    then have "digits_value (nat_digits n) = 10 * int (n div 10) + int (n mod 10)"
      using 1 by (subst nat_digits.simps) (simp add: digits_value_append byte_def)
    then show ?thesis by (simp add: zdiv_int zmod_int)
  qed
qed

lemma length_nat_digits: "n < 10 ^ k \<Longrightarrow> 0 < k \<Longrightarrow> length (nat_digits n) \<le> k"
proof (induction k arbitrary: n)
  case (Suc k)
  show ?case
  proof (cases "n < 10")
    case True
    then show ?thesis by (subst nat_digits.simps) simp
  next
    case False
    then have "n div 10 < 10 ^ k" "0 < k" using Suc.prems by (auto intro: gr0I)
    then have "length (nat_digits (n div 10)) \<le> k" by (rule Suc.IH)
    then show ?thesis using False by (subst nat_digits.simps) simp
  qed
qed simp

lemma digits_value_zeros: "digits_value (replicate k (CHR ''0'') @ s) = digits_value s"
proof (induction k)
  case (Suc k)
  have "byte (CHR ''0'') = 48" by code_simp
  with Suc show ?case by (simp add: digits_value_def)
qed simp

text \<open>A number below \<open>10 ^ w\<close> is printed with exactly \<open>w\<close> digits.\<close>

lemma append_int_digits:
  assumes "0 \<le> x" "x < 10 ^ w" "0 < w"
  shows "length (append_int x w) = w" "list_all is_digit (append_int x w)"
    "digits_value (append_int x w) = x"
proof -
  have "nat x < 10 ^ w" using assms(1,2) by (simp add: nat_less_iff)
  then have l: "length (nat_digits (nat x)) \<le> w" using assms(3) by (rule length_nat_digits)
  have z: "is_digit (CHR ''0'')" by code_simp
  show "length (append_int x w) = w" using l assms(1) by (simp add: append_int_def Let_def)
  show "list_all is_digit (append_int x w)"
    using nat_digits_digits z assms(1) by (auto simp: append_int_def Let_def list_all_iff)
  show "digits_value (append_int x w) = x"
    using assms(1) by (simp add: append_int_def Let_def digits_value_zeros)
qed

lemma getnum_append_int:
  assumes "0 \<le> x" "x < 100"
  shows "getnum fixed (append_int x 2 @ s) = Some (x, s)"
proof -
  note d = append_int_digits [of x 2] assms
  obtain a b where ab: "append_int x 2 = [a, b]"
    using d(1) assms by (auto simp: length_Suc_conv numeral_2_eq_2)
  then show ?thesis using d by (simp add: ab)
qed

lemma get_year_append_int:
  assumes "0 \<le> y" "y < 10000"
  shows "get_year (append_int y 4 @ s) = Some (y, s)"
  using append_int_digits [of y 4] assms by (simp add: get_year_def)

section \<open>Parsing and printing\<close>

lemma getnum_bounds: "getnum fixed s = Some (x, t) \<Longrightarrow> 0 \<le> x \<and> x < 100"
  by (cases "(fixed, s)" rule: getnum.cases)
    (auto simp: digits_value_def is_digit_def split: if_splits)

lemma digits_value_bounds: "list_all is_digit s \<Longrightarrow> 0 \<le> digits_value s \<and> digits_value s < 10 ^ length s"
proof (induction s rule: rev_induct)
  case (snoc c s)
  then have "0 \<le> digits_value s" "digits_value s < 10 ^ length s" "48 \<le> byte c" "byte c \<le> 57"
    by (auto simp: is_digit_def)
  then show ?case unfolding digits_value_append length_append by simp
qed (simp add: digits_value_def)

lemma get_year_bounds: "get_year s = Some (y, t) \<Longrightarrow> 0 \<le> y \<and> y < 10000"
  using digits_value_bounds [of "take 4 s"] by (auto simp: get_year_def split: if_splits)

lemma get_fraction_bounds: "0 \<le> fst (get_fraction s) \<and> fst (get_fraction s) < 1000000000"
proof -
  have "0 \<le> digits_value (take 9 ds) * 10 ^ (9 - length (take 9 ds)) \<and>
      digits_value (take 9 ds) * 10 ^ (9 - length (take 9 ds)) < 1000000000"
    if "list_all is_digit ds" for ds
  proof -
    define u where "u = take 9 ds"
    have u: "list_all is_digit u" "length u \<le> 9"
      using that by (auto simp: u_def list_all_iff dest: in_set_takeD)
    then have d: "0 \<le> digits_value u" "digits_value u < 10 ^ length u"
      using digits_value_bounds by auto
    have "digits_value u * 10 ^ (9 - length u) < 10 ^ length u * 10 ^ (9 - length u)"
      using d(2) by (intro mult_strict_right_mono) auto
    also have "\<dots> = 10 ^ 9" using u(2) by (simp add: power_add [symmetric])
    finally show ?thesis using d(1) by (simp add: u_def)
  qed
  moreover have "list_all is_digit (takeWhile is_digit (tl s))"
    by (auto simp: list_all_iff dest: set_takeWhileD)
  ultimately show ?thesis
    by (auto simp: get_fraction_def Let_def split: list.splits)
qed

lemma get_zone_bounds:
  assumes "get_zone s = Some (off, t)"
  shows "60 dvd off"
  using assms
  by (auto simp: get_zone_def guard_m_def Option.bind_eq_Some_conv split: if_splits)

lemma format_zone_shape:
  assumes "off = 60 * z" "\<bar>off\<bar> \<le> 89940" "off \<noteq> 0"
  obtains h1 h2 m1 m2 where "append_int (\<bar>z\<bar> div 60) 2 = [h1, h2]" "append_int (\<bar>z\<bar> mod 60) 2 = [m1, m2]"
    "format_zone off = (if off < 0 then CHR ''-'' else CHR ''+'') # [h1, h2, CHR '':'', m1, m2]"
proof -
  have hr: "0 \<le> \<bar>z\<bar> div 60" "\<bar>z\<bar> div 60 < 100" using assms by auto
  have mm: "0 \<le> \<bar>z\<bar> mod 60" "\<bar>z\<bar> mod 60 < 100" by (auto intro: less_trans [of _ 60])
  obtain h1 h2 where h: "append_int (\<bar>z\<bar> div 60) 2 = [h1, h2]"
    using append_int_digits(1) [of "\<bar>z\<bar> div 60" 2] hr by (auto simp: length_Suc_conv numeral_2_eq_2)
  obtain m1 m2 where m: "append_int (\<bar>z\<bar> mod 60) 2 = [m1, m2]"
    using append_int_digits(1) [of "\<bar>z\<bar> mod 60" 2] mm by (auto simp: length_Suc_conv numeral_2_eq_2)
  have zone: "(if off < 0 then - (\<bar>off\<bar> div 60) else off div 60) = z"
  proof -
    have "\<bar>off\<bar> = \<bar>z\<bar> * 60" using assms(1) by (simp add: abs_mult)
    then have "\<bar>off\<bar> div 60 = \<bar>z\<bar>" by simp
    then show ?thesis using assms(1) by auto
  qed
  have "format_zone off = (if off < 0 then CHR ''-'' else CHR ''+'') # [h1, h2, CHR '':'', m1, m2]"
    unfolding format_zone_def zone Let_def using assms(1,3) h m by simp
  then show thesis using that h m by blast
qed

lemma get_zone_format_zone:
  assumes "off = 60 * z" "\<bar>off\<bar> \<le> 89940"
  shows "get_zone (format_zone off) = Some (off, [])"
proof (cases "off = 0")
  case True
  then show ?thesis by (simp add: format_zone_def get_zone_def)
next
  case False
  define a where "a = \<bar>z\<bar>"
  have a: "0 \<le> a" "a \<le> 1499" "a \<noteq> 0" using assms False by (auto simp: a_def)
  have hr: "0 \<le> a div 60" "a div 60 \<le> 24" using a by auto
  have mm: "0 \<le> a mod 60" "a mod 60 < 60" by auto
  obtain h1 h2 m1 m2 where h: "append_int (a div 60) 2 = [h1, h2]" and m: "append_int (a mod 60) 2 = [m1, m2]"
    and f: "format_zone off = (if off < 0 then CHR ''-'' else CHR ''+'') # [h1, h2, CHR '':'', m1, m2]"
    using format_zone_shape [OF assms False] unfolding a_def by metis
  have gh: "getnum True [h1, h2] = Some (a div 60, [])"
    using getnum_append_int [of "a div 60" True "[]"] hr unfolding h by simp
  have gm: "getnum True [m1, m2] = Some (a mod 60, [])"
    using getnum_append_int [of "a mod 60" True "[]"] mm unfolding m by simp
  have v: "(a div 60 * 60 + a mod 60) * 60 = \<bar>off\<bar>"
    using assms(1) by (simp add: a_def abs_mult)
  show ?thesis
    unfolding f get_zone_def using gh gm hr mm v by (simp add: guard_m_def)
qed

text \<open>Taking a sequence of parsing steps apart.\<close>

lemma bind_pairE:
  assumes "Option.bind a (\<lambda>(x, y). f x y) = Some r"
  obtains x y where "a = Some (x, y)" "f x y = Some r"
  using assms by (cases a) auto

lemma bind_stepE:
  assumes "Option.bind a f = Some r"
  obtains x where "a = Some x" "f x = Some r"
  using assms by (cases a) auto

lemma guardE:
  assumes "Option.bind (guard_m b) f = Some r"
  obtains "b" "f () = Some r"
  using assms by (cases b) (auto simp: guard_m_def)

lemma pair_caseE:
  assumes "(let (x, y) = p in f x y) = Some r"
  obtains x y where "p = (x, y)" "f x y = Some r"
  using assms by (cases p) auto

text \<open>The fields of a parsed time.\<close>

lemma parse_rfc3339_fields:
  assumes "parse_rfc3339 s = Some t"
  obtains y m d h mi se ns where
    "0 \<le> y" "y < 10000" "1 \<le> m" "m \<le> 12" "1 \<le> d" "d \<le> days_in m y" "d < 100"
    "0 \<le> h" "h < 24" "0 \<le> mi" "mi < 60" "0 \<le> se" "se < 60" "0 \<le> ns" "ns < 1000000000"
    "unix_nano t = (unix_days y m d * 86400 + h * 3600 + mi * 60 + se - zone_offset t) * 1000000000 + ns"
    "60 dvd zone_offset t"
proof -
  obtain y s1 s2 m s3 s4 d s5 s6 h s7 s8 mi s9 s10 se s11 ns s12 off s13 where
    y: "get_year s = Some (y, s1)" and "skip_byte (CHR ''-'') s1 = Some s2"
    and m: "getnum True s2 = Some (m, s3)" "1 \<le> m \<and> m \<le> 12" and "skip_byte (CHR ''-'') s3 = Some s4"
    and d: "getnum True s4 = Some (d, s5)" and "skip_byte (CHR ''T'') s5 = Some s6"
    and h: "getnum False s6 = Some (h, s7)" "h < 24" and "skip_byte (CHR '':'') s7 = Some s8"
    and mi: "getnum True s8 = Some (mi, s9)" "mi < 60" and "skip_byte (CHR '':'') s9 = Some s10"
    and se: "getnum True s10 = Some (se, s11)" "se < 60"
    and ns: "get_fraction s11 = (ns, s12)" and off: "get_zone s12 = Some (off, s13)"
    and d2: "1 \<le> d \<and> d \<le> days_in m y"
    and t: "Some \<lparr>unix_nano =
         (unix_days y m d * 86400 + h * 3600 + mi * 60 + se - off) * 1000000000 + ns, zone_offset = off\<rparr> = Some t"
    using assms unfolding parse_rfc3339_def
    by (elim guardE bind_pairE bind_stepE pair_caseE) (rule that; assumption)
  show thesis
    by (rule that [of y m d h mi se ns])
      (use get_year_bounds [OF y] m getnum_bounds [OF d] getnum_bounds [OF h(1)] h(2) getnum_bounds [OF mi(1)] mi(2)
        getnum_bounds [OF se(1)] se(2) get_fraction_bounds [of s11] ns get_zone_bounds [OF off] d2 t in auto)
qed

lemma format_rfc3339_fields:
  assumes "1 \<le> m" "m \<le> 12" "1 \<le> d" "d \<le> days_in m y" "0 \<le> h" "h < 24" "0 \<le> mi" "mi < 60"
    "0 \<le> se" "se < 60" "0 \<le> ns" "ns < 1000000000"
    "unix_nano t = (unix_days y m d * 86400 + h * 3600 + mi * 60 + se - zone_offset t) * 1000000000 + ns"
  shows "format_rfc3339 t = append_int y 4 @ ''-'' @ append_int m 2 @ ''-'' @ append_int d 2 @ ''T'' @
    append_int h 2 @ '':'' @ append_int mi 2 @ '':'' @ append_int se 2 @ format_zone (zone_offset t)"
proof -
  define sod where "sod = h * 3600 + mi * 60 + se"
  have sod: "0 \<le> sod" "sod < 86400" using assms by (auto simp: sod_def)
  have "unix_nano t div 1000000000 = unix_days y m d * 86400 + h * 3600 + mi * 60 + se - zone_offset t"
    using assms by simp
  then have secs: "unix_nano t div 1000000000 + zone_offset t = unix_days y m d * 86400 + sod"
    by (simp add: sod_def)
  have day: "(unix_days y m d * 86400 + sod) div 86400 = unix_days y m d"
    "(unix_days y m d * 86400 + sod) mod 86400 = sod"
    using sod by auto
  have parts: "sod div 3600 = h" "sod div 60 mod 60 = mi" "sod mod 60 = se"
  proof -
    show "sod div 3600 = h"
      using assms by (intro int_div_pos_eq [of _ _ _ "mi * 60 + se"]) (auto simp: sod_def)
    have "sod div 60 = h * 60 + mi"
      using assms by (intro int_div_pos_eq [of _ _ _ se]) (auto simp: sod_def)
    then show "sod div 60 mod 60 = mi" using assms by simp
    show "sod mod 60 = se"
      using assms by (intro int_mod_pos_eq [of _ _ "h * 60 + mi"]) (auto simp: sod_def)
  qed
  show ?thesis
    unfolding format_rfc3339_def Let_def secs day parts civil_date_unix_days [OF assms(1-4)] by simp
qed

lemma read_format_rfc3339:
  assumes "parse_rfc3339 s = Some t" "\<bar>zone_offset t\<bar> \<le> 89940"
  shows "parse_rfc3339 (format_rfc3339 t) =
    Some (t\<lparr>unix_nano := unix_nano t - unix_nano t mod 1000000000\<rparr>)"
proof -
  obtain y m d h mi se ns where f: "0 \<le> y" "y < 10000" "1 \<le> m" "m \<le> 12" "1 \<le> d" "d \<le> days_in m y" "d < 100"
    "0 \<le> h" "h < 24" "0 \<le> mi" "mi < 60" "0 \<le> se" "se < 60" "0 \<le> ns" "ns < 1000000000"
    and t: "unix_nano t = (unix_days y m d * 86400 + h * 3600 + mi * 60 + se - zone_offset t) * 1000000000 + ns"
    and z: "60 dvd zone_offset t"
    using parse_rfc3339_fields [OF assms(1)] by metis
  obtain z' where "zone_offset t = 60 * z'" using z by auto
  note zone = get_zone_format_zone [OF this assms(2)]
  have fz: "get_fraction (format_zone off) = (0, format_zone off)" for off
    by (simp add: format_zone_def get_fraction_def Let_def split: list.splits)
  have "unix_nano t mod 1000000000 = ns"
    using f(14,15) t
    by (intro int_mod_pos_eq [of _ _
      "unix_days y m d * 86400 + h * 3600 + mi * 60 + se - zone_offset t"]) simp_all
  then show ?thesis
    unfolding format_rfc3339_fields [OF f(3-6,8-15) t] parse_rfc3339_def
    using f t
    by (simp add: get_year_append_int getnum_append_int guard_m_def fz zone)
qed

text \<open>The text of a parsed time has 20 or 25 bytes, and its first colon is the byte 13.\<close>

lemma date_text_shape:
  assumes "parse_rfc3339 s = Some t" "\<bar>zone_offset t\<bar> \<le> 89940"
  obtains p q where "format_rfc3339 t = p @ q" "length p = 13" "CHR '':'' \<notin> set p"
    "length (format_rfc3339 t) \<in> {20, 25}"
proof -
  obtain y m d h mi se ns where f: "0 \<le> y" "y < 10000" "1 \<le> m" "m \<le> 12" "1 \<le> d" "d \<le> days_in m y" "d < 100"
    "0 \<le> h" "h < 24" "0 \<le> mi" "mi < 60" "0 \<le> se" "se < 60" "0 \<le> ns" "ns < 1000000000"
    and t: "unix_nano t = (unix_days y m d * 86400 + h * 3600 + mi * 60 + se - zone_offset t) * 1000000000 + ns"
    and z: "60 dvd zone_offset t"
    using parse_rfc3339_fields [OF assms(1)] by metis
  have c: "\<not> is_digit (CHR '':'')" by code_simp
  have nc: "CHR '':'' \<notin> set (append_int x w)" if "0 \<le> x" "x < 10 ^ w" "0 < w" for x w
    using append_int_digits(2) [OF that] c by (auto simp: list_all_iff)
  note l = append_int_digits(1)
  obtain z' where z': "zone_offset t = 60 * z'" using z by auto
  have lz: "length (format_zone (zone_offset t)) \<in> {1, 6}"
  proof (cases "zone_offset t = 0")
    case True
    then show ?thesis by (simp add: format_zone_def)
  next
    case False
    then show ?thesis
    proof (rule format_zone_shape [OF z' assms(2)])
      fix h1 h2 m1 m2
      assume "format_zone (zone_offset t) =
        (if zone_offset t < 0 then CHR ''-'' else CHR ''+'') # [h1, h2, CHR '':'', m1, m2]"
      then show ?thesis by simp
    qed
  qed
  show thesis
    by (rule that [of "append_int y 4 @ ''-'' @ append_int m 2 @ ''-'' @ append_int d 2 @ ''T'' @ append_int h 2"
        "'':'' @ append_int mi 2 @ '':'' @ append_int se 2 @ format_zone (zone_offset t)"])
      (use f lz in \<open>auto simp: format_rfc3339_fields [OF f(3-6,8-15) t] l nc\<close>)
qed

lemma date_suffix:
  assumes "parse_rfc3339 s = Some t" "\<bar>zone_offset t\<bar> \<le> 89940"
    and "parse_rfc3339 s' = Some t'" "\<bar>zone_offset t'\<bar> \<le> 89940"
  shows "format_rfc3339 t \<noteq> y @ CHR '':'' # format_rfc3339 t'"
proof
  assume eq: "format_rfc3339 t = y @ CHR '':'' # format_rfc3339 t'"
  obtain p q where p: "format_rfc3339 t = p @ q" "length p = 13" "CHR '':'' \<notin> set p"
    "length (format_rfc3339 t) \<in> {20, 25}" by (rule date_text_shape [OF assms(1,2)])
  obtain "length (format_rfc3339 t') \<in> {20, 25}" by (rule date_text_shape [OF assms(3,4)])
  then have "length y < 13" using arg_cong [OF eq, of length] p(4) by auto
  moreover have "format_rfc3339 t ! length y = CHR '':''" by (simp add: eq)
  ultimately have "CHR '':'' \<in> set p" using p(1,2) \<open>length y < 13\<close> nth_mem [of "length y" p]
    by (simp add: nth_append)
  then show False using p(3) by simp
qed

end
