(* ===== verification/CondPrintFacts.thy ===== *)
theory CondPrintFacts
  imports CondPrint GoTimeFacts
begin

text \<open>
  Two decoded conditions with the same text decide every request alike, provided their dates and
  networks are read back from their texts; equality of lists of conditions is then sound.
\<close>

section \<open>What the constructors produce\<close>

definition string_kinds :: "(string \<times> bool \<times> bool \<times> bool) list" where
  "string_kinds = [(stringEquals, False, False, False), (stringNotEquals, False, False, True),
     (stringEqualsIgnoreCase, True, False, False), (stringNotEqualsIgnoreCase, True, False, True),
     (binaryEquals, False, True, False)]"

definition like_kinds :: "(string \<times> bool \<times> bool \<times> bool) list" where
  "like_kinds = [(stringLike, False, False, False), (stringNotLike, False, False, True)]"

definition numeric_kinds :: "(string \<times> cond_op \<times> bool) list" where
  "numeric_kinds = [(numericEquals, CondEquals, False), (numericNotEquals, CondNotEquals, False),
     (numericLessThan, CondLessThan, False), (numericLessThanEquals, CondLessThanEquals, False),
     (numericGreaterThan, CondGreaterThan, False), (numericGreaterThanIfExists, CondGreaterThan, True),
     (numericGreaterThanEquals, CondGreaterThanEquals, False)]"

definition date_kinds :: "(string \<times> cond_op) list" where
  "date_kinds = [(dateEquals, CondEquals), (dateNotEquals, CondNotEquals),
     (dateLessThan, CondLessThan), (dateLessThanEquals, CondLessThanEquals),
     (dateGreaterThan, CondGreaterThan), (dateGreaterThanEquals, CondGreaterThanEquals)]"

fun wf_fn :: "cond_function \<Rightarrow> bool" where
  "wf_fn (StringFunc f) \<longleftrightarrow> Name_IsValid (sf_n f) \<and>
     (cn_name (sf_n f), sf_ignoreCase f, sf_base64 f, sf_negate f) \<in> set string_kinds"
| "wf_fn (StringLikeFunc f) \<longleftrightarrow> Name_IsValid (sf_n f) \<and>
     (cn_name (sf_n f), sf_ignoreCase f, sf_base64 f, sf_negate f) \<in> set like_kinds"
| "wf_fn (NullFunc f) \<longleftrightarrow> True"
| "wf_fn (BooleanFunc f) \<longleftrightarrow> CHR '':'' \<notin> set (bf_value f)"
| "wf_fn (NumericFunc f) \<longleftrightarrow> cn_qualifier (mf_n f) = '''' \<and>
     (cn_name (mf_n f), mf_c f, mf_ifExists f) \<in> set numeric_kinds"
| "wf_fn (DateFunc f) \<longleftrightarrow> cn_qualifier (df_n f) = '''' \<and> (cn_name (df_n f), df_c f) \<in> set date_kinds \<and>
     (\<exists>s. parse_rfc3339 s = Some (df_value f))"
| "wf_fn (IPAddrFunc f) \<longleftrightarrow> cn_qualifier (if_n f) = '''' \<and>
     (cn_name (if_n f), if_negate f) \<in> {(ipAddress, False), (notIPAddress, True)}"

lemma newStringFunc_valid:
  assumes "newStringFunc L n k vs q ic b neg = Inr f" "n \<in> set Names"
  shows "Name_IsValid (sf_n f)"
  using assms
  by (auto simp: newStringFunc_def Let_def Name_IsValid_def split: sum.splits option.splits if_splits)

lemma parse_bool_colon:
  assumes "CHR '':'' \<in> set s"
  shows "parse_bool s = None"
proof -
  have n: "list_all (\<lambda>t. CHR '':'' \<notin> set t) [''1'', ''t'', ''T'', ''true'', ''TRUE'', ''True'',
      ''0'', ''f'', ''F'', ''false'', ''FALSE'', ''False'']"
    by simp
  have "s \<notin> set [''1'', ''t'', ''T'', ''true'', ''TRUE'', ''True'',
      ''0'', ''f'', ''F'', ''false'', ''FALSE'', ''False'']"
    using n assms unfolding list_all_iff by (rule_tac notI) (drule (1) bspec, erule (1) notE)
  then show ?thesis unfolding parse_bool_def by (simp only: list.set insert_iff empty_iff de_Morgan_disj if_False simp_thms)
qed

lemma kind_names:
  "fst ` set string_kinds \<subseteq> set Names" "fst ` set like_kinds \<subseteq> set Names"
  "fst ` set numeric_kinds \<subseteq> set Names" "fst ` set date_kinds \<subseteq> set Names"
  by (simp_all add: string_kinds_def like_kinds_def numeric_kinds_def date_kinds_def Names_def)

lemma map_fn_string:
  assumes "map_fn StringFunc (newStringFunc L n k vs q ic b neg) = Inr f" "(n, ic, b, neg) \<in> set string_kinds"
  shows "wf_fn f"
proof -
  obtain g where g: "newStringFunc L n k vs q ic b neg = Inr g" "f = StringFunc g"
    using assms(1) by (auto simp: map_fn_Inr)
  have "n \<in> set Names" using assms(2) kind_names(1) by force
  then show ?thesis
    using g assms(2) newStringFunc_fields [OF g(1)] newStringFunc_valid [OF g(1)] by simp
qed

lemma map_fn_like:
  assumes "map_fn StringLikeFunc (newStringFunc L n k vs q ic b neg) = Inr f" "(n, ic, b, neg) \<in> set like_kinds"
  shows "wf_fn f"
proof -
  obtain g where g: "newStringFunc L n k vs q ic b neg = Inr g" "f = StringLikeFunc g"
    using assms(1) by (auto simp: map_fn_Inr)
  have "n \<in> set Names" using assms(2) kind_names(2) by force
  then show ?thesis
    using g assms(2) newStringFunc_fields [OF g(1)] newStringFunc_valid [OF g(1)] by simp
qed

lemma string_constructors_wf:
  "newStringEqualsFunc L k vs q = Inr f \<Longrightarrow> wf_fn f"
  "newStringNotEqualsFunc L k vs q = Inr f \<Longrightarrow> wf_fn f"
  "newStringEqualsIgnoreCaseFunc L k vs q = Inr f \<Longrightarrow> wf_fn f"
  "newStringNotEqualsIgnoreCaseFunc L k vs q = Inr f \<Longrightarrow> wf_fn f"
  "newBinaryEqualsFunc L k vs q = Inr f \<Longrightarrow> wf_fn f"
  "newStringLikeFunc L k vs q = Inr f \<Longrightarrow> wf_fn f"
  "newStringNotLikeFunc L k vs q = Inr f \<Longrightarrow> wf_fn f"
  unfolding string_constructors newBinaryEqualsFunc_def NewBinaryEqualsFunc_def
  by (auto elim!: map_fn_string map_fn_like simp: string_kinds_def like_kinds_def split: sum.splits)

lemma plain_constructors_wf:
  "newNullFunc k vs q = Inr f \<Longrightarrow> wf_fn f"
  "newBooleanFunc k vs q = Inr f \<Longrightarrow> wf_fn f"
  "newIPAddressFunc k vs q = Inr f \<Longrightarrow> wf_fn f"
  "newNotIPAddressFunc k vs q = Inr f \<Longrightarrow> wf_fn f"
  by (auto simp: newNullFunc_def newBooleanFunc_def newIPAddressFunc_def newNotIPAddressFunc_def
      NewIPAddressFunc_def NewNotIPAddressFunc_def newIPAddrFunc_def format_bool_def parse_bool_colon
      split: sum.splits list.splits val.splits option.splits if_splits)

lemma ordered_constructors_wf:
  "newNumericFunc n ie k vs c = Inr f \<Longrightarrow> (n, c, ie) \<in> set numeric_kinds \<Longrightarrow> wf_fn f"
  "newDateFunc n k vs c = Inr f \<Longrightarrow> (n, c) \<in> set date_kinds \<Longrightarrow> wf_fn f"
  by (auto simp: newNumericFunc_def newDateFunc_def valueToTime_def
      split: sum.splits list.splits val.splits option.splits)

lemma constructor_wf:
  assumes "(n, mk) \<in> set (conditionFuncMap L)" "mk k vs q = Inr f"
  shows "wf_fn f"
  using assms
  by (auto simp: conditionFuncMap_def numeric_constructors date_constructors
      numeric_kinds_def date_kinds_def dest: string_constructors_wf plain_constructors_wf
      intro: ordered_constructors_wf)

lemma new_function_wf:
  assumes "new_function L nameString keyString vs = Inr f"
  shows "wf_fn f" "Key_IsValid (fn_key f)"
proof -
  show "wf_fn f"
    using assms
    by (auto simp: new_function_def split: sum.splits option.splits dest!: map_of_SomeD intro: constructor_wf)
  show "Key_IsValid (fn_key f)"
    using assms
    by (auto simp: new_function_def split: sum.splits option.splits
        dest!: map_of_SomeD conditionFuncMap_keeps parseKey_valid)
qed

section \<open>Splitting a text\<close>

lemma split_at_first:
  "c \<notin> set a \<Longrightarrow> c \<notin> set b \<Longrightarrow> a @ c # x = b @ c # y \<Longrightarrow> a = b \<and> x = y"
proof (induction a arbitrary: b)
  case Nil
  then show ?case by (cases b) auto
next
  case (Cons z a)
  then show ?case by (cases b) auto
qed

lemma split_at_last:
  assumes "c \<notin> set a" "c \<notin> set b" "x @ c # a = y @ c # b"
  shows "x = y \<and> a = b"
proof -
  have "rev a @ c # rev x = rev b @ c # rev y"
    using arg_cong [OF assms(3), of rev] by simp
  then show ?thesis using split_at_first [of c "rev a" "rev b" "rev x" "rev y"] assms(1,2) by simp
qed

lemma qualifiers_no_names: "\<forall>q\<in>set Qualifiers. q \<notin> set Names"
  by (simp add: Qualifiers_def Names_def)

lemma unique_suffix:
  assumes "k @ c # a = k' @ c # b" "\<And>y. a \<noteq> y @ c # b" "\<And>y. b \<noteq> y @ c # a"
  shows "k = k' \<and> a = b"
proof -
  obtain u where "k @ u = k' \<and> c # a = u @ c # b \<or> k = k' @ u \<and> u @ c # a = c # b"
    using assms(1) unfolding append_eq_append_conv2 by blast
  then show ?thesis using assms(2,3) by (cases u) fastforce+
qed

lemma Name_String_head:
  assumes "Name_IsValid n" "Name_IsValid m" "Name_String n @ CHR '':'' # x = Name_String m @ CHR '':'' # y"
  shows "n = m \<and> x = y"
proof -
  have c: "CHR '':'' \<notin> set (cn_name n)" "CHR '':'' \<notin> set (cn_name m)"
    "cn_qualifier n \<noteq> '''' \<Longrightarrow> CHR '':'' \<notin> set (cn_qualifier n)"
    "cn_qualifier m \<noteq> '''' \<Longrightarrow> CHR '':'' \<notin> set (cn_qualifier m)"
    using assms(1,2) names_no_colon by (auto simp: Name_IsValid_def split: if_splits)
  have nq: "cn_qualifier n \<noteq> '''' \<Longrightarrow> cn_qualifier n \<notin> set Names"
    "cn_qualifier m \<noteq> '''' \<Longrightarrow> cn_qualifier m \<notin> set Names"
    "cn_name n \<in> set Names" "cn_name m \<in> set Names"
    using assms(1,2) qualifiers_no_names by (auto simp: Name_IsValid_def split: if_splits)
  define hd_of where "hd_of n = (if cn_qualifier n \<noteq> '''' then cn_qualifier n else cn_name n)" for n :: cname
  define tl_of where "tl_of n x = (if cn_qualifier n \<noteq> '''' then cn_name n @ CHR '':'' # x else x)" for n :: cname and x
  have s: "Name_String n @ CHR '':'' # x = hd_of n @ CHR '':'' # tl_of n x" for n :: cname and x
    by (simp add: Name_String_def hd_of_def tl_of_def)
  have "hd_of n = hd_of m \<and> tl_of n x = tl_of m y"
    by (rule split_at_first [of "CHR '':''"]) (use assms(3) c in \<open>auto simp: s hd_of_def\<close>)
  then have h: "hd_of n = hd_of m" and t: "tl_of n x = tl_of m y" by auto
  show ?thesis
  proof (cases "cn_qualifier n = ''''")
    case True
    then have "cn_qualifier m = ''''" using h nq unfolding hd_of_def by metis
    then show ?thesis using True h t by (simp add: hd_of_def tl_of_def cname.equality)
  next
    case False
    then have m: "cn_qualifier m \<noteq> ''''" using h nq unfolding hd_of_def by metis
    then have "cn_qualifier n = cn_qualifier m" using False h by (simp add: hd_of_def)
    moreover have "cn_name n = cn_name m \<and> x = y"
      using t False m split_at_first [OF c(1,2)] by (simp add: tl_of_def)
    ultimately show ?thesis by (simp add: cname.equality)
  qed
qed

section \<open>Digits\<close>

lemma digit_not: "is_digit c \<Longrightarrow> c \<noteq> CHR ''-'' \<and> c \<noteq> CHR '':'' \<and> c \<noteq> CHR ''['' \<and> c \<noteq> CHR '' ''"
proof -
  assume "is_digit c"
  moreover have "\<not> is_digit (CHR ''-'')" "\<not> is_digit (CHR '':'')" "\<not> is_digit (CHR ''['')"
    "\<not> is_digit (CHR '' '')" by code_simp+
  ultimately show ?thesis by auto
qed

lemma itoa_chars: "c \<in> set (itoa i) \<Longrightarrow> is_digit c \<or> c = CHR ''-''"
  using nat_digits_digits by (auto simp: itoa_def split: if_splits)

lemma nat_digits_not_minus: "nat_digits n \<noteq> CHR ''-'' # s"
proof
  assume "nat_digits n = CHR ''-'' # s"
  then have "is_digit (CHR ''-'')" using nat_digits_digits [of n] by auto
  then show False using digit_not by blast
qed

lemma itoa_inj: "itoa i = itoa j \<longleftrightarrow> i = j"
proof
  assume eq: "itoa i = itoa j"
  have d: "nat_digits a = nat_digits b \<Longrightarrow> a = b" for a b
    using digits_value_nat_digits by (metis of_nat_eq_iff)
  show "i = j"
    using eq nat_digits_not_minus nat_digits_not_minus [THEN not_sym]
    by (auto simp: itoa_def split: if_splits dest!: d)
qed simp

section \<open>The text of a condition determines its decisions\<close>

definition net_exact :: "ipnet \<Rightarrow> bool" where
  "net_exact n \<longleftrightarrow> ParseCIDR (IPNet_String n) = Some n \<and>
     list_all (\<lambda>c. c \<noteq> CHR '' '' \<and> c \<noteq> CHR ''['') (IPNet_String n)"

definition time_exact :: "go_time \<Rightarrow> bool" where
  "time_exact t \<longleftrightarrow> unix_nano t mod 1000000000 = 0 \<and> \<bar>zone_offset t\<bar> \<le> 89940"

text \<open>
  The data of the condition is read back from its text: the time has no fraction of a second and
  an offset that prints as hours and minutes the parser takes, the networks parse to themselves.
\<close>

fun exact_fn :: "cond_function \<Rightarrow> bool" where
  "exact_fn (DateFunc f) = time_exact (df_value f)"
| "exact_fn (IPAddrFunc f) = list_all net_exact (if_values f)"
| "exact_fn _ = True"

fun fn_body :: "ext_lib \<Rightarrow> cond_function \<Rightarrow> string" where
  "fn_body L (StringFunc f) =
     Key_String (sf_k f) @ CHR '':'' # format_q L (sort_strings (ss_toslice L (sf_values f)))"
| "fn_body L (StringLikeFunc f) =
     Key_String (sf_k f) @ CHR '':'' # format_q L (sort_strings (ss_toslice L (sf_values f)))"
| "fn_body L (NullFunc f) = Key_String (nf_k f) @ CHR '':'' # format_bool (nf_value f)"
| "fn_body L (BooleanFunc f) = Key_String (bf_k f) @ CHR '':'' # bf_value f"
| "fn_body L (NumericFunc f) =
     format_bool (mf_ifExists f) @ CHR '':'' # Key_String (mf_k f) @ CHR '':'' # itoa (mf_value f)"
| "fn_body L (DateFunc f) = Key_String (df_k f) @ CHR '':'' # format_rfc3339 (df_value f)"
| "fn_body L (IPAddrFunc f) =
     Key_String (if_k f) @ CHR '':'' # format_v (sort_strings (map IPNet_String (if_values f)))"

lemma Name_String_plain [simp]: "Name_String (plain_name n) = n"
  by (simp add: Name_String_def)

lemma fn_String_body: "fn_String L f = Name_String (fn_name f) @ CHR '':'' # fn_body L f"
  by (cases f) simp_all

lemma plain_name_valid: "cn_qualifier n = '''' \<Longrightarrow> cn_name n \<in> set Names \<Longrightarrow> Name_IsValid n"
  by (simp add: Name_IsValid_def)

lemma wf_fn_name: "wf_fn f \<Longrightarrow> Name_IsValid (fn_name f)"
proof -
  have n: "ipAddress \<in> set Names" "notIPAddress \<in> set Names" "nullName \<in> set Names"
    "booleanName \<in> set Names" by (simp_all add: Names_def)
  have k: "(a, p) \<in> set numeric_kinds \<Longrightarrow> a \<in> set Names"
    "(b, p') \<in> set date_kinds \<Longrightarrow> b \<in> set Names" for a b p p'
    using kind_names(3,4) by force+
  assume "wf_fn f"
  then show ?thesis
    using n by (cases f) (auto intro: plain_name_valid dest: k)
qed

lemma fn_String_eqD:
  assumes "fn_String L f = fn_String L g" "wf_fn f" "wf_fn g"
  shows "fn_name f = fn_name g" "fn_body L f = fn_body L g"
  using Name_String_head [OF wf_fn_name [OF assms(2)] wf_fn_name [OF assms(3)]] assms(1)
  unfolding fn_String_body by blast+

text \<open>The name determines the kind of the condition and its flags.\<close>

fun fn_kind :: "cond_function \<Rightarrow> nat \<times> bool \<times> bool \<times> bool \<times> cond_op" where
  "fn_kind (StringFunc f) = (0, sf_ignoreCase f, sf_base64 f, sf_negate f, CondEquals)"
| "fn_kind (StringLikeFunc f) = (1, sf_ignoreCase f, sf_base64 f, sf_negate f, CondEquals)"
| "fn_kind (NullFunc f) = (2, False, False, False, CondEquals)"
| "fn_kind (BooleanFunc f) = (3, False, False, False, CondEquals)"
| "fn_kind (NumericFunc f) = (4, mf_ifExists f, False, False, mf_c f)"
| "fn_kind (DateFunc f) = (5, False, False, False, df_c f)"
| "fn_kind (IPAddrFunc f) = (6, False, False, if_negate f, CondEquals)"

definition kind_table :: "(string \<times> nat \<times> bool \<times> bool \<times> bool \<times> cond_op) list" where
  "kind_table = map (\<lambda>(n, i, b, g). (n, 0, i, b, g, CondEquals)) string_kinds @
     map (\<lambda>(n, i, b, g). (n, 1, i, b, g, CondEquals)) like_kinds @
     [(nullName, 2, False, False, False, CondEquals), (booleanName, 3, False, False, False, CondEquals)] @
     map (\<lambda>(n, c, e). (n, 4, e, False, False, c)) numeric_kinds @
     map (\<lambda>(n, c). (n, 5, False, False, False, c)) date_kinds @
     [(ipAddress, 6, False, False, False, CondEquals), (notIPAddress, 6, False, False, True, CondEquals)]"

lemma kind_table_distinct: "distinct (map fst kind_table)"
  by (simp add: kind_table_def string_kinds_def like_kinds_def numeric_kinds_def date_kinds_def)

lemma wf_fn_kind: "wf_fn f \<Longrightarrow> (cn_name (fn_name f), fn_kind f) \<in> set kind_table"
  by (cases f) (force simp: kind_table_def)+

lemma same_name_same_kind:
  assumes "wf_fn f" "wf_fn g" "fn_name f = fn_name g"
  shows "fn_kind f = fn_kind g"
  using wf_fn_kind [OF assms(1)] wf_fn_kind [OF assms(2)] assms(3) kind_table_distinct
  by (metis eq_key_imp_eq_value)

section \<open>Lists of plain texts\<close>

lemma split_join:
  "xs \<noteq> [] \<Longrightarrow> \<forall>x\<in>set xs. c \<notin> set x \<Longrightarrow> split_on c (join_with c xs) = xs"
  by (induction c xs rule: join_with.induct) (auto simp: split_on_append split_on_no_sep)

lemma join_inj:
  assumes "\<forall>x\<in>set xs. c \<notin> set x \<and> x \<noteq> []" "\<forall>y\<in>set ys. c \<notin> set y \<and> y \<noteq> []"
    and "join_with c xs = join_with c ys"
  shows "xs = ys"
proof -
  have e: "join_with c zs = [] \<Longrightarrow> \<forall>z\<in>set zs. c \<notin> set z \<and> z \<noteq> [] \<Longrightarrow> zs = []" for zs
    by (cases zs; cases "tl zs") auto
  show ?thesis
  proof (cases "xs = [] \<or> ys = []")
    case True
    then show ?thesis using e [of xs] e [of ys] assms by auto
  next
    case False
    then show ?thesis using split_join [of xs c] split_join [of ys c] assms by metis
  qed
qed

lemma sort_strings_set: "sort_strings xs = sort_strings ys \<Longrightarrow> set xs = set ys"
  unfolding sort_strings_def by (metis set_sort)

lemma net_exact_text:
  assumes "net_exact n"
  shows "CHR '' '' \<notin> set (IPNet_String n)" "CHR ''['' \<notin> set (IPNet_String n)" "IPNet_String n \<noteq> []"
proof -
  have "ParseCIDR [] = None" by (simp add: ParseCIDR_def split_two_def index_byte_def)
  then show "IPNet_String n \<noteq> []" using assms unfolding net_exact_def by (metis option.distinct(1))
  show "CHR '' '' \<notin> set (IPNet_String n)" "CHR ''['' \<notin> set (IPNet_String n)"
    using assms unfolding net_exact_def list_all_iff by blast+
qed

lemma net_exact_inj:
  "net_exact n \<Longrightarrow> net_exact m \<Longrightarrow> IPNet_String n = IPNet_String m \<Longrightarrow> n = m"
  unfolding net_exact_def by (metis option.inject)

lemma format_v_inj:
  assumes "\<forall>x\<in>set xs. CHR '' '' \<notin> set x \<and> x \<noteq> []" "\<forall>y\<in>set ys. CHR '' '' \<notin> set y \<and> y \<noteq> []"
    and "format_v xs = format_v ys"
  shows "xs = ys"
  using assms(3) unfolding format_v_def by (intro join_inj [OF assms(1,2)]) simp

lemma text_with_plain_list:
  assumes "\<forall>x\<in>set xs. CHR ''['' \<notin> set x" "\<forall>y\<in>set ys. CHR ''['' \<notin> set y"
    and "k @ CHR '':'' # format_v xs = k' @ CHR '':'' # format_v ys"
  shows "k = k' \<and> format_v xs = format_v ys"
proof -
  have j: "\<forall>x\<in>set xs. c \<notin> set x \<Longrightarrow> c \<noteq> d \<Longrightarrow> c \<notin> set (join_with d xs)" for c d xs
    by (induction d xs rule: join_with.induct) auto
  have "(k @ '':'') @ CHR ''['' # join_with (CHR '' '') xs @ '']'' =
      (k' @ '':'') @ CHR ''['' # join_with (CHR '' '') ys @ '']''"
    using assms(3) by (simp add: format_v_def)
  then have "k @ '':'' = k' @ '':'' \<and> join_with (CHR '' '') xs @ '']'' = join_with (CHR '' '') ys @ '']''"
    by (rule split_at_last [rotated 2]) (use j assms(1,2) in auto)
  then show ?thesis by (simp add: format_v_def)
qed

text \<open>The decision depends on the set of the values only.\<close>

lemma stringFunc_eval_set:
  assumes "string_set_laws L" "set (sf_values f) = set (sf_values g)" "sf_k f = sf_k g" "sf_n f = sf_n g"
    "sf_ignoreCase f = sf_ignoreCase g"
  shows "stringFunc_eval L f values = stringFunc_eval L g values"
  using assms
  by (simp add: stringFunc_eval_def apply_substitute_def Let_def ss_simps list_all_iff)

lemma stringLikeFunc_eval_set:
  assumes "string_set_laws L" "set (sf_values f) = set (sf_values g)" "sf_k f = sf_k g" "sf_n f = sf_n g"
  shows "stringLikeFunc_eval L f values = stringLikeFunc_eval L g values"
  using assms
  by (simp add: stringLikeFunc_eval_def apply_substitute_def ss_simps list_all_iff like_loop_eq)

lemma ipaddrFunc_eval_set:
  assumes "set (if_values f) = set (if_values g)" "if_k f = if_k g"
  shows "ipaddrFunc_eval f values = ipaddrFunc_eval g values"
  using assms by (simp add: ipaddrFunc_eval_def list_ex_iff Let_def cong: option.case_cong)

lemma format_bool_inj: "format_bool a = format_bool b \<longleftrightarrow> a = b"
  by (simp add: format_bool_def)

lemma no_colon_texts: "CHR '':'' \<notin> set (format_bool b)" "CHR '':'' \<notin> set (itoa i)"
  using itoa_chars [of "CHR '':''" i] digit_not by (auto simp: format_bool_def)

lemma sorted_values:
  assumes "string_set_laws L"
    and "sort_strings (ss_toslice L xs) = sort_strings (ss_toslice L ys)"
  shows "set xs = set ys"
  using sort_strings_set [OF assms(2)] ss_simps(7) [OF assms(1)] by simp

lemma key_and_value:
  assumes "Key_IsValid k" "Key_IsValid k'" "CHR '':'' \<notin> set a" "CHR '':'' \<notin> set b"
    and "Key_String k @ CHR '':'' # a = Key_String k' @ CHR '':'' # b"
  shows "k = k' \<and> a = b"
  using split_at_last [OF assms(3-5)] Key_String_inj [OF assms(1,2)] by blast

lemma time_exact_read:
  assumes "parse_rfc3339 s = Some t" "time_exact t"
  shows "parse_rfc3339 (format_rfc3339 t) = Some t"
proof -
  have m: "unix_nano t mod 1000000000 = 0" and z: "\<bar>zone_offset t\<bar> \<le> 89940"
    using assms(2) unfolding time_exact_def by blast+
  have "t\<lparr>unix_nano := unix_nano t - 0\<rparr> = t" by simp
  then show ?thesis using read_format_rfc3339 [OF assms(1) z] unfolding m by simp
qed

lemma format_rfc3339_inj:
  assumes "parse_rfc3339 s = Some t" "parse_rfc3339 s' = Some t'" "time_exact t" "time_exact t'"
    and "format_rfc3339 t = format_rfc3339 t'"
  shows "t = t'"
  using time_exact_read [OF assms(1,3)] time_exact_read [OF assms(2,4)] assms(5)
  by (metis option.inject)

lemma date_texts:
  assumes k: "Key_IsValid k" "Key_IsValid k'" and p: "parse_rfc3339 s = Some t" "parse_rfc3339 s' = Some t'"
    and ex: "time_exact t" "time_exact t'"
    and eq: "Key_String k @ CHR '':'' # format_rfc3339 t = Key_String k' @ CHR '':'' # format_rfc3339 t'"
  shows "k = k' \<and> t = t'"
proof -
  have z: "\<bar>zone_offset t\<bar> \<le> 89940" "\<bar>zone_offset t'\<bar> \<le> 89940"
    using ex by (auto simp: time_exact_def)
  have "Key_String k = Key_String k' \<and> format_rfc3339 t = format_rfc3339 t'"
    by (rule unique_suffix [OF eq date_suffix [OF p(1) z(1) p(2) z(2)] date_suffix [OF p(2) z(2) p(1) z(1)]])
  then show ?thesis using Key_String_inj [OF k] format_rfc3339_inj [OF p ex] by blast
qed

lemma string_texts:
  assumes "string_set_laws L" "Key_IsValid k" "Key_IsValid k'"
    and eq: "Key_String k @ CHR '':'' # format_q L (sort_strings (ss_toslice L xs)) =
      Key_String k' @ CHR '':'' # format_q L (sort_strings (ss_toslice L ys))"
  shows "k = k' \<and> set xs = set ys"
  using text_with_list [OF eq] Key_String_inj [OF assms(2,3)] sorted_values [OF assms(1), of xs ys]
  by blast

lemma text_determines_decision:
  assumes L: "string_set_laws L"
    and wf: "wf_fn f" "wf_fn g" "Key_IsValid (fn_key f)" "Key_IsValid (fn_key g)"
    and ex: "exact_fn f" "exact_fn g"
    and eq: "fn_String L f = fn_String L g"
  shows "evaluate L f values = evaluate L g values"
proof -
  note nb = fn_String_eqD [OF eq wf(1,2)]
  note kind = same_name_same_kind [OF wf(1,2) nb(1)]
  show ?thesis
  proof (cases f)
    case (StringFunc f')
    then obtain g' where g: "g = StringFunc g'" using kind by (cases g) auto
    have k: "Key_IsValid (sf_k f')" "Key_IsValid (sf_k g')" using wf(3,4) unfolding StringFunc g by simp_all
    have "sf_k f' = sf_k g' \<and> set (sf_values f') = set (sf_values g')"
      by (rule string_texts [OF L k]) (use nb(2) in \<open>simp add: StringFunc g\<close>)
    then show ?thesis
      using kind nb(1) stringFunc_eval_set [OF L, of f' g'] unfolding StringFunc g by simp
  next
    case (StringLikeFunc f')
    then obtain g' where g: "g = StringLikeFunc g'" using kind by (cases g) auto
    have k: "Key_IsValid (sf_k f')" "Key_IsValid (sf_k g')" using wf(3,4) unfolding StringLikeFunc g by simp_all
    have "sf_k f' = sf_k g' \<and> set (sf_values f') = set (sf_values g')"
      by (rule string_texts [OF L k]) (use nb(2) in \<open>simp add: StringLikeFunc g\<close>)
    then show ?thesis
      using kind nb(1) stringLikeFunc_eval_set [OF L, of f' g'] unfolding StringLikeFunc g by simp
  next
    case (NullFunc f')
    then obtain g' where g: "g = NullFunc g'" using kind by (cases g) auto
    have "nf_k f' = nf_k g' \<and> nf_value f' = nf_value g'"
      using nb(2) key_and_value [OF _ _ no_colon_texts(1) no_colon_texts(1)] format_bool_inj wf(3,4)
      unfolding NullFunc g by simp
    then have "f' = g'" by (cases f'; cases g') simp
    then show ?thesis unfolding NullFunc g by simp
  next
    case (BooleanFunc f')
    then obtain g' where g: "g = BooleanFunc g'" using kind by (cases g) auto
    have "bf_k f' = bf_k g' \<and> bf_value f' = bf_value g'"
      using nb(2) key_and_value wf unfolding BooleanFunc g by simp
    then have "f' = g'" by (cases f'; cases g') simp
    then show ?thesis unfolding BooleanFunc g by simp
  next
    case (NumericFunc f')
    then obtain g' where g: "g = NumericFunc g'" using kind by (cases g) auto
    have "Key_String (mf_k f') @ CHR '':'' # itoa (mf_value f') =
        Key_String (mf_k g') @ CHR '':'' # itoa (mf_value g')"
      using nb(2) kind unfolding NumericFunc g by simp
    then have "mf_k f' = mf_k g' \<and> mf_value f' = mf_value g'"
      using key_and_value [OF _ _ no_colon_texts(2) no_colon_texts(2)] itoa_inj wf(3,4)
      unfolding NumericFunc g by simp
    then have "f' = g'" using kind nb(1) unfolding NumericFunc g by (cases f'; cases g') simp
    then show ?thesis unfolding NumericFunc g by simp
  next
    case (DateFunc f')
    then obtain g' where g: "g = DateFunc g'" using kind by (cases g) auto
    obtain s s' where p: "parse_rfc3339 s = Some (df_value f')" "parse_rfc3339 s' = Some (df_value g')"
      using wf(1,2) unfolding DateFunc g by auto
    have "df_k f' = df_k g' \<and> df_value f' = df_value g'"
      by (rule date_texts [OF _ _ p]) (use nb(2) wf(3,4) ex in \<open>simp_all add: DateFunc g\<close>)
    then have "f' = g'" using kind nb(1) unfolding DateFunc g by (cases f'; cases g') simp
    then show ?thesis unfolding DateFunc g by simp
  next
    case (IPAddrFunc f')
    then obtain g' where g: "g = IPAddrFunc g'" using kind by (cases g) auto
    define nets where "nets f = sort_strings (map IPNet_String (if_values f))" for f :: ipaddr_func
    have t: "\<forall>x\<in>set (nets h). CHR '' '' \<notin> set x \<and> CHR ''['' \<notin> set x \<and> x \<noteq> []"
      if "list_all net_exact (if_values h)" for h
      using that net_exact_text unfolding nets_def sort_strings_def set_sort by (auto simp: list_all_iff)
    have b: "Key_String (if_k f') @ CHR '':'' # format_v (nets f') =
        Key_String (if_k g') @ CHR '':'' # format_v (nets g')"
      using nb(2) unfolding IPAddrFunc g nets_def by simp
    have tf: "\<forall>x\<in>set (nets f'). CHR ''['' \<notin> set x" "\<forall>x\<in>set (nets f'). CHR '' '' \<notin> set x \<and> x \<noteq> []"
      and tg: "\<forall>x\<in>set (nets g'). CHR ''['' \<notin> set x" "\<forall>x\<in>set (nets g'). CHR '' '' \<notin> set x \<and> x \<noteq> []"
      using t ex unfolding IPAddrFunc g by auto
    have "Key_String (if_k f') = Key_String (if_k g')" and ft: "format_v (nets f') = format_v (nets g')"
      using text_with_plain_list [OF tf(1) tg(1) b] by auto
    then have k: "if_k f' = if_k g'" using Key_String_inj wf(3,4) unfolding IPAddrFunc g by simp
    have "nets f' = nets g'" by (rule format_v_inj [OF tf(2) tg(2) ft])
    then have i: "IPNet_String ` set (if_values f') = IPNet_String ` set (if_values g')"
      using sort_strings_set [of "map IPNet_String (if_values f')"] unfolding nets_def by simp
    have "set (if_values f') = set (if_values g')"
    proof -
      have "inj_on IPNet_String (set (if_values f') \<union> set (if_values g'))"
        using ex net_exact_inj unfolding IPAddrFunc g by (auto simp: inj_on_def list_all_iff)
      then show ?thesis using i by (simp add: inj_on_image_eq_iff [of IPNet_String])
    qed
    then show ?thesis
      using k kind ipaddrFunc_eval_set [of f' g'] unfolding IPAddrFunc g by (simp add: Let_def)
  qed
qed

end
