(* ===== verification/StatementFacts.thy ===== *)
theory StatementFacts
  imports Statement
begin

text \<open>
  Facts about statements: the check of a statement as a condition on requests that cannot panic,
  the effect of withholding the trailing slash from bucket-level writes, and what a valid statement
  is known to satisfy.
\<close>

abbreviation wf_args :: "args \<Rightarrow> bool" where
  "wf_args args \<equiv> wf_values (a_ConditionValues args)"

section \<open>No panic on well-formed request values\<close>

definition rs_matches :: "cond_values \<Rightarrow> resourceset \<Rightarrow> string \<Rightarrow> bool" where
  "rs_matches m rs rsc \<longleftrightarrow> ResourceSet_Match rs rsc m = Some True"

definition conds_hold :: "ext_lib \<Rightarrow> cond_values \<Rightarrow> fn_list \<Rightarrow> bool" where
  "conds_hold L m fs \<longleftrightarrow> Functions_Evaluate L fs m = Some True"

lemma ResourceSet_Match_wf: "wf_values m \<Longrightarrow> ResourceSet_Match rs rsc m = Some (rs_matches m rs rsc)"
  using ResourceSet_Match_total [of m rs rsc] by (auto simp: rs_matches_def)

lemma Functions_Evaluate_wf: "wf_values m \<Longrightarrow> Functions_Evaluate L fs m = Some (conds_hold L m fs)"
  using Functions_Evaluate_total [of m L fs] by (auto simp: conds_hold_def)

lemma rs_matches_iff:
  assumes "wf_values m"
  shows "rs_matches m rs rsc \<longleftrightarrow> (\<exists>r\<in>set rs. Resource_Match r rsc m = Some True)"
proof -
  have "Resource_Match r rsc m = Some (Resource_Match r rsc m = Some True)" for r
    using Resource_Match_total [OF assms, of r rsc] by auto
  then have "any_m (\<lambda>r. Resource_Match r rsc m) rs = Some (\<exists>r\<in>set rs. Resource_Match r rsc m = Some True)"
    by (intro any_m_pure)
  then show ?thesis by (simp add: rs_matches_def ResourceSet_Match_def)
qed

lemma Some_if: "(if c then Some x else Some y) = Some (if c then x else y)"
  by simp

text \<open>The check of a statement on such a request, as a condition.\<close>

definition covers :: "statement \<Rightarrow> action \<Rightarrow> bool" where
  "covers st action \<longleftrightarrow>
     (ActionSet_Match (Actions st) action \<or> Actions st = []) \<and> \<not> ActionSet_Match (NotActions st) action"

definition ignores_resources :: "statement \<Rightarrow> bool" where
  "ignores_resources st \<longleftrightarrow>
     Statement_isSTS st \<or> Statement_isAdmin st \<and> \<not> Statement_hasAdminResource st"

definition resources_hold :: "statement \<Rightarrow> cond_values \<Rightarrow> string \<Rightarrow> bool \<Rightarrow> bool" where
  "resources_hold st m rsc withheld \<longleftrightarrow>
     ignores_resources st \<or>
     (Resources st = [] \<or> rs_matches m (Resources st) rsc \<and>
        (\<not> withheld \<or> rs_matches m (Resources st) (rsc @ ''/''))) \<and>
     (NotResources st = [] \<or>
        \<not> rs_matches m (NotResources st) (if withheld then rsc @ ''/'' else rsc))"

definition check_spec :: "ext_lib \<Rightarrow> bool \<Rightarrow> statement \<Rightarrow> args \<Rightarrow> bool" where
  "check_spec L legacy st args \<longleftrightarrow>
     (let (rsc0, withheld) = request_resource legacy (Effect st) args
      in covers st (a_Action args) \<and>
         (case table_resource st args rsc0 of None \<Rightarrow> False
          | Some rsc \<Rightarrow>
              (Statement_isKMS st \<and> (rsc = ''/'' \<or> Resources st = []) \<or>
               resources_hold st (a_ConditionValues args) rsc withheld) \<and>
              conds_hold L (a_ConditionValues args) (Conditions st)))"

lemma Statement_check_wf:
  assumes "wf_values (a_ConditionValues args)"
  shows "Statement_check L legacy st args = Some (check_spec L legacy st args)"
proof (cases "covers st (a_Action args)")
  case False
  then show ?thesis
    by (auto simp: Statement_check_def check_spec_def covers_def ActionSet_IsEmpty_def)
next
  case True
  then have cov: "\<not> ((\<not> ActionSet_Match (Actions st) (a_Action args) \<and> \<not> ActionSet_IsEmpty (Actions st)) \<or>
      ActionSet_Match (NotActions st) (a_Action args))"
    by (auto simp: covers_def ActionSet_IsEmpty_def)
  obtain rsc0 w where rr: "request_resource legacy (Effect st) args = (rsc0, w)" by fastforce
  show ?thesis
  proof (cases "table_resource st args rsc0")
    case None
    then show ?thesis
      using cov by (simp only: Statement_check_def check_spec_def rr) simp
  next
    case (Some rsc)
    show ?thesis
      using cov True Some
      by (simp only: Statement_check_def check_spec_def rr)
        (auto simp: Let_def ResourceSet_Match_wf [OF assms] Functions_Evaluate_wf [OF assms]
          resources_hold_def ignores_resources_def)
  qed
qed

lemma Statement_check_total [no_panic]:
  "wf_values (a_ConditionValues args) \<Longrightarrow> Statement_check L legacy st args \<noteq> None"
  by (simp add: Statement_check_wf)

lemma Statement_IsAllowedPtr_total [no_panic]:
  "wf_values (a_ConditionValues args) \<Longrightarrow> Statement_IsAllowedPtr L legacy st args \<noteq> None"
  using Statement_check_total by (simp add: Statement_IsAllowedPtr_def)

section \<open>The hardening of bucket-level writes\<close>

lemma sensitive_actions_S3: "\<forall>a\<in>set sensitiveBucketMutationActions. \<not> TableAction_IsValid a"
  by code_simp

lemma isTableResourceString_short:
  assumes "CHR ''/'' \<notin> set b"
  shows "\<not> isTableResourceString b" "\<not> isTableResourceString (b @ ''/'')"
proof -
  show "\<not> isTableResourceString b"
    using assms by (auto simp: isTableResourceString_def has_prefix_iff)
  have "b @ ''/'' = ''bucket/'' @ t \<Longrightarrow> t = ''''" for t
  proof (cases t rule: rev_cases)
    case (snoc ys y)
    moreover assume "b @ ''/'' = ''bucket/'' @ t"
    ultimately have "b = ''bucket/'' @ ys" by simp
    with assms show ?thesis by simp
  qed
  then show "\<not> isTableResourceString (b @ ''/'')"
    by (auto simp: isTableResourceString_def has_prefix_iff trim_prefix_def)
qed

lemma check_spec_other_effect: "Effect st \<noteq> Allow \<Longrightarrow> check_spec L legacy st args = check_spec L legacy' st args"
  by (simp add: check_spec_def request_resource_def)

lemma check_spec_hardened:
  assumes "CHR ''/'' \<notin> set (a_BucketName args)" "check_spec L False st args"
  shows "check_spec L True st args"
proof (cases "request_resource False (Effect st) args = request_resource True (Effect st) args")
  case True
  with assms(2) show ?thesis by (simp add: check_spec_def)
next
  case False
  then have rr: "a_ObjectName args = ''''" "a_BucketName args \<noteq> ''''" "isSensitiveBucketMutation (a_Action args)"
      "request_resource False (Effect st) args = (a_BucketName args, True)"
      "request_resource True (Effect st) args = (a_BucketName args @ ''/'', False)"
    by (auto simp: request_resource_def split: if_splits)
  have not_table: "\<not> Statement_isTable st"
  proof
    assume "Statement_isTable st"
    moreover have "\<not> TableAction_IsValid (a_Action args)"
      using rr(3) sensitive_actions_S3 by (simp add: isSensitiveBucketMutation_def)
    ultimately have "table_resource st args (a_BucketName args) = None"
      using rr(1) isTableResourceString_short(1) [OF assms(1)] by (simp add: table_resource_def)
    with assms(2) rr(4) show False by (simp add: check_spec_def)
  qed
  have "a_BucketName args \<noteq> ''/''" using assms(1) by auto
  with assms(2) rr not_table show ?thesis
    by (auto simp: check_spec_def table_resource_def resources_hold_def)
qed

text \<open>A statement that names resources, all of them with a slash in their pattern.\<close>

definition object_only :: "statement \<Rightarrow> bool" where
  "object_only st \<longleftrightarrow> Resources st \<noteq> [] \<and> list_all (\<lambda>r. CHR ''/'' \<in> set (res_pattern r)) (Resources st)"

lemma object_only_check:
  assumes "wf_args args" "Effect st = Allow" "object_only st \<and> \<not> ignores_resources st"
    and "a_BucketName args \<noteq> ''''" "CHR ''/'' \<notin> set (a_BucketName args)" "a_ObjectName args = ''''"
    and "isSensitiveBucketMutation (a_Action args)"
  shows "\<not> check_spec L False st args"
proof
  assume spec: "check_spec L False st args"
  have rr: "request_resource False (Effect st) args = (a_BucketName args, True)"
    using assms by (simp add: request_resource_def)
  have "table_resource st args (a_BucketName args) \<in> {None, Some (a_BucketName args)}"
    using assms(6) by (auto simp: table_resource_def)
  with spec rr have "resources_hold st (a_ConditionValues args) (a_BucketName args) True \<or>
      a_BucketName args = ''/'' \<or> Resources st = []"
    by (auto simp: check_spec_def)
  then have "rs_matches (a_ConditionValues args) (Resources st) (a_BucketName args)"
    using assms(3,5) by (auto simp: resources_hold_def object_only_def)
  then obtain r where "r \<in> set (Resources st)" "Resource_Match r (a_BucketName args) (a_ConditionValues args) = Some True"
    by (auto simp: rs_matches_iff [OF assms(1)])
  with Resource_Match_slash assms(3,5) show False
    by (auto simp: object_only_def list_all_iff)
qed

section \<open>Validation\<close>

lemma validateAdmin_strict: "validateAdmin st True = None \<Longrightarrow> validateAdmin st False = None"
  by (simp add: validateAdmin_def)

lemma Statement_strict: "Statement_isValidStrict st = None \<Longrightarrow> Statement_isValid st = None"
  by (auto simp: Statement_isValidStrict_def Statement_isValid_def validateAdmin_strict split: if_splits)




lemma set_Functions_Keys: "set (Functions_Keys fs) = fn_key ` set fs"
proof -
  have "set (foldl (\<lambda>ks f. KeySet_Add (fn_key f) ks) z fs) = set z \<union> fn_key ` set fs" for z
    by (induction fs arbitrary: z) (auto simp: KeySet_Add_def)
  then show ?thesis by (simp add: Functions_Keys_def)
qed

lemma check_keys_None:
  "check_keys supported conds a = None \<longleftrightarrow> (\<forall>f\<in>set conds. KeySet_Match (supported a) (fn_key f))"
  by (simp add: check_keys_def Let_def KeySet_Difference_empty set_Functions_Keys)

text \<open>At most one of the flags of \<open>validateActionTypes\<close> is set: all actions have one type.\<close>

lemma validateActionTypes_None:
  assumes "validateActionTypes st = None"
  shows "\<exists>t. \<forall>a\<in>set (if Actions st = [] then NotActions st else Actions st). action_type_of a = t"
proof -
  let ?as = "if Actions st = [] then NotActions st else Actions st"
  have one: "action_type_of a = action_type_of b" if "a \<in> set ?as" "b \<in> set ?as" for a b
  proof (rule ccontr)
    assume "action_type_of a \<noteq> action_type_of b"
    moreover have "list_ex (\<lambda>x. action_type_of x = action_type_of a) ?as"
      "list_ex (\<lambda>x. action_type_of x = action_type_of b) ?as"
      using that by (auto simp: list_ex_iff)
    ultimately show False
      using assms
      by (cases "action_type_of a"; cases "action_type_of b")
        (simp_all add: validateActionTypes_def Let_def fail_if_def split: if_splits)
  qed
  show ?thesis
  proof (cases ?as)
    case (Cons a as)
    then have "a \<in> set ?as" by (metis list.set_intros(1))
    then show ?thesis using one by blast
  qed simp
qed

text \<open>
  A statement that passes \<open>Validate\<close> has effect \<open>Allow\<close> or \<open>Deny\<close>, names actions in exactly one
  of \<open>Action\<close> and \<open>NotAction\<close>, and all of them belong to one namespace.
\<close>

theorem valid_statement_shape:
  assumes "Statement_isValid st = None"
  shows "Effect st \<in> {Allow, Deny} \<and> (Actions st = []) \<noteq> (NotActions st = []) \<and>
    (\<exists>t. \<forall>a\<in>set (Actions st @ NotActions st). action_type_of a = t)"
proof -
  have head: "check_head st = None"
    using assms by (simp add: Statement_isValid_def)
  then have one: "(Actions st = []) \<noteq> (NotActions st = [])" and eff: "Effect st \<in> {Allow, Deny}"
    by (auto simp: check_head_def Effect_IsValid_def)
  have "validateActionTypes st = None" using head by (simp add: check_head_def)
  from validateActionTypes_None [OF this] one eff show ?thesis
    by (cases "Actions st = []") auto
qed

text \<open>What each namespace supports: the condition keys of an action and the kind of resources.\<close>

definition supported_keys :: "action \<Rightarrow> keyset" where
  "supported_keys a =
     (case action_type_of a of
        TypeAdmin \<Rightarrow> assigned adminActionConditionKeyMap a
      | TypeSTS \<Rightarrow> assigned stsActionConditionKeyMap a
      | TypeKMS \<Rightarrow> []
      | TypeTable \<Rightarrow> assigned tableActionConditionKeyMap a
      | TypeVectors \<Rightarrow> assigned VectorsActionConditionKeyMap a
      | TypeS3 \<Rightarrow> ActionConditionKeyMap_Lookup IAMActionConditionKeyMap a)"

definition supported_resource :: "action \<Rightarrow> resource \<Rightarrow> bool" where
  "supported_resource a r =
     (case action_type_of a of
        TypeAdmin \<Rightarrow> True
      | TypeSTS \<Rightarrow> True
      | TypeKMS \<Rightarrow> Resource_isKMS r \<and> Resource_IsValid r
      | TypeTable \<Rightarrow> Resource_isTable r \<and> Resource_IsValid r
      | TypeVectors \<Rightarrow> Resource_isS3 r \<and> Resource_IsValid r
      | TypeS3 \<Rightarrow> Resource_isS3 r \<and> Resource_IsValid r)"

lemmas validate_set_defs =
  ResourceSet_ValidateKMS_def ResourceSet_ValidateTable_def ResourceSet_ValidateVectors_def
  ResourceSet_ValidateS3_def Resource_Validate_def

lemma action_type_tests:
  "AdminAction_IsValid a \<longleftrightarrow> action_type_of a = TypeAdmin"
  "action_type_of a \<noteq> TypeAdmin \<Longrightarrow> STSAction_IsValid a \<longleftrightarrow> action_type_of a = TypeSTS"
  "action_type_of a \<noteq> TypeAdmin \<Longrightarrow> action_type_of a \<noteq> TypeSTS \<Longrightarrow>
     KMSAction_IsValid a \<longleftrightarrow> action_type_of a = TypeKMS"
  "action_type_of a \<noteq> TypeAdmin \<Longrightarrow> action_type_of a \<noteq> TypeSTS \<Longrightarrow> action_type_of a \<noteq> TypeKMS \<Longrightarrow>
     TableAction_IsValid a \<longleftrightarrow> action_type_of a = TypeTable"
  "action_type_of a \<noteq> TypeAdmin \<Longrightarrow> action_type_of a \<noteq> TypeSTS \<Longrightarrow> action_type_of a \<noteq> TypeKMS \<Longrightarrow>
     action_type_of a \<noteq> TypeTable \<Longrightarrow> VectorsAction_IsValid a \<longleftrightarrow> action_type_of a = TypeVectors"
  by (auto simp: action_type_of_def split: if_splits)

lemma action_type_flags:
  assumes "\<forall>b\<in>set (Actions st). action_type_of b = t" "a \<in> set (Actions st)"
  shows "Statement_isAdmin st \<longleftrightarrow> t = TypeAdmin"
    "t \<noteq> TypeAdmin \<Longrightarrow> Statement_isSTS st \<longleftrightarrow> t = TypeSTS"
    "t \<noteq> TypeAdmin \<Longrightarrow> t \<noteq> TypeSTS \<Longrightarrow> Statement_isKMS st \<longleftrightarrow> t = TypeKMS"
    "t \<noteq> TypeAdmin \<Longrightarrow> t \<noteq> TypeSTS \<Longrightarrow> t \<noteq> TypeKMS \<Longrightarrow> Statement_isTable st \<longleftrightarrow> t = TypeTable"
    "t \<noteq> TypeAdmin \<Longrightarrow> t \<noteq> TypeSTS \<Longrightarrow> t \<noteq> TypeKMS \<Longrightarrow> t \<noteq> TypeTable \<Longrightarrow>
       Statement_isVectors st \<longleftrightarrow> t = TypeVectors"
proof -
  have b: "b \<in> set (Actions st) \<Longrightarrow> action_type_of b = t" for b using assms(1) by blast
  have ne: "\<exists>b. b \<in> set (Actions st)" "Actions st \<noteq> []" using assms(2) by auto
  show "Statement_isAdmin st \<longleftrightarrow> t = TypeAdmin"
    by (simp add: Statement_isAdmin_def list_ex_iff action_type_tests b ne cong: bex_cong)
  show "t \<noteq> TypeAdmin \<Longrightarrow> Statement_isSTS st \<longleftrightarrow> t = TypeSTS"
    by (simp add: Statement_isSTS_def list_ex_iff action_type_tests b ne cong: bex_cong)
  show "t \<noteq> TypeAdmin \<Longrightarrow> t \<noteq> TypeSTS \<Longrightarrow> Statement_isKMS st \<longleftrightarrow> t = TypeKMS"
    by (simp add: Statement_isKMS_def list_ex_iff action_type_tests b ne cong: bex_cong)
  show "t \<noteq> TypeAdmin \<Longrightarrow> t \<noteq> TypeSTS \<Longrightarrow> t \<noteq> TypeKMS \<Longrightarrow> Statement_isTable st \<longleftrightarrow> t = TypeTable"
    by (simp add: Statement_isTable_def list_ex_iff action_type_tests b ne cong: bex_cong)
  show "t \<noteq> TypeAdmin \<Longrightarrow> t \<noteq> TypeSTS \<Longrightarrow> t \<noteq> TypeKMS \<Longrightarrow> t \<noteq> TypeTable \<Longrightarrow>
       Statement_isVectors st \<longleftrightarrow> t = TypeVectors"
    by (simp add: Statement_isVectors_def list_ex_iff action_type_tests b ne cong: bex_cong)
qed

text \<open>
  C6: for every action named by a statement that passes \<open>Validate\<close>: an S3 action matches a
  supported one; every condition of the statement tests a key supported for the action, in every
  namespace but KMS, whose conditions are not checked; and every resource is valid and of the kind
  the namespace takes, in every namespace but the admin and STS ones.
\<close>

theorem valid_statement_supported:
  assumes "Statement_isValid st = None" "a \<in> set (Actions st)"
  shows "(action_type_of a \<noteq> TypeS3 \<or> Action_IsValid a) \<and>
    (\<forall>f\<in>set (Conditions st). action_type_of a = TypeKMS \<or> KeySet_Match (supported_keys a) (fn_key f)) \<and>
    (\<forall>r\<in>set (Resources st @ NotResources st). supported_resource a r)"
proof -
  have "validateActionTypes st = None"
    using assms(1) by (simp add: Statement_isValid_def check_head_def)
  from validateActionTypes_None [OF this] assms(2)
  have same: "\<forall>b\<in>set (Actions st). action_type_of b = action_type_of a"
    by (cases "Actions st") auto
  note flags = action_type_flags [OF same assms(2)]
  show ?thesis
    using assms
    by (cases "action_type_of a")
      (auto simp: Statement_isValid_def flags validateAdmin_def validateSTS_def validateKMS_def
        validateTable_def validateVectors_def validateS3_def check_keys_None supported_keys_def
        supported_resource_def validate_set_defs ActionSet_Validate_def to_slice_defs)
qed


end
