(* ===== verification/PolicyFacts.thy ===== *)
theory PolicyFacts
  imports Policy StatementFacts
begin

text \<open>
  Facts about policies: deny overrides allow, the action index changes no decision, order and
  duplicates do not matter, several policies in series, and what the hardening of bucket-level
  writes guarantees.
\<close>

section \<open>The deny and allow loops\<close>

text \<open>
  What a policy relies on: a statement's answer is its effect applied to a check that returns
  normally for the requests \<open>ok\<close>.
\<close>

locale stmt_decider =
  fixes eff :: "'s \<Rightarrow> effect"
    and check :: "'s \<Rightarrow> 'a \<Rightarrow> bool may_panic"
    and allowed :: "'s \<Rightarrow> 'a \<Rightarrow> bool may_panic"
    and ok :: "'a \<Rightarrow> bool"
  assumes allowed_eq: "allowed s a = map_option (Effect_IsAllowed (eff s)) (check s a)"
    and check_total: "ok a \<Longrightarrow> check s a \<noteq> None"
begin

lemma deny_loop_eq:
  assumes "ok a"
  shows "deny_loop eff allowed sts a = Some (\<exists>s\<in>set sts. eff s = Deny \<and> check s a = Some True)"
  unfolding deny_loop_def
proof (rule any_m_pure)
  fix s
  obtain b where "check s a = Some b" using check_total [OF assms] by blast
  then show "(if eff s = Deny then map_option Not (allowed s a) else Some False) =
      Some (eff s = Deny \<and> check s a = Some True)"
    by (simp add: allowed_eq Effect_IsAllowed_def)
qed

lemma allow_loop_eq:
  assumes "ok a"
  shows "allow_loop eff allowed sts a = Some (\<exists>s\<in>set sts. eff s = Allow \<and> check s a = Some True)"
  unfolding allow_loop_def
proof (rule any_m_pure)
  fix s
  obtain b where "check s a = Some b" using check_total [OF assms] by blast
  then show "(if eff s = Allow then allowed s a else Some False) = Some (eff s = Allow \<and> check s a = Some True)"
    by (simp add: allowed_eq Effect_IsAllowed_def)
qed

lemma loops_perm:
  assumes "ok a" "set sts = set sts'"
  shows "deny_loop eff allowed sts a = deny_loop eff allowed sts' a"
    "allow_loop eff allowed sts a = allow_loop eff allowed sts' a"
  using assms by (simp_all add: deny_loop_eq allow_loop_eq)

end

interpretation pst: stmt_decider Effect "Statement_check L legacy" "Statement_IsAllowedPtr L legacy" wf_args
  for L legacy
  by unfold_locales (simp_all add: Statement_IsAllowedPtr_def Statement_check_total del: not_None_eq)

section \<open>Decide\<close>

text \<open>The statements that apply to a request.\<close>

definition applies :: "ext_lib \<Rightarrow> bool \<Rightarrow> args \<Rightarrow> effect \<Rightarrow> policy \<Rightarrow> bool" where
  "applies L legacy args eff p \<longleftrightarrow>
     (\<exists>st\<in>set (Statements p). Effect st = eff \<and> Statement_check L legacy st args = Some True)"

definition index_ok :: "policy \<Rightarrow> bool" where
  "index_ok p \<longleftrightarrow> (\<forall>(a, is)\<in>set (actionStatementIndex p). \<forall>i\<in>set is. i < length (Statements p))"

lemma index_loop_True:
  assumes "wf_args args" "\<forall>i\<in>set is. i < length (Statements p)"
  shows "\<exists>b. index_loop L legacy p args is = Some b \<and> (b \<longrightarrow> applies L legacy args Allow p)"
proof -
  have "index_loop L legacy p args is = Some (\<exists>i\<in>set is. Effect (Statements p ! i) = Allow \<and>
      Statement_check L legacy (Statements p ! i) args = Some True)"
    unfolding index_loop_def
  proof (rule any_m_pure)
    fix i assume "i \<in> set is"
    moreover obtain b where "Statement_check L legacy (Statements p ! i) args = Some b"
      using Statement_check_total [OF assms(1)] by blast
    ultimately show "(if i < length (Statements p) then
          (let st = Statements p ! i in if Effect st = Allow then Statement_IsAllowedPtr L legacy st args
             else Some False) else None) =
        Some (Effect (Statements p ! i) = Allow \<and> Statement_check L legacy (Statements p ! i) args = Some True)"
      using assms(2) by (simp add: Statement_IsAllowedPtr_def Effect_IsAllowed_def Let_def)
  qed
  then show ?thesis using assms(2) nth_mem by (fastforce simp: applies_def)
qed

text \<open>What a policy decides, with any index whose positions are in range.\<close>

definition decide_spec :: "ext_lib \<Rightarrow> bool \<Rightarrow> policy \<Rightarrow> args \<Rightarrow> decision" where
  "decide_spec L legacy p args =
     (if applies L legacy args Deny p then DenyDecision
      else if a_DenyOnly args \<or> a_IsOwner args \<or> applies L legacy args Allow p then AllowDecision
      else NoDecision)"

lemma Policy_Decide_eq:
  assumes "wf_args args" "index_ok p"
  shows "Policy_Decide L legacy p args = Some (decide_spec L legacy p args)"
proof -
  have idx: "\<exists>b. (if length (actionStatementIndex p) > 0 then
        (case map_of (actionStatementIndex p) (a_Action args) of
           Some indexes \<Rightarrow> index_loop L legacy p args indexes | None \<Rightarrow> Some False)
        else Some False) = Some b \<and> (b \<longrightarrow> applies L legacy args Allow p)"
  proof (cases "map_of (actionStatementIndex p) (a_Action args)")
    case (Some ixs)
    have "\<forall>i\<in>set ixs. i < length (Statements p)"
      using assms(2) map_of_SomeD [OF Some] by (fastforce simp: index_ok_def)
    then show ?thesis using index_loop_True [OF assms(1)] Some by auto
  qed auto
  then obtain b where b: "(if length (actionStatementIndex p) > 0 then
        (case map_of (actionStatementIndex p) (a_Action args) of
           Some indexes \<Rightarrow> index_loop L legacy p args indexes | None \<Rightarrow> Some False)
        else Some False) = Some b" "b \<longrightarrow> applies L legacy args Allow p" by blast
  have loops: "deny_loop Effect (Statement_IsAllowedPtr L legacy) (Statements p) args =
      Some (applies L legacy args Deny p)"
    "allow_loop Effect (Statement_IsAllowedPtr L legacy) (Statements p) args =
      Some (applies L legacy args Allow p)"
    by (simp_all only: pst.deny_loop_eq [OF assms(1)] pst.allow_loop_eq [OF assms(1)] applies_def)
  show ?thesis
    unfolding Policy_Decide_def decide_spec_def b(1) loops
    using b(2) by (simp split: bool.split)
qed

lemma applies_wf:
  "wf_args args \<Longrightarrow> applies L legacy args eff p \<longleftrightarrow> (\<exists>st\<in>set (Statements p). Effect st = eff \<and> check_spec L legacy st args)"
  by (simp add: applies_def Statement_check_wf)

lemma applies_hardened:
  assumes "wf_args args" "CHR ''/'' \<notin> set (a_BucketName args)"
  shows "applies L False args Deny p = applies L True args Deny p"
    "applies L False args Allow p \<Longrightarrow> applies L True args Allow p"
proof -
  have "check_spec L False st args = check_spec L True st args" if "Effect st = Deny" for st
    using that check_spec_other_effect [of st L False args True] by simp
  then show "applies L False args Deny p = applies L True args Deny p"
    by (auto simp: applies_wf [OF assms(1)])
  show "applies L False args Allow p \<Longrightarrow> applies L True args Allow p"
    using check_spec_hardened [OF assms(2)] by (auto simp: applies_wf [OF assms(1)])
qed

section \<open>The action index\<close>

definition idx_at :: "(action \<times> nat list) list \<Rightarrow> action \<Rightarrow> nat set" where
  "idx_at idx a = (case map_of idx a of None \<Rightarrow> {} | Some is \<Rightarrow> set is)"

lemma idx_at_Nil [simp]: "idx_at [] a = {}"
  by (simp add: idx_at_def)

lemma idx_at_Cons [simp]: "idx_at ((b, is) # idx) a = (if b = a then set is else idx_at idx a)"
  by (simp add: idx_at_def)

lemma idx_at_append: "idx_at (index_append a i idx) b = idx_at idx b \<union> (if b = a then {i} else {})"
proof (induction a i idx rule: index_append.induct)
  case (2 a i c ixs idx)
  then show ?case by (cases "c = a"; cases "b = a"; cases "c = b") auto
qed simp

lemma idx_at_statement:
  "idx_at (foldl (\<lambda>idx action. if Has action then idx else index_append action i idx) idx acts) b =
   idx_at idx b \<union> (if b \<in> set acts \<and> \<not> Has b then {i} else {})"
  by (induction acts arbitrary: idx) (auto simp: idx_at_append)

lemma index_statement_simps [simp]:
  "Statements (index_statement i st p) = Statements p" "ID (index_statement i st p) = ID p"
  "Version (index_statement i st p) = Version p"
  by (simp_all add: index_statement_def)

lemma idx_at_index_statement:
  "idx_at (actionStatementIndex (index_statement i st p)) b =
   idx_at (actionStatementIndex p) b \<union> (if Effect st \<noteq> Deny \<and> b \<in> set (Actions st) \<and> \<not> Has b then {i} else {})"
  by (simp add: index_statement_def idx_at_statement)

lemma hasDeny_index_statement: "hasDeny (index_statement i st p) = (hasDeny p \<or> Effect st = Deny)"
  by (simp add: index_statement_def)

lemma update_loop:
  "Statements (foldl (\<lambda>q (i, st). index_statement i st q) p xs) = Statements p"
  "idx_at (actionStatementIndex (foldl (\<lambda>q (i, st). index_statement i st q) p xs)) b =
     idx_at (actionStatementIndex p) b \<union>
     {i. \<exists>st. (i, st) \<in> set xs \<and> Effect st \<noteq> Deny \<and> b \<in> set (Actions st) \<and> \<not> Has b}"
  "hasDeny (foldl (\<lambda>q (i, st). index_statement i st q) p xs) =
     (hasDeny p \<or> (\<exists>(i, st)\<in>set xs. Effect st = Deny))"
  by (induction xs arbitrary: p) (auto simp: idx_at_index_statement hasDeny_index_statement split: if_splits)

lemma mem_enum: "(i, x) \<in> set (zip [0..<length xs] xs) \<longleftrightarrow> i < length xs \<and> x = xs ! i"
  by (auto simp: set_zip intro!: exI [of _ i])

lemma Statements_updateActionIndex [simp]: "Statements (updateActionIndex p) = Statements p"
  by (simp add: updateActionIndex_def update_loop)

lemma idx_at_updateActionIndex:
  assumes "actionStatementIndex p = []"
  shows "idx_at (actionStatementIndex (updateActionIndex p)) a =
    {i. i < length (Statements p) \<and> Effect (Statements p ! i) \<noteq> Deny \<and>
        a \<in> set (Actions (Statements p ! i)) \<and> \<not> Has a}"
  using assms by (auto simp: updateActionIndex_def update_loop mem_enum)

text \<open>Looking at one action is enough when the index has one entry for each.\<close>

lemma index_append_keys: "set (map fst (index_append a i idx)) = insert a (set (map fst idx))"
  by (induction a i idx rule: index_append.induct) auto

lemma index_append_distinct: "distinct (map fst idx) \<Longrightarrow> distinct (map fst (index_append a i idx))"
  by (induction a i idx rule: index_append.induct) (auto simp: index_append_keys simp flip: set_map)

lemma index_statement_distinct:
  assumes "distinct (map fst (actionStatementIndex p))"
  shows "distinct (map fst (actionStatementIndex (index_statement i st p)))"
proof -
  have "distinct (map fst idx) \<Longrightarrow> distinct (map fst (foldl (\<lambda>idx action. if Has action then idx
      else index_append action i idx) idx acts))" for idx acts
    by (induction acts arbitrary: idx) (auto intro: index_append_distinct)
  with assms show ?thesis by (simp add: index_statement_def)
qed

lemma updateActionIndex_distinct:
  assumes "actionStatementIndex p = []"
  shows "distinct (map fst (actionStatementIndex (updateActionIndex p)))"
proof -
  have "distinct (map fst (actionStatementIndex p)) \<Longrightarrow>
      distinct (map fst (actionStatementIndex (foldl (\<lambda>q (i, st). index_statement i st q) p xs)))" for xs p
    by (induction xs arbitrary: p) (auto intro: index_statement_distinct)
  with assms show ?thesis by (simp add: updateActionIndex_def)
qed

lemma index_ok_updateActionIndex:
  assumes "actionStatementIndex p = []"
  shows "index_ok (updateActionIndex p)"
  unfolding index_ok_def
proof (intro ballI, clarify)
  fix a ixs i assume mem: "(a, ixs) \<in> set (actionStatementIndex (updateActionIndex p))" "i \<in> set ixs"
  then have "map_of (actionStatementIndex (updateActionIndex p)) a = Some ixs"
    using updateActionIndex_distinct [OF assms] by simp
  with mem(2) have "i \<in> idx_at (actionStatementIndex (updateActionIndex p)) a"
    by (simp add: idx_at_def)
  then show "i < length (Statements (updateActionIndex p))"
    by (simp add: idx_at_updateActionIndex [OF assms])
qed

lemma index_ok_Nil [simp]: "actionStatementIndex p = [] \<Longrightarrow> index_ok p"
  by (simp add: index_ok_def)

lemma applies_cong: "set (Statements p) = set (Statements q) \<Longrightarrow> applies L legacy args eff p = applies L legacy args eff q"
  by (simp add: applies_def)

section \<open>Properties of decisions\<close>

text \<open>
  C1: \<open>Decide\<close> returns normally on a request without empty value lists, and its decision is: deny when
  some \<open>Deny\<close> statement applies; otherwise allow for a deny-only request, for the owner, and when some
  \<open>Allow\<close> statement applies; otherwise no decision. The action index is any whose positions are in
  range.
\<close>

theorem Decide_deny_overrides:
  assumes "wf_args args" "index_ok p"
  shows "Policy_Decide L legacy p args = Some
    (if \<exists>st. st \<in> set (Statements p) \<and> Effect st = Deny \<and> check_spec L legacy st args then DenyDecision
     else if a_DenyOnly args \<or> a_IsOwner args \<or>
       (\<exists>st. st \<in> set (Statements p) \<and> Effect st = Allow \<and> check_spec L legacy st args) then AllowDecision
     else NoDecision)"
  by (auto simp: Policy_Decide_eq [OF assms] decide_spec_def applies_wf [OF assms(1)])

text \<open>
  C11: the action index built when a policy is decoded is transparent: the policy decides every
  request as it does without an index.
\<close>

theorem action_index_transparent:
  assumes "wf_args args" "actionStatementIndex p = []"
  shows "Policy_Decide L legacy (updateActionIndex p) args = Policy_Decide L legacy p args"
  using assms applies_cong [of "updateActionIndex p" p]
  by (simp add: Policy_Decide_eq index_ok_updateActionIndex decide_spec_def)

text \<open>
  The decision of a policy depends only on the set of its statements: neither their order nor
  repeated statements matter.
\<close>

theorem Decide_ignores_order_and_duplicates:
  assumes "wf_args args" "index_ok p" "index_ok q" "set (Statements p) = set (Statements q)"
  shows "Policy_Decide L legacy p args = Policy_Decide L legacy q args"
  using assms applies_cong [OF assms(4)] by (simp add: Policy_Decide_eq decide_spec_def)

text \<open>
  A decoded policy for which \<open>HasDenyStatement\<close> answers no never denies.
\<close>

theorem HasDenyStatement_sound:
  assumes "wf_args args" "actionStatementIndex p = []" "\<not> Policy_HasDenyStatement (updateActionIndex p)"
  shows "Policy_Decide L legacy (updateActionIndex p) args \<noteq> Some DenyDecision"
  using assms
  by (auto simp: Policy_Decide_eq index_ok_updateActionIndex decide_spec_def applies_def
      Policy_HasDenyStatement_def list_ex_iff split: if_splits)

lemma HasDenyStatement_cached:
  assumes "\<not> hasDeny p"
  shows "(hasDeny (updateActionIndex p) \<longleftrightarrow> (\<exists>st. st \<in> set (Statements p) \<and> Effect st = Deny)) \<and>
    Policy_HasDenyStatement (updateActionIndex p) = Policy_HasDenyStatement p"
proof -
  have "hasDeny (updateActionIndex p) \<longleftrightarrow> (\<exists>st. st \<in> set (Statements p) \<and> Effect st = Deny)"
    using assms by (force simp: updateActionIndex_def update_loop mem_enum in_set_conv_nth)
  with assms show ?thesis by (auto simp: Policy_HasDenyStatement_def list_ex_iff)
qed

section \<open>Several policies\<close>

lemma serial_loop_eq:
  assumes "wf_args args" "\<forall>p\<in>set ps. index_ok p"
  shows "serial_loop L legacy args got ps = Some
    ((\<forall>p\<in>set ps. decide_spec L legacy p args \<noteq> DenyDecision) \<and>
     (got \<or> (\<exists>p\<in>set ps. decide_spec L legacy p args = AllowDecision)))"
  using assms(2) by (induction ps arbitrary: got) (auto simp: Policy_Decide_eq [OF assms(1)])

text \<open>
  C5: several policies in series: a deny of any of them wins over every allow, wherever it stands in
  the list, and without a deny some policy must allow.
\<close>

theorem IsAllowedSerial_spec:
  assumes "wf_args args" "\<forall>p\<in>set ps. index_ok p"
  shows "IsAllowedSerial L legacy ps args = Some
    (\<not> (\<exists>p. p \<in> set ps \<and> Policy_Decide L legacy p args = Some DenyDecision) \<and>
     (\<exists>p. p \<in> set ps \<and> Policy_Decide L legacy p args = Some AllowDecision))"
proof -
  have "p \<in> set ps \<Longrightarrow> Policy_Decide L legacy p args = Some (decide_spec L legacy p args)" for p
    using assms Policy_Decide_eq by blast
  then show ?thesis
    by (auto simp: IsAllowedSerial_def serial_loop_eq [OF assms])
qed

text \<open>
  C4: withholding the trailing slash from sensitive bucket-level writes never creates a grant: for a
  bucket name without a slash, a policy denies with the hardening exactly when it denies with the
  legacy matching, and whatever it allows with the hardening it allowed before.
\<close>

theorem hardening_only_removes_grants:
  assumes "wf_args args" "index_ok p" "CHR ''/'' \<notin> set (a_BucketName args)"
  shows "(Policy_Decide L False p args = Some DenyDecision \<longleftrightarrow> Policy_Decide L True p args = Some DenyDecision) \<and>
    (Policy_Decide L False p args = Some AllowDecision \<longrightarrow> Policy_Decide L True p args = Some AllowDecision)"
  using applies_hardened [OF assms(1,3)]
  by (auto simp: Policy_Decide_eq [OF assms(1,2)] decide_spec_def)

text \<open>
  C3: with the hardening on (legacy matching off), a policy whose \<open>Allow\<close> statements name only object
  resources (patterns with a slash, such as \<open>bucket/*\<close>) and do not skip the test of resources never
  authorises a sensitive bucket-level write of a caller who is not the owner, in a request that is not
  deny-only and names a bucket without a slash and no object, whatever its actions, conditions and the
  request's values of policy variables are. The test is skipped by statements with an STS action or with
  an admin action none of which is bucket-scoped; \<open>wildcard_action_skips_resources\<close> shows such a one.
\<close>

theorem object_patterns_never_mutate_buckets:
  assumes "wf_args args" "index_ok p" "\<not> a_IsOwner args" "\<not> a_DenyOnly args"
    and "a_BucketName args \<noteq> ''''" "CHR ''/'' \<notin> set (a_BucketName args)" "a_ObjectName args = ''''"
    and "isSensitiveBucketMutation (a_Action args)"
    and "\<forall>st\<in>set (Statements p). Effect st = Allow \<longrightarrow> object_only st \<and> \<not> ignores_resources st"
  shows "Policy_IsAllowed L False p args = Some False"
proof -
  have "\<not> applies L False args Allow p"
    using object_only_check [OF assms(1) _ _ assms(5-8)] assms(9) by (auto simp: applies_wf [OF assms(1)])
  then show ?thesis
    using assms(3,4) by (simp add: Policy_IsAllowed_def Policy_Decide_eq [OF assms(1,2)] decide_spec_def)
qed

text \<open>
  A policy accepted by the strict validation is accepted by the lenient one.
\<close>

theorem ValidateStrict_implies_Validate:
  assumes "Policy_ValidateStrict p = None"
  shows "Policy_Validate p = None"
  using assms Statement_strict by (auto simp: Policy_ValidateStrict_def Policy_Validate_def Policy_isValid_def)


end
