(* ===== verification/BucketPolicyFacts.thy ===== *)
theory BucketPolicyFacts
  imports BucketPolicy PolicyFacts
begin

text \<open>
  Facts about bucket policies: which requests one allows, and that a policy validated for a bucket
  names only resources of that bucket.
\<close>

definition bp_check_spec :: "ext_lib \<Rightarrow> bp_statement \<Rightarrow> bp_args \<Rightarrow> bool" where
  "bp_check_spec L st args \<longleftrightarrow>
     (\<exists>pattern\<in>set (AWS (bp_Principal st)). wild_ref True pattern (b_AccountName args)) \<and>
     (ActionSet_Match (bp_Actions st) (b_Action args) \<or> bp_Actions st = []) \<and>
     \<not> ActionSet_Match (bp_NotActions st) (b_Action args) \<and>
     (bp_Resources st = [] \<or>
        rs_matches (b_ConditionValues args) (bp_Resources st) (bp_resource args)) \<and>
     (bp_NotResources st = [] \<or>
        \<not> rs_matches (b_ConditionValues args) (bp_NotResources st) (bp_resource args)) \<and>
     conds_hold L (b_ConditionValues args) (bp_Conditions st)"

lemma Principal_Match_eq:
  "string_set_laws L \<Longrightarrow>
   Principal_Match L p name \<longleftrightarrow> (\<exists>pattern\<in>set (AWS p). wild_ref True pattern name)"
  by (simp add: Principal_Match_def list_ex_iff MatchSimple_eq ss_simps)

lemma BPStatement_check_wf:
  assumes "string_set_laws L" "wf_values (b_ConditionValues args)"
  shows "BPStatement_check L st args = Some (bp_check_spec L st args)"
  by (auto simp: BPStatement_check_def bp_check_spec_def Let_def Principal_Match_eq [OF assms(1)]
      ResourceSet_Match_wf [OF assms(2)] Functions_Evaluate_wf [OF assms(2)] ActionSet_IsEmpty_def)

lemma BPStatement_check_total [no_panic]:
  assumes "wf_values (b_ConditionValues args)"
  shows "BPStatement_check L st args \<noteq> None"
  by (auto simp: BPStatement_check_def Let_def ResourceSet_Match_wf [OF assms]
      Functions_Evaluate_wf [OF assms] Some_if)

interpretation bst: stmt_decider bp_Effect "BPStatement_check L" "BPStatement_IsAllowed L"
  "\<lambda>args. wf_values (b_ConditionValues args)" for L
  by unfold_locales (simp_all add: BPStatement_IsAllowed_def BPStatement_check_total del: not_None_eq)

text \<open>
  C9: a bucket policy allows a request exactly when no \<open>Deny\<close> statement applies to it and it comes
  from the owner or some \<open>Allow\<close> statement applies, where a statement applies when one of its
  principals matches the account, its actions cover the action, its resources include the resource,
  and its conditions hold.
\<close>

theorem BucketPolicy_IsAllowed_spec:
  assumes "string_set_laws L" "wf_values (b_ConditionValues args)"
  shows "BucketPolicy_IsAllowed L p args = Some
    (\<not> (\<exists>st. st \<in> set (bk_Statements p) \<and> bp_Effect st = Deny \<and> bp_check_spec L st args) \<and>
     (b_IsOwner args \<or>
      (\<exists>st. st \<in> set (bk_Statements p) \<and> bp_Effect st = Allow \<and> bp_check_spec L st args)))"
proof -
  let ?D = "\<exists>st\<in>set (bk_Statements p). bp_Effect st = Deny \<and> bp_check_spec L st args"
  let ?A = "\<exists>st\<in>set (bk_Statements p). bp_Effect st = Allow \<and> bp_check_spec L st args"
  have "deny_loop bp_Effect (BPStatement_IsAllowed L) (bk_Statements p) args = Some ?D"
    "allow_loop bp_Effect (BPStatement_IsAllowed L) (bk_Statements p) args = Some ?A"
    by (simp_all add: bst.deny_loop_eq [OF assms(2)] bst.allow_loop_eq [OF assms(2)]
        BPStatement_check_wf [OF assms])
  then have "BucketPolicy_IsAllowed L p args = Some (\<not> ?D \<and> (b_IsOwner args \<or> ?A))"
    by (auto simp: BucketPolicy_IsAllowed_def split: bool.split)
  then show ?thesis by (simp add: Bex_def)
qed

text \<open>
  C12: a bucket policy that passes validation for a bucket names, in \<open>Resource\<close> and \<open>NotResource\<close>,
  only valid resources whose pattern matches the bucket itself or some key inside it.
\<close>

theorem BucketPolicy_Validate_confines:
  assumes "BucketPolicy_Validate p bucket = None"
    and "st \<in> set (bk_Statements p)" "r \<in> set (bp_Resources st @ bp_NotResources st)"
  shows "Resource_IsValid r \<and> (wild_ref False (res_pattern r) bucket \<or>
    (\<exists>key. wild_ref False (res_pattern r) (bucket @ ''/'' @ key)))"
proof -
  have "BPStatement_Validate st bucket = None"
    using assms(1,2) by (simp add: BucketPolicy_Validate_def)
  then have "Resource_ValidateBucket r bucket = None"
    using assms(3) by (auto simp: BPStatement_Validate_def ResourceSet_ValidateBucket_def split: if_splits)
  then show ?thesis
    by (auto simp: Resource_ValidateBucket_def MatchAsPatternPrefix_def prefix_loop_iff Match_eq)
qed

end
