(* ===== verification/PolicyMergeFacts.thy ===== *)
theory PolicyMergeFacts
  imports PolicyMerge CondPrintFacts BucketPolicyFacts "HOL-Library.Multiset"
begin

text \<open>
  Facts about the removal of duplicates and about merging: which elements the loops keep, that a
  dropped statement is covered by one that is kept, and that decisions are therefore unchanged.
\<close>

section \<open>What the loops keep\<close>

text \<open>The loop in place computes the elements at the positions that are not dropped, in order.\<close>

lemma compact_loop:
  assumes "n \<le> length xs"
  shows "\<exists>ys. foldl (compact_step dropped) (0, xs) [0..<n] =
      (length (filter (\<lambda>i. \<not> dropped i) [0..<n]), ys) \<and> length ys = length xs \<and>
      take (length (filter (\<lambda>i. \<not> dropped i) [0..<n])) ys = map (nth xs) (filter (\<lambda>i. \<not> dropped i) [0..<n]) \<and>
      (\<forall>i. n \<le> i \<longrightarrow> i < length xs \<longrightarrow> ys ! i = xs ! i)"
  using assms
proof (induction n)
  case (Suc n)
  define c where "c = length (filter (\<lambda>i. \<not> dropped i) [0..<n])"
  from Suc obtain ys where ys: "foldl (compact_step dropped) (0, xs) [0..<n] = (c, ys)"
      "length ys = length xs" "take c ys = map (nth xs) (filter (\<lambda>i. \<not> dropped i) [0..<n])"
      "\<forall>i. n \<le> i \<longrightarrow> i < length xs \<longrightarrow> ys ! i = xs ! i"
    unfolding c_def by auto
  have "c \<le> n" unfolding c_def using length_filter_le [of _ "[0..<n]"] by simp
  with Suc.prems ys(2,4) have "take (c + 1) (ys[c := ys ! n]) = take c ys @ [xs ! n]"
    by (simp add: take_Suc_conv_app_nth take_update_cancel)
  moreover have "\<forall>i. Suc n \<le> i \<longrightarrow> i < length xs \<longrightarrow> ys[c := ys ! n] ! i = xs ! i"
    using ys(4) \<open>c \<le> n\<close> by simp
  ultimately show ?case
    using ys by (auto simp: compact_step_def c_def [symmetric])
qed simp

lemma compact_eq: "compact dropped xs = map (nth xs) (filter (\<lambda>i. \<not> dropped i) [0..<length xs])"
  using compact_loop [of "length xs" xs dropped] by (auto simp: compact_def)

lemma dup_row_set:
  "set (dup_row eq xs i dups) = set dups \<union>
     (if i \<in> set dups then {} else {j. i < j \<and> j < length xs \<and> eq (xs ! i) (xs ! j)})"
proof -
  have "set (foldl (\<lambda>d j. if \<not> eq (xs ! i) (xs ! j) then d else set_add j d) d js) =
      set d \<union> {j \<in> set js. eq (xs ! i) (xs ! j)}" for d js
    by (induction js arbitrary: d) auto
  then show ?thesis by (auto simp: dup_row_def)
qed

text \<open>Every position dropped is equal to an earlier one that is kept.\<close>

lemma find_dups_loop:
  assumes "n \<le> length xs" "j \<in> set (foldl (\<lambda>dups i. dup_row eq xs i dups) [] [0..<n])"
  shows "\<exists>i<n. i < j \<and> j < length xs \<and> eq (xs ! i) (xs ! j) \<and>
    i \<notin> set (foldl (\<lambda>dups i. dup_row eq xs i dups) [] [0..<n])"
  using assms
proof (induction n)
  case (Suc n)
  let ?d = "foldl (\<lambda>dups i. dup_row eq xs i dups) [] [0..<n]"
  have step: "foldl (\<lambda>dups i. dup_row eq xs i dups) [] [0..<Suc n] = dup_row eq xs n ?d"
    by simp
  show ?case
  proof (cases "j \<in> set ?d")
    case True
    with Suc obtain i where "i < n" "i < j" "j < length xs" "eq (xs ! i) (xs ! j)" "i \<notin> set ?d"
      by auto
    moreover have "i \<notin> set (dup_row eq xs n ?d)"
      using calculation(1,5) by (auto simp: dup_row_set)
    ultimately show ?thesis unfolding step by (intro exI [of _ i]) simp
  next
    case False
    with Suc.prems have "n \<notin> set ?d" "n < j" "j < length xs" "eq (xs ! n) (xs ! j)"
      unfolding step by (auto simp: dup_row_set split: if_splits)
    then show ?thesis unfolding step by (intro exI [of _ n]) (simp add: dup_row_set)
  qed
qed simp

lemma drop_equal_set:
  shows "set (drop_equal eq xs) \<subseteq> set xs"
    and "x \<in> set xs \<Longrightarrow> x \<in> set (drop_equal eq xs) \<or> (\<exists>y\<in>set (drop_equal eq xs). eq y x)"
proof -
  let ?k = "filter (\<lambda>i. i \<notin> set (find_dups eq xs)) [0..<length xs]"
  have eq: "drop_equal eq xs = map (nth xs) ?k"
    by (simp add: drop_equal_def compact_eq)
  show "set (drop_equal eq xs) \<subseteq> set xs"
    unfolding eq by auto
  assume "x \<in> set xs"
  then obtain j where j: "j < length xs" "x = xs ! j" by (auto simp: in_set_conv_nth)
  show "x \<in> set (drop_equal eq xs) \<or> (\<exists>y\<in>set (drop_equal eq xs). eq y x)"
  proof (cases "j \<in> set (find_dups eq xs)")
    case True
    then obtain i where "i < length xs" "eq (xs ! i) (xs ! j)" "i \<notin> set (find_dups eq xs)"
      using find_dups_loop [of "length xs" xs j eq] by (auto simp: find_dups_def)
    then show ?thesis using j unfolding eq by auto
  qed (use j in \<open>auto simp: eq\<close>)
qed

text \<open>The first element of each hash, in order: the loop in place and the merging loop.\<close>

fun keep_first :: "('s \<Rightarrow> 'h) \<Rightarrow> 'h set \<Rightarrow> 's list \<Rightarrow> 's list" where
  "keep_first h found [] = []"
| "keep_first h found (x # xs) =
     (if h x \<in> found then keep_first h found xs else x # keep_first h (insert (h x) found) xs)"

lemma keep_first_snoc:
  "keep_first h found (xs @ [x]) =
     keep_first h found xs @ (if h x \<in> found \<union> h ` set xs then [] else [x])"
  by (induction xs arbitrary: found) auto

lemma keep_first_subset: "set (keep_first h found xs) \<subseteq> set xs"
proof (induction xs arbitrary: found)
  case (Cons a xs)
  show ?case using Cons [of found] Cons [of "insert (h a) found"] by auto
qed simp

lemma keep_first_covers:
  "x \<in> set xs \<Longrightarrow> h x \<in> found \<or> (\<exists>y\<in>set (keep_first h found xs). h y = h x)"
proof (induction xs arbitrary: found)
  case (Cons a xs)
  show ?case using Cons.prems Cons.IH [of found] Cons.IH [of "insert (h a) found"] by auto
qed simp

lemma many_loop:
  assumes "n \<le> length xs"
  shows "\<exists>found ys. foldl (many_step hash) ([], 0, xs) [0..<n] =
      (found, length (keep_first hash {} (take n xs)), ys) \<and> length ys = length xs \<and>
      set found = hash ` set (take n xs) \<and>
      take (length (keep_first hash {} (take n xs))) ys = keep_first hash {} (take n xs) \<and>
      (\<forall>i. n \<le> i \<longrightarrow> i < length xs \<longrightarrow> ys ! i = xs ! i)"
  using assms
proof (induction n)
  case (Suc n)
  define w where "w = length (keep_first hash {} (take n xs))"
  from Suc obtain found ys where ys: "foldl (many_step hash) ([], 0, xs) [0..<n] = (found, w, ys)"
      "length ys = length xs" "set found = hash ` set (take n xs)"
      "take w ys = keep_first hash {} (take n xs)"
      "\<forall>i. n \<le> i \<longrightarrow> i < length xs \<longrightarrow> ys ! i = xs ! i"
    unfolding w_def by auto
  have len: "length (keep_first hash f xs) \<le> length xs" for f xs
    by (induction xs arbitrary: f) (auto intro: le_SucI)
  have "w \<le> n" unfolding w_def using len [of "{}" "take n xs"] Suc.prems by simp
  then have upd: "take (w + 1) (ys[w := ys ! n]) = take w ys @ [xs ! n]"
    "\<forall>i. Suc n \<le> i \<longrightarrow> i < length xs \<longrightarrow> ys[w := ys ! n] ! i = xs ! i"
    using Suc.prems ys(2,5) by (simp_all add: take_Suc_conv_app_nth take_update_cancel)
  have snoc: "take (Suc n) xs = take n xs @ [xs ! n]"
    using Suc.prems by (simp add: take_Suc_conv_app_nth)
  have nth: "ys ! n = xs ! n" using ys(5) Suc.prems by simp
  show ?case
  proof (cases "hash (xs ! n) \<in> set found")
    case True
    then show ?thesis using ys Suc.prems
      by (auto simp: many_step_def Let_def nth snoc keep_first_snoc w_def [symmetric])
  next
    case False
    then show ?thesis using ys upd
      by (auto simp: many_step_def Let_def nth snoc keep_first_snoc w_def [symmetric])
  qed
qed simp

lemma drop_hashed_eq: "drop_hashed hash xs = keep_first hash {} xs"
  using many_loop [of "length xs" xs hash] by (auto simp: drop_hashed_def)

lemma merge_loop:
  "foldl (merge_step hash) (found, out) sts =
     (fst (foldl (merge_step hash) (found, out) sts), out @ keep_first hash (set found) sts)"
proof (induction sts arbitrary: found out)
  case (Cons st sts)
  show ?case
    using Cons [of found out] Cons [of "set_add (hash st) found" "out @ [st]"]
    by (simp add: merge_step_def)
qed simp

lemma foldl_concat: "foldl (\<lambda>acc p. foldl f acc (g p)) acc ps = foldl f acc (concat (map g ps))"
  by (induction ps arbitrary: acc) auto

lemma merge_statements:
  assumes "length ps \<ge> 2"
  shows "MergePolicies L H ps = updateActionIndex (zero_policy\<lparr>Version := merged_version ps,
    Statements := keep_first (Statement_hash L H 0) {} (concat (map Statements ps))\<rparr>)"
proof -
  have "snd (foldl (merge_step (Statement_hash L H 0)) ([], []) sts) =
      keep_first (Statement_hash L H 0) {} sts" for sts
    by (subst merge_loop) simp
  moreover have "ps \<noteq> []" "length ps \<noteq> Suc 0" using assms by auto
  ultimately show ?thesis
    unfolding MergePolicies_def foldl_concat by (simp add: split_beta)
qed

section \<open>Both removals keep the first of each class\<close>

lemma keep_first_filter:
  "n \<le> length xs \<Longrightarrow> keep_first h {} (take n xs) =
     map (nth xs) (filter (\<lambda>i. h (xs ! i) \<notin> h ` set (take i xs)) [0..<n])"
  by (induction n) (auto simp: take_Suc_conv_app_nth keep_first_snoc)

lemma find_dups_mono:
  "m \<le> n \<Longrightarrow> set (foldl (\<lambda>dups i. dup_row eq xs i dups) [] [0..<m]) \<subseteq>
    set (foldl (\<lambda>dups i. dup_row eq xs i dups) [] [0..<n])"
  by (induction n) (auto simp: dup_row_set le_Suc_eq)

lemma find_dups_complete:
  assumes "i < j" "j < length xs" "eq (xs ! i) (xs ! j)" "i \<notin> set (find_dups eq xs)"
  shows "j \<in> set (find_dups eq xs)"
proof -
  let ?D = "\<lambda>n. set (foldl (\<lambda>dups i. dup_row eq xs i dups) [] [0..<n])"
  have "i \<notin> ?D i"
    using assms(1,2,4) find_dups_mono [of i "length xs" eq xs] by (auto simp: find_dups_def)
  then have "j \<in> ?D (Suc i)" using assms(1-3) by (auto simp: dup_row_set)
  then show ?thesis
    using assms(1,2) find_dups_mono [of "Suc i" "length xs" eq xs] by (auto simp: find_dups_def)
qed

lemma drop_equal_hashed:
  assumes "\<And>x y. x \<in> set xs \<Longrightarrow> y \<in> set xs \<Longrightarrow> eq x y \<longleftrightarrow> h x = h y"
  shows "drop_equal eq xs = keep_first h {} xs"
proof -
  have idx: "i < length xs \<Longrightarrow> j < length xs \<Longrightarrow> eq (xs ! i) (xs ! j) \<longleftrightarrow> h (xs ! i) = h (xs ! j)" for i j
    using assms nth_mem by blast
  have "j \<in> set (find_dups eq xs) \<longleftrightarrow> h (xs ! j) \<in> h ` set (take j xs)" if "j < length xs" for j
  proof
    assume "j \<in> set (find_dups eq xs)"
    then obtain i where "i < j" "eq (xs ! i) (xs ! j)"
      using find_dups_loop [of "length xs" xs j eq] by (auto simp: find_dups_def)
    then have "xs ! i \<in> set (take j xs)" "h (xs ! i) = h (xs ! j)"
      using that idx [of i j] by (auto simp: in_set_conv_nth)
    then show "h (xs ! j) \<in> h ` set (take j xs)" by (metis imageI)
  next
    assume "h (xs ! j) \<in> h ` set (take j xs)"
    then have ex: "\<exists>i. i < j \<and> h (xs ! i) = h (xs ! j)"
      using that by (fastforce simp: in_set_conv_nth)
    define i where "i = (LEAST i. i < j \<and> h (xs ! i) = h (xs ! j))"
    have i: "i < j" "h (xs ! i) = h (xs ! j)" using LeastI_ex [OF ex] by (auto simp: i_def)
    have "i \<notin> set (find_dups eq xs)"
    proof
      assume "i \<in> set (find_dups eq xs)"
      then obtain k where "k < i" "eq (xs ! k) (xs ! i)"
        using find_dups_loop [of "length xs" xs i eq] by (auto simp: find_dups_def)
      then have "k < j \<and> h (xs ! k) = h (xs ! j)" using i idx [of k i] that by auto
      from Least_le [of "\<lambda>i. i < j \<and> h (xs ! i) = h (xs ! j)", OF this] \<open>k < i\<close>
      show False by (simp add: i_def)
    qed
    moreover have "eq (xs ! i) (xs ! j)" using idx [of i j] i that by simp
    ultimately show "j \<in> set (find_dups eq xs)" using find_dups_complete i(1) that by metis
  qed
  then have "drop_equal eq xs =
      map (nth xs) (filter (\<lambda>i. h (xs ! i) \<notin> h ` set (take i xs)) [0..<length xs])"
    unfolding drop_equal_def Let_def compact_eq by (intro arg_cong [of _ _ "map _"] filter_cong) auto
  then show ?thesis using keep_first_filter [of "length xs" xs h] by simp
qed

section \<open>The hash does not depend on iteration orders\<close>

lemma xorTo_commute: "xorTo (xorTo h a) b = xorTo (xorTo h b) a"
  by (cases h) (simp add: xorTo_def ac_simps)

lemma xorTo_cancel: "xorTo (xorTo h a) a = h"
  by (cases h) (simp add: xorTo_def ac_simps)

lemma xor_strings_mset:
  assumes "mset xs = mset ys"
  shows "xor_strings H seed xs h = xor_strings H seed ys h"
proof -
  have "fold (\<lambda>x h. xorTo h (HashString128Seed H x seed)) xs =
      fold (\<lambda>x h. xorTo h (HashString128Seed H x seed)) ys"
    by (rule fold_multiset_equiv) (use assms in \<open>auto simp: xorTo_commute fun_eq_iff\<close>)
  then show ?thesis by (simp add: xor_strings_def foldl_conv_fold)
qed

text \<open>
  A statement as the decoder leaves it: its sets have no repetitions and its conditions have
  different texts.
\<close>

definition wf_sets :: "statement \<Rightarrow> bool" where
  "wf_sets s \<longleftrightarrow> distinct (Actions s) \<and> distinct (NotActions s) \<and> distinct (Resources s) \<and>
     distinct (NotResources s)"

lemma Functions_Equals_mset:
  assumes "distinct (map (fn_String L) fs)" "distinct (map (fn_String L) gs)"
  shows "Functions_Equals L fs gs \<longleftrightarrow> mset (map (fn_String L) fs) = mset (map (fn_String L) gs)"
proof -
  have "Functions_Equals L fs gs \<longleftrightarrow> map_set_equals (map (fn_String L) fs) (map (fn_String L) gs)"
    by (force simp: Functions_Equals_def map_set_equals_def list_all_iff list_ex_iff)
  also have "\<dots> \<longleftrightarrow> set (map (fn_String L) fs) = set (map (fn_String L) gs)"
    using assms by (rule map_set_equals_iff)
  also have "\<dots> \<longleftrightarrow> mset (map (fn_String L) fs) = mset (map (fn_String L) gs)"
    using assms by (rule set_eq_iff_mset_eq_distinct)
  finally show ?thesis .
qed

lemma Statement_Equals_mset:
  assumes "wf_sets s" "wf_sets t"
    and "distinct (map (fn_String L) (Conditions s))" "distinct (map (fn_String L) (Conditions t))"
  shows "Statement_Equals L s t \<longleftrightarrow> Effect s = Effect t \<and> mset (Actions s) = mset (Actions t) \<and>
    mset (NotActions s) = mset (NotActions t) \<and> mset (Resources s) = mset (Resources t) \<and>
    mset (NotResources s) = mset (NotResources t) \<and>
    mset (map (fn_String L) (Conditions s)) = mset (map (fn_String L) (Conditions t))"
  using assms
  by (simp add: Statement_Equals_def wf_sets_def Functions_Equals_mset acts.equals_iff ress.equals_iff
      set_eq_iff_mset_eq_distinct)

lemma Statement_hash_Equals:
  assumes "wf_sets s" "wf_sets t"
    and "distinct (map (fn_String L) (Conditions s))" "distinct (map (fn_String L) (Conditions t))"
    and "Statement_Equals L s t"
  shows "Statement_hash L H seed s = Statement_hash L H seed t"
proof -
  note eq = assms(5) [unfolded Statement_Equals_mset [OF assms(1-4)]]
  have len: "length (Actions s) = length (Actions t)" "length (NotActions s) = length (NotActions t)"
    "length (Resources s) = length (Resources t)" "length (NotResources s) = length (NotResources t)"
    "length (Conditions s) = length (Conditions t)"
    using eq [THEN conjunct2] mset_eq_length [of "map (fn_String L) (Conditions s)"
        "map (fn_String L) (Conditions t)"] by (auto dest: mset_eq_length)
  have res: "mset (map res_text (Resources s)) = mset (map res_text (Resources t))"
    "mset (map res_text (NotResources s)) = mset (map res_text (NotResources t))"
    using eq by simp_all
  have "xor_strings H sd (Actions s) h = xor_strings H sd (Actions t) h"
    "xor_strings H sd (NotActions s) h = xor_strings H sd (NotActions t) h"
    "xor_strings H sd (map res_text (Resources s)) h = xor_strings H sd (map res_text (Resources t)) h"
    "xor_strings H sd (map res_text (NotResources s)) h = xor_strings H sd (map res_text (NotResources t)) h"
    "xor_strings H sd (map (fn_String L) (Conditions s)) h =
      xor_strings H sd (map (fn_String L) (Conditions t)) h" for sd h
    using eq res by (blast intro: xor_strings_mset)+
  then show ?thesis
    unfolding Statement_hash_def Statement_sum_def Let_def len using eq by simp
qed

section \<open>Conditions with the same texts\<close>

text \<open>
  A condition that the decoder produced and whose data is read back from its text; a statement with
  such conditions can be compared by text.
\<close>

definition comparable_fn :: "ext_lib \<Rightarrow> cond_function \<Rightarrow> bool" where
  "comparable_fn L f \<longleftrightarrow>
     (\<exists>nameString keyString values. new_function L nameString keyString values = Inr f) \<and> exact_fn f"

definition comparable :: "ext_lib \<Rightarrow> statement \<Rightarrow> bool" where
  "comparable L s \<longleftrightarrow> wf_sets s \<and> list_all (comparable_fn L) (Conditions s)"

lemma comparable_fn_text:
  assumes "string_set_laws L" "comparable_fn L f" "comparable_fn L g" "fn_String L f = fn_String L g"
  shows "evaluate L f values = evaluate L g values"
proof (rule text_determines_decision [OF assms(1) _ _ _ _ _ _ assms(4)])
  show "wf_fn f" "wf_fn g" "Key_IsValid (fn_key f)" "Key_IsValid (fn_key g)" "exact_fn f" "exact_fn g"
    using assms(2,3) new_function_wf unfolding comparable_fn_def by blast+
qed

lemma conds_hold_iff: "conds_hold L m fs \<longleftrightarrow> (\<forall>f\<in>set fs. evaluate L f m = Some True)"
  by (simp add: conds_hold_def Functions_Evaluate_def all_m_SomeTrue)

lemma Functions_Equals_hold:
  assumes "string_set_laws L" "list_all (comparable_fn L) fs" "list_all (comparable_fn L) gs"
    and "Functions_Equals L fs gs" "conds_hold L m gs"
  shows "conds_hold L m fs"
  unfolding conds_hold_iff
proof
  fix f assume f: "f \<in> set fs"
  then obtain g where g: "g \<in> set gs" "fn_String L f = fn_String L g"
    using assms(4) by (auto simp: Functions_Equals_def list_all_iff list_ex_iff split: if_splits)
  then show "evaluate L f m = Some True"
    using comparable_fn_text [OF assms(1), of f g m] assms(2,3,5) f
    by (auto simp: list_all_iff conds_hold_iff)
qed

section \<open>A dropped statement is covered by the one kept\<close>

lemma rs_matches_cong: "wf_values m \<Longrightarrow> set rs = set rs' \<Longrightarrow> rs_matches m rs rsc = rs_matches m rs' rsc"
  by (simp add: rs_matches_iff)

lemma check_spec_covered:
  assumes "wf_args args" "Effect s = Effect t" "set (Actions s) = set (Actions t)"
    "set (NotActions s) = set (NotActions t)" "set (Resources s) = set (Resources t)"
    "set (NotResources s) = set (NotResources t)"
    and "conds_hold L (a_ConditionValues args) (Conditions t) \<Longrightarrow> conds_hold L (a_ConditionValues args) (Conditions s)"
    and "check_spec L legacy t args"
  shows "check_spec L legacy s args"
proof -
  have empty: "Actions s = [] \<longleftrightarrow> Actions t = []" "Resources s = [] \<longleftrightarrow> Resources t = []"
    "NotResources s = [] \<longleftrightarrow> NotResources t = []"
    using assms(3,5,6) by (metis set_empty)+
  have kinds: "Statement_isKMS s = Statement_isKMS t" "ignores_resources s = ignores_resources t"
    "Statement_isTable s = Statement_isTable t"
    using assms(3) by (simp_all add: Statement_isKMS_def ignores_resources_def Statement_isSTS_def
        Statement_isAdmin_def Statement_hasAdminResource_def Statement_isTable_def list_ex_iff)
  have cov: "covers s a = covers t a" for a
    using assms(3,4) empty ActionSet_Match_cong by (metis covers_def)
  have tab: "table_resource s args r = table_resource t args r" for r
    by (simp add: table_resource_def kinds)
  have res: "resources_hold s (a_ConditionValues args) r w = resources_hold t (a_ConditionValues args) r w" for r w
    using rs_matches_cong [OF assms(1,5)] rs_matches_cong [OF assms(1,6)]
    by (simp add: resources_hold_def kinds empty)
  show ?thesis
    using assms(8) unfolding check_spec_def assms(2) cov tab res kinds empty
    by (auto split: option.splits intro: assms(7))
qed

lemma Statement_Equals_covers:
  assumes "string_set_laws L" "wf_args args" "comparable L s" "comparable L t" "Statement_Equals L s t"
    and "check_spec L legacy t args"
  shows "Effect s = Effect t" "check_spec L legacy s args"
proof -
  have eq: "Effect s = Effect t" "set (Actions s) = set (Actions t)" "set (NotActions s) = set (NotActions t)"
    "set (Resources s) = set (Resources t)" "set (NotResources s) = set (NotResources t)"
    "Functions_Equals L (Conditions s) (Conditions t)"
    using assms(3-5)
    by (simp_all add: Statement_Equals_def comparable_def wf_sets_def acts.equals_iff ress.equals_iff
        split: if_splits)
  show "Effect s = Effect t" by (rule eq(1))
  show "check_spec L legacy s args"
    by (rule check_spec_covered [OF assms(2) eq(1-5) _ assms(6)])
      (use Functions_Equals_hold [OF assms(1) _ _ eq(6)] assms(3,4) in \<open>auto simp: comparable_def\<close>)
qed

section \<open>Decisions survive the removal\<close>

lemma applies_covered:
  assumes "wf_args args" "set (Statements q) \<subseteq> set (Statements p)"
    and "\<And>t. t \<in> set (Statements p) \<Longrightarrow> check_spec L legacy t args \<Longrightarrow>
      \<exists>s\<in>set (Statements q). Effect s = Effect t \<and> check_spec L legacy s args"
  shows "applies L legacy args eff q = applies L legacy args eff p"
  using assms by (fastforce simp: applies_wf [OF assms(1)])

text \<open>No two statements with the same hash (seed 0) are different.\<close>

definition hash_exact :: "ext_lib \<Rightarrow> hash_lib \<Rightarrow> statement list \<Rightarrow> bool" where
  "hash_exact L H sts \<longleftrightarrow> list_all (\<lambda>s. list_all (\<lambda>t.
     if Statement_hash L H 0 s = Statement_hash L H 0 t then Statement_Equals L s t else True) sts) sts"

lemma hash_exactD:
  "hash_exact L H sts \<Longrightarrow> s \<in> set sts \<Longrightarrow> t \<in> set sts \<Longrightarrow>
   Statement_hash L H 0 s = Statement_hash L H 0 t \<Longrightarrow> Statement_Equals L s t"
  by (auto simp: hash_exact_def list_all_iff split: if_splits)

lemma keep_first_applies:
  assumes "string_set_laws L" "wf_args args" "list_all (comparable L) sts" "hash_exact L H sts"
    and "Statements p = sts" "Statements q = keep_first (Statement_hash L H 0) {} sts"
  shows "applies L legacy args eff q = applies L legacy args eff p"
proof (rule applies_covered [OF assms(2)])
  show sub: "set (Statements q) \<subseteq> set (Statements p)"
    using keep_first_subset assms(5,6) by metis
  fix t assume t: "t \<in> set (Statements p)" "check_spec L legacy t args"
  then obtain s where s: "s \<in> set (Statements q)" "Statement_hash L H 0 s = Statement_hash L H 0 t"
    using keep_first_covers [of t sts "Statement_hash L H 0" "{}"] assms(5,6) by auto
  with sub t assms(5) have mem: "s \<in> set sts" "t \<in> set sts" by auto
  have "Statement_Equals L s t" using hash_exactD [OF assms(4) mem s(2)] .
  moreover have "comparable L s" "comparable L t" using assms(3) mem by (auto simp: list_all_iff)
  ultimately show "\<exists>s\<in>set (Statements q). Effect s = Effect t \<and> check_spec L legacy s args"
    using Statement_Equals_covers [OF assms(1,2) _ _ _ t(2)] s(1) by blast
qed

lemma drop_equal_applies:
  assumes "string_set_laws L" "wf_args args" "list_all (comparable L) (Statements p)"
    and "Statements q = drop_equal (Statement_Equals L) (Statements p)"
  shows "applies L legacy args eff q = applies L legacy args eff p"
proof (rule applies_covered [OF assms(2)])
  show sub: "set (Statements q) \<subseteq> set (Statements p)"
    using drop_equal_set(1) assms(4) by metis
  fix t assume t: "t \<in> set (Statements p)" "check_spec L legacy t args"
  show "\<exists>s\<in>set (Statements q). Effect s = Effect t \<and> check_spec L legacy s args"
  proof (cases "t \<in> set (Statements q)")
    case False
    then obtain s where s: "s \<in> set (Statements q)" "Statement_Equals L s t"
      using drop_equal_set(2) [OF t(1), of "Statement_Equals L"] assms(4) by auto
    moreover have "comparable L s" "comparable L t"
      using assms(3) s(1) sub t(1) by (auto simp: list_all_iff)
    ultimately show ?thesis
      using Statement_Equals_covers [OF assms(1,2) _ _ s(2) t(2)] by blast
  qed (use t(2) in blast)
qed

lemma dropDuplicateStatements_applies:
  assumes "string_set_laws L" "wf_args args" "list_all (comparable L) (Statements p)"
    and "hash_exact L H (Statements p)"
  shows "applies L legacy args eff (dropDuplicateStatements L H p) = applies L legacy args eff p"
  using drop_equal_applies [OF assms(1-3)] keep_first_applies [OF assms refl]
  by (simp add: dropDuplicateStatements_def dropDuplicateStatementsOriginal_def
      dropDuplicateStatementsMany_def drop_hashed_eq)

lemma index_dropDuplicateStatements:
  "actionStatementIndex (dropDuplicateStatements L H p) = actionStatementIndex p"
  by (simp add: dropDuplicateStatements_def dropDuplicateStatementsOriginal_def dropDuplicateStatementsMany_def)

lemma decide_spec_cong:
  "(\<And>eff. applies L legacy args eff q = applies L legacy args eff p) \<Longrightarrow>
   decide_spec L legacy q args = decide_spec L legacy p args"
  by (simp add: decide_spec_def)

text \<open>
  C20: decoding a policy drops duplicate statements (in pairs up to ten statements, by hash beyond) and
  builds the action index. The decoded policy decides every request without empty value lists as the
  statements of the document do, under these hypotheses: the string sets obey the laws of sets, the
  document comes without an index, equal hashes belong to equal statements, and the statements are
  comparable: their sets have no repetitions, and their conditions are such as the decoder makes and are
  determined by their texts, so no date has a fraction of a second or an offset the text cannot show, and
  every network is its own text. Without the last hypothesis a statement can be lost, as the findings on
  \<open>datefunc.go\<close> and \<open>statement.go\<close> show.
\<close>

theorem decoding_keeps_decisions:
  assumes "string_set_laws L" "wf_args args" "actionStatementIndex p = []"
    and "list_all (comparable L) (Statements p)" "hash_exact L H (Statements p)"
  shows "Policy_Decide L legacy (Policy_decoded L H p) args = Policy_Decide L legacy p args"
proof -
  let ?q = "dropDuplicateStatements L H p"
  have idx: "actionStatementIndex ?q = []"
    using assms(3) by (simp add: index_dropDuplicateStatements)
  have "applies L legacy args eff (updateActionIndex ?q) = applies L legacy args eff p" for eff
    using dropDuplicateStatements_applies [OF assms(1,2,4,5)] applies_cong [of "updateActionIndex ?q" ?q]
    by simp
  then have "decide_spec L legacy (updateActionIndex ?q) args = decide_spec L legacy p args"
    by (rule decide_spec_cong)
  then show ?thesis
    using Policy_Decide_eq [OF assms(2) index_ok_updateActionIndex [OF idx]]
      Policy_Decide_eq [OF assms(2) index_ok_Nil [OF assms(3)]]
    by (simp add: Policy_decoded_def)
qed

section \<open>Merging\<close>

lemma applies_concat:
  "applies L legacy args eff (zero_policy\<lparr>Statements := concat (map Statements ps)\<rparr>) \<longleftrightarrow>
     (\<exists>p\<in>set ps. applies L legacy args eff p)"
  by (auto simp: applies_def)

lemma serial_decides:
  assumes "wf_args args" "\<forall>p\<in>set ps. index_ok p" "ps \<noteq> []"
  shows "IsAllowedSerial L legacy ps args = Some
    (\<not> (\<exists>p\<in>set ps. applies L legacy args Deny p) \<and>
     (a_DenyOnly args \<or> a_IsOwner args \<or> (\<exists>p\<in>set ps. applies L legacy args Allow p)))"
proof -
  have "\<exists>p. p \<in> set ps" using assms(3) by (cases ps) auto
  then show ?thesis
    using assms(3) by (auto simp: IsAllowedSerial_def serial_loop_eq [OF assms(1,2)] decide_spec_def)
qed

lemma merge_applies:
  assumes "string_set_laws L" "wf_args args" "length ps \<ge> 2"
    and "list_all (comparable L) (concat (map Statements ps))" "hash_exact L H (concat (map Statements ps))"
  shows "applies L legacy args eff (MergePolicies L H ps) \<longleftrightarrow> (\<exists>p\<in>set ps. applies L legacy args eff p)"
proof -
  let ?all = "zero_policy\<lparr>Statements := concat (map Statements ps)\<rparr>"
  have "applies L legacy args eff (MergePolicies L H ps) = applies L legacy args eff ?all"
    by (rule keep_first_applies [OF assms(1,2,4,5)]) (simp_all add: merge_statements [OF assms(3)])
  then show ?thesis by (simp only: applies_concat)
qed


text \<open>
  For statements as the decoder leaves them the removal by hash keeps the same statements, in the
  same order, as the quadratic comparison of all pairs, provided equal hashes belong to equal
  statements.
\<close>

theorem removal_by_hash_equals_pairwise:
  assumes "list_all wf_sets (Statements p)" "hash_exact L H (Statements p)"
    and "list_all (\<lambda>s. distinct (map (fn_String L) (Conditions s))) (Statements p)"
  shows "dropDuplicateStatementsMany L H p = dropDuplicateStatementsOriginal L p"
proof -
  have "drop_equal (Statement_Equals L) (Statements p) = keep_first (Statement_hash L H 0) {} (Statements p)"
  proof (rule drop_equal_hashed)
    fix s t assume mem: "s \<in> set (Statements p)" "t \<in> set (Statements p)"
    then have wf: "wf_sets s" "wf_sets t" "distinct (map (fn_String L) (Conditions s))"
      "distinct (map (fn_String L) (Conditions t))"
      using assms(1,3) by (auto simp: list_all_iff)
    show "Statement_Equals L s t \<longleftrightarrow> Statement_hash L H 0 s = Statement_hash L H 0 t"
      using Statement_hash_Equals [OF wf, of H 0] hash_exactD [OF assms(2) mem] by blast
  qed
  then show ?thesis
    by (simp add: dropDuplicateStatementsMany_def dropDuplicateStatementsOriginal_def drop_hashed_eq)
qed

section \<open>Conditions that appear twice\<close>

text \<open>
  Each text enters the hash by exclusive or, so a condition that appears twice contributes nothing,
  whatever the hash function is. The decoder accepts such statements: \<open>IpAddress\<close> and
  \<open>ForAnyValue:IpAddress\<close> give the same condition, since the qualifier of an address condition is
  dropped.
\<close>

lemma doubled_conditions_collide:
  assumes "Effect s = Effect t" "Actions s = Actions t" "NotActions s = NotActions t"
    "Resources s = Resources t" "NotResources s = NotResources t"
    and "Conditions s = [f, f]" "Conditions t = [g, g]"
  shows "Statement_hash L H seed s = Statement_hash L H seed t"
  using assms by (simp add: Statement_hash_def Statement_sum_def xor_strings_def xorTo_cancel)

section \<open>Bucket policies\<close>

definition bp_comparable :: "ext_lib \<Rightarrow> bp_statement \<Rightarrow> bool" where
  "bp_comparable L s \<longleftrightarrow> distinct (bp_Actions s) \<and> distinct (bp_NotActions s) \<and>
     distinct (bp_Resources s) \<and> distinct (bp_NotResources s) \<and>
     list_all (comparable_fn L) (bp_Conditions s)"

lemma BPStatement_Equals_covers:
  assumes "string_set_laws L" "wf_values (b_ConditionValues args)" "bp_comparable L s" "bp_comparable L t"
    and "BPStatement_Equals L s t" "bp_check_spec L t args"
  shows "bp_Effect s = bp_Effect t" "bp_check_spec L s args"
proof -
  have eq: "bp_Effect s = bp_Effect t" "set (AWS (bp_Principal s)) = set (AWS (bp_Principal t))"
    "set (bp_Actions s) = set (bp_Actions t)" "set (bp_NotActions s) = set (bp_NotActions t)"
    "set (bp_Resources s) = set (bp_Resources t)" "set (bp_NotResources s) = set (bp_NotResources t)"
    "Functions_Equals L (bp_Conditions s) (bp_Conditions t)"
    using assms(3-5)
    by (simp_all add: BPStatement_Equals_def bp_comparable_def acts.equals_iff ress.equals_iff
        Principal_Equals_def ss_simps [OF assms(1)] split: if_splits)
  have empty: "bp_Actions s = [] \<longleftrightarrow> bp_Actions t = []" "bp_Resources s = [] \<longleftrightarrow> bp_Resources t = []"
    "bp_NotResources s = [] \<longleftrightarrow> bp_NotResources t = []"
    using eq(3,5,6) by (metis set_empty)+
  show "bp_Effect s = bp_Effect t" by (rule eq(1))
  have "conds_hold L (b_ConditionValues args) (bp_Conditions s)"
    by (rule Functions_Equals_hold [OF assms(1) _ _ eq(7)])
      (use assms(3,4,6) in \<open>auto simp: bp_comparable_def bp_check_spec_def\<close>)
  then show "bp_check_spec L s args"
    using assms(6) ActionSet_Match_cong [OF eq(3)] ActionSet_Match_cong [OF eq(4)]
      rs_matches_cong [OF assms(2) eq(5)] rs_matches_cong [OF assms(2) eq(6)]
    by (simp add: bp_check_spec_def eq(2) empty)
qed

text \<open>
  Decoding a bucket policy validates it and drops duplicate statements; what is stored allows
  exactly the requests the statements of the document allow.
\<close>

theorem bucket_decoding_keeps_decisions:
  assumes "string_set_laws L" "wf_values (b_ConditionValues args)"
    and "list_all (bp_comparable L) (bk_Statements sp)" "BucketPolicy_decoded L sp = Inr p"
  shows "BucketPolicy_IsAllowed L p args = BucketPolicy_IsAllowed L sp args"
proof -
  have st: "bk_Statements p = drop_equal (BPStatement_Equals L) (bk_Statements sp)"
    using assms(4) by (auto simp: BucketPolicy_decoded_def BucketPolicy_dropDuplicateStatements_def
        split: option.splits)
  have sub: "set (bk_Statements p) \<subseteq> set (bk_Statements sp)"
    unfolding st by (rule drop_equal_set)
  have cov: "\<exists>s\<in>set (bk_Statements p). bp_Effect s = bp_Effect t \<and> bp_check_spec L s args"
    if t: "t \<in> set (bk_Statements sp)" "bp_check_spec L t args" for t
  proof (cases "t \<in> set (bk_Statements p)")
    case False
    then obtain s where s: "s \<in> set (bk_Statements p)" "BPStatement_Equals L s t"
      using drop_equal_set(2) [OF t(1), of "BPStatement_Equals L"] st by auto
    moreover have "bp_comparable L s" "bp_comparable L t"
      using assms(3) s(1) sub t(1) by (auto simp: list_all_iff)
    ultimately show ?thesis
      using BPStatement_Equals_covers [OF assms(1,2) _ _ s(2) t(2)] by blast
  qed (use t(2) in blast)
  have ex: "(\<exists>s\<in>set (bk_Statements p). bp_Effect s = eff \<and> bp_check_spec L s args) \<longleftrightarrow>
      (\<exists>s\<in>set (bk_Statements sp). bp_Effect s = eff \<and> bp_check_spec L s args)" for eff
    using cov sub by blast
  show ?thesis
    by (simp add: BucketPolicy_IsAllowed_def bst.deny_loop_eq [OF assms(2)] bst.allow_loop_eq [OF assms(2)]
        BPStatement_check_wf [OF assms(1,2)] ex cong: option.case_cong bool.case_cong)
qed

end
