(* ===== verification/Canned.thy ===== *)
theory Canned
  imports Policy
begin

text \<open>
  The canned policies (\<open>policy/constants.go\<close>), in the order of \<open>DefaultPolicies\<close>.
\<close>

text \<open>A statement of the table: the fields the literals leave out are empty.\<close>

definition canned_statement :: "action list \<Rightarrow> resourceset \<Rightarrow> statement" where
  "canned_statement acts rs =
     \<lparr>SID = '''', Effect = Allow, Actions = NewActionSet acts, NotActions = [], Resources = rs,
      NotResources = [], Conditions = []\<rparr>"

definition canned_policy :: "statement list \<Rightarrow> policy" where
  "canned_policy sts = \<lparr>ID = '''', Version = DefaultVersion, Statements = sts,
     actionStatementIndex = [], hasDeny = False\<rparr>"

definition canned_readwrite :: policy where
  "canned_readwrite = canned_policy [
     canned_statement [AllActions] (NewResourceSet [NewResource ''*''])]"

definition canned_readonly :: policy where
  "canned_readonly = canned_policy [
     canned_statement [GetBucketLocationAction, GetObjectAction] (NewResourceSet [NewResource
       ''*''])]"

definition canned_consolereadonly :: policy where
  "canned_consolereadonly = canned_policy [
     canned_statement [GetBucketLocationAction, GetObjectAction, ListBucketAction]
       (NewResourceSet [NewResource ''*''])]"

definition canned_writeonly :: policy where
  "canned_writeonly = canned_policy [
     canned_statement [PutObjectAction] (NewResourceSet [NewResource ''*''])]"

definition canned_diagnostics :: policy where
  "canned_diagnostics = canned_policy [
     canned_statement [ProfilingAdminAction, TraceAdminAction, ConsoleLogAdminAction,
       ServerInfoAdminAction, TopLocksAdminAction, HealthInfoAdminAction,
       BandwidthMonitorAction, PrometheusAdminAction] (NewResourceSet [NewResource ''*''])]"

definition canned_tablesAdmin :: policy where
  "canned_tablesAdmin = canned_policy [
     canned_statement [AllS3TablesActions] (NewResourceSet [NewS3TablesResource ''*''])]"

definition canned_iamAdmin :: policy where
  "canned_iamAdmin = canned_policy [
     canned_statement [CreateUserAdminAction, DeleteUserAdminAction, ListUsersAdminAction,
       EnableUserAdminAction, DisableUserAdminAction, GetUserAdminAction,
       AddUserToGroupAdminAction, RemoveUserFromGroupAdminAction, GetGroupAdminAction,
       ListGroupsAdminAction, EnableGroupAdminAction, DisableGroupAdminAction,
       CreatePolicyAdminAction, DeletePolicyAdminAction, GetPolicyAdminAction,
       AttachPolicyAdminAction, UpdatePolicyAssociationAction, ListUserPoliciesAdminAction,
       CreateServiceAccountAdminAction, UpdateServiceAccountAdminAction,
       RemoveServiceAccountAdminAction, ListServiceAccountsAdminAction,
       ListTemporaryAccountsAdminAction, ExportIAMAction, ImportIAMAction] (NewResourceSet [])]"

definition canned_infraAdmin :: policy where
  "canned_infraAdmin = canned_policy [
     canned_statement [ServerUpdateAdminAction, ServiceRestartAdminAction,
       ServiceStopAdminAction, ServiceFreezeAdminAction, ServiceCordonAdminAction,
       ServerInfoAdminAction, StorageInfoAdminAction, ConfigUpdateAdminAction, HealAdminAction,
       ForceUnlockAdminAction, DecommissionAdminAction, RebalanceAdminAction,
       SetBucketQuotaAdminAction, GetBucketQuotaAdminAction, SetTierAction, ListTierAction,
       LicenseInfoAdminAction, DataUsageInfoAdminAction, ImportBucketMetadataAction,
       ExportBucketMetadataAction, StartBatchJobAction, ListBatchJobsAction,
       DescribeBatchJobAction, CancelBatchJobAction, GenerateBatchJobAction,
       InventoryControlAction, ClusterInfoAction, PoolListAction, PoolInfoAction,
       NodeListAction, NodeInfoAction, SetInfoAction, DriveListAction, DriveInfoAction]
       (NewResourceSet [])]"

definition canned_tablesReadWrite :: policy where
  "canned_tablesReadWrite = canned_policy [
     canned_statement [S3TablesGetWarehouseAction, S3TablesGetWarehouseEncryptionAction,
       S3TablesGetWarehouseMaintenanceConfigurationAction, S3TablesGetWarehousePolicyAction,
       S3TablesListWarehousesAction, S3TablesGetNamespaceAction, S3TablesListNamespacesAction,
       S3TablesUpdateNamespacePropertiesAction, S3TablesGetTableAction,
       S3TablesListTablesAction, S3TablesGetTableDataAction, S3TablesPutTableDataAction,
       S3TablesGetTableEncryptionAction, S3TablesGetTableMaintenanceConfigurationAction,
       S3TablesGetTableMaintenanceJobStatusAction, S3TablesGetTableMetadataLocationAction,
       S3TablesGetTablePolicyAction, S3TablesCreateTableAction, S3TablesUpdateTableAction,
       S3TablesUpdateTableMetadataLocationAction, S3TablesRenameTableAction,
       S3TablesRegisterTableAction, S3TablesGetViewAction, S3TablesListViewsAction,
       S3TablesCreateViewAction, S3TablesUpdateViewAction, S3TablesRenameViewAction,
       S3TablesDeleteViewAction, S3TablesRegisterViewAction, S3TablesGetConfigAction,
       S3TablesTableMetricsAction] (NewResourceSet [NewS3TablesResource ''*''])]"

definition canned_tablesReadOnly :: policy where
  "canned_tablesReadOnly = canned_policy [
     canned_statement [S3TablesGetWarehouseAction, S3TablesGetWarehouseEncryptionAction,
       S3TablesGetWarehouseMaintenanceConfigurationAction, S3TablesGetWarehousePolicyAction,
       S3TablesListWarehousesAction, S3TablesGetNamespaceAction, S3TablesListNamespacesAction,
       S3TablesGetTableAction, S3TablesListTablesAction, S3TablesGetTableDataAction,
       S3TablesGetTableEncryptionAction, S3TablesGetTableMaintenanceConfigurationAction,
       S3TablesGetTableMaintenanceJobStatusAction, S3TablesGetTableMetadataLocationAction,
       S3TablesGetTablePolicyAction, S3TablesGetViewAction, S3TablesListViewsAction,
       S3TablesGetConfigAction, S3TablesTableMetricsAction] (NewResourceSet [NewS3TablesResource
       ''*''])]"

definition canned_consoleAdmin :: policy where
  "canned_consoleAdmin = canned_policy [
     canned_statement [AllAdminActions] (NewResourceSet []),
     canned_statement [AllKMSActions] (NewResourceSet []),
     canned_statement [AllActions] (NewResourceSet [NewResource ''*'']),
     canned_statement [AllS3TablesActions] (NewResourceSet [NewS3TablesResource ''*''])]"

definition DefaultPolicies :: "(string \<times> policy) list" where
  "DefaultPolicies = [
     (''readwrite'', canned_readwrite),
     (''readonly'', canned_readonly),
     (''consolereadonly'', canned_consolereadonly),
     (''writeonly'', canned_writeonly),
     (''diagnostics'', canned_diagnostics),
     (''tablesAdmin'', canned_tablesAdmin),
     (''iamAdmin'', canned_iamAdmin),
     (''infraAdmin'', canned_infraAdmin),
     (''tablesReadWrite'', canned_tablesReadWrite),
     (''tablesReadOnly'', canned_tablesReadOnly),
     (''consoleAdmin'', canned_consoleAdmin)]"

end
