(* ===== verification/CannedFacts.thy ===== *)
theory CannedFacts
  imports Canned PolicyFacts
begin

text \<open>
  The canned policies pass the strict validation, and what each of them grants.
\<close>

lemma check_keys_no_conditions [simp]: "check_keys supported [] a = None"
  by (simp add: check_keys_None)

lemma canned_fields [simp]:
  "SID (canned_statement acts rs) = ''''" "Effect (canned_statement acts rs) = Allow"
  "Actions (canned_statement acts rs) = NewActionSet acts" "NotActions (canned_statement acts rs) = []"
  "Resources (canned_statement acts rs) = rs" "NotResources (canned_statement acts rs) = []"
  "Conditions (canned_statement acts rs) = []"
  "Statements (canned_policy sts) = sts" "Version (canned_policy sts) = DefaultVersion"
  "actionStatementIndex (canned_policy sts) = []"
  by (simp_all add: canned_statement_def canned_policy_def)

text \<open>Statements of one namespace without conditions.\<close>

lemma one_type:
  assumes "list_all (\<lambda>a. action_type_of a = t) acts" "acts \<noteq> []"
  shows "check_head (canned_statement acts rs) = None"
proof -
  have "set (NewActionSet acts) = set acts" by (rule acts.make_set)
  then have ty: "\<forall>a\<in>set (NewActionSet acts). action_type_of a = t" "NewActionSet acts \<noteq> []"
    using assms by (auto simp: list_all_iff)
  have "list_ex (\<lambda>a. action_type_of a = t') (NewActionSet acts) \<longleftrightarrow> t' = t" for t'
    using ty by (cases "NewActionSet acts") (auto simp: list_ex_iff)
  then have "validateActionTypes (canned_statement acts rs) = None"
    using ty(2) by (cases t) (simp_all add: validateActionTypes_def Let_def)
  then show ?thesis using ty(2) by (simp add: check_head_def Effect_IsValid_def)
qed

lemma canned_flags:
  assumes "list_all (\<lambda>a. action_type_of a = t) acts" "acts \<noteq> []"
  shows "Statement_isAdmin (canned_statement acts rs) \<longleftrightarrow> t = TypeAdmin"
    "t \<noteq> TypeAdmin \<Longrightarrow> Statement_isSTS (canned_statement acts rs) \<longleftrightarrow> t = TypeSTS"
    "t \<noteq> TypeAdmin \<Longrightarrow> t \<noteq> TypeSTS \<Longrightarrow> Statement_isKMS (canned_statement acts rs) \<longleftrightarrow> t = TypeKMS"
    "t \<noteq> TypeAdmin \<Longrightarrow> t \<noteq> TypeSTS \<Longrightarrow> t \<noteq> TypeKMS \<Longrightarrow>
       Statement_isTable (canned_statement acts rs) \<longleftrightarrow> t = TypeTable"
    "t \<noteq> TypeAdmin \<Longrightarrow> t \<noteq> TypeSTS \<Longrightarrow> t \<noteq> TypeKMS \<Longrightarrow> t \<noteq> TypeTable \<Longrightarrow>
       Statement_isVectors (canned_statement acts rs) \<longleftrightarrow> t = TypeVectors"
proof -
  have ty: "\<forall>b\<in>set (Actions (canned_statement acts rs)). action_type_of b = t"
    "hd acts \<in> set (Actions (canned_statement acts rs))"
    using assms by (auto simp: list_all_iff acts.make_set)
  show "Statement_isAdmin (canned_statement acts rs) \<longleftrightarrow> t = TypeAdmin"
    "t \<noteq> TypeAdmin \<Longrightarrow> Statement_isSTS (canned_statement acts rs) \<longleftrightarrow> t = TypeSTS"
    "t \<noteq> TypeAdmin \<Longrightarrow> t \<noteq> TypeSTS \<Longrightarrow> Statement_isKMS (canned_statement acts rs) \<longleftrightarrow> t = TypeKMS"
    "t \<noteq> TypeAdmin \<Longrightarrow> t \<noteq> TypeSTS \<Longrightarrow> t \<noteq> TypeKMS \<Longrightarrow>
       Statement_isTable (canned_statement acts rs) \<longleftrightarrow> t = TypeTable"
    "t \<noteq> TypeAdmin \<Longrightarrow> t \<noteq> TypeSTS \<Longrightarrow> t \<noteq> TypeKMS \<Longrightarrow> t \<noteq> TypeTable \<Longrightarrow>
       Statement_isVectors (canned_statement acts rs) \<longleftrightarrow> t = TypeVectors"
    using action_type_flags [OF ty] by blast+
qed

lemma strict_admin:
  assumes "list_all (\<lambda>a. action_type_of a = TypeAdmin) acts" "acts \<noteq> []"
    and "ResourceSet_ValidateStrict rs = None" "ResourceSet_ValidateS3 rs = None"
  shows "Statement_isValidStrict (canned_statement acts rs) = None"
proof -
  have "list_all AdminAction_IsValid acts"
    using assms(1) by (auto simp: list_all_iff action_type_tests(1))
  then have "ActionSet_ValidateAdmin (NewActionSet acts) = None"
    by (auto simp: ActionSet_ValidateAdmin_def ActionSet_ToAdminSlice_def acts.make_set list_all_iff)
  then show ?thesis
    using one_type [OF assms(1,2)] canned_flags(1) [OF assms(1,2)] assms(3,4)
    by (simp add: Statement_isValidStrict_def validateAdmin_def ResourceSet_ValidateStrict_def)
qed

lemma strict_kms:
  assumes "list_all (\<lambda>a. action_type_of a = TypeKMS) acts" "acts \<noteq> []"
  shows "Statement_isValidStrict (canned_statement acts []) = None"
proof -
  have "list_all KMSAction_IsValid acts"
    using assms(1) by (auto simp: list_all_iff action_type_tests(3))
  then have "ActionSet_ValidateKMS (NewActionSet acts) = None"
    by (auto simp: ActionSet_ValidateKMS_def ActionSet_ToKMSSlice_def acts.make_set list_all_iff)
  then show ?thesis
    using one_type [OF assms] canned_flags(1-3) [OF assms]
    by (simp add: Statement_isValidStrict_def Statement_isValid_def validateKMS_def
        ResourceSet_ValidateStrict_def ResourceSet_ValidateKMS_def)
qed

lemma strict_table:
  assumes "list_all (\<lambda>a. action_type_of a = TypeTable) acts" "acts \<noteq> []" "rs \<noteq> []"
    and "ResourceSet_ValidateStrict rs = None" "ResourceSet_ValidateTable rs = None"
    and "ResourceSet_ObjectResourceExists rs"
  shows "Statement_isValidStrict (canned_statement acts rs) = None"
proof -
  have "list_all TableAction_IsValid acts"
    using assms(1) by (auto simp: list_all_iff action_type_tests(4))
  then have "ActionSet_ValidateTable (NewActionSet acts) = None"
    by (auto simp: ActionSet_ValidateTable_def ActionSet_ToTableSlice_def acts.make_set list_all_iff)
  then show ?thesis
    using one_type [OF assms(1,2)] canned_flags(1-4) [OF assms(1,2)] assms(3-6)
    by (simp add: Statement_isValidStrict_def Statement_isValid_def validateTable_def check_resources_given_def
        ResourceSet_ValidateStrict_def ResourceSet_ValidateTable_def check_resource_kinds_def)
qed

lemma strict_S3:
  assumes "list_all (\<lambda>a. action_type_of a = TypeS3 \<and> Action_IsValid a) acts" "acts \<noteq> []" "rs \<noteq> []"
    and "ResourceSet_ValidateStrict rs = None" "ResourceSet_ValidateS3 rs = None"
    and "ResourceSet_ObjectResourceExists rs"
  shows "Statement_isValidStrict (canned_statement acts rs) = None"
proof -
  have ty: "list_all (\<lambda>a. action_type_of a = TypeS3) acts"
    using assms(1) by (auto simp: list_all_iff)
  have "ActionSet_Validate (NewActionSet acts) = None"
    using assms(1) by (auto simp: ActionSet_Validate_def to_slice_defs acts.make_set list_all_iff)
  moreover have "ID_IsValid ''''" by code_simp
  ultimately show ?thesis
    using one_type [OF ty assms(2)] canned_flags [OF ty assms(2)] assms(3-6)
    by (simp add: Statement_isValidStrict_def Statement_isValid_def validateS3_def check_resources_given_def
        ResourceSet_ValidateStrict_def ResourceSet_ValidateS3_def check_resource_kinds_def)
qed

lemma star_resources:
  "NewResourceSet [] = []"
  "NewResourceSet [NewResource ''*''] = [NewResource ''*'']"
  "NewResourceSet [NewS3TablesResource ''*''] = [NewS3TablesResource ''*'']"
  "ResourceSet_ValidateStrict [] = None" "ResourceSet_ValidateS3 [] = None"
  "ResourceSet_ValidateStrict [NewResource ''*''] = None" "ResourceSet_ValidateS3 [NewResource ''*''] = None"
  "ResourceSet_ObjectResourceExists [NewResource ''*'']"
  "ResourceSet_ValidateStrict [NewS3TablesResource ''*''] = None"
  "ResourceSet_ValidateTable [NewS3TablesResource ''*''] = None"
  "ResourceSet_ObjectResourceExists [NewS3TablesResource ''*'']"
  by code_simp+

section \<open>The types of the canned actions\<close>

lemma admin_type: "a \<in> set SupportedAdminActions \<Longrightarrow> action_type_of a = TypeAdmin"
  by (simp add: action_type_of_def AdminAction_IsValid_def)

lemma not_admin:
  assumes "has_prefix a [c]" "c \<noteq> CHR ''a''" "c \<noteq> CHR ''*''" "c \<noteq> CHR ''?''"
  shows "\<not> AdminAction_IsValid a"
proof
  assume "AdminAction_IsValid a"
  then obtain s where s: "s \<in> set SupportedAdminActions" "wild_ref False a s"
    by (auto simp: AdminAction_IsValid_eq)
  have "take 1 a = [c]" using assms(1) by (simp add: has_prefix_def)
  with wild_ref_head [OF s(2), of 1] assms(3,4) have "has_prefix s [c]" by simp
  moreover have "has_prefix s adminActionPrefix" using s(1) admin_actions_prefix by blast
  ultimately show False using assms(2) by (auto simp: has_prefix_iff adminActionPrefix_def)
qed

lemma table_type:
  assumes "a \<in> set SupportedTableActions"
  shows "action_type_of a = TypeTable"
proof -
  have p: "has_prefix a ''s3tables:''" using assms action_prefixes(4) by blast
  then have "has_prefix a ''s''" by (auto simp: has_prefix_iff)
  then have "\<not> AdminAction_IsValid a" using not_admin by fastforce
  then show ?thesis
    using p assms action_prefixes(1,2)
    by (fastforce simp: action_type_of_def TableAction_IsValid_def STSAction_IsValid_def KMSAction_IsValid_def
        has_prefix_iff)
qed

lemma S3_type:
  assumes "has_prefix a ''s3:''"
  shows "action_type_of a = TypeS3"
proof -
  have "has_prefix a ''s''" using assms by (auto simp: has_prefix_iff)
  then have "\<not> AdminAction_IsValid a" using not_admin by fastforce
  then show ?thesis
    using assms action_prefixes(1-4)
    by (fastforce simp: action_type_of_def TableAction_IsValid_def STSAction_IsValid_def KMSAction_IsValid_def
        VectorsAction_IsValid_def has_prefix_iff)
qed

lemma S3_valid: "a \<in> set SupportedActions \<Longrightarrow> Action_IsValid a"
  using Match_refl by (auto simp: Action_IsValid_def list_ex_iff Action_Match_def)

lemma list_all_NewActionSet: "list_all P (NewActionSet acts) = list_all P acts"
  by (simp add: list_all_iff acts.make_set)

lemmas canned_unfold = canned_fields append.simps list.pred_inject simp_thms list_all_NewActionSet

lemma canned_admin_actions:
  "list_all (\<lambda>st. list_all (\<lambda>a. a \<in> set SupportedAdminActions) (Actions st))
     (Statements canned_diagnostics @ Statements canned_iamAdmin @ Statements canned_infraAdmin)"
  by (simp only: canned_diagnostics_def canned_iamAdmin_def canned_infraAdmin_def canned_unfold
      SupportedAdminActions_def; (intro conjI)?; (rule list.set_intros(1) | rule list.set_intros(2))+)

lemma canned_table_actions:
  "list_all (\<lambda>st. list_all (\<lambda>a. a \<in> set SupportedTableActions) (Actions st))
     (Statements canned_tablesAdmin @ Statements canned_tablesReadWrite @ Statements canned_tablesReadOnly)"
  by (simp only: canned_tablesAdmin_def canned_tablesReadWrite_def canned_tablesReadOnly_def canned_unfold
      SupportedTableActions_def; (intro conjI)?; (rule list.set_intros(1) | rule list.set_intros(2))+)

lemma canned_S3_actions:
  "list_all (\<lambda>st. list_all (\<lambda>a. a \<in> set SupportedActions) (Actions st))
     (Statements canned_readwrite @ Statements canned_readonly @ Statements canned_consolereadonly @
      Statements canned_writeonly)"
  by (simp only: canned_readwrite_def canned_readonly_def canned_consolereadonly_def canned_writeonly_def
      canned_unfold SupportedActions_def; (intro conjI)?; (rule list.set_intros(1) | rule list.set_intros(2))+)

lemma canned_all_actions:
  "AllAdminActions \<in> set SupportedAdminActions" "AllKMSActions \<in> set supportedKMSActions"
  "AllActions \<in> set SupportedActions" "AllS3TablesActions \<in> set SupportedTableActions"
  by (simp_all add: SupportedAdminActions_def supportedKMSActions_def SupportedActions_def SupportedTableActions_def)

section \<open>Validity\<close>

lemma canned_policy_strict:
  "(\<And>st. st \<in> set sts \<Longrightarrow> Statement_isValidStrict st = None) \<Longrightarrow> Policy_ValidateStrict (canned_policy sts) = None"
  by (simp add: Policy_ValidateStrict_def check_version_def)

lemma canned_strict_kinds:
  "list_all (\<lambda>a. a \<in> set SupportedAdminActions) acts \<Longrightarrow> acts \<noteq> [] \<Longrightarrow>
     rs \<in> {[], [NewResource ''*'']} \<Longrightarrow> Statement_isValidStrict (canned_statement acts rs) = None"
  "list_all (\<lambda>a. a \<in> set SupportedTableActions) acts \<Longrightarrow> acts \<noteq> [] \<Longrightarrow>
     Statement_isValidStrict (canned_statement acts [NewS3TablesResource ''*'']) = None"
  "list_all (\<lambda>a. a \<in> set SupportedActions \<and> has_prefix a ''s3:'') acts \<Longrightarrow> acts \<noteq> [] \<Longrightarrow>
     Statement_isValidStrict (canned_statement acts [NewResource ''*'']) = None"
proof -
  show "list_all (\<lambda>a. a \<in> set SupportedAdminActions) acts \<Longrightarrow> acts \<noteq> [] \<Longrightarrow>
     rs \<in> {[], [NewResource ''*'']} \<Longrightarrow> Statement_isValidStrict (canned_statement acts rs) = None"
    by (rule strict_admin) (auto simp: list_all_iff admin_type star_resources)
  show "list_all (\<lambda>a. a \<in> set SupportedTableActions) acts \<Longrightarrow> acts \<noteq> [] \<Longrightarrow>
     Statement_isValidStrict (canned_statement acts [NewS3TablesResource ''*'']) = None"
    by (rule strict_table) (auto simp: list_all_iff table_type star_resources)
  show "list_all (\<lambda>a. a \<in> set SupportedActions \<and> has_prefix a ''s3:'') acts \<Longrightarrow> acts \<noteq> [] \<Longrightarrow>
     Statement_isValidStrict (canned_statement acts [NewResource ''*'']) = None"
    by (rule strict_S3) (auto simp: list_all_iff S3_type S3_valid star_resources)
qed

lemma admin_policy_strict:
  assumes "list_all (\<lambda>st. list_all (\<lambda>a. a \<in> set SupportedAdminActions) (Actions st))
      (Statements (canned_policy [canned_statement acts rs]))"
    and "acts \<noteq> []" "rs \<in> {[], [NewResource ''*'']}"
  shows "Policy_ValidateStrict (canned_policy [canned_statement acts rs]) = None"
  using assms canned_strict_kinds(1) [of acts rs]
  by (intro canned_policy_strict) (simp add: list_all_NewActionSet)

lemma table_policy_strict:
  assumes "list_all (\<lambda>st. list_all (\<lambda>a. a \<in> set SupportedTableActions) (Actions st))
      (Statements (canned_policy [canned_statement acts [NewS3TablesResource ''*'']]))"
    and "acts \<noteq> []"
  shows "Policy_ValidateStrict (canned_policy [canned_statement acts [NewS3TablesResource ''*'']]) = None"
  using assms canned_strict_kinds(2) [of acts]
  by (intro canned_policy_strict) (simp add: list_all_NewActionSet)

lemma S3_policy_strict:
  assumes "list_all (\<lambda>st. list_all (\<lambda>a. a \<in> set SupportedActions) (Actions st))
      (Statements (canned_policy [canned_statement acts [NewResource ''*'']]))"
    and "list_all (\<lambda>a. has_prefix a ''s3:'') acts" "acts \<noteq> []"
  shows "Policy_ValidateStrict (canned_policy [canned_statement acts [NewResource ''*'']]) = None"
  using assms canned_strict_kinds(3) [of acts]
  by (intro canned_policy_strict) (simp add: list_all_iff acts.make_set)

lemma split_list_all: "list_all P (xs @ ys) \<longleftrightarrow> list_all P xs \<and> list_all P ys"
  by simp

lemma canned_valid:
  "Policy_ValidateStrict canned_readwrite = None" "Policy_ValidateStrict canned_readonly = None"
  "Policy_ValidateStrict canned_consolereadonly = None" "Policy_ValidateStrict canned_writeonly = None"
  "Policy_ValidateStrict canned_diagnostics = None" "Policy_ValidateStrict canned_iamAdmin = None"
  "Policy_ValidateStrict canned_infraAdmin = None" "Policy_ValidateStrict canned_tablesAdmin = None"
  "Policy_ValidateStrict canned_tablesReadWrite = None" "Policy_ValidateStrict canned_tablesReadOnly = None"
  "Policy_ValidateStrict canned_consoleAdmin = None"
proof -
  note adm = canned_admin_actions [unfolded split_list_all]
  note tab = canned_table_actions [unfolded split_list_all]
  note s3 = canned_S3_actions [unfolded split_list_all]
  show "Policy_ValidateStrict canned_diagnostics = None" "Policy_ValidateStrict canned_iamAdmin = None"
    "Policy_ValidateStrict canned_infraAdmin = None"
    unfolding canned_diagnostics_def canned_iamAdmin_def canned_infraAdmin_def star_resources
    by (rule admin_policy_strict; simp add: adm [unfolded canned_diagnostics_def canned_iamAdmin_def
      canned_infraAdmin_def star_resources] del: canned_fields)+
  show "Policy_ValidateStrict canned_tablesAdmin = None" "Policy_ValidateStrict canned_tablesReadWrite = None"
    "Policy_ValidateStrict canned_tablesReadOnly = None"
    unfolding canned_tablesAdmin_def canned_tablesReadWrite_def canned_tablesReadOnly_def star_resources
    by (rule table_policy_strict; simp add: tab [unfolded canned_tablesAdmin_def canned_tablesReadWrite_def
      canned_tablesReadOnly_def star_resources] del: canned_fields)+
  show "Policy_ValidateStrict canned_readwrite = None" "Policy_ValidateStrict canned_readonly = None"
    "Policy_ValidateStrict canned_consolereadonly = None" "Policy_ValidateStrict canned_writeonly = None"
    unfolding canned_readwrite_def canned_readonly_def canned_consolereadonly_def canned_writeonly_def star_resources
    by (rule S3_policy_strict; simp add: s3 [unfolded canned_readwrite_def canned_readonly_def
      canned_consolereadonly_def canned_writeonly_def star_resources] has_prefix_def del: canned_fields)+
  show "Policy_ValidateStrict canned_consoleAdmin = None"
    unfolding canned_consoleAdmin_def star_resources
  proof (rule canned_policy_strict)
    fix st assume "st \<in> set [canned_statement [AllAdminActions] [], canned_statement [AllKMSActions] [],
      canned_statement [AllActions] [NewResource ''*''], canned_statement [AllS3TablesActions] [NewS3TablesResource ''*'']]"
    moreover have "action_type_of AllKMSActions = TypeKMS" by code_simp
    ultimately show "Statement_isValidStrict st = None"
      using canned_strict_kinds(1) [of "[AllAdminActions]" "[]"] strict_kms [of "[AllKMSActions]"]
        canned_strict_kinds(3) [of "[AllActions]"] canned_strict_kinds(2) [of "[AllS3TablesActions]"]
        canned_all_actions by (auto simp: has_prefix_def)
  qed
qed

text \<open>
  Every canned policy passes the strict validation new policies must pass.
\<close>

theorem canned_policies_valid:
  "map (\<lambda>(name, p). Policy_ValidateStrict p) DefaultPolicies = replicate 11 None"
  by (simp add: DefaultPolicies_def canned_valid numeral_eq_Suc)

section \<open>What they grant\<close>

text \<open>Deny-only requests and those of the owner pass every policy without a \<open>Deny\<close> statement.\<close>

definition passes :: "args \<Rightarrow> bool" where
  "passes args \<longleftrightarrow> a_DenyOnly args \<or> a_IsOwner args"

text \<open>
  Statements on tables grant an action that is none of tables only in a request whose resource, or whose
  bucket and first part of the object, name a table.
\<close>

definition names_table :: "bool \<Rightarrow> args \<Rightarrow> bool" where
  "names_table legacy args \<longleftrightarrow>
     isTableResourceString (fst (request_resource legacy Allow args)) \<or>
     a_BucketName args \<noteq> '''' \<and> a_ObjectName args \<noteq> '''' \<and>
       isTableResourceString (''bucket/'' @ a_BucketName args @ ''/table/'' @ takeWhile (\<lambda>c. c \<noteq> CHR ''/'') (a_ObjectName args))"

definition tables_apply :: "bool \<Rightarrow> args \<Rightarrow> bool" where
  "tables_apply legacy args \<longleftrightarrow> TableAction_IsValid (a_Action args) \<or> names_table legacy args"

lemma until_byte: "(case index_byte s c of None \<Rightarrow> s | Some i \<Rightarrow> take i s) = takeWhile (\<lambda>x. x \<noteq> c) s"
  by (induction s) (auto simp: index_byte_def split: option.splits)

lemma table_resource_given:
  assumes "request_resource legacy Allow args = (rsc, w)"
  shows "table_resource st args rsc \<noteq> None \<longleftrightarrow> (Statement_isTable st \<longrightarrow> tables_apply legacy args)"
  using assms by (auto simp: table_resource_def tables_apply_def names_table_def until_byte Let_def)

lemma star_matches:
  "Resource_Match (NewResource ''*'') rsc m = Some True" "Resource_Match (NewS3TablesResource ''*'') rsc m = Some True"
  by (simp_all add: Resource_Match_def NewResource_def NewS3TablesResource_def index_byte_def match_pattern_def Let_def
      Match_eq wild_ref_star_only)

lemma canned_check:
  assumes "wf_args args" "acts \<noteq> []" "rs \<in> {[], [NewResource ''*''], [NewS3TablesResource ''*'']}"
  shows "check_spec L legacy (canned_statement acts rs) args \<longleftrightarrow> ActionSet_Match acts (a_Action args) \<and>
    (Statement_isTable (canned_statement acts rs) \<longrightarrow> tables_apply legacy args)"
proof -
  have match: "ActionSet_Match (NewActionSet acts) a = ActionSet_Match acts a" for a
    by (rule ActionSet_Match_cong) (rule acts.make_set)
  have ne: "NewActionSet acts \<noteq> []" using acts.make_set [of acts] assms(2) by (metis set_empty)
  have res: "rs = [] \<or> rs_matches m rs r" if "wf_values m" for m r
    using assms(3) star_matches by (auto simp: rs_matches_iff [OF that])
  obtain rsc w where rr: "request_resource legacy Allow args = (rsc, w)" by fastforce
  have cov: "covers (canned_statement acts rs) (a_Action args) \<longleftrightarrow> ActionSet_Match acts (a_Action args)"
    by (simp add: covers_def match ne ActionSet_Match_def [of "[]"])
  have rest: "resources_hold (canned_statement acts rs) (a_ConditionValues args) rsc' w"
    "conds_hold L (a_ConditionValues args) (Conditions (canned_statement acts rs))" for rsc'
    using res [OF assms(1)] by (auto simp: resources_hold_def conds_hold_def Functions_Evaluate_def)
  show ?thesis
    using table_resource_given [OF rr, of "canned_statement acts rs"] rest
    by (auto simp: check_spec_def rr cov split: option.splits)
qed

text \<open>A policy of canned statements decides by them alone.\<close>

lemma canned_policy_decides:
  assumes "wf_args args" "\<forall>st\<in>set sts. Effect st = Allow"
  shows "Policy_IsAllowed L legacy (canned_policy sts) args =
    Some (passes args \<or> (\<exists>st\<in>set sts. check_spec L legacy st args))"
proof -
  have "applies L legacy args Deny (canned_policy sts) = False" using assms(2) by (auto simp: applies_def)
  moreover have "applies L legacy args Allow (canned_policy sts) \<longleftrightarrow> (\<exists>st\<in>set sts. check_spec L legacy st args)"
    using assms(2) by (auto simp: applies_wf [OF assms(1)])
  ultimately show ?thesis
    by (simp add: Policy_IsAllowed_def Policy_Decide_eq [OF assms(1)] decide_spec_def passes_def)
qed

lemma canned_decides:
  assumes "wf_args args" "acts \<noteq> []" "rs \<in> {[], [NewResource ''*''], [NewS3TablesResource ''*'']}"
  shows "Policy_IsAllowed L legacy (canned_policy [canned_statement acts rs]) args =
    Some (passes args \<or> ActionSet_Match acts (a_Action args) \<and>
      (list_ex TableAction_IsValid acts \<longrightarrow> tables_apply legacy args))"
proof -
  have "Statement_isTable (canned_statement acts rs) = list_ex TableAction_IsValid acts"
    by (simp add: Statement_isTable_def list_ex_iff acts.make_set)
  then show ?thesis
    by (subst canned_policy_decides [OF assms(1)]) (simp_all add: canned_check [OF assms])
qed

text \<open>The actions a policy lists, and those they imply.\<close>

definition implied_by :: "action \<Rightarrow> action set" where
  "implied_by a = (case map_of implicitActions a of None \<Rightarrow> {} | Some im \<Rightarrow> set im)"

definition canned_actions :: "policy \<Rightarrow> action set" where
  "canned_actions p = (\<Union>st\<in>set (Statements p). set (Actions st))"

definition granted_actions :: "policy \<Rightarrow> action set" where
  "granted_actions p = canned_actions p \<union> (\<Union>a\<in>canned_actions p. implied_by a)"

lemma canned_actions_one [simp]: "canned_actions (canned_policy [canned_statement acts rs]) = set acts"
  by (simp add: canned_actions_def acts.make_set)

text \<open>Actions without wildcards match themselves and those they imply.\<close>

lemma match_listed:
  assumes "list_all (\<lambda>r. \<not> Has r) acts"
  shows "ActionSet_Match acts a \<longleftrightarrow> a \<in> granted_actions (canned_policy [canned_statement acts rs])"
  using assms
  by (auto simp: ActionSet_Match_eq granted_actions_def implied_by_def list_all_iff wild_ref_exact split: option.splits)

lemma implicit_prefixes: "\<forall>r\<in>fst ` set implicitActions. has_prefix r ''s3tables:'' \<or> r = GetObjectVersionAction"
  by code_simp

lemma no_implicit:
  assumes "\<not> has_prefix r ''s3tables:''" "r \<noteq> GetObjectVersionAction"
  shows "map_of implicitActions r = None"
  using assms implicit_prefixes by (simp add: map_of_eq_None_iff) blast

lemma nothing_implied:
  assumes "\<forall>r\<in>set acts. \<not> has_prefix r ''s3tables:'' \<and> r \<noteq> GetObjectVersionAction"
  shows "granted_actions (canned_policy [canned_statement acts rs]) = set acts"
  using assms no_implicit by (auto simp: granted_actions_def implied_by_def)

lemma not_tables:
  assumes "\<forall>r\<in>set acts. \<not> has_prefix r ''s3tables:''"
  shows "\<not> list_ex TableAction_IsValid acts"
  using assms action_prefixes(4) by (auto simp: list_ex_iff TableAction_IsValid_def)

text \<open>Policies that list actions without wildcards that imply no other, none of them of tables.\<close>

lemma listed_decides:
  assumes "wf_args args" "acts \<noteq> []" "rs \<in> {[], [NewResource ''*'']}"
    and "list_all (\<lambda>r. \<not> Has r \<and> \<not> has_prefix r ''s3tables:'' \<and> r \<noteq> GetObjectVersionAction) acts"
  shows "Policy_IsAllowed L legacy (canned_policy [canned_statement acts rs]) args =
    Some (passes args \<or> a_Action args \<in> set acts)"
proof -
  have a: "\<forall>r\<in>set acts. \<not> has_prefix r ''s3tables:'' \<and> r \<noteq> GetObjectVersionAction"
    "\<forall>r\<in>set acts. \<not> has_prefix r ''s3tables:''" "list_all (\<lambda>r. \<not> Has r) acts"
    using assms(4) by (auto simp: list_all_iff)
  have "rs \<in> {[], [NewResource ''*''], [NewS3TablesResource ''*'']}" using assms(3) by blast
  from canned_decides [OF assms(1,2) this] show ?thesis
    using not_tables [OF a(2)] match_listed [OF a(3), of "a_Action args" rs] nothing_implied [OF a(1), of rs] by simp
qed

lemma wildcard_admin_actions: "list_all (\<lambda>r. Has r \<longrightarrow> r = AllAdminActions) SupportedAdminActions"
  by (simp add: SupportedAdminActions_def Has_eq)

lemma admin_listed:
  assumes "list_all (\<lambda>a. a \<in> set SupportedAdminActions) acts" "AllAdminActions \<notin> set acts"
  shows "list_all (\<lambda>r. \<not> Has r \<and> \<not> has_prefix r ''s3tables:'' \<and> r \<noteq> GetObjectVersionAction) acts"
proof -
  have "\<not> has_prefix r ''s3tables:'' \<and> r \<noteq> GetObjectVersionAction \<and> \<not> Has r" if "r \<in> set acts" for r
  proof -
    have s: "r \<in> set SupportedAdminActions" using assms(1) that by (simp add: list_all_iff)
    then have p: "has_prefix r ''admin:''" using admin_actions_prefix by (simp add: adminActionPrefix_def)
    have "\<not> has_prefix GetObjectVersionAction ''admin:''" by code_simp
    moreover have "\<not> Has r" using s wildcard_admin_actions [unfolded list_all_iff] assms(2) that by blast
    ultimately show ?thesis using p by (auto simp: has_prefix_iff)
  qed
  then show ?thesis by (simp add: list_all_iff)
qed

lemma admin_canned_decides:
  assumes "wf_args args"
  shows "Policy_IsAllowed L legacy canned_diagnostics args = Some (passes args \<or> a_Action args \<in> canned_actions canned_diagnostics)"
    "Policy_IsAllowed L legacy canned_iamAdmin args = Some (passes args \<or> a_Action args \<in> canned_actions canned_iamAdmin)"
    "Policy_IsAllowed L legacy canned_infraAdmin args = Some (passes args \<or> a_Action args \<in> canned_actions canned_infraAdmin)"
proof -
  note sup = canned_admin_actions [unfolded split_list_all canned_diagnostics_def canned_iamAdmin_def
      canned_infraAdmin_def canned_unfold star_resources]
  show "Policy_IsAllowed L legacy canned_diagnostics args = Some (passes args \<or> a_Action args \<in> canned_actions canned_diagnostics)"
    "Policy_IsAllowed L legacy canned_iamAdmin args = Some (passes args \<or> a_Action args \<in> canned_actions canned_iamAdmin)"
    "Policy_IsAllowed L legacy canned_infraAdmin args = Some (passes args \<or> a_Action args \<in> canned_actions canned_infraAdmin)"
    unfolding canned_diagnostics_def canned_iamAdmin_def canned_infraAdmin_def star_resources canned_actions_one
    by (rule listed_decides [OF assms]; (rule admin_listed)?; simp add: sup)+
qed

text \<open>The policies on tables list actions of tables only.\<close>

lemma tables_decides:
  assumes "wf_args args" "list_all (\<lambda>a. a \<in> set SupportedTableActions) acts" "acts \<noteq> []"
  shows "Policy_IsAllowed L legacy (canned_policy [canned_statement acts [NewS3TablesResource ''*'']]) args =
    Some (passes args \<or> ActionSet_Match acts (a_Action args) \<and> tables_apply legacy args)"
proof -
  have "list_ex TableAction_IsValid acts" using assms(2,3) by (cases acts) (auto simp: TableAction_IsValid_def)
  then show ?thesis by (subst canned_decides [OF assms(1,3)]) simp_all
qed

lemma listed_tables_decides:
  assumes "wf_args args" "p = canned_policy [canned_statement acts [NewS3TablesResource ''*'']]" "acts \<noteq> []"
    and "list_all (\<lambda>st. list_all (\<lambda>a. a \<in> set SupportedTableActions) (Actions st)) (Statements p)"
    and "list_all (\<lambda>r. \<not> Has r) (concat (map Actions (Statements p)))"
  shows "Policy_IsAllowed L legacy p args = Some (passes args \<or> a_Action args \<in> granted_actions p \<and> tables_apply legacy args)"
proof -
  have a: "list_all (\<lambda>a. a \<in> set SupportedTableActions) acts" "list_all (\<lambda>r. \<not> Has r) acts"
    using assms(4,5) by (simp_all add: assms(2) list_all_NewActionSet)
  show ?thesis
    unfolding assms(2)
    using tables_decides [OF assms(1) a(1) assms(3), of L legacy]
      match_listed [OF a(2), of "a_Action args" "[NewS3TablesResource ''*'']"]
    by simp
qed

text \<open>A namespace with a star.\<close>

lemma star_of_namespace:
  "wild_ref False (pre @ ''*'') a \<longleftrightarrow> has_prefix a pre" if "\<not> Has pre"
  using that
proof (induction pre arbitrary: a)
  case (Cons c pre)
  then show ?case by (cases a) (auto simp: Has_eq has_prefix_def)
qed (simp add: wild_ref_star_only has_prefix_def)

lemma star_match:
  assumes "\<not> Has pre" "map_of implicitActions (pre @ ''*'') = None"
  shows "ActionSet_Match [pre @ ''*''] a \<longleftrightarrow> has_prefix a pre"
  using star_of_namespace [OF assms(1)] assms(2) by (simp add: ActionSet_Match_eq)

lemma namespace_stars:
  "ActionSet_Match [AllActions] a \<longleftrightarrow> has_prefix a ''s3:''"
  "ActionSet_Match [AllAdminActions] a \<longleftrightarrow> has_prefix a ''admin:''"
  "ActionSet_Match [AllKMSActions] a \<longleftrightarrow> has_prefix a ''kms:''"
  "ActionSet_Match [AllS3TablesActions] a \<longleftrightarrow> has_prefix a ''s3tables:'' \<or> a \<in> implied_by AllS3TablesActions"
proof -
  have n: "map_of implicitActions (''s3:'' @ ''*'') = None" "map_of implicitActions (''admin:'' @ ''*'') = None"
    "map_of implicitActions (''kms:'' @ ''*'') = None" "\<not> Has ''s3:''" "\<not> Has ''admin:''" "\<not> Has ''kms:''" "\<not> Has ''s3tables:''"
    by (simp_all add: no_implicit has_prefix_def Has_eq)
  show "ActionSet_Match [AllActions] a \<longleftrightarrow> has_prefix a ''s3:''" using star_match [OF n(4) n(1)] by simp
  show "ActionSet_Match [AllAdminActions] a \<longleftrightarrow> has_prefix a ''admin:''" using star_match [OF n(5) n(2)] by simp
  show "ActionSet_Match [AllKMSActions] a \<longleftrightarrow> has_prefix a ''kms:''" using star_match [OF n(6) n(3)] by simp
  show "ActionSet_Match [AllS3TablesActions] a \<longleftrightarrow> has_prefix a ''s3tables:'' \<or> a \<in> implied_by AllS3TablesActions"
    using star_of_namespace [OF n(7), of a] by (auto simp: ActionSet_Match_eq implied_by_def split: option.splits)
qed

lemma implied_by_all_tables: "a \<in> implied_by AllS3TablesActions \<Longrightarrow> has_prefix a ''s3:''"
proof -
  have "\<forall>im\<in>set (the (map_of implicitActions AllS3TablesActions)). has_prefix im ''s3:''" by code_simp
  moreover have "map_of implicitActions AllS3TablesActions \<noteq> None" by code_simp
  ultimately show "a \<in> implied_by AllS3TablesActions \<Longrightarrow> has_prefix a ''s3:''" by (auto simp: implied_by_def)
qed

lemma consoleAdmin_decides:
  assumes "wf_args args"
  shows "Policy_IsAllowed L legacy canned_consoleAdmin args =
    Some (passes args \<or> has_prefix (a_Action args) ''admin:'' \<or> has_prefix (a_Action args) ''kms:'' \<or>
      has_prefix (a_Action args) ''s3:'' \<or> has_prefix (a_Action args) ''s3tables:'' \<and> tables_apply legacy args)"
proof -
  have nt: "\<not> Statement_isTable (canned_statement [AllAdminActions] [])" "\<not> Statement_isTable (canned_statement [AllKMSActions] [])"
    "\<not> Statement_isTable (canned_statement [AllActions] [NewResource ''*''])"
    "Statement_isTable (canned_statement [AllS3TablesActions] [NewS3TablesResource ''*''])"
    using not_tables [of "[AllAdminActions]"] not_tables [of "[AllKMSActions]"] not_tables [of "[AllActions]"] canned_all_actions(4)
    by (simp_all add: Statement_isTable_def list_ex_iff acts.make_set has_prefix_def TableAction_IsValid_def)
  have c: "check_spec L legacy (canned_statement [AllAdminActions] []) args \<longleftrightarrow> has_prefix (a_Action args) ''admin:''"
    "check_spec L legacy (canned_statement [AllKMSActions] []) args \<longleftrightarrow> has_prefix (a_Action args) ''kms:''"
    "check_spec L legacy (canned_statement [AllActions] [NewResource ''*'']) args \<longleftrightarrow> has_prefix (a_Action args) ''s3:''"
    "check_spec L legacy (canned_statement [AllS3TablesActions] [NewS3TablesResource ''*'']) args \<longleftrightarrow>
      (has_prefix (a_Action args) ''s3tables:'' \<or> a_Action args \<in> implied_by AllS3TablesActions) \<and> tables_apply legacy args"
    by (subst canned_check [OF assms]; simp add: nt namespace_stars)+
  show ?thesis
    unfolding canned_consoleAdmin_def star_resources
    by (subst canned_policy_decides [OF assms]) (use c implied_by_all_tables in \<open>auto\<close>)
qed

text \<open>No action of the two administration policies is in both.\<close>

lemma admin_tiers_disjoint: "canned_actions canned_iamAdmin \<inter> canned_actions canned_infraAdmin = {}"
  by (simp add: canned_iamAdmin_def canned_infraAdmin_def)

lemma canned_tables_exact: "list_all (\<lambda>r. \<not> Has r)
     (concat (map Actions (Statements canned_tablesReadWrite @ Statements canned_tablesReadOnly)))"
  by code_simp

text \<open>
  C23: what the eleven canned policies grant, whatever the bucket and the object are, to a request without
  empty value lists. A deny-only request and one of the owner pass all of them. To the others \<open>readonly\<close>,
  \<open>consolereadonly\<close>, \<open>writeonly\<close>, \<open>diagnostics\<close>, \<open>iamAdmin\<close> and \<open>infraAdmin\<close> grant exactly the actions
  they list and \<open>readwrite\<close> every action of the namespace \<open>s3:\<close>; the three policies on tables grant what they
  list or imply (\<open>tablesAdmin\<close> the namespace \<open>s3tables:\<close>), but an action that is none of tables only on a
  table; \<open>consoleAdmin\<close> grants the namespaces \<open>admin:\<close>, \<open>kms:\<close>, \<open>s3:\<close> and \<open>s3tables:\<close> and nothing else. The
  duties of \<open>iamAdmin\<close> and \<open>infraAdmin\<close> are separate.
\<close>

theorem canned_policies_grant:
  assumes "wf_args args"
  shows "Policy_IsAllowed L legacy canned_readwrite args = Some (passes args \<or> has_prefix (a_Action args) ''s3:'') \<and>
    Policy_IsAllowed L legacy canned_readonly args =
      Some (passes args \<or> a_Action args \<in> {GetBucketLocationAction, GetObjectAction}) \<and>
    Policy_IsAllowed L legacy canned_consolereadonly args =
      Some (passes args \<or> a_Action args \<in> {GetBucketLocationAction, GetObjectAction, ListBucketAction}) \<and>
    Policy_IsAllowed L legacy canned_writeonly args = Some (passes args \<or> a_Action args = PutObjectAction) \<and>
    Policy_IsAllowed L legacy canned_diagnostics args = Some (passes args \<or> a_Action args \<in> canned_actions canned_diagnostics) \<and>
    Policy_IsAllowed L legacy canned_iamAdmin args = Some (passes args \<or> a_Action args \<in> canned_actions canned_iamAdmin) \<and>
    Policy_IsAllowed L legacy canned_infraAdmin args = Some (passes args \<or> a_Action args \<in> canned_actions canned_infraAdmin) \<and>
    canned_actions canned_iamAdmin \<inter> canned_actions canned_infraAdmin = {} \<and>
    Policy_IsAllowed L legacy canned_tablesAdmin args =
      Some (passes args \<or> (has_prefix (a_Action args) ''s3tables:'' \<or> a_Action args \<in> implied_by AllS3TablesActions) \<and>
        tables_apply legacy args) \<and>
    Policy_IsAllowed L legacy canned_tablesReadWrite args =
      Some (passes args \<or> a_Action args \<in> granted_actions canned_tablesReadWrite \<and> tables_apply legacy args) \<and>
    Policy_IsAllowed L legacy canned_tablesReadOnly args =
      Some (passes args \<or> a_Action args \<in> granted_actions canned_tablesReadOnly \<and> tables_apply legacy args) \<and>
    Policy_IsAllowed L legacy canned_consoleAdmin args =
      Some (passes args \<or> has_prefix (a_Action args) ''admin:'' \<or> has_prefix (a_Action args) ''kms:'' \<or>
        has_prefix (a_Action args) ''s3:'' \<or> has_prefix (a_Action args) ''s3tables:'' \<and> tables_apply legacy args)"
proof (intro conjI admin_canned_decides [OF assms] admin_tiers_disjoint consoleAdmin_decides [OF assms])
  show "Policy_IsAllowed L legacy canned_readwrite args = Some (passes args \<or> has_prefix (a_Action args) ''s3:'')"
    unfolding canned_readwrite_def star_resources
    by (subst canned_decides [OF assms]) (simp_all add: namespace_stars TableAction_IsValid_def SupportedTableActions_def)
  show "Policy_IsAllowed L legacy canned_readonly args =
      Some (passes args \<or> a_Action args \<in> {GetBucketLocationAction, GetObjectAction})"
    "Policy_IsAllowed L legacy canned_consolereadonly args =
      Some (passes args \<or> a_Action args \<in> {GetBucketLocationAction, GetObjectAction, ListBucketAction})"
    "Policy_IsAllowed L legacy canned_writeonly args = Some (passes args \<or> a_Action args = PutObjectAction)"
    unfolding canned_readonly_def canned_consolereadonly_def canned_writeonly_def star_resources
    by (subst listed_decides [OF assms]; simp add: has_prefix_def Has_eq)+
  note sup = canned_table_actions [unfolded split_list_all]
  show "Policy_IsAllowed L legacy canned_tablesAdmin args =
      Some (passes args \<or> (has_prefix (a_Action args) ''s3tables:'' \<or> a_Action args \<in> implied_by AllS3TablesActions) \<and>
        tables_apply legacy args)"
    using tables_decides [OF assms, of "[AllS3TablesActions]"] canned_all_actions(4)
    by (simp add: canned_tablesAdmin_def star_resources namespace_stars)
  note ex = canned_tables_exact [unfolded map_append concat_append split_list_all]
  show "Policy_IsAllowed L legacy canned_tablesReadWrite args =
      Some (passes args \<or> a_Action args \<in> granted_actions canned_tablesReadWrite \<and> tables_apply legacy args)"
    by (rule listed_tables_decides [OF assms canned_tablesReadWrite_def [unfolded star_resources]])
      (simp, rule sup [THEN conjunct2, THEN conjunct1], rule ex [THEN conjunct1])
  show "Policy_IsAllowed L legacy canned_tablesReadOnly args =
      Some (passes args \<or> a_Action args \<in> granted_actions canned_tablesReadOnly \<and> tables_apply legacy args)"
    by (rule listed_tables_decides [OF assms canned_tablesReadOnly_def [unfolded star_resources]])
      (simp, rule sup [THEN conjunct2, THEN conjunct2], rule ex [THEN conjunct2])
qed

end
