(* ===== verification/Parallel.thy ===== *)
theory Parallel
  imports PolicyFacts "HOL-Library.Multiset"
begin

text \<open>
  \<open>IsAllowedPar\<close> of \<open>policy/policy.go\<close>: several policies decided by worker goroutines, as a step
  relation over the shared state, in which any interleaving of the workers and the main goroutine is
  a sequence of steps.
\<close>

section \<open>The state\<close>

text \<open>
  A worker is at the \<open>range jobs\<close> receive (\<open>Idle\<close>), before the first \<open>select\<close> with a job taken,
  past it, at the second \<open>select\<close> with its result, or has returned. The main goroutine is in the
  loop over \<open>numJobs\<close>, with the results received so far counted and \<open>gotAllow\<close>, at \<open>wg.Wait()\<close>
  with the value it is about to return, or has returned.
\<close>

datatype worker = Idle | Taken nat | Checked nat | Computed decision | Exited

datatype main_pc = Collecting nat bool | Waiting bool | Returned bool

record par_state =
  jobs :: "nat list"
  workers :: "worker list"
  resultCh :: "decision list"
  cancelled :: bool
  main :: main_pc

definition numPoliciesPerWorker :: nat where
  "numPoliciesPerWorker = 25"

definition numJobs :: "policy list \<Rightarrow> nat" where
  "numJobs policies = (length policies + numPoliciesPerWorker - 1) div numPoliciesPerWorker"

text \<open>\<open>gomaxprocs\<close> is \<open>runtime.GOMAXPROCS(0)\<close>, which is at least one.\<close>

definition par_init :: "nat \<Rightarrow> policy list \<Rightarrow> par_state" where
  "par_init gomaxprocs policies =
     \<lparr>jobs = map (\<lambda>i. i * numPoliciesPerWorker) [0..<numJobs policies],
      workers = replicate (min gomaxprocs (numJobs policies)) Idle,
      resultCh = [], cancelled = False, main = Collecting 0 False\<rparr>"

text \<open>The loop of a worker over the policies of its job.\<close>

fun batch_loop :: "ext_lib \<Rightarrow> bool \<Rightarrow> args \<Rightarrow> decision \<Rightarrow> policy list \<Rightarrow> decision may_panic" where
  "batch_loop L legacy args res [] = Some res"
| "batch_loop L legacy args res (p # ps) =
     (case Policy_Decide L legacy p args of
        None \<Rightarrow> None
      | Some d \<Rightarrow>
          (if d = DenyDecision then Some DenyDecision
           else if d = AllowDecision then batch_loop L legacy args AllowDecision ps
           else batch_loop L legacy args res ps))"

definition job_slice :: "policy list \<Rightarrow> nat \<Rightarrow> policy list" where
  "job_slice policies i =
     (let maxJ = min (i + numPoliciesPerWorker) (length policies)
      in take (maxJ - i) (drop i policies))"

section \<open>Steps\<close>

inductive par_step ::
  "ext_lib \<Rightarrow> bool \<Rightarrow> policy list \<Rightarrow> args \<Rightarrow> par_state \<Rightarrow> par_state \<Rightarrow> bool"
  for L legacy policies args where
  take_job: "w < length (workers s) \<Longrightarrow> workers s ! w = Idle \<Longrightarrow> jobs s = i # js \<Longrightarrow>
    par_step L legacy policies args s (s\<lparr>jobs := js, workers := (workers s)[w := Taken i]\<rparr>)"
| no_job: "w < length (workers s) \<Longrightarrow> workers s ! w = Idle \<Longrightarrow> jobs s = [] \<Longrightarrow>
    par_step L legacy policies args s (s\<lparr>workers := (workers s)[w := Exited]\<rparr>)"
| taken_cancelled: "w < length (workers s) \<Longrightarrow> workers s ! w = Taken i \<Longrightarrow> cancelled s \<Longrightarrow>
    par_step L legacy policies args s (s\<lparr>workers := (workers s)[w := Exited]\<rparr>)"
| taken_default: "w < length (workers s) \<Longrightarrow> workers s ! w = Taken i \<Longrightarrow> \<not> cancelled s \<Longrightarrow>
    par_step L legacy policies args s (s\<lparr>workers := (workers s)[w := Checked i]\<rparr>)"
| compute: "w < length (workers s) \<Longrightarrow> workers s ! w = Checked i \<Longrightarrow>
    batch_loop L legacy args NoDecision (job_slice policies i) = Some res \<Longrightarrow>
    par_step L legacy policies args s (s\<lparr>workers := (workers s)[w := Computed res]\<rparr>)"
| send: "w < length (workers s) \<Longrightarrow> workers s ! w = Computed res \<Longrightarrow>
    length (resultCh s) < length policies \<Longrightarrow>
    par_step L legacy policies args s
      (s\<lparr>resultCh := resultCh s @ [res], workers := (workers s)[w := Idle]\<rparr>)"
| send_cancelled: "w < length (workers s) \<Longrightarrow> workers s ! w = Computed res \<Longrightarrow> cancelled s \<Longrightarrow>
    par_step L legacy policies args s (s\<lparr>workers := (workers s)[w := Exited]\<rparr>)"
| receive_deny: "main s = Collecting n got \<Longrightarrow> n < numJobs policies \<Longrightarrow>
    resultCh s = DenyDecision # rs \<Longrightarrow>
    par_step L legacy policies args s
      (s\<lparr>resultCh := rs, cancelled := True, main := Waiting False\<rparr>)"
| receive: "main s = Collecting n got \<Longrightarrow> n < numJobs policies \<Longrightarrow>
    resultCh s = res # rs \<Longrightarrow> res \<noteq> DenyDecision \<Longrightarrow>
    par_step L legacy policies args s
      (s\<lparr>resultCh := rs, main := Collecting (Suc n) (if res = AllowDecision then True else got)\<rparr>)"
| collected: "main s = Collecting n got \<Longrightarrow> n = numJobs policies \<Longrightarrow>
    par_step L legacy policies args s (s\<lparr>main := Waiting got\<rparr>)"
| waited: "main s = Waiting b \<Longrightarrow> list_all (\<lambda>w. w = Exited) (workers s) \<Longrightarrow>
    par_step L legacy policies args s (s\<lparr>main := Returned b\<rparr>)"

inductive_cases par_stepE: "par_step L legacy policies args s t"

text \<open>The values \<open>IsAllowedPar\<close> can return.\<close>

definition IsAllowedPar ::
  "ext_lib \<Rightarrow> bool \<Rightarrow> nat \<Rightarrow> policy list \<Rightarrow> args \<Rightarrow> bool \<Rightarrow> bool" where
  "IsAllowedPar L legacy gomaxprocs policies args b \<longleftrightarrow>
     (case policies of
        [] \<Rightarrow> b = False
      | [p] \<Rightarrow> Policy_IsAllowed L legacy p args = Some b
      | _ \<Rightarrow> (\<exists>s. (par_step L legacy policies args)\<^sup>*\<^sup>* (par_init gomaxprocs policies) s \<and>
                 main s = Returned b))"

section \<open>Every run ends\<close>

text \<open>A measure that every step decreases.\<close>

fun worker_weight :: "worker \<Rightarrow> nat" where
  "worker_weight Idle = 1"
| "worker_weight (Taken i) = 5"
| "worker_weight (Checked i) = 4"
| "worker_weight (Computed r) = 3"
| "worker_weight Exited = 0"

fun main_weight :: "nat \<Rightarrow> main_pc \<Rightarrow> nat" where
  "main_weight m (Collecting n got) = m - n + 2"
| "main_weight m (Waiting b) = 1"
| "main_weight m (Returned b) = 0"

definition par_measure :: "policy list \<Rightarrow> par_state \<Rightarrow> nat" where
  "par_measure policies s =
     5 * length (jobs s) + sum_list (map worker_weight (workers s)) + length (resultCh s) +
     main_weight (numJobs policies) (main s)"

lemma par_step_decreases:
  assumes "par_step L legacy policies args s t"
  shows "par_measure policies t < par_measure policies s"
proof -
  have upd: "sum_list (map worker_weight ((workers s)[w := x])) + worker_weight (workers s ! w) =
      sum_list (map worker_weight (workers s)) + worker_weight x" if "w < length (workers s)" for w x
    using that by (rule sum_list_update)
  from assms show ?thesis
  proof cases
    case (take_job w i js)
    with upd [of w "Taken i"] show ?thesis by (simp add: par_measure_def)
  next
    case (no_job w)
    with upd [of w Exited] show ?thesis by (simp add: par_measure_def)
  next
    case (taken_cancelled w i)
    with upd [of w Exited] show ?thesis by (simp add: par_measure_def)
  next
    case (taken_default w i)
    with upd [of w "Checked i"] show ?thesis by (simp add: par_measure_def)
  next
    case (compute w i res)
    with upd [of w "Computed res"] show ?thesis by (simp add: par_measure_def)
  next
    case (send w res)
    with upd [of w Idle] show ?thesis by (simp add: par_measure_def)
  next
    case (send_cancelled w res)
    with upd [of w Exited] show ?thesis by (simp add: par_measure_def)
  qed (simp_all add: par_measure_def)
qed

section \<open>The invariant\<close>

text \<open>The decision of a job, on requests that cannot panic.\<close>

definition summary :: "decision set \<Rightarrow> decision" where
  "summary ds = (if DenyDecision \<in> ds then DenyDecision
     else if AllowDecision \<in> ds then AllowDecision else NoDecision)"

definition job_decision :: "ext_lib \<Rightarrow> bool \<Rightarrow> policy list \<Rightarrow> args \<Rightarrow> nat \<Rightarrow> decision" where
  "job_decision L legacy policies args i =
     summary ((\<lambda>p. decide_spec L legacy p args) ` set (job_slice policies i))"

lemma batch_loop_eq:
  assumes "wf_args args" "\<forall>p\<in>set ps. index_ok p" "res \<noteq> DenyDecision"
  shows "batch_loop L legacy args res ps = Some (summary (insert res ((\<lambda>p. decide_spec L legacy p args) ` set ps)))"
  using assms(2,3)
proof (induction ps arbitrary: res)
  case Nil
  then show ?case by (cases res) (auto simp: summary_def)
next
  case (Cons p ps)
  then show ?case
    using decision.exhaust [of "decide_spec L legacy p args"]
    by (cases res) (auto simp: Policy_Decide_eq [OF assms(1)] summary_def)
qed

lemma set_job_slice: "set (job_slice policies i) \<subseteq> set policies"
  by (auto simp: job_slice_def Let_def dest: in_set_takeD in_set_dropD)

lemma batch_loop_job:
  assumes "wf_args args" "\<forall>p\<in>set policies. index_ok p"
  shows "batch_loop L legacy args NoDecision (job_slice policies i) = Some (job_decision L legacy policies args i)"
proof -
  have "\<forall>p\<in>set (job_slice policies i). index_ok p" using assms(2) set_job_slice by blast
  from batch_loop_eq [OF assms(1) this, of NoDecision L legacy] show ?thesis
    by (auto simp: job_decision_def summary_def)
qed

fun in_flight :: "(nat \<Rightarrow> decision) \<Rightarrow> worker \<Rightarrow> decision multiset" where
  "in_flight d (Taken i) = {#d i#}"
| "in_flight d (Checked i) = {#d i#}"
| "in_flight d (Computed r) = {#r#}"
| "in_flight d Idle = {#}"
| "in_flight d Exited = {#}"

text \<open>
  While the main goroutine collects, every job's decision is in exactly one place: received, in the
  channel, with a worker, or still to be computed. Afterwards the value to return is settled.
\<close>

definition all_decisions :: "(nat \<Rightarrow> decision) \<Rightarrow> policy list \<Rightarrow> decision multiset" where
  "all_decisions d policies =
     mset (map d (map (\<lambda>i. i * numPoliciesPerWorker) [0..<numJobs policies]))"

definition verdict :: "(nat \<Rightarrow> decision) \<Rightarrow> policy list \<Rightarrow> bool" where
  "verdict d policies \<longleftrightarrow>
     DenyDecision \<notin># all_decisions d policies \<and> AllowDecision \<in># all_decisions d policies"

definition pending :: "(nat \<Rightarrow> decision) \<Rightarrow> par_state \<Rightarrow> decision multiset" where
  "pending d s = mset (resultCh s) + sum_list (map (in_flight d) (workers s)) + mset (map d (jobs s))"

definition main_inv :: "(nat \<Rightarrow> decision) \<Rightarrow> policy list \<Rightarrow> par_state \<Rightarrow> bool" where
  "main_inv d policies s \<longleftrightarrow>
     (case main s of
        Collecting n got \<Rightarrow>
          \<not> cancelled s \<and> (Exited \<in> set (workers s) \<longrightarrow> jobs s = []) \<and>
          (\<exists>received. size received = n \<and> (got \<longleftrightarrow> AllowDecision \<in># received) \<and>
             DenyDecision \<notin># received \<and> received + pending d s = all_decisions d policies)
      | Waiting b \<Rightarrow> b = verdict d policies
      | Returned b \<Rightarrow> b = verdict d policies)"

definition cap_inv :: "(nat \<Rightarrow> decision) \<Rightarrow> policy list \<Rightarrow> par_state \<Rightarrow> bool" where
  "cap_inv d policies s \<longleftrightarrow> size (pending d s) \<le> numJobs policies \<and> workers s \<noteq> []"

lemma pending_update:
  assumes "w < length (workers s)"
  shows "sum_list (map (in_flight d) ((workers s)[w := x])) + in_flight d (workers s ! w) =
    sum_list (map (in_flight d) (workers s)) + in_flight d x"
  using assms by (rule sum_list_update)

lemma pending_drop:
  assumes "w < length (workers s)"
  shows "sum_list (map (in_flight d) ((workers s)[w := Exited])) \<subseteq># sum_list (map (in_flight d) (workers s))"
  using pending_update [OF assms, of d Exited] by (metis in_flight.simps(5) add_0_right mset_subset_eq_add_left)

text \<open>A worker's step moves a decision, or drops it after the cancellation.\<close>

lemma worker_step_pending:
  assumes "wf_args args" "\<forall>p\<in>set policies. index_ok p"
    and "par_step L legacy policies args s t" "main t = main s"
  defines "d \<equiv> job_decision L legacy policies args"
  shows "pending d t \<subseteq># pending d s \<and> (cancelled s \<or> pending d t = pending d s) \<and>
    cancelled t = cancelled s \<and>
    (Exited \<in> set (workers t) \<and> \<not> cancelled s \<longrightarrow> Exited \<in> set (workers s) \<or> jobs s = []) \<and>
    (jobs s = [] \<longrightarrow> jobs t = []) \<and> length (workers t) = length (workers s)"
  using assms(3)
proof cases
  case (take_job w i js)
  with pending_update [of w s d "Taken i"] show ?thesis
    by (auto simp: pending_def dest: set_update_subset_insert [THEN subsetD])
next
  case (no_job w)
  with pending_update [of w s d Exited] show ?thesis
    by (auto simp: pending_def)
next
  case (taken_cancelled w i)
  with pending_drop [of w s d] show ?thesis
    by (simp add: pending_def)
next
  case (taken_default w i)
  with pending_update [of w s d "Checked i"] show ?thesis
    by (auto simp: pending_def dest: set_update_subset_insert [THEN subsetD])
next
  case (compute w i res)
  then have "res = d i"
    using batch_loop_job [OF assms(1,2), of L legacy i] by (simp add: d_def)
  with compute pending_update [of w s d "Computed res"] show ?thesis
    by (auto simp: pending_def dest: set_update_subset_insert [THEN subsetD])
next
  case (send w res)
  with pending_update [of w s d Idle] show ?thesis
    by (auto simp: pending_def dest: set_update_subset_insert [THEN subsetD])
next
  case (send_cancelled w res)
  with pending_drop [of w s d] show ?thesis
    by (simp add: pending_def)
qed (use assms(4) in \<open>auto split: if_splits\<close>)

lemma size_all_decisions [simp]: "size (all_decisions d policies) = numJobs policies"
  by (simp add: all_decisions_def)

lemma main_inv_collecting:
  "main s = Collecting n got \<Longrightarrow> main_inv d policies s \<longleftrightarrow>
     \<not> cancelled s \<and> (Exited \<in> set (workers s) \<longrightarrow> jobs s = []) \<and>
     (\<exists>received. size received = n \<and> (got \<longleftrightarrow> AllowDecision \<in># received) \<and>
        DenyDecision \<notin># received \<and> received + pending d s = all_decisions d policies)"
  by (simp add: main_inv_def)

lemma par_step_inv:
  assumes "wf_args args" "\<forall>p\<in>set policies. index_ok p"
    and "par_step L legacy policies args s t"
  defines "d \<equiv> job_decision L legacy policies args"
  assumes inv: "main_inv d policies s" and cap: "cap_inv d policies s"
  shows "main_inv d policies t \<and> cap_inv d policies t"
proof (cases "main t = main s")
  case True
  note step = worker_step_pending [OF assms(1-3) True, folded d_def]
  have "size (pending d t) \<le> size (pending d s)"
    using step by (simp add: size_mset_mono)
  with cap step have "cap_inv d policies t"
    by (auto simp: cap_inv_def)
  moreover have "main_inv d policies t"
    using inv step True by (cases "main s") (auto simp: main_inv_def)
  ultimately show ?thesis by simp
next
  case False
  from assms(3) show ?thesis
  proof cases
    case (receive_deny n got rs)
    from inv obtain received where "received + pending d s = all_decisions d policies"
      using main_inv_collecting [OF receive_deny(2)] by blast
    then have "DenyDecision \<in># all_decisions d policies"
      using receive_deny(4) by (auto simp: pending_def simp flip: \<open>received + pending d s = _\<close>)
    with receive_deny cap show ?thesis
      by (auto simp: main_inv_def verdict_def cap_inv_def pending_def)
  next
    case (receive n got res rs)
    from inv obtain received where rc: "size received = n" "got \<longleftrightarrow> AllowDecision \<in># received"
        "DenyDecision \<notin># received" "received + pending d s = all_decisions d policies"
      using main_inv_collecting [OF receive(2)] by blast
    have "pending d s = add_mset res (pending d t)"
      using receive by (simp add: pending_def)
    with rc receive(5) have "size (add_mset res received) = Suc n"
      "(if res = AllowDecision then True else got) \<longleftrightarrow> AllowDecision \<in># add_mset res received"
      "DenyDecision \<notin># add_mset res received"
      "add_mset res received + pending d t = all_decisions d policies" by auto
    then have "main_inv d policies t"
      using inv receive(1,2) by (auto simp: main_inv_def intro!: exI [of _ "add_mset res received"])
    with \<open>pending d s = _\<close> cap receive(1) show ?thesis
      by (simp add: cap_inv_def)
  next
    case (collected n got)
    from inv obtain received where rc: "size received = n" "got \<longleftrightarrow> AllowDecision \<in># received"
        "DenyDecision \<notin># received" "received + pending d s = all_decisions d policies"
      using main_inv_collecting [OF collected(2)] by blast
    from rc(4) have "size received + size (pending d s) = numJobs policies"
      by (metis size_union size_all_decisions)
    with rc(1) collected(3) have "pending d s = {#}" by simp
    with rc collected cap show ?thesis
      by (auto simp: main_inv_def verdict_def cap_inv_def pending_def)
  next
    case (waited b)
    with inv cap show ?thesis
      by (simp add: main_inv_def cap_inv_def pending_def)
  qed (use False in auto)
qed

lemma par_init_inv:
  assumes "policies \<noteq> []" "0 < gomaxprocs"
  shows "main_inv d policies (par_init gomaxprocs policies) \<and> cap_inv d policies (par_init gomaxprocs policies)"
proof -
  have "0 < numJobs policies"
    using assms(1) by (simp add: numJobs_def numPoliciesPerWorker_def div_greater_zero_iff Suc_le_eq)
  moreover have "sum_list (map (in_flight d) (replicate k Idle)) = {#}" for k
    by (induction k) auto
  ultimately show ?thesis
    using assms(2)
    by (auto simp: par_init_def main_inv_def cap_inv_def pending_def all_decisions_def)
qed

lemma par_reachable_inv:
  assumes "wf_args args" "\<forall>p\<in>set policies. index_ok p" "policies \<noteq> []" "0 < gomaxprocs"
    and "(par_step L legacy policies args)\<^sup>*\<^sup>* (par_init gomaxprocs policies) s"
  defines "d \<equiv> job_decision L legacy policies args"
  shows "main_inv d policies s \<and> cap_inv d policies s"
  using assms(5)
proof (induction rule: rtranclp_induct)
  case base
  then show ?case using par_init_inv [OF assms(3,4)] .
next
  case (step s t)
  then show ?case
    unfolding d_def using par_step_inv [OF assms(1,2)] by blast
qed

section \<open>Progress\<close>

lemma numJobs_le: "policies \<noteq> [] \<Longrightarrow> numJobs policies \<le> length policies"
  by (cases policies) (simp_all add: numJobs_def numPoliciesPerWorker_def)

lemma in_flight_exited: "list_all (\<lambda>w. w = Exited) ws \<Longrightarrow> sum_list (map (in_flight d) ws) = {#}"
  by (induction ws) auto

lemma in_flight_sublist: "w < length ws \<Longrightarrow> in_flight d (ws ! w) \<subseteq># sum_list (map (in_flight d) ws)"
proof (induction ws arbitrary: w)
  case (Cons a ws)
  then show ?case by (cases w) (auto intro: subset_mset.add_increasing2 subset_mset.add_increasing)
qed simp

text \<open>A worker that holds a job can always go on.\<close>

lemma worker_progress:
  assumes "wf_args args" "\<forall>p\<in>set policies. index_ok p" "policies \<noteq> []"
    and "cap_inv (job_decision L legacy policies args) policies s"
    and "w < length (workers s)" "workers s ! w \<noteq> Exited"
  shows "\<exists>t. par_step L legacy policies args s t"
proof (cases "workers s ! w")
  case Idle
  then show ?thesis
    using assms(5) par_step.take_job par_step.no_job by (cases "jobs s") blast+
next
  case (Taken i)
  then show ?thesis
    using assms(5) par_step.taken_cancelled par_step.taken_default by blast
next
  case (Checked i)
  then show ?thesis
    using assms(5) par_step.compute batch_loop_job [OF assms(1,2)] by blast
next
  case (Computed res)
  let ?d = "job_decision L legacy policies args"
  have "size (in_flight ?d (workers s ! w)) \<le> size (sum_list (map (in_flight ?d) (workers s)))"
    using in_flight_sublist [OF assms(5)] by (rule size_mset_mono)
  then have "length (resultCh s) < numJobs policies"
    using assms(4) Computed by (simp add: cap_inv_def pending_def)
  with numJobs_le [OF assms(3)] have "length (resultCh s) < length policies" by simp
  with Computed assms(5) show ?thesis using par_step.send by blast
qed (use assms(6) in auto)

lemma par_progress:
  assumes "wf_args args" "\<forall>p\<in>set policies. index_ok p" "policies \<noteq> []"
    and "main_inv (job_decision L legacy policies args) policies s"
      "cap_inv (job_decision L legacy policies args) policies s"
    and "\<forall>b. main s \<noteq> Returned b"
  shows "\<exists>t. par_step L legacy policies args s t"
proof (cases "\<exists>w<length (workers s). workers s ! w \<noteq> Exited")
  case True
  then show ?thesis using worker_progress [OF assms(1-3,5)] by blast
next
  case False
  then have exited: "list_all (\<lambda>w. w = Exited) (workers s)"
    by (simp add: list_all_length)
  let ?d = "job_decision L legacy policies args"
  show ?thesis
  proof (cases "main s")
    case (Collecting n got)
    note inv = assms(4) [unfolded main_inv_collecting [OF Collecting]]
    from inv obtain received where rc: "size received = n" "received + pending ?d s = all_decisions ?d policies"
      by blast
    have "workers s \<noteq> []" using assms(5) by (simp add: cap_inv_def)
    then have "Exited \<in> set (workers s)" using exited by (cases "workers s") auto
    with inv have "jobs s = []" by blast
    then have pend: "pending ?d s = mset (resultCh s)"
      by (simp add: pending_def in_flight_exited [OF exited])
    from rc(2) have "n + length (resultCh s) = numJobs policies"
      using rc(1) pend by (metis size_union size_all_decisions size_mset)
    then show ?thesis
    proof (cases "resultCh s")
      case Nil
      with \<open>n + _ = _\<close> have "n = numJobs policies" by simp
      then show ?thesis using par_step.collected [OF Collecting, of policies] by blast
    next
      case (Cons r rs)
      with \<open>n + _ = _\<close> have "n < numJobs policies" by simp
      with Cons show ?thesis
        using par_step.receive_deny [OF Collecting] par_step.receive [OF Collecting] by blast
    qed
  next
    case (Waiting b)
    then show ?thesis using par_step.waited exited by blast
  qed (use assms(6) in auto)
qed

section \<open>The jobs cover the policies\<close>

lemma job_slice_eq: "job_slice policies i = take numPoliciesPerWorker (drop i policies)"
  by (auto simp: job_slice_def Let_def min_def)

lemma mem_some_job:
  assumes "p \<in> set policies"
  shows "\<exists>j<numJobs policies. p \<in> set (job_slice policies (j * numPoliciesPerWorker))"
proof -
  obtain k where k: "k < length policies" "policies ! k = p"
    using assms by (metis in_set_conv_nth)
  let ?j = "k div 25"
  have "?j < numJobs policies"
    using k(1) unfolding numJobs_def numPoliciesPerWorker_def by linarith
  moreover have m: "k mod 25 < length (take 25 (drop (?j * 25) policies))"
    using k(1) by (simp add: less_diff_conv)
  then have "take 25 (drop (?j * 25) policies) ! (k mod 25) = p"
    using k by simp
  with m have "p \<in> set (take 25 (drop (?j * 25) policies))"
    using nth_mem by metis
  ultimately show ?thesis
    by (auto simp: job_slice_eq numPoliciesPerWorker_def)
qed

lemma summary_iff:
  "summary ds = DenyDecision \<longleftrightarrow> DenyDecision \<in> ds"
  "summary ds = AllowDecision \<longleftrightarrow> DenyDecision \<notin> ds \<and> AllowDecision \<in> ds"
  by (auto simp: summary_def)

lemma verdict_eq:
  assumes "d = job_decision L legacy policies args"
  shows "verdict d policies \<longleftrightarrow>
    (\<forall>p\<in>set policies. decide_spec L legacy p args \<noteq> DenyDecision) \<and>
    (\<exists>p\<in>set policies. decide_spec L legacy p args = AllowDecision)"
proof -
  let ?D = "\<lambda>p. decide_spec L legacy p args"
  let ?S = "\<lambda>j. set (job_slice policies (j * numPoliciesPerWorker))"
  have cover: "set policies = (\<Union>j<numJobs policies. ?S j)"
    using mem_some_job set_job_slice by fastforce
  have dec: "x \<in># all_decisions d policies \<longleftrightarrow> (\<exists>j<numJobs policies. summary (?D ` ?S j) = x)" for x
    by (auto simp: all_decisions_def assms job_decision_def)
  have img: "v \<in> ?D ` S \<longleftrightarrow> (\<exists>p\<in>S. ?D p = v)" for v S by auto
  have deny: "DenyDecision \<in># all_decisions d policies \<longleftrightarrow> (\<exists>p\<in>set policies. ?D p = DenyDecision)"
    unfolding dec summary_iff img cover by fast
  have "AllowDecision \<in># all_decisions d policies \<longleftrightarrow> (\<exists>p\<in>set policies. ?D p = AllowDecision)"
    if "\<forall>p\<in>set policies. ?D p \<noteq> DenyDecision"
  proof -
    have "DenyDecision \<notin> ?D ` ?S j" if "j < numJobs policies" for j
      using that \<open>\<forall>p\<in>set policies. ?D p \<noteq> DenyDecision\<close> unfolding cover by force
    then show ?thesis
      unfolding dec summary_iff img cover by fast
  qed
  with deny show ?thesis unfolding verdict_def by blast
qed

section \<open>Properties\<close>

text \<open>
  C10: every run of \<open>IsAllowedPar\<close> on at least one policy ends with a value: whatever the
  interleaving of the workers and the main goroutine, each step decreases a measure, and a reachable
  state that has not returned has a next step. No worker is left blocked on the result channel.
\<close>

theorem IsAllowedPar_runs_end:
  assumes "wf_args args" "\<forall>p\<in>set policies. index_ok p" "policies \<noteq> []" "0 < gomaxprocs"
    and "(par_step L legacy policies args)\<^sup>*\<^sup>* (par_init gomaxprocs policies) s"
  shows "(\<forall>t. par_step L legacy policies args s t \<longrightarrow> par_measure policies t < par_measure policies s) \<and>
    ((\<exists>t. par_step L legacy policies args s t) \<or> (\<exists>b. main s = Returned b))"
  using par_step_decreases par_progress [OF assms(1-3)] par_reachable_inv [OF assms] by blast

lemma par_returns:
  assumes "wf_args args" "\<forall>p\<in>set policies. index_ok p" "policies \<noteq> []" "0 < gomaxprocs"
    and "(par_step L legacy policies args)\<^sup>*\<^sup>* (par_init gomaxprocs policies) s"
  shows "\<exists>t b. (par_step L legacy policies args)\<^sup>*\<^sup>* s t \<and> main t = Returned b"
  using assms(5)
proof (induction "par_measure policies s" arbitrary: s rule: less_induct)
  case less
  show ?case
  proof (cases "\<exists>b. main s = Returned b")
    case False
    then obtain t where t: "par_step L legacy policies args s t"
      using par_progress [OF assms(1-3)] par_reachable_inv [OF assms(1-4) less(2)] by blast
    with less(2) have "(par_step L legacy policies args)\<^sup>*\<^sup>* (par_init gomaxprocs policies) t" by simp
    with less(1) [OF par_step_decreases [OF t]] t show ?thesis
      by (meson converse_rtranclp_into_rtranclp)
  qed blast
qed

text \<open>
  C2: deciding in parallel is deciding in series: under every interleaving the value \<open>IsAllowedPar\<close>
  returns is the one \<open>IsAllowedSerial\<close> computes, although the workers stop early after a deny and
  the results arrive in any order.
\<close>

theorem IsAllowedPar_equals_serial:
  assumes "wf_args args" "\<forall>p\<in>set policies. index_ok p" "0 < gomaxprocs"
  shows "IsAllowedPar L legacy gomaxprocs policies args b \<longleftrightarrow> IsAllowedSerial L legacy policies args = Some b"
proof -
  have serial: "IsAllowedSerial L legacy policies args = Some b \<longleftrightarrow> b = verdict (job_decision L legacy policies args) policies"
    using serial_loop_eq [OF assms(1,2)] verdict_eq by (auto simp: IsAllowedSerial_def)
  show ?thesis
  proof (cases "length policies \<le> 1")
    case True
    then consider "policies = []" | p where "policies = [p]"
      by (cases policies; cases "tl policies") auto
    then show ?thesis
    proof cases
      case 1
      then show ?thesis by (auto simp: IsAllowedPar_def IsAllowedSerial_def)
    next
      case (2 p)
      with assms(2) show ?thesis
        by (cases "decide_spec L legacy p args")
          (auto simp: IsAllowedPar_def IsAllowedSerial_def Policy_IsAllowed_def Policy_Decide_eq [OF assms(1)])
    qed
  next
    case False
    then have ne: "policies \<noteq> []" by auto
    from False have par: "IsAllowedPar L legacy gomaxprocs policies args b \<longleftrightarrow>
        (\<exists>s. (par_step L legacy policies args)\<^sup>*\<^sup>* (par_init gomaxprocs policies) s \<and> main s = Returned b)"
      by (auto simp: IsAllowedPar_def split: list.splits)
    have only: "b' = verdict (job_decision L legacy policies args) policies"
      if "(par_step L legacy policies args)\<^sup>*\<^sup>* (par_init gomaxprocs policies) s" "main s = Returned b'" for s b'
      using par_reachable_inv [OF assms(1,2) ne assms(3) that(1)] that(2) by (simp add: main_inv_def)
    show ?thesis
      unfolding par serial using only par_returns [OF assms(1,2) ne assms(3), of L legacy]
      by blast
  qed
qed

end
