(* ===== verification/Examples.thy ===== *)
theory Examples
  imports BucketPolicyFacts Parallel
begin

text \<open>
  Concrete policies and requests at which the hypotheses of the properties hold.
\<close>

definition example_allow :: statement where
  "example_allow = NewStatement '''' Allow [GetObjectAction] [NewResource ''b/*''] []"

definition example_deny :: statement where
  "example_deny = NewStatement '''' Deny [DeleteObjectAction] [NewResource ''b/*''] []"

definition example_args :: "action \<Rightarrow> string \<Rightarrow> args" where
  "example_args action obj = \<lparr>a_AccountName = ''u'', a_Groups = [], a_Action = action, a_OriginalAction = action,
     a_BucketName = ''b'', a_ConditionValues = Map.empty, a_IsOwner = False, a_ObjectName = obj,
     a_Claims = Map.empty, a_DenyOnly = False\<rparr>"

lemma example_args_wf [simp]: "wf_args (example_args a obj)"
  by (simp add: example_args_def)

lemma example_allow_valid: "Statement_isValidStrict example_allow = None" "Statement_isValid example_allow = None"
proof -
  have "check_head example_allow = None" "\<not> Statement_isAdmin example_allow"
    "\<not> Statement_isSTS example_allow" "\<not> Statement_isKMS example_allow"
    "\<not> Statement_isTable example_allow" "\<not> Statement_isVectors example_allow"
    "ID_IsValid (SID example_allow)" "check_resources_given example_allow = None"
    "ResourceSet_ValidateS3 (Resources example_allow) = None"
    "ResourceSet_ValidateS3 (NotResources example_allow) = None"
    "ResourceSet_ValidateStrict (Resources example_allow) = None"
    "ResourceSet_ValidateStrict (NotResources example_allow) = None"
    "ActionSet_Validate (Actions example_allow) = None"
    "first_err (check_resource_kinds example_allow) (Actions example_allow) = None"
    by code_simp+
  moreover have "Conditions example_allow = []" by (simp add: example_allow_def NewStatement_def)
  ultimately show "Statement_isValidStrict example_allow = None" "Statement_isValid example_allow = None"
    by (simp_all add: Statement_isValidStrict_def Statement_isValid_def validateS3_def check_keys_None)
qed

definition example_policy :: policy where
  "example_policy = \<lparr>ID = '''', Version = DefaultVersion, Statements = [example_allow, example_deny],
     actionStatementIndex = [], hasDeny = False\<rparr>"

definition allow_only :: policy where
  "allow_only = \<lparr>ID = '''', Version = DefaultVersion, Statements = [example_allow],
     actionStatementIndex = [], hasDeny = False\<rparr>"

lemma example_index [simp]: "index_ok example_policy" "index_ok allow_only"
    "actionStatementIndex example_policy = []" "actionStatementIndex allow_only = []"
    "hasDeny example_policy = False" "hasDeny allow_only = False"
  by (simp_all add: example_policy_def allow_only_def)

theorem Decide_deny_overrides_witness:
  "Policy_Decide list_lib False example_policy (example_args DeleteObjectAction ''o'') = Some DenyDecision"
proof -
  have "\<exists>st. st \<in> set (Statements example_policy) \<and> Effect st = Deny \<and>
      check_spec list_lib False st (example_args DeleteObjectAction ''o'')"
  proof (intro exI conjI)
    show "example_deny \<in> set (Statements example_policy)" by (simp add: example_policy_def)
    show "Effect example_deny = Deny" by (simp add: example_deny_def NewStatement_def)
    show "check_spec list_lib False example_deny (example_args DeleteObjectAction ''o'')" by code_simp
  qed
  then show ?thesis
    using Decide_deny_overrides [of "example_args DeleteObjectAction ''o''" example_policy list_lib False]
    by simp
qed

theorem action_index_transparent_witness:
  "Policy_Decide list_lib False (updateActionIndex example_policy) (example_args GetObjectAction ''o'') =
   Policy_Decide list_lib False example_policy (example_args GetObjectAction ''o'')"
  by (rule action_index_transparent) simp_all

theorem Decide_ignores_order_and_duplicates_witness:
  "Policy_Decide list_lib False example_policy (example_args GetObjectAction ''o'') =
   Policy_Decide list_lib False
     (example_policy\<lparr>Statements := [example_deny, example_allow, example_deny]\<rparr>)
     (example_args GetObjectAction ''o'')"
  by (rule Decide_ignores_order_and_duplicates) (auto simp: example_policy_def)

theorem HasDenyStatement_sound_witness:
  "Policy_Decide list_lib False (updateActionIndex allow_only) (example_args GetObjectAction ''o'') \<noteq>
   Some DenyDecision"
  by (rule HasDenyStatement_sound) (simp, simp, code_simp)

theorem IsAllowedSerial_spec_witness:
  "IsAllowedSerial list_lib False [example_policy, allow_only] (example_args GetObjectAction ''o'') = Some
    (\<not> (\<exists>p. p \<in> set [example_policy, allow_only] \<and>
        Policy_Decide list_lib False p (example_args GetObjectAction ''o'') = Some DenyDecision) \<and>
     (\<exists>p. p \<in> set [example_policy, allow_only] \<and>
        Policy_Decide list_lib False p (example_args GetObjectAction ''o'') = Some AllowDecision))"
  by (rule IsAllowedSerial_spec) simp_all

theorem IsAllowedPar_equals_serial_witness:
  "IsAllowedPar list_lib False 4 [example_policy, allow_only] (example_args GetObjectAction ''o'') True \<longleftrightarrow>
   IsAllowedSerial list_lib False [example_policy, allow_only] (example_args GetObjectAction ''o'') = Some True"
  by (rule IsAllowedPar_equals_serial) simp_all

theorem IsAllowedPar_runs_end_witness:
  "\<exists>t. par_step list_lib False [example_policy, allow_only] (example_args GetObjectAction ''o'')
         (par_init 4 [example_policy, allow_only]) t \<and>
       par_measure [example_policy, allow_only] t <
         par_measure [example_policy, allow_only] (par_init 4 [example_policy, allow_only])"
proof -
  have "main (par_init 4 [example_policy, allow_only]) \<noteq> Returned b" for b
    by (simp add: par_init_def)
  then show ?thesis
    using IsAllowedPar_runs_end [of "example_args GetObjectAction ''o''" "[example_policy, allow_only]" 4
        list_lib False "par_init 4 [example_policy, allow_only]"]
    by auto
qed

theorem hardening_only_removes_grants_witness:
  "Policy_Decide list_lib True allow_only (example_args GetObjectAction ''o'') = Some AllowDecision"
proof -
  have "Policy_Decide list_lib False allow_only (example_args GetObjectAction ''o'') = Some AllowDecision"
    by code_simp
  moreover have "CHR ''/'' \<notin> set (a_BucketName (example_args GetObjectAction ''o''))"
    by (simp add: example_args_def)
  ultimately show ?thesis
    using hardening_only_removes_grants [OF example_args_wf example_index(2), of GetObjectAction "''o''" list_lib]
    by simp
qed

theorem object_patterns_never_mutate_buckets_witness:
  "Policy_IsAllowed list_lib False
     (allow_only\<lparr>Statements := [example_allow\<lparr>Actions := [AllActions]\<rparr>]\<rparr>)
     (example_args PutBucketPolicyAction '''') = Some False"
proof (rule object_patterns_never_mutate_buckets)
  show "isSensitiveBucketMutation (a_Action (example_args PutBucketPolicyAction ''''))" by code_simp
  have "object_only (example_allow\<lparr>Actions := [AllActions]\<rparr>) \<and> \<not> ignores_resources (example_allow\<lparr>Actions := [AllActions]\<rparr>)"
    by code_simp
  then show "\<forall>st\<in>set (Statements (allow_only\<lparr>Statements := [example_allow\<lparr>Actions := [AllActions]\<rparr>]\<rparr>)).
      Effect st = Allow \<longrightarrow> object_only st \<and> \<not> ignores_resources st" by simp
qed (simp_all add: example_args_def allow_only_def)

theorem valid_statement_shape_witness:
  "Effect example_allow \<in> {Allow, Deny} \<and> Actions example_allow = [GetObjectAction] \<and>
   NotActions example_allow = []"
proof -
  have acts: "Actions example_allow = [GetObjectAction]"
    by (simp add: example_allow_def NewStatement_def)
  then show ?thesis
    using valid_statement_shape [OF example_allow_valid(2)] by simp
qed

theorem valid_statement_supported_witness:
  "Action_IsValid GetObjectAction \<and> supported_resource GetObjectAction (NewResource ''b/*'')"
proof -
  have "GetObjectAction \<in> set (Actions example_allow)"
    and res: "NewResource ''b/*'' \<in> set (Resources example_allow)"
    by (simp_all add: example_allow_def NewStatement_def)
  from valid_statement_supported [OF example_allow_valid(2) this(1)]
  have sup: "action_type_of GetObjectAction \<noteq> TypeS3 \<or> Action_IsValid GetObjectAction"
    "supported_resource GetObjectAction (NewResource ''b/*'')"
    using res by simp_all
  moreover have "action_type_of GetObjectAction = TypeS3" by code_simp
  ultimately show ?thesis by simp
qed

theorem ValidateStrict_implies_Validate_witness: "Policy_Validate allow_only = None"
  by (rule ValidateStrict_implies_Validate)
    (simp add: Policy_ValidateStrict_def allow_only_def check_version_def example_allow_valid)

section \<open>Bucket policies\<close>

definition example_bp :: bp_statement where
  "example_bp = NewBPStatement '''' Allow (NewPrincipal list_lib [''*'']) [GetObjectAction]
     [NewResource ''b/*''] []"

definition example_bucket_policy :: bucket_policy where
  "example_bucket_policy = \<lparr>bk_ID = '''', bk_Version = DefaultVersion, bk_Statements = [example_bp]\<rparr>"

definition example_bp_args :: bp_args where
  "example_bp_args = \<lparr>b_AccountName = ''u'', b_Groups = [], b_Action = GetObjectAction, b_BucketName = ''b'',
     b_ConditionValues = Map.empty, b_IsOwner = False, b_ObjectName = ''o''\<rparr>"

theorem BucketPolicy_IsAllowed_spec_witness:
  "BucketPolicy_IsAllowed list_lib example_bucket_policy example_bp_args = Some True"
proof -
  have "\<exists>st. st \<in> set (bk_Statements example_bucket_policy) \<and> bp_Effect st = Allow \<and>
      bp_check_spec list_lib st example_bp_args"
  proof (intro exI conjI)
    show "example_bp \<in> set (bk_Statements example_bucket_policy)" by (simp add: example_bucket_policy_def)
    show "bp_Effect example_bp = Allow" by (simp add: example_bp_def NewBPStatement_def)
    show "bp_check_spec list_lib example_bp example_bp_args" by code_simp
  qed
  moreover have "\<not> (\<exists>st. st \<in> set (bk_Statements example_bucket_policy) \<and> bp_Effect st = Deny \<and>
      bp_check_spec list_lib st example_bp_args)"
    by (simp add: example_bucket_policy_def example_bp_def NewBPStatement_def)
  ultimately show ?thesis
    using BucketPolicy_IsAllowed_spec [OF list_lib_laws, of example_bp_args example_bucket_policy]
    by (simp add: example_bp_args_def)
qed

lemma example_bp_valid: "BPStatement_isValid example_bp = None"
proof -
  have "bp_Conditions example_bp = []" by (simp add: example_bp_def NewBPStatement_def)
  moreover have "Effect_IsValid (bp_Effect example_bp)" "Principal_IsValid (bp_Principal example_bp)"
    "Action_IsObjectAction GetObjectAction" "ResourceSet_ObjectResourceExists (bp_Resources example_bp)"
    "bp_Actions example_bp = [GetObjectAction]" "bp_NotActions example_bp = []"
    "length (bp_Resources example_bp) = 1" "bp_NotResources example_bp = []"
    by code_simp+
  ultimately show ?thesis
    by (simp add: BPStatement_isValid_def bp_check_action_def check_keys_None del: first_err.simps)
qed

theorem BucketPolicy_Validate_confines_witness:
  "Resource_IsValid (NewResource ''b/*'') \<and> (wild_ref False (res_pattern (NewResource ''b/*'')) ''b'' \<or>
    (\<exists>key. wild_ref False (res_pattern (NewResource ''b/*'')) (''b'' @ ''/'' @ key)))"
proof (rule BucketPolicy_Validate_confines)
  have "ResourceSet_ValidateBucket (bp_Resources example_bp) ''b'' = None" "bp_NotResources example_bp = []"
    by code_simp+
  then show "BucketPolicy_Validate example_bucket_policy ''b'' = None"
    using example_bp_valid
    by (simp add: BucketPolicy_Validate_def BucketPolicy_isValid_def example_bucket_policy_def
        check_version_def BPStatement_Validate_def del: first_err.simps)
  show "example_bp \<in> set (bk_Statements example_bucket_policy)" by (simp add: example_bucket_policy_def)
  show "NewResource ''b/*'' \<in> set (bp_Resources example_bp @ bp_NotResources example_bp)"
    by (simp add: example_bp_def NewBPStatement_def)
qed

section \<open>A statement that skips its resources\<close>

text \<open>
  A wildcard that matches both an S3 and an admin action makes its statement an admin statement, which
  validation accepts and whose resources are then not looked at: \<open>*Policy\<close> on the objects of the bucket
  \<open>a\<close> lets a caller change the policy of the bucket \<open>b\<close>.
\<close>

definition example_wildcard :: statement where
  "example_wildcard = NewStatement '''' Allow [''*Policy''] [NewResource ''a/*''] []"

lemma wildcard_is_admin: "AdminAction_IsValid ''*Policy''" "\<not> AdminAction_HasResource ''*Policy''"
proof -
  have "wild_ref False ''*Policy'' ''admin:GetPolicy''" by code_simp
  moreover have "''admin:GetPolicy'' \<in> set SupportedAdminActions"
    unfolding SupportedAdminActions_def by (rule list.set_intros(1) | rule list.set_intros(2))+
  ultimately show "AdminAction_IsValid ''*Policy''" unfolding AdminAction_IsValid_eq by blast
  have "\<forall>s\<in>set AdminActionsWithResource. \<not> wild_ref False ''*Policy'' s" by code_simp
  then show "\<not> AdminAction_HasResource ''*Policy''" unfolding AdminAction_HasResource_eq by blast
qed

lemma wildcard_action_skips_resources:
  "object_only example_wildcard" "Statement_isValidStrict example_wildcard = None"
  "Statement_check list_lib False example_wildcard (example_args PutBucketPolicyAction '''') = Some True"
proof -
  have f: "Actions example_wildcard = [''*Policy'']" "NotActions example_wildcard = []" "Conditions example_wildcard = []"
    "Effect example_wildcard = Allow" "NotResources example_wildcard = []" "Resources example_wildcard = [NewResource ''a/*'']"
    by code_simp+
  have adm: "Statement_isAdmin example_wildcard" "\<not> Statement_hasAdminResource example_wildcard"
    by (simp_all add: Statement_isAdmin_def Statement_hasAdminResource_def f wildcard_is_admin)
  show "object_only example_wildcard" by code_simp
  have "validateActionTypes example_wildcard = None"
    by (simp add: validateActionTypes_def Let_def f action_type_of_def wildcard_is_admin)
  moreover have "ActionSet_ValidateAdmin [''*Policy''] = None"
    by (simp add: ActionSet_ValidateAdmin_def ActionSet_ToAdminSlice_def wildcard_is_admin fail_if_def)
  moreover have "check_keys (assigned adminActionConditionKeyMap) [] ''*Policy'' = None" by (simp add: check_keys_None)
  moreover have "ResourceSet_ValidateStrict [NewResource ''a/*''] = None" "ResourceSet_ValidateStrict [] = None" by code_simp+
  ultimately show "Statement_isValidStrict example_wildcard = None"
    by (simp add: Statement_isValidStrict_def check_head_def Effect_IsValid_def validateAdmin_def adm f)
  have cov: "ActionSet_Match [''*Policy''] PutBucketPolicyAction" by (simp add: ActionSet_Match_eq)
  have "check_spec list_lib False example_wildcard (example_args PutBucketPolicyAction '''')"
  proof -
    obtain rsc w where rr: "request_resource False Allow (example_args PutBucketPolicyAction '''') = (rsc, w)" by fastforce
    have "\<not> Statement_isTable example_wildcard" by code_simp
    then show ?thesis using adm cov
      by (simp add: check_spec_def rr f covers_def table_resource_def resources_hold_def ignores_resources_def
          conds_hold_def Functions_Evaluate_def example_args_def ActionSet_Match_def [of "[]"])
  qed
  then show "Statement_check list_lib False example_wildcard (example_args PutBucketPolicyAction '''') = Some True"
    by (simp add: Statement_check_wf)
qed

end
