(* ===== verification/MergeExamples.thy ===== *)
theory MergeExamples
  imports PolicyMergeFacts CannedFacts Examples
begin

text \<open>
  Concrete policies for the properties of duplicate removal, merging and the canned policies, and a
  statement that merging loses.
\<close>

text \<open>A hash that tells the effects apart, for the closed examples.\<close>

definition effect_hash :: hash_lib where
  "effect_hash = \<lparr>HashString128Seed = (\<lambda>s w. \<lparr>Hi = 0, Lo = (if w = 0 \<and> s = Deny then 1 else 0)\<rparr>),
     Hash128Seed = (\<lambda>s w. \<lparr>Hi = 0, Lo = 0\<rparr>), u128_Bytes = (\<lambda>u. if Lo u = 0 then ''a'' else ''b'')\<rparr>"

lemma effect_hash_xor [simp]:
  "xorInt effect_hash h n seed = h" "seed \<noteq> 0 \<Longrightarrow> xor_strings effect_hash seed xs h = h"
proof -
  have "foldl (\<lambda>h x. h) h xs = h" by (induction xs) auto
  then show "xorInt effect_hash h n seed = h" "seed \<noteq> 0 \<Longrightarrow> xor_strings effect_hash seed xs h = h"
    by (simp_all add: xorInt_def xor_strings_def effect_hash_def xorTo_def)
qed

lemma effect_hash_eq: "Statement_hash L effect_hash 0 s = (if Effect s = Deny then ''b'' else ''a'')"
  by (simp add: Statement_hash_def Statement_sum_def Let_def) (simp add: effect_hash_def)

text \<open>The condition of an address block, as both spellings of \<open>IpAddress\<close> are decoded.\<close>

definition block :: "string \<Rightarrow> cond_function" where
  "block cidr = IPAddrFunc \<lparr>if_n = plain_name ipAddress, if_k = KeyName_ToKey AWSSourceIP,
     if_values = [the (ParseCIDR cidr)], if_negate = False\<rparr>"

abbreviation office :: string where "office \<equiv> ''10.0.0.0/8''"
abbreviation lab :: string where "lab \<equiv> ''192.168.0.0/16''"

lemma block_decoded:
  "new_function list_lib ''IpAddress'' ''aws:SourceIp'' [VString office] = Inr (block office)"
  "new_function list_lib ''ForAnyValue:IpAddress'' ''aws:SourceIp'' [VString office] = Inr (block office)"
  "new_function list_lib ''IpAddress'' ''aws:SourceIp'' [VString lab] = Inr (block lab)"
  "new_function list_lib ''ForAnyValue:IpAddress'' ''aws:SourceIp'' [VString lab] = Inr (block lab)"
  by code_simp+

lemma block_exact: "exact_fn (block office)" "exact_fn (block lab)"
  by code_simp+

lemma block_comparable: "comparable_fn list_lib (block office)" "comparable_fn list_lib (block lab)"
  using block_decoded block_exact unfolding comparable_fn_def by blast+

definition lab_args :: args where
  "lab_args = (example_args GetObjectAction ''o'')\<lparr>a_ConditionValues := [''SourceIp'' \<mapsto> [''192.168.1.1'']]\<rparr>"

lemma lab_args_wf [simp]: "wf_args lab_args"
  by (simp add: lab_args_def wf_values_def)

text \<open>Two policies; each denies one address block, written twice.\<close>

definition office_policy :: policy where
  "office_policy = \<lparr>ID = '''', Version = DefaultVersion,
     Statements = [example_allow,
       NewStatement '''' Deny [AllActions] [NewResource ''*''] [block office, block office]],
     actionStatementIndex = [], hasDeny = False\<rparr>"

definition lab_policy :: policy where
  "lab_policy = \<lparr>ID = '''', Version = DefaultVersion,
     Statements = [NewStatement '''' Deny [AllActions] [NewResource ''*''] [block lab, block lab]],
     actionStatementIndex = [], hasDeny = False\<rparr>"

lemma lab_checks:
  "Statement_check list_lib False example_allow lab_args = Some True"
  "Statement_check list_lib False (NewStatement '''' Deny [AllActions] [NewResource ''*''] [block office, block office]) lab_args = Some False"
  "Statement_check list_lib False (NewStatement '''' Deny [AllActions] [NewResource ''*''] [block lab, block lab]) lab_args = Some True"
  by code_simp+

text \<open>
  A statement with a repeated condition can be dropped although it is no duplicate, whatever the
  hash function is: each of two policies denies one address block, written under both spellings of
  \<open>IpAddress\<close>; a request from the second block is denied by the policies in series and allowed by
  the merged policy.
\<close>

theorem merge_drops_doubled_deny:
  "IsAllowedSerial list_lib False [office_policy, lab_policy] lab_args = Some False \<and>
   Policy_IsAllowed list_lib False (MergePolicies list_lib H [office_policy, lab_policy]) lab_args = Some True"
proof
  let ?a = "example_allow"
  let ?d = "\<lambda>f. NewStatement '''' Deny [AllActions] [NewResource ''*''] [f, f]"
  let ?h = "Statement_hash list_lib H 0"
  have sts: "Statements office_policy = [?a, ?d (block office)]" "Statements lab_policy = [?d (block lab)]"
    by (simp_all add: office_policy_def lab_policy_def)
  have eff: "Effect ?a = Allow" "Effect (?d f) = Deny" for f
    by (simp_all add: example_allow_def NewStatement_def)
  have idx: "index_ok office_policy" "index_ok lab_policy"
    by (simp_all add: office_policy_def lab_policy_def)
  show "IsAllowedSerial list_lib False [office_policy, lab_policy] lab_args = Some False"
    using serial_decides [of lab_args "[office_policy, lab_policy]" list_lib False] idx lab_checks
    by (simp add: applies_def sts eff)
  have "?h (?d (block lab)) = ?h (?d (block office))"
    by (rule doubled_conditions_collide) (simp_all add: NewStatement_def)
  then have merged: "Statements (MergePolicies list_lib H [office_policy, lab_policy]) =
      keep_first ?h {} [?a, ?d (block office)]"
    by (simp add: merge_statements sts)
  have idx': "index_ok (MergePolicies list_lib H [office_policy, lab_policy])"
    by (subst merge_statements, simp) (rule index_ok_updateActionIndex, simp add: zero_policy_def)
  have "applies list_lib False lab_args Allow (MergePolicies list_lib H [office_policy, lab_policy])"
    "\<not> applies list_lib False lab_args Deny (MergePolicies list_lib H [office_policy, lab_policy])"
    using lab_checks by (auto simp: applies_def merged eff)
  then show "Policy_IsAllowed list_lib False (MergePolicies list_lib H [office_policy, lab_policy]) lab_args = Some True"
    by (simp add: Policy_IsAllowed_def Policy_Decide_eq [OF lab_args_wf idx'] decide_spec_def)
qed

text \<open>A document with a repeated statement, and two policies to merge.\<close>

definition once_denied :: statement where
  "once_denied = NewStatement '''' Deny [AllActions] [NewResource ''*''] [block office]"

definition repeated_policy :: policy where
  "repeated_policy = example_policy\<lparr>Statements := [example_allow, once_denied, once_denied\<lparr>SID := ''again''\<rparr>]\<rparr>"

lemma repeated_ok:
  "list_all (comparable list_lib) (Statements repeated_policy)"
  "hash_exact list_lib effect_hash (Statements repeated_policy)"
  "actionStatementIndex repeated_policy = []"
proof -
  have eff: "Effect example_allow = Allow" "Effect once_denied = Deny"
    by (simp_all add: example_allow_def once_denied_def NewStatement_def)
  have equal: "Statement_Equals list_lib s (s\<lparr>SID := x\<rparr>)" "Statement_Equals list_lib (s\<lparr>SID := x\<rparr>) s"
    "Statement_Equals list_lib s s" for s x
    by (auto simp: Statement_Equals_def ActionSet_Equals_def ResourceSet_Equals_def Functions_Equals_def
        list_all_iff list_ex_iff)
  show "list_all (comparable list_lib) (Statements repeated_policy)"
    using block_comparable
    by (simp add: repeated_policy_def comparable_def once_denied_def NewStatement_def example_allow_def wf_sets_def)
  show "hash_exact list_lib effect_hash (Statements repeated_policy)"
    using equal by (simp add: hash_exact_def effect_hash_eq repeated_policy_def eff)
  show "actionStatementIndex repeated_policy = []" by (simp add: repeated_policy_def)
qed

theorem decoding_keeps_decisions_witness:
  "Policy_Decide list_lib False (Policy_decoded list_lib effect_hash repeated_policy) lab_args =
     Policy_Decide list_lib False repeated_policy lab_args"
  by (rule decoding_keeps_decisions) (simp_all add: list_lib_laws repeated_ok)


theorem removal_by_hash_equals_pairwise_witness:
  "dropDuplicateStatementsMany list_lib effect_hash repeated_policy =
   dropDuplicateStatementsOriginal list_lib repeated_policy"
proof (rule removal_by_hash_equals_pairwise)
  show "list_all wf_sets (Statements repeated_policy)"
    using repeated_ok(1) by (auto simp: list_all_iff comparable_def)
  show "list_all (\<lambda>s. distinct (map (fn_String list_lib) (Conditions s))) (Statements repeated_policy)"
    by (simp add: repeated_policy_def once_denied_def NewStatement_def example_allow_def)
qed (rule repeated_ok)

theorem bucket_decoding_keeps_decisions_witness:
  "BucketPolicy_IsAllowed list_lib (BucketPolicy_dropDuplicateStatements list_lib example_bucket_policy)
     example_bp_args = BucketPolicy_IsAllowed list_lib example_bucket_policy example_bp_args"
proof (rule bucket_decoding_keeps_decisions)
  have "BucketPolicy_isValid example_bucket_policy = None"
    using example_bp_valid
    by (simp add: BucketPolicy_isValid_def example_bucket_policy_def check_version_def del: first_err.simps)
  then show "BucketPolicy_decoded list_lib example_bucket_policy =
      Inr (BucketPolicy_dropDuplicateStatements list_lib example_bucket_policy)"
    by (simp add: BucketPolicy_decoded_def)
  show "list_all (bp_comparable list_lib) (bk_Statements example_bucket_policy)"
    by (simp add: example_bucket_policy_def example_bp_def NewBPStatement_def bp_comparable_def)
qed (simp_all add: list_lib_laws example_bp_args_def)

section \<open>Canned policies\<close>

theorem canned_policies_grant_witness:
  "Policy_IsAllowed list_lib False canned_readonly (example_args DeleteObjectAction ''o'') = Some False \<and>
   Policy_IsAllowed list_lib False canned_readwrite (example_args DeleteObjectAction ''o'') = Some True"
  using canned_policies_grant [of "example_args DeleteObjectAction ''o''" list_lib False]
  by (simp add: example_args_def has_prefix_def passes_def)

end
