(* ===== verification/Claims.thy ===== *)
theory Claims
  imports Statement GoQuote
begin

text \<open>
  Policy names from the claims of a token (\<open>policy/policy.go\<close>), and the parts of package \<open>strings\<close>
  they use.
\<close>

section \<open>\<open>strings.TrimSpace\<close>\<close>

text \<open>The runes of \<open>unicode.IsSpace\<close>.\<close>

definition space_runes :: "nat list" where
  "space_runes = [0x09, 0x0A, 0x0B, 0x0C, 0x0D, 0x20, 0x85, 0xA0, 0x1680, 0x2000, 0x2001, 0x2002, 0x2003,
     0x2004, 0x2005, 0x2006, 0x2007, 0x2008, 0x2009, 0x200A, 0x2028, 0x2029, 0x202F, 0x205F, 0x3000]"

text \<open>
  The first (or last) rune of a text is a space when the text begins (ends) with its encoding;
  \<open>drop_space\<close> removes such encodings from the front of a text.
\<close>

function drop_space :: "string list \<Rightarrow> string \<Rightarrow> string" where
  "drop_space spaces s =
     (case filter (\<lambda>e. has_prefix s e \<and> e \<noteq> []) spaces of [] \<Rightarrow> s
      | e # es \<Rightarrow> drop_space spaces (drop (length e) s))"
  by pat_completeness auto
termination
  by (relation "measure (\<lambda>(spaces, s). length s)")
    (auto simp: has_prefix_iff filter_eq_Cons_iff)

declare drop_space.simps [simp del]

definition trim_space :: "string \<Rightarrow> string" where
  "trim_space s =
     (let spaces = map encode_rune space_runes
      in rev (drop_space (map rev spaces) (rev (drop_space spaces s))))"

section \<open>Claims\<close>

text \<open>\<open>for _, pname := range strings.Split(s, ",") { ...; s.Add(pname) }\<close>.\<close>

definition add_names :: "ext_lib \<Rightarrow> string list \<Rightarrow> string \<Rightarrow> string list" where
  "add_names L s pnameStr =
     foldl (\<lambda>s pname. let pname = trim_space pname in if pname = '''' then s else ss_add L s pname) s
       (split_on (CHR '','') pnameStr)"

definition GetValuesFromClaims ::
  "ext_lib \<Rightarrow> (string \<rightharpoonup> claim) \<Rightarrow> string \<Rightarrow> string list \<times> bool" where
  "GetValuesFromClaims L claims claimName =
     (let s = ss_create L []
      in case claims claimName of
           None \<Rightarrow> (s, False)
         | Some (ClaimString pnameStr) \<Rightarrow> (add_names L s pnameStr, True)
         | Some ClaimOther \<Rightarrow> (s, False)
         | Some (ClaimList pnames) \<Rightarrow>
             (foldl (\<lambda>s pname. case pname of ClaimString pnameStr \<Rightarrow> add_names L s pnameStr | _ \<Rightarrow> s)
                s pnames, True))"

definition GetPoliciesFromClaims ::
  "ext_lib \<Rightarrow> (string \<rightharpoonup> claim) \<Rightarrow> string \<Rightarrow> string list \<times> bool" where
  "GetPoliciesFromClaims L claims policyClaimName = GetValuesFromClaims L claims policyClaimName"

definition Args_GetPolicies :: "ext_lib \<Rightarrow> args \<Rightarrow> string \<Rightarrow> string list \<times> bool" where
  "Args_GetPolicies L a policyClaimName = GetPoliciesFromClaims L (a_Claims a) policyClaimName"

definition Args_GetRoleArn :: "args \<Rightarrow> string" where
  "Args_GetRoleArn a =
     (case a_Claims a ''roleArn'' of Some (ClaimString roleArn) \<Rightarrow> roleArn | _ \<Rightarrow> '''')"

section \<open>What they return\<close>

lemma add_names_set:
  assumes "string_set_laws L"
  shows "set (add_names L s t) = set s \<union> (trim_space ` set (split_on (CHR '','') t) - {''''})"
proof -
  have "set (foldl (\<lambda>s pname. let pname = trim_space pname in if pname = '''' then s else ss_add L s pname) s ps) =
      set s \<union> (trim_space ` set ps - {''''})" for ps
    by (induction ps arbitrary: s) (auto simp: Let_def ss_simps [OF assms])
  then show ?thesis by (simp add: add_names_def)
qed

fun claim_texts :: "claim \<Rightarrow> string list" where
  "claim_texts (ClaimString t) = [t]"
| "claim_texts (ClaimList cs) = concat (map (\<lambda>c. case c of ClaimString t \<Rightarrow> [t] | _ \<Rightarrow> []) cs)"
| "claim_texts ClaimOther = []"

text \<open>The names found are the trimmed non-empty parts, at commas, of the texts of the claim.\<close>

lemma GetValuesFromClaims_spec:
  assumes "string_set_laws L"
  shows "set (fst (GetValuesFromClaims L claims n)) =
      (case claims n of None \<Rightarrow> {}
       | Some c \<Rightarrow> {trim_space part |part t. t \<in> set (claim_texts c) \<and> part \<in> set (split_on (CHR '','') t)} - {''''})"
    and "snd (GetValuesFromClaims L claims n) \<longleftrightarrow> claims n \<noteq> None \<and> claims n \<noteq> Some ClaimOther"
proof -
  have l: "set (foldl (\<lambda>s pname. case pname of ClaimString pnameStr \<Rightarrow> add_names L s pnameStr | _ \<Rightarrow> s) s cs) =
      set s \<union> ({trim_space part |part t. t \<in> set (claim_texts (ClaimList cs)) \<and>
         part \<in> set (split_on (CHR '','') t)} - {''''})" for s cs
    by (induction cs arbitrary: s) (auto simp: add_names_set [OF assms] split: claim.splits)
  show "set (fst (GetValuesFromClaims L claims n)) =
      (case claims n of None \<Rightarrow> {}
       | Some c \<Rightarrow> {trim_space part |part t. t \<in> set (claim_texts c) \<and> part \<in> set (split_on (CHR '','') t)} - {''''})"
    by (auto simp: GetValuesFromClaims_def Let_def ss_simps [OF assms] add_names_set [OF assms] l
        simp del: claim_texts.simps(2) split: option.splits claim.splits)
  show "snd (GetValuesFromClaims L claims n) \<longleftrightarrow> claims n \<noteq> None \<and> claims n \<noteq> Some ClaimOther"
    by (simp add: GetValuesFromClaims_def Let_def split: option.splits claim.splits)
qed

end
