(* ===== verification/Ellipses.thy ===== *)
theory Ellipses
  imports GoNet "HOL-Library.Word"
begin

text \<open>
  Ellipses and list patterns (\<open>ellipses/ellipses.go\<close>, \<open>ellipses/list.go\<close>): \<open>{1...64}\<close> and \<open>{a,b,c}\<close>
  inside an argument, their parsing and their expansion.
\<close>

section \<open>The parts of the standard library\<close>

datatype ell_error = ErrFormat | InvalidArgument | ErrSyntax string | ErrRange string
  | IncorrectRange "64 word" "64 word" | ErrInvalidEllipses string | ErrInvalidList string

text \<open>\<open>strconv.ParseUint(s, base, 64)\<close> for the bases 10 and 16.\<close>

definition digit_value :: "char \<Rightarrow> nat option" where
  "digit_value c =
     (if is_digit c then Some (byte c - 48)
      else if is_lower c then Some (byte c - 97 + 10)
      else if is_upper c then Some (byte c - 65 + 10) else None)"

fun uint_digits :: "nat \<Rightarrow> string \<Rightarrow> string \<Rightarrow> nat \<Rightarrow> ell_error + nat" where
  "uint_digits base s0 [] n = Inr n"
| "uint_digits base s0 (c # s) n =
     (case digit_value c of None \<Rightarrow> Inl (ErrSyntax s0)
      | Some d \<Rightarrow>
          (if d \<ge> base then Inl (ErrSyntax s0)
           else if n * base + d \<ge> 18446744073709551616 then Inl (ErrRange s0)
           else uint_digits base s0 s (n * base + d)))"

definition parse_uint :: "nat \<Rightarrow> string \<Rightarrow> ell_error + 64 word" where
  "parse_uint base s =
     (if s = [] then Inl (ErrSyntax s)
      else (case uint_digits base s s 0 of Inl e \<Rightarrow> Inl e | Inr n \<Rightarrow> Inr (of_nat n)))"

text \<open>\<open>strings.Split\<close> at a separator of several bytes.\<close>

function split_str :: "string \<Rightarrow> string \<Rightarrow> string list" where
  "split_str sep s =
     (if s = [] \<or> sep = [] then [s]
      else if has_prefix s sep then [] # split_str sep (drop (length sep) s)
      else (case split_str sep (tl s) of [] \<Rightarrow> [s] | h # t \<Rightarrow> (hd s # h) # t))"
  by pat_completeness auto
termination
  by (relation "measure (\<lambda>(sep, s). length s)") (auto simp: has_prefix_iff)

declare split_str.simps [simp del]

text \<open>\<open>%0*d\<close> and \<open>%0*x\<close>, for widths up to a million (beyond, \<open>fmt\<close> refuses the width).\<close>

definition pad_zero :: "nat \<Rightarrow> string \<Rightarrow> string" where
  "pad_zero width s = replicate (width - length s) (CHR ''0'') @ s"

section \<open>Ranges\<close>

text \<open>The text of one value of a range.\<close>

definition range_text :: "string \<Rightarrow> string \<Rightarrow> bool \<Rightarrow> 64 word \<Rightarrow> string" where
  "range_text from_text to_text hexadecimal i =
     (if (has_prefix from_text ''0'' \<and> length from_text > 1) \<or> has_prefix to_text ''0'' then
        (if hexadecimal then pad_zero (length to_text) (hex_of_nat (unat i))
         else pad_zero (length to_text) (nat_digits (unat i)))
      else (if hexadecimal then hex_of_nat (unat i) else nat_digits (unat i)))"

text \<open>
  \<open>for i := start; i <= end; i++\<close> on 64-bit words: \<^term>\<open>None\<close> is a loop that does not end.
\<close>

partial_function (option) range_loop ::
  "(64 word \<Rightarrow> string) \<Rightarrow> 64 word \<Rightarrow> 64 word \<Rightarrow> string list \<Rightarrow> string list option" where
  "range_loop f i e seq = (if i \<le> e then range_loop f (i + 1) e (seq @ [f i]) else Some seq)"

text \<open>One end of the range: decimal, else hexadecimal.\<close>

definition parse_bound :: "string \<Rightarrow> ell_error + 64 word \<times> bool" where
  "parse_bound s =
     (case parse_uint 10 s of
        Inr n \<Rightarrow> Inr (n, False)
      | Inl _ \<Rightarrow> (case parse_uint 16 s of Inl e \<Rightarrow> Inl e | Inr n \<Rightarrow> Inr (n, True)))"

definition parseEllipsesRange :: "string \<Rightarrow> (ell_error + string list) option" where
  "parseEllipsesRange pattern =
     (if \<not> contains_byte pattern (CHR ''{'') then Some (Inl InvalidArgument)
      else if \<not> contains_byte pattern (CHR ''}'') then Some (Inl InvalidArgument)
      else
        (let p = trim_suffix (trim_prefix pattern ''{'') ''}'';
             ellipsesRange = split_str ''...'' p
         in if length ellipsesRange \<noteq> 2 then Some (Inl InvalidArgument)
            else
              (case parse_bound (ellipsesRange ! 0) of
                 Inl e \<Rightarrow> Some (Inl e)
               | Inr (start, hex0) \<Rightarrow>
                   (case parse_bound (ellipsesRange ! 1) of
                      Inl e \<Rightarrow> Some (Inl e)
                    | Inr (end_, hex1) \<Rightarrow>
                        (if start > end_ then Some (Inl (IncorrectRange start end_))
                         else map_option Inr
                           (range_loop (range_text (ellipsesRange ! 0) (ellipsesRange ! 1) (hex0 \<or> hex1))
                              start end_ []))))))"

section \<open>Patterns and their expansion\<close>

record pattern =
  Prefix :: string
  Suffix :: string
  Seq :: "string list"

definition Pattern_Expand :: "pattern \<Rightarrow> string list" where
  "Pattern_Expand p =
     map (\<lambda>v. if Prefix p \<noteq> '''' \<and> Suffix p = '''' then Prefix p @ v
              else if Suffix p \<noteq> '''' \<and> Prefix p = '''' then v @ Suffix p
              else if Suffix p = '''' \<and> Prefix p = '''' then v
              else Prefix p @ v @ Suffix p) (Seq p)"

text \<open>Indexing the first of no label lists panics.\<close>

fun argExpander :: "string list list \<Rightarrow> string list list may_panic" where
  "argExpander [] = None"
| "argExpander [lbls] = Some (map (\<lambda>v. [v]) lbls)"
| "argExpander (lbls # rest) =
     (if lbls = [] then Some []
      else map_option (\<lambda>rs. concat (map (\<lambda>lbl. map (\<lambda>rlbls. rlbls @ [lbl]) rs) lbls)) (argExpander rest))"

definition ArgPattern_Expand :: "pattern list \<Rightarrow> string list list may_panic" where
  "ArgPattern_Expand a = argExpander (map Pattern_Expand a)"

section \<open>Finding patterns\<close>

text \<open>
  The two regular expressions have the form \<open>(.*)({content})(.*)\<close>, where the content has no closing
  brace. \<open>group_at\<close> matches the middle group at the start of a text.
\<close>

definition group_at :: "(string \<Rightarrow> bool) \<Rightarrow> string \<Rightarrow> (string \<times> string) option" where
  "group_at content s =
     (if has_prefix s ''{'' then
        (case index_byte (tl s) (CHR ''}'') of
           None \<Rightarrow> None
         | Some j \<Rightarrow> if content (take j (tl s)) then Some (take (j + 2) s, drop (j + 2) s) else None)
      else None)"

text \<open>The first group of the expression is greedy: the last match on a line counts.\<close>

fun last_group :: "(string \<Rightarrow> bool) \<Rightarrow> string \<Rightarrow> (string \<times> string \<times> string) option" where
  "last_group content [] = None"
| "last_group content (c # s) =
     (case last_group content s of
        Some (pre, g, suf) \<Rightarrow> Some (c # pre, g, suf)
      | None \<Rightarrow> (case group_at content (c # s) of None \<Rightarrow> None | Some (g, suf) \<Rightarrow> Some ([], g, suf)))"

text \<open>A dot matches no newline: the first line with a match counts.\<close>

fun first_line :: "(string \<Rightarrow> 'a option) \<Rightarrow> string list \<Rightarrow> 'a option" where
  "first_line f [] = None"
| "first_line f (l # ls) = (case f l of Some x \<Rightarrow> Some x | None \<Rightarrow> first_line f ls)"

definition find_submatch :: "(string \<Rightarrow> bool) \<Rightarrow> string \<Rightarrow> (string \<times> string \<times> string) option" where
  "find_submatch content s = first_line (last_group content) (split_on (CHR 0x0A) s)"

definition alnum :: "char \<Rightarrow> bool" where
  "alnum c = (is_digit c \<or> is_lower c)"

text \<open>\<open>[0-9a-z]*\.\.\.[0-9a-z]*\<close>.\<close>

definition ellipses_content :: "string \<Rightarrow> bool" where
  "ellipses_content s =
     (let rest = dropWhile alnum s in has_prefix rest ''...'' \<and> list_all alnum (drop 3 rest))"

text \<open>
  \<open>[0-9a-z]+[,[0-9a-z]+]?\<close>: the second class contains the comma and the opening bracket, and only the
  closing bracket is optional.
\<close>

definition list_content :: "string \<Rightarrow> bool" where
  "list_content s =
     (let r = trim_suffix s '']''
      in length r \<ge> 2 \<and> alnum (hd r) \<and> list_all (\<lambda>c. c = CHR '','' \<or> c = CHR ''['' \<or> alnum c) (tl r))"

lemma last_group_shorter:
  "last_group content s = Some (pre, g, suf) \<Longrightarrow> length pre < length s"
  by (induction s arbitrary: pre) (auto split: option.splits)

lemma split_on_lines: "l \<in> set (split_on c s) \<Longrightarrow> length l \<le> length s"
proof (induction s arbitrary: l)
  case (Cons x s)
  then show ?case
    by (cases "split_on c s") (fastforce split: if_splits)+
qed simp

lemma find_submatch_shorter:
  assumes "find_submatch content s = Some (pre, g, suf)"
  shows "length pre < length s"
proof -
  have "first_line (last_group content) ls = Some (pre, g, suf) \<Longrightarrow>
      \<exists>l\<in>set ls. last_group content l = Some (pre, g, suf)" for ls
    by (induction ls) (auto split: option.splits)
  with assms obtain l where "l \<in> set (split_on (CHR 0x0A) s)" "last_group content l = Some (pre, g, suf)"
    unfolding find_submatch_def by blast
  then show ?thesis using last_group_shorter split_on_lines by fastforce
qed

text \<open>
  The loop of \<open>findPatterns\<close>, with the parts of the current match; it returns the patterns collected
  and the first error. The outer \<^term>\<open>None\<close> is a parser that does not return.
\<close>

function patterns_loop ::
  "(string \<Rightarrow> bool) \<Rightarrow> (string \<Rightarrow> (ell_error + string list) option) \<Rightarrow> pattern list \<Rightarrow>
   string \<Rightarrow> string \<Rightarrow> string \<Rightarrow> (pattern list \<times> ell_error option) option" where
  "patterns_loop content parser patterns p0 p1 p2 =
     (case parser p1 of
        None \<Rightarrow> None
      | Some (Inl e) \<Rightarrow> Some (patterns, Some e)
      | Some (Inr seq) \<Rightarrow>
          (case find_submatch content p0 of
             None \<Rightarrow> Some (patterns @ [\<lparr>Prefix = p0, Suffix = p2, Seq = seq\<rparr>], None)
           | Some (q0, q1, q2) \<Rightarrow>
               patterns_loop content parser (patterns @ [\<lparr>Prefix = '''', Suffix = p2, Seq = seq\<rparr>]) q0 q1 q2))"
  by pat_completeness auto
termination
  by (relation "measure (\<lambda>(content, parser, patterns, p0, p1, p2). length p0)")
    (auto dest: find_submatch_shorter)

declare patterns_loop.simps [simp del]

definition has_brace :: "string \<Rightarrow> bool" where
  "has_brace s = (contains_byte s (CHR ''{'') \<or> contains_byte s (CHR ''}''))"

definition findPatterns ::
  "string \<Rightarrow> (string \<Rightarrow> bool) \<Rightarrow> (string \<Rightarrow> (ell_error + string list) option) \<Rightarrow>
   (pattern list \<times> ell_error option) option" where
  "findPatterns arg content parser =
     (case find_submatch content arg of
        None \<Rightarrow> Some ([], Some ErrFormat)
      | Some (p0, p1, p2) \<Rightarrow>
          (case patterns_loop content parser [] p0 p1 p2 of
             None \<Rightarrow> None
           | Some (patterns, Some e) \<Rightarrow> Some (patterns, Some e)
           | Some (patterns, None) \<Rightarrow>
               (if list_ex (\<lambda>p. has_brace (Prefix p) \<or> has_brace (Suffix p)) patterns
                then Some ([], Some (ErrInvalidEllipses arg)) else Some (patterns, None))))"

definition FindEllipsesPatterns :: "string \<Rightarrow> (pattern list \<times> ell_error option) option" where
  "FindEllipsesPatterns arg =
     map_option (\<lambda>(v, err). (v, if err = Some ErrFormat then Some (ErrInvalidEllipses arg) else err))
       (findPatterns arg ellipses_content parseEllipsesRange)"

definition HasEllipses :: "string list \<Rightarrow> bool" where
  "HasEllipses args =
     foldl (\<lambda>ok arg. ok \<and> (contains_str arg ''...'' \<or>
        (contains_byte arg (CHR ''{'') \<and> contains_byte arg (CHR ''}'')))) True args"

section \<open>Lists\<close>

definition HasList :: "string list \<Rightarrow> bool" where
  "HasList args = foldl (\<lambda>ok arg. ok \<and> find_submatch list_content arg \<noteq> None) (length args > 0) args"

definition parseListRange :: "string \<Rightarrow> ell_error + string list" where
  "parseListRange pattern =
     (if \<not> has_prefix pattern ''{'' then Inl InvalidArgument
      else if \<not> has_suffix pattern ''}'' then Inl InvalidArgument
      else
        (let seq = split_on (CHR '','') (trim_suffix (trim_prefix pattern ''{'') ''}'')
         in if length seq < 2 then Inl InvalidArgument
            else if list_ex (\<lambda>s. length s = 0) seq then Inl InvalidArgument
            else Inr seq))"

definition FindListPatterns :: "string \<Rightarrow> (pattern list \<times> ell_error option) option" where
  "FindListPatterns arg =
     map_option (\<lambda>(v, err). (v, if err = Some ErrFormat then Some (ErrInvalidList arg) else err))
       (findPatterns arg list_content (\<lambda>p. Some (parseListRange p)))"

end
