(* ===== verification/EllipsesFacts.thy ===== *)
theory EllipsesFacts
  imports Ellipses GoTimeFacts
begin

text \<open>
  Facts about ellipses: which ranges the loop can count, the expansion as a product of the label
  lists, and what the patterns found in an argument expand to.
\<close>

section \<open>The loop over a range\<close>

lemma range_loop_ends:
  assumes "unat e < 2 ^ 64 - 1"
  shows "range_loop f i e seq = Some (seq @ map (\<lambda>n. f (of_nat n)) [unat i..<Suc (unat e)])"
proof (induction "Suc (unat e) - unat i" arbitrary: i seq)
  case 0
  then have "\<not> i \<le> e" by (simp add: word_le_nat_alt)
  then show ?case using 0 by (subst range_loop.simps) simp
next
  case (Suc k)
  then have le: "unat i \<le> unat e" by simp
  then have "unat (i + 1) = Suc (unat i)"
    using assms by (subst unat_add_lem [THEN iffD1]) simp_all
  with Suc have "range_loop f (i + 1) e (seq @ [f i]) =
      Some ((seq @ [f i]) @ map (\<lambda>n. f (of_nat n)) [Suc (unat i)..<Suc (unat e)])"
    by (metis Suc_diff_Suc diff_Suc_1 le le_imp_less_Suc)
  moreover have "[unat i..<Suc (unat e)] = unat i # [Suc (unat i)..<Suc (unat e)]"
    using le by (simp add: upt_conv_Cons del: upt_Suc)
  ultimately show ?case
    using le by (subst range_loop.simps) (simp add: word_le_nat_alt del: upt_Suc)
qed

text \<open>A range up to the largest word never ends: the counter wraps around.\<close>

lemma range_loop_diverges: "range_loop f i (- 1) seq = None"
proof -
  have "e \<noteq> - 1" if "range_loop f i e seq = Some r" for i e seq r
  proof (rule range_loop.raw_induct [where P = "\<lambda>f i e seq r. e \<noteq> - 1", OF _ that])
    fix loop f i e seq r
    assume ih: "\<And>f i e seq r. loop f i e seq = Some r \<Longrightarrow> e \<noteq> (- 1 :: 64 word)"
      and r: "(if i \<le> e then loop f (i + 1) e (seq @ [f i]) else Some seq) = Some r"
    show "e \<noteq> - 1"
    proof
      assume "e = - 1"
      then have "i \<le> e" by simp
      with r have "loop f (i + 1) (- 1) (seq @ [f i]) = Some r" using \<open>e = - 1\<close> by simp
      from ih [OF this] show False by simp
    qed
  qed
  then show ?thesis by (cases "range_loop f i (- 1) seq") auto
qed

section \<open>Decimal ranges\<close>

lemma nat_digits_digits': "list_all is_digit (nat_digits n)"
  using nat_digits_digits by (auto simp: list_all_iff)

lemma digit_value_digit: "is_digit c \<Longrightarrow> digit_value c = Some (byte c - 48) \<and> byte c - 48 < 10"
  by (auto simp: digit_value_def is_digit_def)

lemma uint_digits_append:
  "uint_digits base s0 (s @ t) n =
     (case uint_digits base s0 s n of Inl e \<Rightarrow> Inl e | Inr m \<Rightarrow> uint_digits base s0 t m)"
  by (induction s arbitrary: n) (auto split: option.splits)

lemma digit_char_byte: "k < 10 \<Longrightarrow> is_digit (char_of (48 + k)) \<and> byte (char_of (48 + k)) = 48 + k"
  by (simp add: is_digit_def byte_def)

lemma uint_digits_nat_digits:
  "n < 18446744073709551616 \<Longrightarrow> uint_digits 10 s0 (nat_digits n) 0 = Inr n"
proof (induction n rule: nat_digits.induct)
  case (1 n)
  show ?case
  proof (cases "n < 10")
    case True
    then show ?thesis
      using 1 digit_char_byte [of n] by (subst nat_digits.simps) (simp add: digit_value_digit)
  next
    case False
    have "n div 10 < 18446744073709551616" using 1(2) by (meson div_le_dividend le_less_trans)
    with 1(1) False have "uint_digits 10 s0 (nat_digits (n div 10)) 0 = Inr (n div 10)" by simp
    moreover have "digit_value (char_of (48 + n mod 10)) = Some (n mod 10)"
      using digit_value_digit [of "char_of (48 + n mod 10)"] digit_char_byte [of "n mod 10"] by simp
    moreover have "n div 10 * 10 + n mod 10 = n" by simp
    ultimately show ?thesis
      using False 1(2) by (subst nat_digits.simps) (simp add: uint_digits_append del: div_mult_mod_eq)
  qed
qed

lemma nat_digits_ne: "nat_digits n \<noteq> []"
  by (subst nat_digits.simps) simp

lemma parse_bound_nat_digits:
  "n < 18446744073709551616 \<Longrightarrow> parse_bound (nat_digits n) = Inr (of_nat n, False)"
  by (simp add: parse_bound_def parse_uint_def uint_digits_nat_digits nat_digits_ne)

lemma nat_digits_zero: "has_prefix (nat_digits n) ''0'' \<Longrightarrow> n = 0"
proof (induction n rule: nat_digits.induct)
  case (1 n)
  show ?case
  proof (cases "n < 10")
    case True
    then have "nat_digits n = [char_of (48 + n)]" by (subst nat_digits.simps) simp
    with 1(2) have "char_of (48 + n) = CHR ''0''" by (simp add: has_prefix_def)
    then have "byte (char_of (48 + n)) = byte (CHR ''0'')" by simp
    moreover have "byte (CHR ''0'') = 48" by code_simp
    ultimately show ?thesis using True digit_char_byte by simp
  next
    case False
    have "has_prefix (nat_digits (n div 10)) ''0''"
      using 1(2) nat_digits_ne [of "n div 10"] False
      by (subst (asm) nat_digits.simps) (cases "nat_digits (n div 10)", auto simp: has_prefix_def)
    then show ?thesis using 1(1) False by simp
  qed
qed

lemma split_str_none: "(\<forall>c\<in>set s. c \<noteq> x) \<Longrightarrow> split_str (x # sep) s = [s]"
proof (induction s)
  case (Cons c s)
  then show ?case by (subst split_str.simps) (auto simp: has_prefix_def)
qed (simp add: split_str.simps)

lemma split_str_two:
  "(\<forall>c\<in>set a. c \<noteq> x) \<Longrightarrow> (\<forall>c\<in>set b. c \<noteq> x) \<Longrightarrow> split_str (x # sep) (a @ (x # sep) @ b) = [a, b]"
proof (induction a)
  case Nil
  have p: "has_prefix ((x # sep) @ b) (x # sep)" by (auto simp: has_prefix_iff)
  show ?case
    using split_str_none [OF Nil(2), of sep] p by (subst split_str.simps) simp
next
  case (Cons c a)
  then show ?case by (subst split_str.simps) (auto simp: has_prefix_def)
qed

lemma digits_chars: "list_all is_digit s \<Longrightarrow> \<forall>c\<in>set s. c \<noteq> CHR ''.'' \<and> c \<noteq> CHR ''{'' \<and> c \<noteq> CHR ''}''"
proof -
  have "\<not> is_digit (CHR ''.'')" "\<not> is_digit (CHR ''{'')" "\<not> is_digit (CHR ''}'')" by code_simp+
  then show "list_all is_digit s \<Longrightarrow> ?thesis" by (auto simp: list_all_iff)
qed

lemma trim_braces: "trim_suffix (trim_prefix (CHR ''{'' # s @ ''}'') ''{'') ''}'' = s"
  by (simp add: trim_prefix_def has_prefix_def trim_suffix_def has_suffix_def)

lemma range_text_decimal:
  assumes "m \<le> n" "k \<in> {m..n}" "n < 18446744073709551616"
  shows "range_text (nat_digits m) (nat_digits n) False (of_nat k) = nat_digits k"
proof -
  have k: "unat (of_nat k :: 64 word) = k" using assms by (simp add: unat_of_nat)
  have one: "length (nat_digits 0) = 1" by (subst nat_digits.simps) simp
  have "has_prefix (nat_digits m) ''0'' \<Longrightarrow> length (nat_digits m) = 1"
    using nat_digits_zero [of m] one by simp
  moreover have "has_prefix (nat_digits n) ''0'' \<Longrightarrow> k = 0 \<and> n = 0"
    using nat_digits_zero [of n] assms by simp
  ultimately show ?thesis
    using one by (auto simp: range_text_def k pad_zero_def)
qed

lemma decimal_range:
  assumes "m \<le> n" "n < 2 ^ 64"
  shows "parseEllipsesRange (''{'' @ nat_digits m @ ''...'' @ nat_digits n @ ''}'') =
    (if n = 2 ^ 64 - 1 then None else Some (Inr (map nat_digits [m..<Suc n])))"
proof -
  let ?a = "nat_digits m" and ?b = "nat_digits n"
  let ?p = "''{'' @ ?a @ ''...'' @ ?b @ ''}''"
  have n: "n < 18446744073709551616" "m < 18446744073709551616" using assms by simp_all
  have u: "unat (of_nat n :: 64 word) = n" "unat (of_nat m :: 64 word) = m"
    using n by (simp_all add: unat_of_nat)
  have dots: "\<forall>c\<in>set ?a. c \<noteq> CHR ''.''" "\<forall>c\<in>set ?b. c \<noteq> CHR ''.''"
    using digits_chars [of ?a] digits_chars [of ?b] nat_digits_digits' by blast+
  have trim: "trim_suffix (trim_prefix ?p ''{'') ''}'' = ?a @ ''...'' @ ?b"
    using trim_braces [of "?a @ ''...'' @ ?b"] by simp
  have split: "split_str ''...'' (?a @ ''...'' @ ?b) = [?a, ?b]"
    by (rule split_str_two [OF dots])
  have le: "\<not> (of_nat m :: 64 word) > of_nat n" using assms(1) u by (simp add: word_less_nat_alt)
  have "parseEllipsesRange ?p = map_option Inr (range_loop (range_text ?a ?b False) (of_nat m) (of_nat n) [])"
    unfolding parseEllipsesRange_def trim
    using le by (simp add: contains_byte_def split [simplified] parse_bound_nat_digits n)
  moreover have "(of_nat n :: 64 word) = - 1" if "n = 2 ^ 64 - 1" using that by simp
  then have "n = 2 ^ 64 - 1 \<Longrightarrow> range_loop (range_text ?a ?b False) (of_nat m) (of_nat n) [] = None"
    by (metis range_loop_diverges)
  moreover have "map (\<lambda>k. range_text ?a ?b False (of_nat k)) [m..<Suc n] = map nat_digits [m..<Suc n]"
    by (intro map_cong refl range_text_decimal [OF assms(1) _ n(1)]) (auto simp del: upt_Suc)
  moreover have "n < 2 ^ 64 - 1" if "n \<noteq> 2 ^ 64 - 1" using that assms(2) by linarith
  ultimately show ?thesis
    using range_loop_ends [of "of_nat n" "range_text ?a ?b False" "of_nat m" "[]"]
    by (auto simp only: u option.map append_Nil if_True if_False split: if_split)
qed

text \<open>
  A decimal range \<open>{m...n}\<close> expands to the decimal texts of the numbers from m to n; the one range
  for which the parser does not return is one that ends in the largest 64-bit number, where the
  counter of the loop wraps around.
\<close>

theorem decimal_range_expands:
  assumes "m \<le> n" "n < 2 ^ 64"
  shows "parseEllipsesRange (''{'' @ nat_digits m @ ''...'' @ nat_digits n @ ''}'') =
    (if n = 2 ^ 64 - 1 then None else Some (Inr (map nat_digits [m..<Suc n])))"
  using assms by (rule decimal_range)

theorem decimal_range_expands_witness:
  "parseEllipsesRange (''{'' @ nat_digits 8 @ ''...'' @ nat_digits 11 @ ''}'') =
   Some (Inr (map nat_digits [8..<12]))"
  using decimal_range_expands [of 8 11] by simp

section \<open>Expansion\<close>

lemma Pattern_Expand_eq: "Pattern_Expand p = map (\<lambda>v. Prefix p @ v @ Suffix p) (Seq p)"
  by (auto simp: Pattern_Expand_def)

lemma rev_set_Cons: "(\<Union>a\<in>A. (\<lambda>r. r @ [a]) ` rev ` X) = rev ` set_Cons A X"
proof -
  have "set_Cons A X = (\<Union>a\<in>A. (#) a ` X)" by (auto simp: set_Cons_def)
  then show ?thesis by (simp add: image_UN image_image)
qed

text \<open>The label lists are chosen from in every way; each choice is returned last label first.\<close>

lemma argExpander_spec:
  assumes "labels \<noteq> []"
  shows "\<exists>rs. argExpander labels = Some rs \<and> length rs = prod_list (map length labels) \<and>
    set rs = rev ` listset (map set labels)"
  using assms
proof (induction labels rule: argExpander.induct)
  case (2 lbls)
  have "rev ` set_Cons (set lbls) {[]} = (\<lambda>v. [v]) ` set lbls"
    by (auto simp: set_Cons_def image_iff)
  then show ?case by simp
next
  case (3 lbls l rest)
  show ?case
  proof (cases "lbls = []")
    case False
    then obtain rs where rs: "argExpander (l # rest) = Some rs"
      "length rs = prod_list (map length (l # rest))" "set rs = rev ` listset (map set (l # rest))"
      using 3 by blast
    let ?out = "concat (map (\<lambda>lbl. map (\<lambda>rlbls. rlbls @ [lbl]) rs) lbls)"
    have len: "length ?out = length lbls * length rs"
      by (induction lbls) simp_all
    have "set ?out = (\<Union>lbl\<in>set lbls. (\<lambda>rlbls. rlbls @ [lbl]) ` set rs)" by auto
    also have "\<dots> = rev ` set_Cons (set lbls) (listset (map set (l # rest)))"
      unfolding rs(3) by (rule rev_set_Cons)
    finally show ?thesis using rs(1,2) len False by simp
  qed (simp add: set_Cons_def)
qed simp

section \<open>What is found\<close>

lemma last_group_parts:
  "last_group content s = Some (pre, g, suf) \<Longrightarrow> s = pre @ g @ suf"
proof (induction s arbitrary: pre)
  case (Cons c s)
  show ?case
  proof (cases "last_group content s")
    case None
    then have "group_at content (c # s) = Some (g, suf)" "pre = []"
      using Cons.prems by (auto split: option.splits)
    then show ?thesis
      by (auto simp: group_at_def split: if_splits option.splits)
  next
    case (Some t)
    then show ?thesis using Cons by (cases t) auto
  qed
qed simp

lemma split_on_single: "c \<notin> set s \<Longrightarrow> split_on c s = [s]"
  by (induction s) auto

lemma find_submatch_parts:
  assumes "find_submatch content s = Some (pre, g, suf)" "CHR 0x0A \<notin> set s"
  shows "s = pre @ g @ suf"
  using assms last_group_parts by (auto simp: find_submatch_def split_on_single split: option.splits)

text \<open>A matched group is its content in braces.\<close>

definition is_group :: "(string \<Rightarrow> bool) \<Rightarrow> string \<Rightarrow> bool" where
  "is_group content g \<longleftrightarrow> (\<exists>body. g = ''{'' @ body @ ''}'' \<and> content body)"

lemma group_at_group:
  assumes "group_at content s = Some (g, suf)"
  shows "is_group content g"
proof -
  obtain t where s: "s = CHR ''{'' # t" using assms by (cases s) (auto simp: group_at_def has_prefix_def split: if_splits)
  then obtain j where j: "index_byte t (CHR ''}'') = Some j" "content (take j t)" "g = take (j + 2) s"
    using assms by (auto simp: group_at_def has_prefix_def split: if_splits option.splits)
  then have "j < length t" "t ! j = CHR ''}''" unfolding index_byte_def by (auto dest: index_func_SomeD)
  then have "take (Suc j) t = take j t @ ''}''" by (simp add: take_Suc_conv_app_nth)
  then show ?thesis using j(2,3) by (auto simp: is_group_def s)
qed

lemma find_submatch_group:
  assumes "find_submatch content s = Some (pre, g, suf)"
  shows "is_group content g"
proof -
  have last: "last_group content l = Some (pre, g, suf) \<Longrightarrow> is_group content g" for l pre
    by (induction l arbitrary: pre) (auto split: option.splits dest: group_at_group)
  have "first_line (last_group content) ls = Some (pre, g, suf) \<Longrightarrow> is_group content g" for ls
    by (induction ls) (auto split: option.splits dest: last)
  with assms show ?thesis by (simp add: find_submatch_def)
qed

text \<open>A text made of a prefix and of groups, each with the text that follows it.\<close>

definition weave :: "string \<Rightarrow> string list \<Rightarrow> string list \<Rightarrow> string" where
  "weave pre gs sufs = pre @ concat (map (\<lambda>(g, suf). g @ suf) (zip gs sufs))"

lemma weave_snoc: "length gs = length sufs \<Longrightarrow> weave pre gs sufs @ g @ suf = weave pre (gs @ [g]) (sufs @ [suf])"
  by (simp add: weave_def)

lemma patterns_loop_found:
  assumes "patterns_loop content parser ps p0 p1 p2 = Some (qs, None)" "CHR 0x0A \<notin> set p0" "is_group content p1"
  shows "\<exists>pre gs sufs seqs. p0 @ p1 @ p2 = weave pre gs sufs \<and> gs \<noteq> [] \<and> length gs = length sufs \<and>
    list_all (is_group content) gs \<and>
    list_all2 (\<lambda>g seq. parser g = Some (Inr seq)) gs seqs \<and>
    qs = ps @ rev (map (\<lambda>(suf, seq). \<lparr>Prefix = '''', Suffix = suf, Seq = seq\<rparr>) (tl (zip sufs seqs))) @
      [\<lparr>Prefix = pre, Suffix = hd sufs, Seq = hd seqs\<rparr>]"
  using assms
proof (induction content parser ps p0 p1 p2 rule: patterns_loop.induct)
  case (1 content parser ps p0 p1 p2)
  from 1(2) obtain seq where seq: "parser p1 = Some (Inr seq)"
    by (subst (asm) patterns_loop.simps) (auto split: option.splits sum.splits)
  show ?case
  proof (cases "find_submatch content p0")
    case None
    then have "qs = ps @ [\<lparr>Prefix = p0, Suffix = p2, Seq = seq\<rparr>]"
      using 1(2) seq by (subst (asm) patterns_loop.simps) simp
    then show ?thesis
      using seq 1(4) by (intro exI [of _ p0] exI [of _ "[p1]"] exI [of _ "[p2]"] exI [of _ "[seq]"])
        (simp add: weave_def)
  next
    case (Some q)
    obtain q0 q1 q2 where q: "find_submatch content p0 = Some (q0, q1, q2)" using Some by (cases q) auto
    have p0: "p0 = q0 @ q1 @ q2" by (rule find_submatch_parts [OF q 1(3)])
    have "patterns_loop content parser (ps @ [\<lparr>Prefix = '''', Suffix = p2, Seq = seq\<rparr>]) q0 q1 q2 = Some (qs, None)"
      using 1(2) seq q by (subst (asm) patterns_loop.simps) simp
    moreover have "CHR 0x0A \<notin> set q0" using 1(3) p0 by simp
    moreover have "is_group content q1" by (rule find_submatch_group [OF q])
    ultimately obtain pre gs sufs seqs where ih: "q0 @ q1 @ q2 = weave pre gs sufs" "gs \<noteq> []"
        "length gs = length sufs" "list_all (is_group content) gs" "list_all2 (\<lambda>g seq. parser g = Some (Inr seq)) gs seqs"
        "qs = (ps @ [\<lparr>Prefix = '''', Suffix = p2, Seq = seq\<rparr>]) @
          rev (map (\<lambda>(suf, seq). \<lparr>Prefix = '''', Suffix = suf, Seq = seq\<rparr>) (tl (zip sufs seqs))) @
          [\<lparr>Prefix = pre, Suffix = hd sufs, Seq = hd seqs\<rparr>]"
      using 1(1) [OF seq refl q refl refl] by blast
    have len: "length sufs = length seqs" "sufs \<noteq> []" "seqs \<noteq> []"
      using ih(2,3,5) list_all2_lengthD by fastforce+
    have "tl (zip (sufs @ [p2]) (seqs @ [seq])) = tl (zip sufs seqs) @ [(p2, seq)]"
      using len by (cases sufs; cases seqs) auto
    then show ?thesis
      using ih seq p0 len 1(4)
      by (intro exI [of _ pre] exI [of _ "gs @ [p1]"] exI [of _ "sufs @ [p2]"] exI [of _ "seqs @ [seq]"])
        (simp add: weave_snoc [symmetric] list_all2_appendI)
  qed
qed

lemma in_listset: "xs \<in> listset As \<longleftrightarrow> list_all2 (\<in>) xs As"
  by (induction As arbitrary: xs) (auto simp: set_Cons_def list_all2_Cons2)

lemma listset_rev: "rev ` listset (rev As) = listset As"
proof (intro set_eqI iffI)
  fix xs assume "xs \<in> rev ` listset (rev As)"
  then show "xs \<in> listset As" by (auto simp: in_listset list_all2_rev1)
next
  fix xs assume "xs \<in> listset As"
  then have "rev xs \<in> listset (rev As)" by (simp add: in_listset)
  then show "xs \<in> rev ` listset (rev As)" by (metis image_eqI rev_rev_ident)
qed

lemma concat_set_Cons: "concat ` set_Cons A X = (\<Union>a\<in>A. (\<lambda>x. a @ x) ` concat ` X)"
proof -
  have "set_Cons A X = (\<Union>a\<in>A. (#) a ` X)" by (auto simp: set_Cons_def)
  then show ?thesis by (simp add: image_UN image_image)
qed

text \<open>The labels of the first group carry the prefix.\<close>

definition labels :: "string \<Rightarrow> string list \<Rightarrow> string list list \<Rightarrow> string list list" where
  "labels pre sufs seqs = map (\<lambda>v. pre @ v @ hd sufs) (hd seqs) #
     map (\<lambda>(suf, seq). map (\<lambda>v. v @ suf) seq) (tl (zip sufs seqs))"

lemma label_lengths:
  "length sufs = length seqs \<Longrightarrow>
   map length (map (\<lambda>(suf, seq). map (\<lambda>v. v @ suf) seq) (zip sufs seqs)) = map length seqs"
  by (induction sufs seqs rule: list_induct2) simp_all

lemma chosen_labels:
  assumes "length sufs = length seqs"
  shows "concat ` listset (map set (map (\<lambda>(suf, seq). map (\<lambda>v. v @ suf) seq) (zip sufs seqs))) =
    {weave '''' vs sufs |vs. list_all2 (\<lambda>v seq. v \<in> set seq) vs seqs}"
  using assms
proof (induction sufs seqs rule: list_induct2)
  case (Cons suf sufs seq seqs)
  have "concat ` listset (map set (map (\<lambda>(suf, seq). map (\<lambda>v. v @ suf) seq) (zip (suf # sufs) (seq # seqs)))) =
      (\<Union>v\<in>set seq. (\<lambda>x. v @ suf @ x) ` concat `
         listset (map set (map (\<lambda>(suf, seq). map (\<lambda>v. v @ suf) seq) (zip sufs seqs))))"
    by (simp add: concat_set_Cons image_image)
  also have "\<dots> = (\<Union>v\<in>set seq. {v @ suf @ weave '''' vs sufs |vs. list_all2 (\<lambda>v seq. v \<in> set seq) vs seqs})"
    unfolding Cons.IH by (auto simp: image_iff)
  also have "\<dots> = {weave '''' vs (suf # sufs) |vs. list_all2 (\<lambda>v seq. v \<in> set seq) vs (seq # seqs)}"
  proof (intro set_eqI iffI)
    fix w assume "w \<in> (\<Union>v\<in>set seq. {v @ suf @ weave '''' vs sufs |vs. list_all2 (\<lambda>v seq. v \<in> set seq) vs seqs})"
    then obtain v vs where "v \<in> set seq" "list_all2 (\<lambda>v seq. v \<in> set seq) vs seqs"
      "w = weave '''' (v # vs) (suf # sufs)" by (auto simp: weave_def)
    then show "w \<in> {weave '''' vs (suf # sufs) |vs. list_all2 (\<lambda>v seq. v \<in> set seq) vs (seq # seqs)}"
      using list_all2_Cons by blast
  next
    fix w assume "w \<in> {weave '''' vs (suf # sufs) |vs. list_all2 (\<lambda>v seq. v \<in> set seq) vs (seq # seqs)}"
    then obtain v vs where "v \<in> set seq" "list_all2 (\<lambda>v seq. v \<in> set seq) vs seqs"
      "w = weave '''' (v # vs) (suf # sufs)" by (auto simp: list_all2_Cons2)
    then show "w \<in> (\<Union>v\<in>set seq. {v @ suf @ weave '''' vs sufs |vs. list_all2 (\<lambda>v seq. v \<in> set seq) vs seqs})"
      by (auto simp: weave_def)
  qed
  finally show ?case .
qed (auto simp: weave_def)

lemma labels_chosen:
  assumes "length sufs = length seqs" "seqs \<noteq> []"
  shows "concat ` listset (map set (labels pre sufs seqs)) =
    {weave pre vs sufs |vs. list_all2 (\<lambda>v seq. v \<in> set seq) vs seqs}"
proof -
  obtain suf sufs' seq seqs' where e: "sufs = suf # sufs'" "seqs = seq # seqs'"
    using assms by (cases sufs; cases seqs) auto
  have l: "length sufs' = length seqs'" using assms(1) e by simp
  have "concat ` listset (map set (labels pre sufs seqs)) =
      (\<lambda>x. pre @ x) ` concat ` listset (map set (map (\<lambda>(suf, seq). map (\<lambda>v. v @ suf) seq) (zip sufs seqs)))"
    unfolding e labels_def by (simp add: concat_set_Cons image_image image_UN)
  then show ?thesis
    unfolding chosen_labels [OF assms(1)] by (auto simp: weave_def)
qed

text \<open>The prefix and the suffixes are those of the patterns.\<close>

lemma no_brace_left:
  assumes "length sufs = length seqs" "seqs \<noteq> []"
    and "\<forall>p\<in>set (rev (map (\<lambda>(suf, seq). \<lparr>Prefix = '''', Suffix = suf, Seq = seq\<rparr>) (tl (zip sufs seqs))) @
      [\<lparr>Prefix = pre, Suffix = hd sufs, Seq = hd seqs\<rparr>]). P (Prefix p) \<and> P (Suffix p)"
  shows "P pre \<and> list_all P sufs"
proof -
  obtain suf sufs' seq seqs' where e: "sufs = suf # sufs'" "seqs = seq # seqs'"
    using assms(1,2) by (cases sufs; cases seqs) auto
  have l: "length sufs' = length seqs'" using assms(1) e by simp
  have "P x" if x: "x \<in> set sufs'" for x
  proof -
    obtain y where "(x, y) \<in> set (zip sufs' seqs')" using x l by (metis in_set_impl_in_set_zip1)
    then show ?thesis using assms(3) by (force simp: e)
  qed
  then show ?thesis using assms(3) by (simp add: e list_all_iff)
qed

lemma prod_list_rev: "prod_list (rev xs) = prod_list (xs :: nat list)"
  by (induction xs) simp_all

lemma found_loop:
  assumes "FindEllipsesPatterns arg = Some (ps, None)"
  shows "\<exists>p0 p1 p2. find_submatch ellipses_content arg = Some (p0, p1, p2) \<and>
    patterns_loop ellipses_content parseEllipsesRange [] p0 p1 p2 = Some (ps, None) \<and>
    (\<forall>p\<in>set ps. \<not> has_brace (Prefix p) \<and> \<not> has_brace (Suffix p))"
proof -
  have f: "findPatterns arg ellipses_content parseEllipsesRange = Some (ps, None)"
    using assms by (auto simp: FindEllipsesPatterns_def split: if_splits)
  then obtain p0 p1 p2 where p: "find_submatch ellipses_content arg = Some (p0, p1, p2)"
    by (cases "find_submatch ellipses_content arg") (auto simp: findPatterns_def)
  moreover obtain v err where "patterns_loop ellipses_content parseEllipsesRange [] p0 p1 p2 = Some (v, err)"
    using f p by (cases "patterns_loop ellipses_content parseEllipsesRange [] p0 p1 p2") (auto simp: findPatterns_def)
  ultimately show ?thesis
    using f by (cases err) (auto simp: findPatterns_def list_ex_iff split: if_splits)
qed

lemma content_no_brace:
  assumes "ellipses_content body"
  shows "\<not> has_brace body"
proof -
  let ?r = "dropWhile alnum body"
  have r: "has_prefix ?r ''...''" "list_all alnum (drop 3 ?r)" using assms by (auto simp: ellipses_content_def Let_def)
  then obtain t where t: "?r = ''...'' @ t" by (auto simp: has_prefix_iff)
  then have "body = takeWhile alnum body @ ''...'' @ t" by (metis takeWhile_dropWhile_id)
  then have "set body = set (takeWhile alnum body) \<union> {CHR ''.''} \<union> set t"
    by (metis set_append list.simps(15) insert_absorb2 list.set(1) Un_assoc)
  moreover have "list_all alnum t" using r(2) t by simp
  moreover have "\<not> alnum (CHR ''{'')" "\<not> alnum (CHR ''}'')" by code_simp+
  ultimately show ?thesis
    by (auto simp: has_brace_def contains_byte_def index_byte_None list_all_iff dest: set_takeWhileD)
qed

text \<open>
  C21: an argument on one line whose ellipses patterns are found is a text with brace groups, each of them
  a range the parser accepts, outside of which no brace is left: the groups are all there are. It expands
  to exactly the texts in which every group is replaced by one of the values of its range: as many as the
  product of the lengths of the ranges.
\<close>

theorem found_patterns_expand:
  assumes "FindEllipsesPatterns arg = Some (ps, None)" "CHR 0x0A \<notin> set arg"
  shows "\<exists>pre gs sufs seqs rs. arg = weave pre gs sufs \<and> length gs = length sufs \<and>
    \<not> has_brace pre \<and> list_all (\<lambda>suf. \<not> has_brace suf) sufs \<and>
    list_all (\<lambda>g. \<exists>body. g = ''{'' @ body @ ''}'' \<and> \<not> has_brace body) gs \<and>
    list_all2 (\<lambda>g seq. parseEllipsesRange g = Some (Inr seq)) gs seqs \<and>
    ArgPattern_Expand ps = Some rs \<and> length rs = prod_list (map length seqs) \<and>
    concat ` set rs = {weave pre vs sufs |vs. list_all2 (\<lambda>v seq. v \<in> set seq) vs seqs}"
proof -
  obtain p0 p1 p2 where p: "find_submatch ellipses_content arg = Some (p0, p1, p2)"
    and loop: "patterns_loop ellipses_content parseEllipsesRange [] p0 p1 p2 = Some (ps, None)"
    and clean: "\<forall>p\<in>set ps. \<not> has_brace (Prefix p) \<and> \<not> has_brace (Suffix p)"
    using found_loop [OF assms(1)] by blast
  have arg: "arg = p0 @ p1 @ p2" by (rule find_submatch_parts [OF p assms(2)])
  then have "CHR 0x0A \<notin> set p0" using assms(2) by simp
  from patterns_loop_found [OF loop this find_submatch_group [OF p]] obtain pre gs sufs seqs where
    w: "p0 @ p1 @ p2 = weave pre gs sufs" "gs \<noteq> []" "length gs = length sufs" "list_all (is_group ellipses_content) gs"
      "list_all2 (\<lambda>g seq. parseEllipsesRange g = Some (Inr seq)) gs seqs"
    and ps: "ps = rev (map (\<lambda>(suf, seq). \<lparr>Prefix = '''', Suffix = suf, Seq = seq\<rparr>) (tl (zip sufs seqs))) @
      [\<lparr>Prefix = pre, Suffix = hd sufs, Seq = hd seqs\<rparr>]"
    by auto
  have len: "length sufs = length seqs" "seqs \<noteq> []"
    using w(2,3,5) list_all2_lengthD by fastforce+
  have groups: "list_all (\<lambda>g. \<exists>body. g = ''{'' @ body @ ''}'' \<and> \<not> has_brace body) gs"
    using w(4) content_no_brace unfolding is_group_def list_all_iff by blast
  have rest: "\<not> has_brace pre" "list_all (\<lambda>suf. \<not> has_brace suf) sufs"
    using no_brace_left [OF len, where P = "\<lambda>s. \<not> has_brace s" and pre = pre] clean unfolding ps by blast+
  have lab: "map Pattern_Expand ps = rev (labels pre sufs seqs)"
    unfolding ps labels_def by (simp add: Pattern_Expand_eq rev_map case_prod_unfold comp_def)
  have "rev (labels pre sufs seqs) \<noteq> []" by (simp add: labels_def)
  from argExpander_spec [OF this] obtain rs where
    rs: "argExpander (rev (labels pre sufs seqs)) = Some rs"
      "length rs = prod_list (map length (rev (labels pre sufs seqs)))"
      "set rs = rev ` listset (map set (rev (labels pre sufs seqs)))" by blast
  have "prod_list (map length (rev (labels pre sufs seqs))) = prod_list (map length (labels pre sufs seqs))"
    by (simp only: rev_map [symmetric] prod_list_rev)
  also have "map length (labels pre sufs seqs) = map length seqs"
    using len unfolding labels_def
    by (cases sufs; cases seqs) (simp_all add: label_lengths del: map_map)
  finally have n: "length rs = prod_list (map length seqs)" using rs(2) by simp
  have "set rs = listset (map set (labels pre sufs seqs))"
    unfolding rs(3) rev_map [symmetric] listset_rev ..
  then show ?thesis
    using w(1,3,5) groups rest arg rs(1) n labels_chosen [OF len, of pre]
    unfolding ArgPattern_Expand_def lab by blast
qed

lemma drives_found:
  "FindEllipsesPatterns ''d{1...3}/x'' =
     Some ([\<lparr>Prefix = ''d'', Suffix = ''/x'', Seq = [''1'', ''2'', ''3'']\<rparr>], None)"
proof -
  have d: "nat_digits (Suc 0) = ''1''" "nat_digits (Suc (Suc 0)) = ''2''" "nat_digits (Suc (Suc (Suc 0))) = ''3''"
    "nat_digits 3 = ''3''"
    by code_simp+
  have "parseEllipsesRange ''{1...3}'' = Some (Inr [''1'', ''2'', ''3''])"
    using decimal_range [of 1 3] by (simp add: d [simplified] upt_rec)
  moreover have "find_submatch ellipses_content ''d{1...3}/x'' = Some (''d'', ''{1...3}'', ''/x'')"
    "find_submatch ellipses_content ''d'' = None" by code_simp+
  ultimately show ?thesis
    by (simp add: FindEllipsesPatterns_def findPatterns_def patterns_loop.simps has_brace_def contains_byte_def)
qed

theorem found_patterns_expand_witness:
  "\<exists>pre gs sufs seqs rs. ''d{1...3}/x'' = weave pre gs sufs \<and> length gs = length sufs \<and>
    \<not> has_brace pre \<and> list_all (\<lambda>suf. \<not> has_brace suf) sufs \<and>
    list_all (\<lambda>g. \<exists>body. g = ''{'' @ body @ ''}'' \<and> \<not> has_brace body) gs \<and>
    list_all2 (\<lambda>g seq. parseEllipsesRange g = Some (Inr seq)) gs seqs \<and>
    ArgPattern_Expand [\<lparr>Prefix = ''d'', Suffix = ''/x'', Seq = [''1'', ''2'', ''3'']\<rparr>] = Some rs \<and>
    length rs = prod_list (map length seqs) \<and>
    concat ` set rs = {weave pre vs sufs |vs. list_all2 (\<lambda>v seq. v \<in> set seq) vs seqs}"
  by (rule found_patterns_expand [OF drives_found]) simp

section \<open>Behaviour worth knowing\<close>

text \<open>
  Whether an end of a range is decimal is decided for each end alone, so a range of hexadecimal
  numbers starts at the decimal value of its start when that has no letter. The expression of lists
  accepts texts without a comma, and a bracket inside a list.
\<close>

lemma mixed_range_starts_at_decimal_value:
  "parseEllipsesRange ''{10...1f}'' = Some (Inr (map hex_of_nat [10..<32]))"
proof -
  have b: "parse_bound ''10'' = Inr (10, False)" "parse_bound ''1f'' = Inr (31, True)"
    by (simp_all add: parse_bound_def parse_uint_def digit_value_def is_digit_def is_lower_def byte_def)
  have s: "split_str ''...'' ''10...1f'' = [''10'', ''1f'']"
    using split_str_two [of "''10''" "CHR ''.''" "''1f''" "''..''"] by simp
  have "parseEllipsesRange ''{10...1f}'' = map_option Inr (range_loop (range_text ''10'' ''1f'' True) 10 31 [])"
    using trim_braces [of "''10...1f''"] by (simp add: parseEllipsesRange_def contains_byte_def s b)
  moreover have "unat (of_nat k :: 64 word) = k" if "k < 32" for k
    using that by (simp add: unat_of_nat)
  then have "map (\<lambda>k. range_text ''10'' ''1f'' True (of_nat k)) [10..<32] = map hex_of_nat [10..<32]"
    by (intro map_cong refl) (auto simp add: range_text_def has_prefix_def simp del: upt_conv_Cons_Cons)
  ultimately show ?thesis
    using range_loop_ends [of 31 "range_text ''10'' ''1f'' True" 10 "[]"] by simp
qed

text \<open>A dot of the expressions matches no line end, so the other lines of an argument are dropped.\<close>

lemma newline_drops_lines:
  "find_submatch ellipses_content (''x'' @ [CHR 0x0A] @ ''d{1...3}'') = Some (''d'', ''{1...3}'', '''')"
  by code_simp

lemma HasList_without_comma:
  "HasList [''{12}'']" "parseListRange ''{12}'' = Inl InvalidArgument"
  "parseListRange ''{a,b]}'' = Inr [''a'', ''b]'']"
  by code_simp+

end
