(* ===== verification/EditDistance.thy ===== *)
theory EditDistance
  imports GoPrelude
begin

text \<open>
  The edit distance of \<open>words/damerau-levenshtein.go\<close>: a table filled row by row, and the proof that it
  computes the restricted distance, also called optimal string alignment: the least number of insertions,
  deletions, substitutions and exchanges of neighbours when no letter is touched twice.
\<close>

section \<open>The code\<close>

definition MaxInt32 :: int where
  "MaxInt32 = 2147483647"

definition minimum :: "int list \<Rightarrow> int" where
  "minimum integers = foldl (\<lambda>minVal v. if v < minVal then v else minVal) MaxInt32 integers"

text \<open>\<open>d[i][j] = v\<close>.\<close>

definition set_cell :: "int list list \<Rightarrow> nat \<Rightarrow> nat \<Rightarrow> int \<Rightarrow> int list list" where
  "set_cell d i j v = d[i := (d ! i)[j := v]]"

definition init_table :: "string \<Rightarrow> string \<Rightarrow> int list list" where
  "init_table a b =
     (let d = replicate (length a + 1) (replicate (length b + 1) 0);
          d = foldl (\<lambda>d i. set_cell d i 0 (int i)) d [0..<length a + 1]
      in foldl (\<lambda>d j. set_cell d 0 j (int j)) d [0..<length b + 1])"

text \<open>The body of the two loops.\<close>

definition fill_cell :: "string \<Rightarrow> string \<Rightarrow> nat \<Rightarrow> int list list \<Rightarrow> nat \<Rightarrow> int list list" where
  "fill_cell a b i d j =
     (let cost = (if a ! (i - 1) = b ! (j - 1) then 0 else 1);
          d = set_cell d i j (minimum [d ! (i - 1) ! j + 1, d ! i ! (j - 1) + 1, d ! (i - 1) ! (j - 1) + cost])
      in if i > 1 \<and> j > 1 \<and> a ! (i - 1) = b ! (j - 2) \<and> a ! (i - 2) = b ! (j - 1)
         then set_cell d i j (minimum [d ! i ! j, d ! (i - 2) ! (j - 2) + cost])
         else d)"

definition fill_row :: "string \<Rightarrow> string \<Rightarrow> int list list \<Rightarrow> nat \<Rightarrow> int list list" where
  "fill_row a b d i = foldl (fill_cell a b i) d [1..<length b + 1]"

definition DamerauLevenshteinDistance :: "string \<Rightarrow> string \<Rightarrow> int" where
  "DamerauLevenshteinDistance a b =
     foldl (fill_row a b) (init_table a b) [1..<length a + 1] ! length a ! length b"

section \<open>The specification\<close>

text \<open>
  \<open>edits a b n\<close>: the text a becomes b by n edits, each of which touches its own letters: one or two
  letters of a are kept, replaced, removed, inserted or exchanged.
\<close>

inductive edits :: "string \<Rightarrow> string \<Rightarrow> nat \<Rightarrow> bool" where
  edits_empty: "edits [] [] 0"
| edits_keep: "edits a b n \<Longrightarrow> edits (a @ [c]) (b @ [c]) n"
| edits_replace: "edits a b n \<Longrightarrow> edits (a @ [c]) (b @ [d]) (Suc n)"
| edits_delete: "edits a b n \<Longrightarrow> edits (a @ [c]) b (Suc n)"
| edits_insert: "edits a b n \<Longrightarrow> edits a (b @ [d]) (Suc n)"
| edits_exchange: "edits a b n \<Longrightarrow> edits (a @ [c, d]) (b @ [d, c]) (Suc n)"

text \<open>The recursion the table unfolds, on prefixes of the two texts.\<close>

function dist :: "string \<Rightarrow> string \<Rightarrow> nat \<Rightarrow> nat \<Rightarrow> nat" where
  "dist a b i j =
     (if i = 0 then j else if j = 0 then i
      else
        (let cost = (if a ! (i - 1) = b ! (j - 1) then 0 else 1);
             m = min (dist a b (i - 1) j + 1) (min (dist a b i (j - 1) + 1) (dist a b (i - 1) (j - 1) + cost))
         in if i > 1 \<and> j > 1 \<and> a ! (i - 1) = b ! (j - 2) \<and> a ! (i - 2) = b ! (j - 1)
            then min m (dist a b (i - 2) (j - 2) + cost) else m))"
  by pat_completeness auto
termination
  by (relation "measure (\<lambda>(a, b, i, j). i + j)") auto

declare dist.simps [simp del]

lemma dist_zero [simp]: "dist a b 0 j = j" "dist a b i 0 = i"
  by (subst dist.simps, simp)+

lemma dist_steps:
  assumes "i \<noteq> 0" "j \<noteq> 0"
  shows "dist a b i j \<le> dist a b (i - 1) j + 1" "dist a b i j \<le> dist a b i (j - 1) + 1"
    "dist a b i j \<le> dist a b (i - 1) (j - 1) + (if a ! (i - 1) = b ! (j - 1) then 0 else 1)"
    "i > 1 \<Longrightarrow> j > 1 \<Longrightarrow> a ! (i - 1) = b ! (j - 2) \<Longrightarrow> a ! (i - 2) = b ! (j - 1) \<Longrightarrow>
       dist a b i j \<le> dist a b (i - 2) (j - 2) + 1"
proof -
  define c where "c = (if a ! (i - 1) = b ! (j - 1) then 0 else 1 :: nat)"
  define m where "m = min (dist a b (i - 1) j + 1) (min (dist a b i (j - 1) + 1) (dist a b (i - 1) (j - 1) + c))"
  have r: "dist a b i j = (if i > 1 \<and> j > 1 \<and> a ! (i - 1) = b ! (j - 2) \<and> a ! (i - 2) = b ! (j - 1)
      then min m (dist a b (i - 2) (j - 2) + c) else m)"
    using assms by (subst dist.simps) (simp only: Let_def m_def c_def if_False)
  then have "dist a b i j \<le> m" by simp
  then show "dist a b i j \<le> dist a b (i - 1) j + 1" "dist a b i j \<le> dist a b i (j - 1) + 1"
    "dist a b i j \<le> dist a b (i - 1) (j - 1) + (if a ! (i - 1) = b ! (j - 1) then 0 else 1)"
    unfolding c_def [symmetric] m_def by simp_all
  have "c \<le> 1" by (simp add: c_def)
  then show "i > 1 \<Longrightarrow> j > 1 \<Longrightarrow> a ! (i - 1) = b ! (j - 2) \<Longrightarrow> a ! (i - 2) = b ! (j - 1) \<Longrightarrow>
       dist a b i j \<le> dist a b (i - 2) (j - 2) + 1"
    unfolding r by (simp add: min.coboundedI2)
qed

lemma dist_le: "dist a b i j \<le> i + j"
proof (induction i)
  case (Suc i)
  show ?case
    using Suc dist_steps(1) [of "Suc i" j a b] by (cases "j = 0") auto
qed simp

section \<open>The table computes the recursion\<close>

lemma minimum_simps: "minimum [x, y] = min MaxInt32 (min x y)" "minimum [x, y, z] = min MaxInt32 (min x (min y z))"
proof -
  have "(\<lambda>m v :: int. if v < m then v else m) = min" by (auto simp: fun_eq_iff)
  then show "minimum [x, y] = min MaxInt32 (min x y)" "minimum [x, y, z] = min MaxInt32 (min x (min y z))"
    by (simp_all add: minimum_def min.assoc)
qed

lemma minimum_small:
  "x \<le> 2147483647 \<Longrightarrow> minimum [int x, int y + int c] = int (min x (y + c))"
  "x + 1 \<le> 2147483647 \<Longrightarrow> minimum [int x + 1, int y + 1, int z + int c] = int (min (x + 1) (min (y + 1) (z + c)))"
  unfolding minimum_simps MaxInt32_def by (simp_all add: min_def)

definition shaped :: "string \<Rightarrow> string \<Rightarrow> int list list \<Rightarrow> bool" where
  "shaped a b d \<longleftrightarrow> length d = length a + 1 \<and> (\<forall>i\<le>length a. length (d ! i) = length b + 1)"

lemma shaped_set_cell: "shaped a b d \<Longrightarrow> i \<le> length a \<Longrightarrow> shaped a b (set_cell d i j v)"
  by (auto simp: shaped_def set_cell_def nth_list_update)

lemma set_cell_nth:
  "shaped a b d \<Longrightarrow> i \<le> length a \<Longrightarrow> j \<le> length b \<Longrightarrow> x \<le> length a \<Longrightarrow> y \<le> length b \<Longrightarrow>
   set_cell d i j v ! x ! y = (if x = i \<and> y = j then v else d ! x ! y)"
  by (auto simp: shaped_def set_cell_def nth_list_update)

text \<open>The cells before (i, j), in the order of the loops, hold the recursion.\<close>

definition filled :: "string \<Rightarrow> string \<Rightarrow> int list list \<Rightarrow> nat \<Rightarrow> nat \<Rightarrow> bool" where
  "filled a b d i j \<longleftrightarrow> shaped a b d \<and>
     (\<forall>x\<le>length a. \<forall>y\<le>length b. x < i \<or> x = i \<and> y < j \<or> x = 0 \<or> y = 0 \<longrightarrow> d ! x ! y = int (dist a b x y))"

lemma init_table_filled: "filled a b (init_table a b) 1 1"
proof -
  define d0 where "d0 = replicate (length a + 1) (replicate (length b + 1) (0 :: int))"
  have s0: "shaped a b d0" unfolding shaped_def d0_def
    by (auto simp only: length_replicate nth_replicate less_Suc_eq_le Suc_eq_plus1 [symmetric])
  have col: "n \<le> length a + 1 \<Longrightarrow> shaped a b (foldl (\<lambda>d i. set_cell d i 0 (int i)) d0 [0..<n]) \<and>
      (\<forall>x<n. foldl (\<lambda>d i. set_cell d i 0 (int i)) d0 [0..<n] ! x ! 0 = int x)" for n
  proof (induction n)
    case (Suc n)
    then show ?case by (auto simp: shaped_set_cell set_cell_nth less_Suc_eq)
  qed (simp add: s0)
  define d1 where "d1 = foldl (\<lambda>d i. set_cell d i 0 (int i)) d0 [0..<length a + 1]"
  have d1: "shaped a b d1" "\<And>x. x \<le> length a \<Longrightarrow> d1 ! x ! 0 = int x"
    using col [of "length a + 1"] unfolding d1_def by auto
  have row: "n \<le> length b + 1 \<Longrightarrow> shaped a b (foldl (\<lambda>d j. set_cell d 0 j (int j)) d1 [0..<n]) \<and>
      (\<forall>y<n. foldl (\<lambda>d j. set_cell d 0 j (int j)) d1 [0..<n] ! 0 ! y = int y) \<and>
      (\<forall>x\<le>length a. foldl (\<lambda>d j. set_cell d 0 j (int j)) d1 [0..<n] ! x ! 0 = int x)" for n
  proof (induction n)
    case (Suc n)
    then show ?case by (auto simp: shaped_set_cell set_cell_nth less_Suc_eq)
  qed (simp add: d1)
  have "init_table a b = foldl (\<lambda>d j. set_cell d 0 j (int j)) d1 [0..<length b + 1]"
    by (simp only: init_table_def Let_def d1_def d0_def)
  then show ?thesis
    using row [of "length b + 1"] by (auto simp: filled_def less_Suc_eq_le)
qed

lemma fill_cell_filled:
  assumes "filled a b d i j" "1 \<le> i" "i \<le> length a" "1 \<le> j" "j \<le> length b"
    and "length a + length b < 2147483647"
  shows "filled a b (fill_cell a b i d j) i (Suc j)"
proof -
  define c where "c = (if a ! (i - 1) = b ! (j - 1) then 0 else 1 :: nat)"
  have s: "shaped a b d" using assms(1) by (simp add: filled_def)
  have old: "x \<le> length a \<Longrightarrow> y \<le> length b \<Longrightarrow> x < i \<or> x = i \<and> y < j \<or> x = 0 \<or> y = 0 \<Longrightarrow>
      d ! x ! y = int (dist a b x y)" for x y
    using assms(1) unfolding filled_def by blast
  have cells: "d ! (i - 1) ! j = int (dist a b (i - 1) j)" "d ! i ! (j - 1) = int (dist a b i (j - 1))"
    "d ! (i - 1) ! (j - 1) = int (dist a b (i - 1) (j - 1))" "d ! (i - 2) ! (j - 2) = int (dist a b (i - 2) (j - 2))"
    using assms(2-5) by (auto intro!: old)
  have small: "dist a b (i - 1) j + 1 \<le> 2147483647"
    using dist_le [of a b "i - 1" j] assms(2-6) by linarith
  define m where "m = min (dist a b (i - 1) j + 1) (min (dist a b i (j - 1) + 1) (dist a b (i - 1) (j - 1) + c))"
  have m: "minimum [d ! (i - 1) ! j + 1, d ! i ! (j - 1) + 1, d ! (i - 1) ! (j - 1) + int c] = int m"
    unfolding cells m_def by (rule minimum_small(2) [OF small])
  have "m \<le> 2147483647" using small by (simp add: m_def)
  then have m2: "minimum [int m, d ! (i - 2) ! (j - 2) + int c] = int (min m (dist a b (i - 2) (j - 2) + c))"
    unfolding cells by (rule minimum_small(1))
  have ij: "i \<noteq> 0" "j \<noteq> 0" "i \<le> length a" "j \<le> length b" "i - 2 \<le> length a" "j - 2 \<le> length b"
    "\<not> (i - 2 = i \<and> j - 2 = j)" using assms(2-5) by auto
  have rec: "dist a b i j = (if i > 1 \<and> j > 1 \<and> a ! (i - 1) = b ! (j - 2) \<and> a ! (i - 2) = b ! (j - 1)
      then min m (dist a b (i - 2) (j - 2) + c) else m)"
    using ij(1,2) by (subst dist.simps) (simp only: Let_def m_def c_def if_False)
  have cost: "(if a ! (i - 1) = b ! (j - 1) then 0 else 1) = int c" by (simp add: c_def)
  have v: "fill_cell a b i d j ! i ! j = int (dist a b i j)"
  proof (cases "i > 1 \<and> j > 1 \<and> a ! (i - 1) = b ! (j - 2) \<and> a ! (i - 2) = b ! (j - 1)")
    case True
    then have "i - 2 \<noteq> i" by linarith
    then show ?thesis
      unfolding fill_cell_def Let_def cost m rec if_P [OF True]
      using m2 ij by (simp add: set_cell_nth [OF s] set_cell_nth [OF shaped_set_cell [OF s]])
  next
    case False
    then show ?thesis
      unfolding fill_cell_def Let_def cost m rec if_not_P [OF False]
      using ij by (simp add: set_cell_nth [OF s])
  qed
  have shape: "shaped a b (fill_cell a b i d j)"
    using s assms(3) by (simp add: fill_cell_def Let_def shaped_set_cell)
  have other: "fill_cell a b i d j ! x ! y = d ! x ! y"
    if "x \<le> length a" "y \<le> length b" "\<not> (x = i \<and> y = j)" for x y
  proof -
    have "set_cell d' i j w ! x ! y = d' ! x ! y" if "shaped a b d'" for d' w
      using set_cell_nth [OF that assms(3,5) \<open>x \<le> length a\<close> \<open>y \<le> length b\<close>] \<open>\<not> (x = i \<and> y = j)\<close>
      by (simp only: if_False)
    then show ?thesis
      by (simp only: fill_cell_def Let_def s shaped_set_cell [OF s assms(3)] split: if_splits) simp
  qed
  show ?thesis
    unfolding filled_def
  proof (intro conjI shape allI impI)
    fix x y assume xy: "x \<le> length a" "y \<le> length b" "x < i \<or> x = i \<and> y < Suc j \<or> x = 0 \<or> y = 0"
    show "fill_cell a b i d j ! x ! y = int (dist a b x y)"
    proof (cases "x = i \<and> y = j")
      case True
      then show ?thesis using v by simp
    next
      case False
      then have "d ! x ! y = int (dist a b x y)" using xy by (auto intro!: old)
      then show ?thesis using other [OF xy(1,2) False] by simp
    qed
  qed
qed

lemma fill_row_filled:
  assumes "filled a b d i 1" "1 \<le> i" "i \<le> length a" "length a + length b < 2147483647"
  shows "filled a b (fill_row a b d i) (Suc i) 1"
proof -
  have "n \<le> length b \<Longrightarrow> filled a b (foldl (fill_cell a b i) d [1..<n + 1]) i (n + 1)" for n
  proof (induction n)
    case (Suc n)
    then show ?case using fill_cell_filled [of a b _ i "Suc n"] assms(2-4) by simp
  qed (use assms(1) in simp)
  from this [of "length b"] have "filled a b (fill_row a b d i) i (length b + 1)"
    by (simp add: fill_row_def)
  then show ?thesis
    unfolding filled_def by (metis less_Suc_eq less_Suc_eq_le less_one Suc_eq_plus1)
qed

lemma table_computes_dist:
  assumes "length a + length b < 2147483647"
  shows "DamerauLevenshteinDistance a b = int (dist a b (length a) (length b))"
proof -
  have "n \<le> length a \<Longrightarrow> filled a b (foldl (fill_row a b) (init_table a b) [1..<n + 1]) (n + 1) 1" for n
  proof (induction n)
    case (Suc n)
    then show ?case using fill_row_filled [of a b _ "Suc n"] assms by simp
  qed (use init_table_filled in simp)
  from this [of "length a"] show ?thesis
    by (simp add: DamerauLevenshteinDistance_def filled_def)
qed

section \<open>The recursion is the least number of edits\<close>

lemma take_SucE:
  assumes "take (length (p @ [c])) a = p @ [c]"
  shows "take (length p) a = p" "a ! length p = c" "length p < length a"
proof -
  have l: "length p < length a"
    using arg_cong [OF assms, of length] by (simp add: min_def split: if_splits)
  then have "take (length p) a @ [a ! length p] = p @ [c]"
    using assms by (simp add: take_Suc_conv_app_nth)
  then show "take (length p) a = p" "a ! length p = c" by simp_all
  show "length p < length a" by (rule l)
qed

lemma dist_least:
  assumes "edits p q n" "take (length p) a = p" "take (length q) b = q"
  shows "dist a b (length p) (length q) \<le> n"
  using assms
proof (induction rule: edits.induct)
  case edits_empty
  then show ?case by simp
next
  case (edits_keep p q n c)
  note p = take_SucE [OF edits_keep.prems(1)] and q = take_SucE [OF edits_keep.prems(2)]
  show ?case
    using edits_keep.IH [OF p(1) q(1)] dist_steps(3) [of "Suc (length p)" "Suc (length q)" a b] p(2) q(2) by simp
next
  case (edits_replace p q n c d)
  note p = take_SucE [OF edits_replace.prems(1)] and q = take_SucE [OF edits_replace.prems(2)]
  show ?case
    using edits_replace.IH [OF p(1) q(1)] dist_steps(3) [of "Suc (length p)" "Suc (length q)" a b]
    by (simp split: if_splits)
next
  case (edits_delete p q n c)
  note p = take_SucE [OF edits_delete.prems(1)]
  show ?case
    using edits_delete.IH [OF p(1) edits_delete.prems(2)] dist_steps(1) [of "Suc (length p)" "length q" a b]
    by (cases "q = []") auto
next
  case (edits_insert p q n d)
  note q = take_SucE [OF edits_insert.prems(2)]
  show ?case
    using edits_insert.IH [OF edits_insert.prems(1) q(1)] dist_steps(2) [of "length p" "Suc (length q)" a b]
    by (cases "p = []") auto
next
  case (edits_exchange p q n c d)
  have "take (length ((p @ [c]) @ [d])) a = (p @ [c]) @ [d]" using edits_exchange.prems(1) by simp
  note p2 = take_SucE [OF this] note p = take_SucE [OF p2(1)]
  have "take (length ((q @ [d]) @ [c])) b = (q @ [d]) @ [c]" using edits_exchange.prems(2) by simp
  note q2 = take_SucE [OF this] note q = take_SucE [OF q2(1)]
  show ?case
    using edits_exchange.IH [OF p(1) q(1)] p(2) p2(2) q(2) q2(2)
      dist_steps(4) [of "length p + 2" "length q + 2" a b] by simp
qed

lemma take_snoc: "0 < i \<Longrightarrow> i \<le> length a \<Longrightarrow> take i a = take (i - 1) a @ [a ! (i - 1)]"
  by (cases i) (auto simp: take_Suc_conv_app_nth)

lemma edits_delete_all: "edits a [] (length a)"
  by (induction a rule: rev_induct) (auto intro: edits_empty dest: edits_delete)

lemma edits_insert_all: "edits [] b (length b)"
  by (induction b rule: rev_induct) (auto intro: edits_empty dest: edits_insert)

lemma edits_keep_or_replace:
  "edits a b n \<Longrightarrow> edits (a @ [c]) (b @ [d]) (n + (if c = d then 0 else 1))"
  by (auto intro: edits_keep edits_replace)

lemma edits_exchange_or_keep:
  "edits a b n \<Longrightarrow> edits (a @ [c, d]) (b @ [d, c]) (n + (if d = c then 0 else 1))"
  using edits_keep [OF edits_keep [of a b n c], of c] by (auto intro: edits_exchange)

lemma dist_attained:
  "i \<le> length a \<Longrightarrow> j \<le> length b \<Longrightarrow> edits (take i a) (take j b) (dist a b i j)"
proof (induction a b i j rule: dist.induct)
  case (1 a b i j)
  show ?case
  proof (cases "i = 0 \<or> j = 0")
    case True
    then show ?thesis
      using edits_insert_all [of "take j b"] edits_delete_all [of "take i a"] 1(5,6) by auto
  next
    case False
    then have ij: "i \<noteq> 0" "j \<noteq> 0" by simp_all
    define c where "c = (if a ! (i - 1) = b ! (j - 1) then 0 else 1 :: nat)"
    define m where "m = min (dist a b (i - 1) j + 1) (min (dist a b i (j - 1) + 1) (dist a b (i - 1) (j - 1) + c))"
    note ta = take_snoc [of i a] and tb = take_snoc [of j b]
    have less: "i - 1 \<le> length a" "j - 1 \<le> length b" using 1(5,6) by simp_all
    have e1: "edits (take i a) (take j b) (dist a b (i - 1) j + 1)"
      using edits_delete [OF 1(1) [OF ij refl less(1) 1(6)], of "a ! (i - 1)"] ta ij 1(5) by simp
    have e2: "edits (take i a) (take j b) (dist a b i (j - 1) + 1)"
      using edits_insert [OF 1(2) [OF ij refl 1(5) less(2)], of "b ! (j - 1)"] tb ij 1(6) by simp
    have e3: "edits (take i a) (take j b) (dist a b (i - 1) (j - 1) + c)"
      using edits_keep_or_replace [OF 1(3) [OF ij refl less], of "a ! (i - 1)" "b ! (j - 1)"] ta tb ij 1(5,6)
      by (simp add: c_def)
    have em: "edits (take i a) (take j b) m"
      using e1 e2 e3 by (simp add: m_def min_def)
    show ?thesis
    proof (cases "i > 1 \<and> j > 1 \<and> a ! (i - 1) = b ! (j - 2) \<and> a ! (i - 2) = b ! (j - 1)")
      case True
      have r: "dist a b i j = min m (dist a b (i - 2) (j - 2) + c)"
        using ij True by (subst dist.simps) (simp only: Let_def m_def c_def if_False if_True simp_thms)
      have "edits (take (i - 2) a) (take (j - 2) b) (dist a b (i - 2) (j - 2))"
        using 1(4) [OF ij refl refl True] 1(5,6) by simp
      from edits_exchange_or_keep [OF this, of "a ! (i - 2)" "a ! (i - 1)"]
      have "edits (take i a) (take j b) (dist a b (i - 2) (j - 2) + c)"
        using take_snoc [of "i - 1" a] take_snoc [of "j - 1" b] ta tb True 1(5,6)
        by (simp add: c_def numeral_2_eq_2)
      then show ?thesis unfolding r using em by (simp add: min_def)
    next
      case False
      have "dist a b i j = m"
        using ij by (subst dist.simps) (simp only: Let_def m_def c_def if_False if_not_P [OF False])
      then show ?thesis using em by simp
    qed
  qed
qed

lemma distance_is_least:
  assumes "length a + length b < 2147483647"
  shows "edits a b (nat (DamerauLevenshteinDistance a b))"
    "edits a b n \<Longrightarrow> DamerauLevenshteinDistance a b \<le> int n"
  using dist_attained [of "length a" a "length b" b] dist_least [of a b n a b]
  by (simp_all add: table_computes_dist [OF assms])

lemma edits_sym: "edits a b n \<Longrightarrow> edits b a n"
  by (induction rule: edits.induct) (auto intro: edits.intros)

lemma edits_none: "edits a b n \<Longrightarrow> n = 0 \<Longrightarrow> a = b"
  by (induction rule: edits.induct) auto

lemma edits_self: "edits a a 0"
  by (induction a rule: rev_induct) (auto intro: edits.intros)

lemma edits_lengths: "edits a b n \<Longrightarrow> length a \<le> length b + n \<and> length b \<le> length a + n"
  by (induction rule: edits.induct) auto

lemma edits_max: "edits a b (max (length a) (length b))"
proof (induction a arbitrary: b rule: rev_induct)
  case Nil
  then show ?case using edits_insert_all [of b] by simp
next
  case (snoc c a)
  show ?case
  proof (cases b rule: rev_cases)
    case Nil
    then show ?thesis using edits_delete_all [of "a @ [c]"] by simp
  next
    case (snoc b' d)
    then show ?thesis using edits_replace [OF snoc.IH [of b'], of c d] by simp
  qed
qed

text \<open>C22: for texts of together fewer than 2147483647 bytes, \<open>DamerauLevenshteinDistance\<close> returns the
  restricted distance (optimal string alignment): the least number of insertions, deletions, substitutions
  and exchanges of two neighbouring letters that align one text with the other when no letter is touched
  twice. So many edits suffice, and fewer never do. From \<open>ca\<close> to \<open>abc\<close> it is 3, although exchanging the
  letters and then inserting between them would be two edits: the distance the function is named after
  allows that, this one does not.\<close>

theorem DamerauLevenshteinDistance_least:
  assumes "length a + length b < 2147483647"
  shows "edits a b (nat (DamerauLevenshteinDistance a b)) \<and>
    (\<forall>n. edits a b n \<longrightarrow> DamerauLevenshteinDistance a b \<le> int n)"
  using distance_is_least [OF assms] by blast

theorem DamerauLevenshteinDistance_least_witness:
  "DamerauLevenshteinDistance ''ca'' ''abc'' = 3 \<and> DamerauLevenshteinDistance ''acl'' ''alc'' = 1 \<and>
   edits ''ca'' ''abc'' 3 \<and> \<not> edits ''ca'' ''abc'' 2"
proof -
  have d: "DamerauLevenshteinDistance ''ca'' ''abc'' = 3" "DamerauLevenshteinDistance ''acl'' ''alc'' = 1"
    by code_simp+
  show ?thesis
    using DamerauLevenshteinDistance_least [of "''ca''" "''abc''"] d by auto
qed

text \<open>The distance of two texts lies between the difference of their lengths and the length of the longer one,
  is 0 for equal texts only, and does not depend on the order of the two.\<close>

theorem DamerauLevenshteinDistance_bounds:
  assumes "length a + length b < 2147483647"
  shows "\<bar>int (length a) - int (length b)\<bar> \<le> DamerauLevenshteinDistance a b \<and>
    DamerauLevenshteinDistance a b \<le> int (max (length a) (length b)) \<and>
    (DamerauLevenshteinDistance a b = 0 \<longleftrightarrow> a = b) \<and>
    DamerauLevenshteinDistance a b = DamerauLevenshteinDistance b a"
proof -
  let ?D = "DamerauLevenshteinDistance"
  have swapped: "length b + length a < 2147483647" using assms by simp
  note ab = distance_is_least [OF assms] and ba = distance_is_least [OF swapped]
  have pos: "0 \<le> ?D a b" "0 \<le> ?D b a"
    by (simp_all add: table_computes_dist assms swapped)
  have "?D a b \<le> ?D b a" "?D b a \<le> ?D a b"
    using ab(2) [OF edits_sym [OF ba(1)]] ba(2) [OF edits_sym [OF ab(1)]] pos by simp_all
  then have sym: "?D a b = ?D b a" by simp
  have "a = b" if "?D a b = 0"
    using edits_none [OF ab(1)] that by simp
  moreover have "?D a b = 0" if "a = b"
    using ab(2) [of 0] edits_self [of a] that pos(1) by simp
  moreover have "\<bar>int (length a) - int (length b)\<bar> \<le> ?D a b"
    using edits_lengths [OF ab(1)] pos(1) by linarith
  ultimately show ?thesis
    using ab(2) [OF edits_max] sym by blast
qed

theorem DamerauLevenshteinDistance_bounds_witness:
  "DamerauLevenshteinDistance ''kind'' ''kinds'' \<ge> 1 \<and> DamerauLevenshteinDistance ''kind'' ''kinds'' \<le> 5"
  using DamerauLevenshteinDistance_bounds [of "''kind''" "''kinds''"] by auto

end
