(* ===== verification/Trie.thy ===== *)
theory Trie
  imports GoQuote "HOL-Library.AList" "HOL-Library.Multiset"
begin

text \<open>
  The prefix trie of \<open>trie/trie.go\<close>: insertion refines an update of a finite map from rune sequences to
  keys, and a prefix query returns the keys below a rune sequence, in whatever order Go's maps iterate.
\<close>

section \<open>Runes of a string\<close>

text \<open>\<open>for k, v := range s\<close>: the byte position and the rune; a byte that starts no valid encoding is U+FFFD.\<close>

function range_runes :: "nat \<Rightarrow> string \<Rightarrow> (nat \<times> nat) list" where
  "range_runes k s =
     (if s = [] then []
      else (case decode_rune s of
              (None, w) \<Rightarrow> (k, 65533) # range_runes (k + 1) (tl s)
            | (Some r, w) \<Rightarrow> (k, r) # range_runes (k + w) (drop w s)))"
  by pat_completeness auto
termination
  by (relation "measure (\<lambda>(k, s). length s)") (auto dest: decode_rune_Some [OF sym])

declare range_runes.simps [simp del]

abbreviation runes :: "string \<Rightarrow> nat list" where
  "runes s \<equiv> map snd (range_runes 0 s)"

text \<open>\<open>utf8.ValidString\<close>\<close>

function valid_utf8 :: "string \<Rightarrow> bool" where
  "valid_utf8 s =
     (if s = [] then True
      else (case decode_rune s of (None, w) \<Rightarrow> False | (Some r, w) \<Rightarrow> valid_utf8 (drop w s)))"
  by pat_completeness auto
termination
  by (relation "measure length") (auto dest: decode_rune_Some [OF sym])

declare valid_utf8.simps [simp del]

section \<open>The code\<close>

datatype node = Node (key_here: bool) (key_value: string) (child: "(nat \<times> node) list")

definition newNode :: node where
  "newNode = Node False [] []"

record trie =
  root :: node
  size_of :: nat

definition NewTrie :: trie where
  "NewTrie = \<lparr>root = newNode, size_of = 0\<rparr>"

text \<open>
  The walk of \<open>Insert\<close> from a node: the node with the key stored below it, and whether the key's
  node existed before as the node of a key (then the size stays).
\<close>

fun insert_runes :: "string \<Rightarrow> nat list \<Rightarrow> node \<Rightarrow> node \<times> bool" where
  "insert_runes key [] (Node e v ch) = (Node True key ch, e)"
| "insert_runes key (r # rs) (Node e v ch) =
     (let (c, old) = insert_runes key rs (case map_of ch r of None \<Rightarrow> newNode | Some c \<Rightarrow> c)
      in (Node e v (AList.update r c ch), old))"

definition Insert :: "trie \<Rightarrow> string \<Rightarrow> trie" where
  "Insert t key =
     (let (n, old) = insert_runes key (runes key) (root t)
      in \<lparr>root = n, size_of = (if old then size_of t else size_of t + 1)\<rparr>)"

text \<open>
  \<open>Walk\<close>: the keys of the children follow in the order of iteration over the map, which Go leaves
  open; \<open>order p\<close> is the order taken at the node with path \<open>p\<close>.
\<close>

type_synonym map_order = "nat list \<Rightarrow> (nat \<times> string list) list \<Rightarrow> (nat \<times> string list) list"

fun Walk :: "map_order \<Rightarrow> nat list \<Rightarrow> node \<Rightarrow> string list" where
  "Walk order p (Node e v ch) =
     (if e then [v] else []) @
     concat (map snd (order p (map (\<lambda>(r, c). (r, Walk order (p @ [r]) c)) ch)))"

text \<open>\<open>findNode\<close>, with the flag f and the index it returns beside the node.\<close>

fun find_loop :: "nat \<Rightarrow> (nat \<times> nat) list \<Rightarrow> node \<Rightarrow> bool \<Rightarrow> nat \<Rightarrow> node option \<times> nat" where
  "find_loop len [] n f index = (Some n, if key_here n then len else index)"
| "find_loop len ((k, v) # rs) n f index =
     (let (f, index) = (if f then (False, k) else (f, index))
      in (case map_of (child n) v of
            None \<Rightarrow> (None, index)
          | Some c \<Rightarrow> find_loop len rs c (if key_here c then True else f) index))"

definition findNode :: "trie \<Rightarrow> string \<Rightarrow> node option \<times> nat" where
  "findNode t key = find_loop (length key) (range_runes 0 key) (root t) False 0"

definition PrefixMatch :: "map_order \<Rightarrow> trie \<Rightarrow> string \<Rightarrow> string list" where
  "PrefixMatch order t key =
     (case fst (findNode t key) of None \<Rightarrow> [] | Some n \<Rightarrow> Walk order [] n)"

section \<open>The map a trie stands for\<close>

fun lookup :: "node \<Rightarrow> nat list \<Rightarrow> string option" where
  "lookup (Node e v ch) [] = (if e then Some v else None)"
| "lookup (Node e v ch) (r # rs) = (case map_of ch r of None \<Rightarrow> None | Some c \<Rightarrow> lookup c rs)"

fun one_child_per_rune :: "node \<Rightarrow> bool" where
  "one_child_per_rune (Node e v ch) \<longleftrightarrow> distinct (map fst ch) \<and> (\<forall>(r, c) \<in> set ch. one_child_per_rune c)"

lemma lookup_newNode [simp]: "lookup newNode rs = None"
  by (cases rs) (simp_all add: newNode_def)

lemma newNode_ok [simp]: "one_child_per_rune newNode"
  by (simp add: newNode_def)

lemma lookup_insert:
  "lookup (fst (insert_runes key rs n)) = (lookup n)(rs \<mapsto> key)"
proof (induction key rs n rule: insert_runes.induct)
  case (1 key e v ch)
  show ?case
  proof
    fix xs show "lookup (fst (insert_runes key [] (Node e v ch))) xs = ((lookup (Node e v ch))([] \<mapsto> key)) xs"
      by (cases xs) simp_all
  qed
next
  case (2 key r rs e v ch)
  show ?case
  proof
    fix xs show "lookup (fst (insert_runes key (r # rs) (Node e v ch))) xs =
      ((lookup (Node e v ch))(r # rs \<mapsto> key)) xs"
      using 2 by (cases xs) (auto simp: split_beta update_conv' split: option.splits)
  qed
qed

lemma insert_old: "snd (insert_runes key rs n) \<longleftrightarrow> lookup n rs \<noteq> None"
  by (induction key rs n rule: insert_runes.induct) (auto simp: split_beta split: option.splits)

lemma insert_ok: "one_child_per_rune n \<Longrightarrow> one_child_per_rune (fst (insert_runes key rs n))"
proof (induction key rs n rule: insert_runes.induct)
  case (2 key r rs e v ch)
  let ?c = "case map_of ch r of None \<Rightarrow> newNode | Some c \<Rightarrow> c"
  have "one_child_per_rune ?c"
    using 2(2) by (auto split: option.splits dest: map_of_SomeD)
  then have "one_child_per_rune (fst (insert_runes key rs ?c))" by (rule 2(1))
  moreover have "set (AList.update r x ch) \<subseteq> insert (r, x) (set ch)" for x
    by (induction ch) auto
  ultimately show ?case
    using 2(2) by (fastforce simp: split_beta distinct_update)
qed simp

definition subnode :: "node \<Rightarrow> nat list \<Rightarrow> node option" where
  "subnode n rs = foldl (\<lambda>m r. case m of None \<Rightarrow> None | Some c \<Rightarrow> map_of (child c) r) (Some n) rs"

lemma foldl_None: "foldl (\<lambda>m r. case m of None \<Rightarrow> None | Some c \<Rightarrow> map_of (child c) r) None rs = None"
  by (induction rs) auto

lemma subnode_simps [simp]:
  "subnode n [] = Some n"
  "subnode n (r # rs) = (case map_of (child n) r of None \<Rightarrow> None | Some c \<Rightarrow> subnode c rs)"
  by (auto simp: subnode_def foldl_None split: option.splits)

lemma find_loop_subnode: "fst (find_loop len krs n f index) = subnode n (map snd krs)"
proof (induction krs arbitrary: n f index)
  case (Cons kr krs)
  then show ?case by (cases kr) (auto split: option.splits)
qed simp

lemma subnode_lookup:
  "lookup n (rs @ xs) = (case subnode n rs of None \<Rightarrow> None | Some c \<Rightarrow> lookup c xs)"
proof (induction rs arbitrary: n)
  case (Cons r rs)
  then show ?case by (cases n) (auto split: option.splits)
qed simp

lemma subnode_ok: "one_child_per_rune n \<Longrightarrow> subnode n rs = Some c \<Longrightarrow> one_child_per_rune c"
proof (induction rs arbitrary: n)
  case (Cons r rs)
  then show ?case by (cases n) (auto split: option.splits dest!: map_of_SomeD)
qed simp

text \<open>What \<open>Walk\<close> returns, for every order of iteration.\<close>

definition any_order :: "map_order \<Rightarrow> bool" where
  "any_order order \<longleftrightarrow> (\<forall>p xs. mset (order p xs) = mset xs)"

lemma mset_concat_sum: "mset (concat xss) = \<Sum>\<^sub># (image_mset mset (mset xss))"
  by (induction xss) auto

lemma concat_order:
  assumes "any_order order"
  shows "set (concat (map snd (order p xs))) = set (concat (map snd xs))"
    "distinct (concat (map snd (order p xs))) = distinct (concat (map snd xs))"
proof -
  have "mset (map snd (order p xs)) = mset (map snd xs)" using assms by (simp add: any_order_def)
  then have "mset (concat (map snd (order p xs))) = mset (concat (map snd xs))"
    by (simp only: mset_concat_sum)
  then show "set (concat (map snd (order p xs))) = set (concat (map snd xs))"
    "distinct (concat (map snd (order p xs))) = distinct (concat (map snd xs))"
    by (rule mset_eq_setD, rule mset_eq_imp_distinct_iff)
qed

lemma set_Walk:
  "any_order order \<Longrightarrow> one_child_per_rune n \<Longrightarrow> set (Walk order p n) = ran (lookup n)"
proof (induction order p n rule: Walk.induct)
  case (1 order p e v ch)
  have IH: "set (Walk order (p @ [r]) c) = ran (lookup c)" if "(r, c) \<in> set ch" for r c
  proof -
    have "one_child_per_rune c" using bspec [OF conjunct2 [OF 1(3) [unfolded one_child_per_rune.simps]] that] by simp
    then show ?thesis by (rule 1(1) [OF that refl 1(2)])
  qed
  have "set (concat (map snd (map (\<lambda>(r, c). (r, Walk order (p @ [r]) c)) ch))) = (\<Union>x\<in>set ch. ran (lookup (snd x)))"
  proof -
    have "set (concat (map snd (map (\<lambda>(r, c). (r, Walk order (p @ [r]) c)) ch))) =
        (\<Union>x\<in>set ch. set (Walk order (p @ [fst x]) (snd x)))"
      by (simp add: split_beta)
    also have "\<dots> = (\<Union>x\<in>set ch. ran (lookup (snd x)))"
      by (intro SUP_cong refl IH) simp
    finally show ?thesis .
  qed
  moreover have "ran (lookup (Node e v ch)) = (if e then {v} else {}) \<union> (\<Union>x\<in>set ch. ran (lookup (snd x)))" (is "?L = ?R")
  proof
    show "?L \<subseteq> ?R"
    proof
      fix x assume "x \<in> ?L"
      then obtain rs where "lookup (Node e v ch) rs = Some x" by (auto simp: ran_def)
      then consider "e" "x = v" | r c xs where "(r, c) \<in> set ch" "lookup c xs = Some x"
        by (cases rs) (auto split: if_splits option.splits dest!: map_of_SomeD)
      then show "x \<in> ?R"
      proof cases
        case (2 r c xs)
        then have "x \<in> ran (lookup (snd (r, c)))" by (simp add: ranI)
        with 2(1) show ?thesis by blast
      qed simp
    qed
    show "?R \<subseteq> ?L"
    proof
      fix x assume "x \<in> ?R"
      then consider "e" "x = v" | r c rs where "(r, c) \<in> set ch" "lookup c rs = Some x"
        by (auto simp: ran_def split: if_splits)
      then show "x \<in> ?L"
      proof cases
        case 1
        then have "lookup (Node e v ch) [] = Some x" by simp
        then show ?thesis by (rule ranI)
      next
        case (2 r c rs)
        then have "lookup (Node e v ch) (r # rs) = Some x"
          using 1(3) by (simp add: map_of_is_SomeI)
        then show ?thesis by (rule ranI)
      qed
    qed
  qed
  ultimately show ?case
    by (simp only: Walk.simps set_append concat_order(1) [OF 1(2)]) simp
qed

lemma distinct_Walk:
  assumes "any_order order" "one_child_per_rune n" "inj_on (lookup n) (dom (lookup n))"
  shows "distinct (Walk order p n)"
  using assms
proof (induction order p n rule: Walk.induct)
  case (1 order p e v ch)
  note ok = conjunct1 [OF 1(3) [unfolded one_child_per_rune.simps]]
    bspec [OF conjunct2 [OF 1(3) [unfolded one_child_per_rune.simps]]]
  have at_child: "lookup (Node e v ch) (r # rs) = lookup c rs" if "(r, c) \<in> set ch" for r c rs
    using that ok(1) by (simp add: map_of_is_SomeI)
  have same: "xs = ys" if "lookup (Node e v ch) xs = Some z" "lookup (Node e v ch) ys = Some z" for xs ys z
    using inj_onD [OF 1(4), of xs ys] that by auto
  have one: "distinct (Walk order (p @ [r]) c)" if rc: "(r, c) \<in> set ch" for r c
  proof -
    have "inj_on (lookup c) (dom (lookup c))"
    proof (rule inj_onI)
      fix xs ys assume "xs \<in> dom (lookup c)" "lookup c xs = lookup c ys"
      then obtain z where z: "lookup c xs = Some z" by blast
      then have "lookup c ys = Some z" using \<open>lookup c xs = lookup c ys\<close> by simp
      with z show "xs = ys" using same [of "r # xs" z "r # ys"] at_child [OF rc] by simp
    qed
    moreover have "one_child_per_rune c" using ok(2) [OF rc] by simp
    ultimately show ?thesis using 1(1) [OF rc refl 1(2)] by blast
  qed
  have elems: "z \<in> set (Walk order (p @ [r]) c) \<longleftrightarrow> (\<exists>rs. lookup (Node e v ch) (r # rs) = Some z)"
    if rc: "(r, c) \<in> set ch" for r c z
    using set_Walk [OF 1(2), of c] ok(2) [OF rc] at_child [OF rc] by (simp add: ran_def)
  have "distinct (concat (map snd (map (\<lambda>(r, c). (r, Walk order (p @ [r]) c)) xs)))"
    if "distinct (map fst xs)" "set xs \<subseteq> set ch" for xs
    using that
  proof (induction xs)
    case (Cons x xs)
    obtain r c where x: "x = (r, c)" by (cases x)
    have "z \<notin> set (Walk order (p @ [r']) c')"
      if here: "z \<in> set (Walk order (p @ [r]) c)" "(r', c') \<in> set xs" for z r' c'
    proof
      assume "z \<in> set (Walk order (p @ [r']) c')"
      moreover have "(r, c) \<in> set ch" "(r', c') \<in> set ch" using here(2) Cons.prems(2) x by auto
      ultimately obtain rs rs' where
        "lookup (Node e v ch) (r # rs) = Some z" "lookup (Node e v ch) (r' # rs') = Some z"
        using here(1) elems by blast
      then have "r = r'" using same by blast
      then show False using here(2) Cons.prems(1) x by force
    qed
    then show ?case using Cons one [of r c] x by auto
  qed simp
  from this [OF ok(1) subset_refl]
  have "distinct (concat (map snd (order p (map (\<lambda>(r, c). (r, Walk order (p @ [r]) c)) ch))))"
    by (simp only: concat_order(2) [OF 1(2)])
  moreover have "v \<notin> set (Walk order (p @ [r]) c)" if "e" "(r, c) \<in> set ch" for r c
  proof
    assume "v \<in> set (Walk order (p @ [r]) c)"
    then obtain rs where "lookup (Node e v ch) (r # rs) = Some v" using elems [OF \<open>(r, c) \<in> set ch\<close>] by blast
    moreover have "lookup (Node e v ch) [] = Some v" using \<open>e\<close> by simp
    ultimately show False using same by blast
  qed
  then have "e \<Longrightarrow> v \<notin> set (concat (map snd (order p (map (\<lambda>(r, c). (r, Walk order (p @ [r]) c)) ch))))"
    unfolding concat_order(1) [OF 1(2)] by auto
  ultimately show ?case by simp
qed

section \<open>The trie\<close>

definition trie_map :: "trie \<Rightarrow> nat list \<rightharpoonup> string" where
  "trie_map t = lookup (root t)"

definition trie_ok :: "trie \<Rightarrow> bool" where
  "trie_ok t \<longleftrightarrow> one_child_per_rune (root t) \<and> finite (dom (trie_map t)) \<and> size_of t = card (dom (trie_map t)) \<and>
     (\<forall>rs k. trie_map t rs = Some k \<longrightarrow> runes k = rs)"

lemma trie_map_Insert: "trie_map (Insert t k) = (trie_map t)(runes k \<mapsto> k)"
  by (simp add: trie_map_def Insert_def split_beta lookup_insert)

lemma trie_map_New: "trie_map NewTrie = Map.empty"
  by (auto simp: trie_map_def NewTrie_def)

lemma trie_ok_New: "trie_ok NewTrie"
  by (simp add: trie_ok_def trie_map_New) (simp add: NewTrie_def)

lemma trie_ok_Insert:
  assumes "trie_ok t" shows "trie_ok (Insert t k)"
proof -
  have "size_of (Insert t k) = card (dom (trie_map (Insert t k)))"
  proof -
    have "size_of (Insert t k) = (if runes k \<in> dom (trie_map t) then size_of t else size_of t + 1)"
      by (auto simp: Insert_def split_beta insert_old trie_map_def)
    then show ?thesis
      using assms by (simp add: trie_map_Insert trie_ok_def insert_absorb)
  qed
  moreover have "one_child_per_rune (root (Insert t k))"
    using assms by (simp add: trie_ok_def Insert_def split_beta insert_ok)
  ultimately show ?thesis
    using assms by (auto simp: trie_ok_def trie_map_Insert)
qed

lemma PrefixMatch_entries:
  assumes "trie_ok t" "any_order order"
  shows "set (PrefixMatch order t p) = {k. \<exists>rs. trie_map t (runes p @ rs) = Some k}"
    "distinct (PrefixMatch order t p)"
proof -
  have found: "fst (findNode t p) = subnode (root t) (runes p)"
    by (simp add: findNode_def find_loop_subnode)
  have below: "trie_map t (runes p @ xs) = (case subnode (root t) (runes p) of None \<Rightarrow> None | Some c \<Rightarrow> lookup c xs)" for xs
    by (simp add: trie_map_def subnode_lookup)
  have "set (PrefixMatch order t p) = {k. \<exists>rs. trie_map t (runes p @ rs) = Some k} \<and> distinct (PrefixMatch order t p)"
  proof (cases "subnode (root t) (runes p)")
    case None
    then show ?thesis by (simp add: PrefixMatch_def found below)
  next
    case (Some n)
    have ok: "one_child_per_rune n"
      using assms(1) Some by (auto simp: trie_ok_def intro: subnode_ok)
    have inj: "inj_on (lookup n) (dom (lookup n))"
    proof (rule inj_onI)
      fix xs ys assume "xs \<in> dom (lookup n)" "ys \<in> dom (lookup n)" "lookup n xs = lookup n ys"
      then obtain k where "trie_map t (runes p @ xs) = Some k" "trie_map t (runes p @ ys) = Some k"
        unfolding below Some by auto
      then have "runes k = runes p @ xs" "runes k = runes p @ ys"
        using assms(1) unfolding trie_ok_def by blast+
      then show "xs = ys" by simp
    qed
    show ?thesis
      using set_Walk [OF assms(2) ok] distinct_Walk [OF assms(2) ok inj]
      by (simp add: PrefixMatch_def found below Some ran_def)
  qed
  then show "set (PrefixMatch order t p) = {k. \<exists>rs. trie_map t (runes p @ rs) = Some k}"
    "distinct (PrefixMatch order t p)" by simp_all
qed

section \<open>Keys that are valid UTF-8\<close>

lemma range_runes_steps:
  "decode_rune s = (Some r, w) \<Longrightarrow> s \<noteq> [] \<Longrightarrow> range_runes k s = (k, r) # range_runes (k + w) (drop w s)"
  "decode_rune s = (None, w) \<Longrightarrow> s \<noteq> [] \<Longrightarrow> range_runes k s = (k, 65533) # range_runes (k + 1) (tl s)"
  "range_runes k [] = []"
  by (subst range_runes.simps, simp)+

lemma runes_shift: "map snd (range_runes k s) = map snd (range_runes k' s)"
proof (induction k s arbitrary: k' rule: range_runes.induct)
  case (1 k s)
  show ?case
  proof (cases "s = []")
    case False
    obtain d w where dw: "decode_rune s = (d, w)" by (cases "decode_rune s")
    show ?thesis
    proof (cases d)
      case None
      then show ?thesis
        using 1(1) [OF False dw [symmetric] None, of "k' + 1"] dw False by (simp add: range_runes_steps)
    next
      case (Some a)
      then show ?thesis
        using 1(2) [OF False dw [symmetric] Some, of "k' + w"] dw False by (simp add: range_runes_steps)
    qed
  qed (simp add: range_runes_steps)
qed

lemma valid_utf8_induct [consumes 1, case_names Nil step]:
  assumes "valid_utf8 s" "P []"
    and step: "\<And>s r w. decode_rune s = (Some r, w) \<Longrightarrow> s \<noteq> [] \<Longrightarrow> valid_utf8 (drop w s) \<Longrightarrow>
      P (drop w s) \<Longrightarrow> runes s = r # runes (drop w s) \<Longrightarrow> P s"
  shows "P s"
  using assms(1)
proof (induction s rule: valid_utf8.induct)
  case (1 s)
  show ?case
  proof (cases "s = []")
    case False
    obtain r w where d: "decode_rune s = (Some r, w)"
      using 1(2) False by (subst (asm) valid_utf8.simps) (auto split: option.splits)
    have v: "valid_utf8 (drop w s)"
      using 1(2) False d by (subst (asm) valid_utf8.simps) simp
    have "runes s = r # runes (drop w s)"
      using runes_shift [of "0 + w" "drop w s" 0] by (simp add: range_runes_steps(1) [OF d False])
    then show ?thesis
      using step [OF d False v 1(1) [OF False d [symmetric] refl v]] by simp
  qed (use assms(2) in simp)
qed

lemma runes_encode: "valid_utf8 s \<Longrightarrow> concat (map encode_rune (runes s)) = s"
proof (induction s rule: valid_utf8_induct)
  case (step s r w)
  then show ?case
    using decode_rune_Some [OF step(1)] by simp (metis append_take_drop_id)
qed (simp add: range_runes_steps)

lemma runes_append: "valid_utf8 p \<Longrightarrow> runes (p @ t) = runes p @ runes t"
proof (induction p rule: valid_utf8_induct)
  case (step p r w)
  have w: "w \<le> length p" using decode_rune_Some [OF step(1)] by simp
  have "take w p @ drop w p @ t = p @ t" by (simp flip: append_assoc)
  then have "decode_rune (p @ t) = (Some r, w)"
    using decode_rune_stable [OF step(1), of "drop w p @ t"] by (simp only:)
  then have "runes (p @ t) = r # runes (drop w p @ t)"
    using runes_shift [of w "drop w p @ t" 0] step(2) w by (simp add: range_runes_steps)
  then show ?case using step by simp
qed (simp add: range_runes_steps)

lemma runes_prefix:
  assumes "valid_utf8 p" "valid_utf8 k"
  shows "has_prefix k p \<longleftrightarrow> (\<exists>rs. runes k = runes p @ rs)"
proof
  assume "has_prefix k p"
  then show "\<exists>rs. runes k = runes p @ rs"
    using runes_append [OF assms(1)] by (auto simp: has_prefix_iff)
next
  assume "\<exists>rs. runes k = runes p @ rs"
  then obtain rs where "runes k = runes p @ rs" by blast
  then have "k = p @ concat (map encode_rune rs)"
    using runes_encode [OF assms(1)] runes_encode [OF assms(2)] by simp
  then show "has_prefix k p" by simp
qed

lemma runes_inj: "valid_utf8 k \<Longrightarrow> valid_utf8 k' \<Longrightarrow> runes k = runes k' \<Longrightarrow> k = k'"
  by (metis runes_encode)

section \<open>What the trie computes\<close>

abbreviation filled :: "string list \<Rightarrow> trie" where
  "filled ks \<equiv> foldl Insert NewTrie ks"

lemma filled_ok: "trie_ok (filled ks)"
  by (induction ks rule: rev_induct) (simp_all add: trie_ok_New trie_ok_Insert)

lemma filled_map: "trie_map (filled ks) = map_of (map (\<lambda>k. (runes k, k)) (rev ks))"
  by (induction ks rule: rev_induct) (simp_all add: trie_map_New trie_map_Insert)

text \<open>C25: \<open>Insert\<close> refines the update of the map from rune sequences to keys: a well-formed trie stays well-formed
  (one child per rune, the size counts the keys, each key stands at its own runes), the map
  it stands for is updated at the runes of the key, and the size is the number of rune sequences
  that lead to a key. Keys that are not valid UTF-8 share the sequence of their replacement runes.\<close>

theorem Insert_refines_update:
  assumes "trie_ok t"
  shows "trie_ok (Insert t k) \<and> trie_map (Insert t k) = (trie_map t)(runes k \<mapsto> k) \<and>
    size_of (Insert t k) = card (insert (runes k) (dom (trie_map t)))"
proof -
  have ok: "trie_ok (Insert t k)" using trie_ok_Insert [OF assms] .
  then have "size_of (Insert t k) = card (dom (trie_map (Insert t k)))" unfolding trie_ok_def by blast
  then show ?thesis using ok by (simp add: trie_map_Insert)
qed

theorem Insert_refines_update_witness:
  "trie_map (Insert NewTrie ''ab'') = [runes ''ab'' \<mapsto> ''ab''] \<and> size_of (Insert NewTrie ''ab'') = 1"
  using Insert_refines_update [OF trie_ok_New, of "''ab''"] by (simp add: trie_map_New)

text \<open>C29: For keys and a prefix in valid UTF-8, \<open>PrefixMatch\<close> returns, in whatever order the maps iterate, exactly the
  inserted keys that begin with the prefix, each of them once.\<close>

theorem PrefixMatch_exact:
  assumes "any_order order" "valid_utf8 p" "\<forall>k\<in>set ks. valid_utf8 k"
  shows "set (PrefixMatch order (foldl Insert NewTrie ks) p) = {k \<in> set ks. has_prefix k p} \<and>
    distinct (PrefixMatch order (foldl Insert NewTrie ks) p)"
proof -
  have "trie_map (filled ks) rs = Some k \<longleftrightarrow> k \<in> set ks \<and> runes k = rs" for rs k
  proof
    assume "trie_map (filled ks) rs = Some k"
    then show "k \<in> set ks \<and> runes k = rs" by (auto simp: filled_map dest: map_of_SomeD)
  next
    assume k: "k \<in> set ks \<and> runes k = rs"
    then have "rs \<in> fst ` set (map (\<lambda>k. (runes k, k)) (rev ks))" by force
    then obtain k' where k': "map_of (map (\<lambda>k. (runes k, k)) (rev ks)) rs = Some k'"
      by (meson map_of_eq_None_iff option.exhaust)
    then have "k' \<in> set ks" "runes k' = rs" by (auto dest: map_of_SomeD)
    then have "k' = k" using runes_inj assms(3) k by blast
    then show "trie_map (filled ks) rs = Some k" using k' by (simp add: filled_map)
  qed
  then show ?thesis
    using PrefixMatch_entries [OF filled_ok assms(1), of ks p] runes_prefix [OF assms(2)] assms(3) by auto
qed

text \<open>Keys that are not valid UTF-8 share a node: the later one replaces the earlier.\<close>

lemma invalid_keys_collide:
  "size_of (filled [[CHR 0xFF], [CHR 0xFE]]) = 1"
proof -
  have "runes [CHR 0xFF] = [65533]" "runes [CHR 0xFE] = [65533]"
    by (simp_all add: range_runes.simps decode_rune_def Let_def byte_def)
  then show ?thesis
    by (simp add: Insert_def NewTrie_def newNode_def)
qed

theorem PrefixMatch_exact_witness:
  "set (PrefixMatch (\<lambda>p. rev) (foldl Insert NewTrie [''minio'', ''ming'', ''silo'']) ''min'') = {''minio'', ''ming''}"
proof -
  have ascii: "list_all (\<lambda>c. byte c < 128) s \<Longrightarrow> valid_utf8 s" for s
  proof (induction s)
    case (Cons c s)
    then show ?case by (subst valid_utf8.simps) (simp add: decode_rune_def Let_def)
  qed (simp add: valid_utf8.simps)
  have "valid_utf8 ''min''" "\<forall>k\<in>set [''minio'', ''ming'', ''silo'']. valid_utf8 k"
    by (auto intro!: ascii simp: byte_def)
  then have "set (PrefixMatch (\<lambda>p. rev) (foldl Insert NewTrie [''minio'', ''ming'', ''silo'']) ''min'') =
      {k \<in> set [''minio'', ''ming'', ''silo'']. has_prefix k ''min''}"
    using PrefixMatch_exact [of "\<lambda>p. rev" "''min''" "[''minio'', ''ming'', ''silo'']"]
    by (simp only: any_order_def mset_rev simp_thms)
  moreover have "{k \<in> set [''minio'', ''ming'', ''silo'']. has_prefix k ''min''} = {''minio'', ''ming''}"
    by (auto simp: has_prefix_def)
  ultimately show ?thesis by (simp only:)
qed

end
