(* ===== verification/Workers.thy ===== *)
theory Workers
  imports GoPrelude
begin

text \<open>
  The worker pool of \<open>workers/workers.go\<close>: \<open>Take\<close>, \<open>Give\<close> and \<open>Wait\<close> as the atomic operations they make
  on a channel of tokens and a wait group, interleaved in every possible way, for clients that take a
  token before each job and give it back at the job's end.
\<close>

section \<open>The pool\<close>

text \<open>The queue is a channel of empty structs: its capacity and the number of tokens in it.\<close>

record pool =
  wg :: nat
  queue :: nat
  capacity :: nat

definition New :: "int \<Rightarrow> string + pool" where
  "New n = (if n \<le> 0 then Inl ''n must be > 0''
            else Inr \<lparr>wg = 0, queue = foldl (\<lambda>q i. q + 1) 0 [0..<nat n], capacity = nat n\<rparr>)"

text \<open>The atomic operations on the wait group and on the channel.\<close>

datatype op = Wg_Add | Queue_Receive | Queue_Send | Wg_Done | Wg_Wait

definition Take :: "op list" where
  "Take = [Wg_Add, Queue_Receive]"

definition Give :: "op list" where
  "Give = [Queue_Send, Wg_Done]"

definition Wait :: "op list" where
  "Wait = [Wg_Wait]"

text \<open>An operation proceeds, blocks or panics (a wait group counter never goes below zero).\<close>

datatype 'a outcome = Goes 'a | Blocks | Panics

fun exec :: "op \<Rightarrow> pool \<Rightarrow> pool outcome" where
  "exec Wg_Add p = Goes (p\<lparr>wg := wg p + 1\<rparr>)"
| "exec Queue_Receive p = (if queue p > 0 then Goes (p\<lparr>queue := queue p - 1\<rparr>) else Blocks)"
| "exec Queue_Send p = (if queue p < capacity p then Goes (p\<lparr>queue := queue p + 1\<rparr>) else Blocks)"
| "exec Wg_Done p = (if wg p = 0 then Panics else Goes (p\<lparr>wg := wg p - 1\<rparr>))"
| "exec Wg_Wait p = (if wg p = 0 then Goes p else Blocks)"

section \<open>Goroutines that use it\<close>

text \<open>A goroutine is the list of what it still has to do: operations, the job itself, or a \<open>go\<close> statement.\<close>

datatype instr = Do op | Job | Go "instr list"

text \<open>
  \<open>go func() { defer p.Give(); ... }\<close>, and the client: in each round it starts so many jobs, each after
  taking a token, and then waits for them.
\<close>

definition job :: "instr list" where
  "job = Job # map Do Give"

fun client :: "nat list \<Rightarrow> instr list" where
  "client [] = []"
| "client (0 # ks) = map Do Wait @ client ks"
| "client (Suc k # ks) = map Do Take @ Go job # client (k # ks)"

record sys =
  pool_of :: pool
  main_rest :: "instr list"
  spawned :: "instr list list"
  jobs_done :: nat
  crashed :: bool

definition start :: "pool \<Rightarrow> nat list \<Rightarrow> sys" where
  "start p ks = \<lparr>pool_of = p, main_rest = client ks, spawned = [], jobs_done = 0, crashed = False\<rparr>"

text \<open>One step of a goroutine: what remains, the pool, what it spawns, and the jobs it finishes.\<close>

fun advance :: "instr list \<Rightarrow> pool \<Rightarrow> (instr list \<times> pool \<times> instr list list \<times> nat) outcome" where
  "advance [] p = Blocks"
| "advance (Do x # rest) p = (case exec x p of Goes q \<Rightarrow> Goes (rest, q, [], 0) | Blocks \<Rightarrow> Blocks | Panics \<Rightarrow> Panics)"
| "advance (Job # rest) p = Goes (rest, p, [], 1)"
| "advance (Go body # rest) p = Goes (rest, p, [body], 0)"

inductive step :: "sys \<Rightarrow> sys \<Rightarrow> bool" where
  main_step: "advance (main_rest s) (pool_of s) = Goes (rest, p, new, n) \<Longrightarrow> \<not> crashed s \<Longrightarrow>
    step s (s\<lparr>pool_of := p, main_rest := rest, spawned := spawned s @ new, jobs_done := jobs_done s + n\<rparr>)"
| spawned_step: "i < length (spawned s) \<Longrightarrow>
    advance (spawned s ! i) (pool_of s) = Goes (rest, p, new, n) \<Longrightarrow> \<not> crashed s \<Longrightarrow>
    step s (s\<lparr>pool_of := p, spawned := (spawned s)[i := rest] @ new, jobs_done := jobs_done s + n\<rparr>)"
| main_panics: "advance (main_rest s) (pool_of s) = Panics \<Longrightarrow> \<not> crashed s \<Longrightarrow> step s (s\<lparr>crashed := True\<rparr>)"
| spawned_panics: "i < length (spawned s) \<Longrightarrow> advance (spawned s ! i) (pool_of s) = Panics \<Longrightarrow> \<not> crashed s \<Longrightarrow>
    step s (s\<lparr>crashed := True\<rparr>)"

inductive_cases stepE: "step s t"

section \<open>The invariant\<close>

text \<open>A goroutine with a token, one the wait group counts, one whose job is not done.\<close>

definition holds :: "instr list \<Rightarrow> nat" where
  "holds xs = (if Do Queue_Send \<in> set xs then 1 else 0)"

definition counted :: "instr list \<Rightarrow> nat" where
  "counted xs = (if Do Wg_Done \<in> set xs then 1 else 0)"

definition to_do :: "instr list \<Rightarrow> nat" where
  "to_do xs = (if Job \<in> set xs then 1 else 0)"

abbreviation total :: "(instr list \<Rightarrow> nat) \<Rightarrow> sys \<Rightarrow> nat" where
  "total f s \<equiv> sum_list (map f (spawned s))"

text \<open>Where the client stands: tokens it holds for the next job, counts it added for it, jobs to start.\<close>

inductive main_at :: "instr list \<Rightarrow> nat \<Rightarrow> nat \<Rightarrow> nat \<Rightarrow> bool" where
  at_client: "main_at (client ks) 0 0 (sum_list ks)"
| at_receive: "main_at (Do Queue_Receive # Go job # client (k # ks)) 0 1 (Suc (sum_list (k # ks)))"
| at_go: "main_at (Go job # client (k # ks)) 1 1 (Suc (sum_list (k # ks)))"

definition spawned_at :: "instr list \<Rightarrow> bool" where
  "spawned_at xs \<longleftrightarrow> xs = job \<or> xs = map Do Give \<or> xs = [Do Wg_Done] \<or> xs = []"

definition inv :: "nat \<Rightarrow> nat \<Rightarrow> sys \<Rightarrow> bool" where
  "inv n m s \<longleftrightarrow> (\<exists>h c r. main_at (main_rest s) h c r \<and> list_all spawned_at (spawned s) \<and> \<not> crashed s \<and>
     capacity (pool_of s) = n \<and> queue (pool_of s) + h + total holds s = n \<and>
     wg (pool_of s) = c + total counted s \<and> jobs_done s + total to_do s = length (spawned s) \<and>
     length (spawned s) + r = m)"

lemma thread_simps [simp]:
  "holds job = 1" "holds (map Do Give) = 1" "holds [Do Wg_Done] = 0" "holds [] = 0"
  "counted job = 1" "counted (map Do Give) = 1" "counted [Do Wg_Done] = 1" "counted [] = 0"
  "to_do job = 1" "to_do (map Do Give) = 0" "to_do [Do Wg_Done] = 0" "to_do [] = 0"
  by (auto simp: holds_def counted_def to_do_def job_def Give_def)

lemma New_Inr:
  assumes "New n = Inr p"
  shows "0 < n" "p = \<lparr>wg = 0, queue = nat n, capacity = nat n\<rparr>"
proof -
  have "foldl (\<lambda>q i. q + 1) 0 xs = length xs" for xs :: "nat list"
    by (induction xs rule: rev_induct) auto
  then show "0 < n" "p = \<lparr>wg = 0, queue = nat n, capacity = nat n\<rparr>"
    using assms by (auto simp: New_def split: if_splits)
qed

lemma inv_start: "New n = Inr p \<Longrightarrow> inv (nat n) (sum_list ks) (start p ks)"
  by (auto dest!: New_Inr simp: inv_def start_def intro!: exI at_client)

lemma total_update:
  "i < length (spawned s) \<Longrightarrow> spawned s ! i = x \<Longrightarrow>
   sum_list (map f ((spawned s)[i := y])) + f x = total f s + (f y :: nat)"
  using sum_list_update [of i "spawned s" f y] by simp

inductive_cases main_atE: "main_at xs h c r"

lemma main_moves:
  assumes "main_at xs h c r" "advance xs p = Goes (rest, q, new, n)"
  obtains h' c' r' where "main_at rest h' c' r'" "n = 0" "list_all spawned_at new" "length new + r' = r"
    "capacity q = capacity p" "queue q + h' + sum_list (map holds new) = queue p + h"
    "wg q + c = wg p + c' + sum_list (map counted new)" "sum_list (map to_do new) = length new"
proof -
  from assms(1) show thesis
  proof cases
    case (at_client ks)
    show thesis
    proof (cases ks rule: client.cases)
      case 1
      then show thesis using at_client assms(2) by simp
    next
      case (2 ks')
      then show thesis
        using at_client assms(2) by (intro that [of 0 0 "sum_list ks'"]) (auto simp: Wait_def intro: main_at.at_client split: if_splits)
    next
      case (3 k ks')
      then show thesis
        using at_client assms(2) main_at.at_receive [of k ks']
        by (intro that [of 0 1 "Suc (sum_list (k # ks'))"]) (auto simp: Take_def)
    qed
  next
    case (at_receive k ks)
    then show thesis
      using assms(2) at_go [of k ks]
      by (intro that [of 1 1 "Suc (sum_list (k # ks))"]) (auto split: if_splits)
  next
    case (at_go k ks)
    then show thesis
      using assms(2) at_client [of "k # ks"]
      by (intro that [of 0 0 "sum_list (k # ks)"]) (auto simp: spawned_at_def)
  qed
qed

lemma spawned_moves:
  assumes "spawned_at xs" "advance xs p = Goes (rest, q, new, n)"
  shows "spawned_at rest" "new = []" "to_do rest + n = to_do xs" "capacity q = capacity p"
    "queue q + holds rest = queue p + holds xs" "wg q + counted xs = wg p + counted rest"
proof -
  have "xs = job \<or> xs = map Do Give \<or> xs = [Do Wg_Done] \<or> xs = []" using assms(1) by (simp add: spawned_at_def)
  then have "spawned_at rest \<and> new = [] \<and> to_do rest + n = to_do xs \<and> capacity q = capacity p \<and>
    queue q + holds rest = queue p + holds xs \<and> wg q + counted xs = wg p + counted rest"
  proof (elim disjE)
    assume "xs = job"
    moreover have "rest = map Do Give \<and> q = p \<and> n = 1 \<and> new = []" using assms(2) calculation by (simp add: job_def)
    ultimately show ?thesis by (simp add: spawned_at_def)
  next
    assume xs: "xs = map Do Give"
    moreover have "rest = [Do Wg_Done] \<and> q = p\<lparr>queue := queue p + 1\<rparr> \<and> n = 0 \<and> new = []"
      using assms(2) xs by (simp add: Give_def split: if_splits)
    ultimately show ?thesis by (simp add: spawned_at_def)
  next
    assume xs: "xs = [Do Wg_Done]"
    then show ?thesis using assms(2) by (auto simp: spawned_at_def split: if_splits)
  qed (use assms(2) in simp)
  then show "spawned_at rest" "new = []" "to_do rest + n = to_do xs" "capacity q = capacity p"
    "queue q + holds rest = queue p + holds xs" "wg q + counted xs = wg p + counted rest" by simp_all
qed

lemma main_never_panics: "main_at xs h c r \<Longrightarrow> advance xs p \<noteq> Panics"
proof (induction rule: main_at.induct)
  case (at_client ks)
  show ?case by (cases ks rule: client.cases) (auto simp: Take_def Wait_def)
qed auto

lemma spawned_cases:
  assumes "spawned_at xs"
  obtains "xs = []" | "xs = Do Wg_Done # []" "counted xs = 1"
    | "xs = Do Queue_Send # [Do Wg_Done]" "holds xs = 1" "counted xs = 1"
    | "xs = Job # map Do Give" "holds xs = 1" "counted xs = 1"
  using assms unfolding spawned_at_def by (auto simp: holds_def counted_def job_def Give_def)

lemma spawned_never_panics: "spawned_at xs \<Longrightarrow> counted xs \<le> wg p \<Longrightarrow> advance xs p \<noteq> Panics"
  by (erule spawned_cases) auto

lemma spawned_goes:
  "spawned_at xs \<Longrightarrow> xs \<noteq> [] \<Longrightarrow> counted xs \<le> wg p \<Longrightarrow> queue p + holds xs \<le> capacity p \<Longrightarrow>
   \<exists>x. advance xs p = Goes x"
  by (erule spawned_cases) auto

lemma member_le_total: "i < length (spawned s) \<Longrightarrow> f (spawned s ! i) \<le> total f s"
  by (simp add: member_le_sum_list)

lemma inv_step:
  assumes "inv n m s" "step s t" shows "inv n m t"
proof -
  from assms(1) obtain h c r where at: "main_at (main_rest s) h c r" and sp: "list_all spawned_at (spawned s)"
    and nc: "\<not> crashed s" and cap: "capacity (pool_of s) = n"
    and q: "queue (pool_of s) + h + total holds s = n" and w: "wg (pool_of s) = c + total counted s"
    and d: "jobs_done s + total to_do s = length (spawned s)" and m: "length (spawned s) + r = m"
    unfolding inv_def by blast
  from assms(2) show ?thesis
  proof cases
    case (main_step rest p new k)
    obtain h' c' r' where "main_at rest h' c' r'" "k = 0" "list_all spawned_at new" "length new + r' = r"
      "capacity p = capacity (pool_of s)" "queue p + h' + sum_list (map holds new) = queue (pool_of s) + h"
      "wg p + c = wg (pool_of s) + c' + sum_list (map counted new)" "sum_list (map to_do new) = length new"
      by (rule main_moves [OF at main_step(2)])
    then have "main_at rest h' c' r' \<and> list_all spawned_at (spawned s @ new) \<and> \<not> crashed s \<and> capacity p = n \<and>
      queue p + h' + sum_list (map holds (spawned s @ new)) = n \<and>
      wg p = c' + sum_list (map counted (spawned s @ new)) \<and>
      jobs_done s + k + sum_list (map to_do (spawned s @ new)) = length (spawned s @ new) \<and>
      length (spawned s @ new) + r' = m"
      using sp nc cap q w d m by simp
    then show ?thesis unfolding inv_def main_step(1) by fastforce
  next
    case (spawned_step i rest p new k)
    have at_i: "spawned_at (spawned s ! i)" using sp spawned_step(2) by (simp add: list_all_length)
    note mv = spawned_moves [OF at_i spawned_step(3)]
    note upd = sum_list_update [OF spawned_step(2)]
    have "list_all spawned_at ((spawned s)[i := rest])"
      using sp mv(1) spawned_step(2) by (auto simp: list_all_length nth_list_update)
    then have "main_at (main_rest s) h c r \<and> list_all spawned_at ((spawned s)[i := rest]) \<and> \<not> crashed s \<and>
      capacity p = n \<and> queue p + h + sum_list (map holds ((spawned s)[i := rest])) = n \<and>
      wg p = c + sum_list (map counted ((spawned s)[i := rest])) \<and>
      jobs_done s + k + sum_list (map to_do ((spawned s)[i := rest])) = length ((spawned s)[i := rest]) \<and>
      length ((spawned s)[i := rest]) + r = m"
      using at nc cap q w d m mv upd [of holds rest] upd [of counted rest] upd [of to_do rest] by simp
    then show ?thesis unfolding inv_def spawned_step(1) mv(2) by fastforce
  next
    case main_panics
    then show ?thesis using main_never_panics [OF at] by blast
  next
    case (spawned_panics i)
    have at_i: "spawned_at (spawned s ! i)" using sp spawned_panics(2) by (simp add: list_all_length)
    have "counted (spawned s ! i) \<le> wg (pool_of s)"
      using member_le_total [of i s counted] spawned_panics(2) w by simp
    then show ?thesis using spawned_never_panics [OF at_i] spawned_panics by simp
  qed
qed

lemma inv_reachable:
  assumes "New n = Inr p" "step\<^sup>*\<^sup>* (start p ks) s"
  shows "inv (nat n) (sum_list ks) s"
  using assms(2) by (induction rule: rtranclp_induct) (auto intro: inv_start [OF assms(1)] inv_step)

section \<open>Every run ends with all jobs done\<close>

fun instr_weight :: "instr \<Rightarrow> nat" where
  "instr_weight (Do x) = 1"
| "instr_weight Job = 1"
| "instr_weight (Go body) = Suc (sum_list (map instr_weight body))"

definition work_left :: "sys \<Rightarrow> nat" where
  "work_left s = sum_list (map instr_weight (main_rest s)) +
     sum_list (map (\<lambda>xs. sum_list (map instr_weight xs)) (spawned s)) + (if crashed s then 0 else 1)"

lemma advance_weight:
  assumes "advance xs p = Goes (rest, q, new, n)"
  shows "sum_list (map instr_weight rest) + sum_list (map (\<lambda>xs. sum_list (map instr_weight xs)) new) <
    sum_list (map instr_weight xs)"
proof (cases xs)
  case (Cons x xs')
  then show ?thesis using assms by (cases x) (auto split: outcome.splits)
qed (use assms in simp)

lemma step_works: "step s t \<Longrightarrow> work_left t < work_left s"
proof (induction rule: step.induct)
  case (main_step s rest p new n)
  then show ?case using advance_weight [OF main_step(1)] by (simp add: work_left_def)
next
  case (spawned_step i s rest p new n)
  then show ?case
    using advance_weight [OF spawned_step(2)]
      sum_list_update [OF spawned_step(1), of "\<lambda>xs. sum_list (map instr_weight xs)" rest]
    by (simp add: work_left_def)
qed (simp_all add: work_left_def)

lemma spawned_progress:
  assumes "inv n m s" "i < length (spawned s)" "spawned s ! i \<noteq> []"
  shows "\<exists>t. step s t"
proof -
  from assms(1) obtain h c where sp: "list_all spawned_at (spawned s)" and nc: "\<not> crashed s"
    and cap: "capacity (pool_of s) = n" and q: "queue (pool_of s) + h + total holds s = n"
    and w: "wg (pool_of s) = c + total counted s"
    unfolding inv_def by blast
  have at_i: "spawned_at (spawned s ! i)" using sp assms(2) by (simp add: list_all_length)
  have "holds (spawned s ! i) \<le> total holds s" "counted (spawned s ! i) \<le> total counted s"
    using member_le_total [OF assms(2)] by blast+
  then have "\<exists>x. advance (spawned s ! i) (pool_of s) = Goes x"
    using cap q w by (intro spawned_goes [OF at_i assms(3)]) auto
  then obtain rest p new k where "advance (spawned s ! i) (pool_of s) = Goes (rest, p, new, k)" by auto
  from spawned_step [OF assms(2) this nc] show ?thesis by blast
qed

lemma main_progress:
  assumes "inv n m s" "0 < n" "list_all (\<lambda>xs. xs = []) (spawned s)" "main_rest s \<noteq> []"
  shows "\<exists>t. step s t"
proof -
  from assms(1) obtain h c r where at: "main_at (main_rest s) h c r" and nc: "\<not> crashed s"
    and q: "queue (pool_of s) + h + total holds s = n" and w: "wg (pool_of s) = c + total counted s"
    unfolding inv_def by blast
  have none: "total f s = 0" if "f [] = 0" for f :: "instr list \<Rightarrow> nat"
    using assms(3) that by (auto simp: list_all_iff)
  have "\<exists>x. advance (main_rest s) (pool_of s) = Goes x"
    using at
  proof cases
    case (at_client ks)
    then show ?thesis
      using assms(4) w none [of counted] by (cases ks rule: client.cases) (auto simp: Take_def Wait_def)
  qed (use q none [of holds] assms(2) in auto)
  then obtain rest p new k where "advance (main_rest s) (pool_of s) = Goes (rest, p, new, k)" by auto
  from main_step [OF this nc] show ?thesis by blast
qed

lemma stuck_finished:
  assumes "inv n m s" "0 < n" "\<nexists>t. step s t"
  shows "main_rest s = [] \<and> list_all (\<lambda>xs. xs = []) (spawned s) \<and> jobs_done s = m \<and> queue (pool_of s) = n \<and>
    wg (pool_of s) = 0"
proof -
  have all: "list_all (\<lambda>xs. xs = []) (spawned s)"
    using spawned_progress [OF assms(1)] assms(3) by (auto simp: list_all_length)
  have main: "main_rest s = []" using main_progress [OF assms(1,2) all] assms(3) by blast
  from assms(1) obtain h c r where at: "main_at (main_rest s) h c r"
    and q: "queue (pool_of s) + h + total holds s = n" and w: "wg (pool_of s) = c + total counted s"
    and d: "jobs_done s + total to_do s = length (spawned s)" and m: "length (spawned s) + r = m"
    unfolding inv_def by blast
  have none: "total f s = 0" if "f [] = 0" for f :: "instr list \<Rightarrow> nat"
    using all that by (auto simp: list_all_iff)
  have "h = 0 \<and> c = 0 \<and> r = 0"
    using at
  proof cases
    case (at_client ks)
    then show ?thesis using main by (cases ks rule: client.cases) (auto simp: Take_def Wait_def)
  qed (use main in auto)
  then show ?thesis using main all q w d m none [of holds] none [of counted] none [of to_do] by simp
qed

text \<open>At most n jobs hold a token at any moment, no operation panics, a \<open>Give\<close> never blocks, and a \<open>Wait\<close> that returns
  finds every job started so far done.\<close>

theorem Workers_bounded:
  assumes "New n = Inr p" "step\<^sup>*\<^sup>* (start p ks) s"
  shows "int (length (filter (\<lambda>xs. Do Queue_Send \<in> set xs) (spawned s))) \<le> n \<and> \<not> crashed s \<and>
    (\<forall>xs\<in>set (spawned s). hd xs = Do Queue_Send \<and> xs \<noteq> [] \<longrightarrow> exec Queue_Send (pool_of s) \<noteq> Blocks) \<and>
    (\<forall>q rest. main_rest s = Do Wg_Wait # rest \<and> exec Wg_Wait (pool_of s) = Goes q \<longrightarrow>
       jobs_done s = length (spawned s))"
proof -
  from inv_reachable [OF assms] obtain h c r where at: "main_at (main_rest s) h c r"
    and sp: "list_all spawned_at (spawned s)" and nc: "\<not> crashed s" and cap: "capacity (pool_of s) = nat n"
    and q: "queue (pool_of s) + h + total holds s = nat n" and w: "wg (pool_of s) = c + total counted s"
    and d: "jobs_done s + total to_do s = length (spawned s)"
    unfolding inv_def by blast
  have "length (filter (\<lambda>xs. Do Queue_Send \<in> set xs) xss) = sum_list (map holds xss)" for xss
    by (induction xss) (auto simp: holds_def)
  then have bound: "int (length (filter (\<lambda>xs. Do Queue_Send \<in> set xs) (spawned s))) \<le> n"
    using q New_Inr(1) [OF assms(1)] by simp
  have give: "exec Queue_Send (pool_of s) \<noteq> Blocks" if xs: "xs \<in> set (spawned s)" "hd xs = Do Queue_Send" "xs \<noteq> []" for xs
  proof -
    have "holds xs = 1" using hd_in_set [OF xs(3)] xs(2) by (simp add: holds_def)
    moreover have "holds xs \<le> total holds s" using xs(1) by (simp add: member_le_sum_list)
    ultimately have "1 \<le> total holds s" by simp
    then show ?thesis using q cap by simp
  qed
  have wait: "jobs_done s = length (spawned s)" if "exec Wg_Wait (pool_of s) = Goes x" for x
  proof -
    have "to_do xs \<le> counted xs" if "xs \<in> set (spawned s)" for xs
      using sp that by (auto simp: list_all_iff spawned_at_def)
    then have "total to_do s \<le> total counted s" by (rule sum_list_mono)
    moreover have "total counted s = 0" using that w by (simp split: if_splits)
    ultimately have "total to_do s = 0" by (simp only: le_zero_eq)
    with d show ?thesis by linarith
  qed
  show ?thesis using bound nc give wait by blast
qed

theorem Workers_bounded_witness:
  "\<exists>p s. New 2 = Inr p \<and> step\<^sup>*\<^sup>* (start p [3]) s \<and> length (spawned s) = 1 \<and> \<not> crashed s"
proof -
  define p where "p = \<lparr>wg = 0, queue = 2, capacity = 2 :: nat\<rparr>"
  have N: "New 2 = Inr p" by (simp add: New_def p_def eval_nat_numeral)
  let ?s = "start p [3]"
  have c: "client [3] = Do Wg_Add # Do Queue_Receive # Go job # client [2]"
    using client.simps(3) [of 2 "[]"] by (simp add: Take_def)
  have "step ?s (?s\<lparr>pool_of := p\<lparr>wg := 1\<rparr>, main_rest := Do Queue_Receive # Go job # client [2]\<rparr>)" (is "step _ ?t")
    using main_step [of ?s] c by (simp add: start_def p_def)
  moreover have "step ?t (?t\<lparr>pool_of := p\<lparr>wg := 1, queue := 1\<rparr>, main_rest := Go job # client [2]\<rparr>)" (is "step _ ?u")
    using main_step [of ?t] by (simp add: start_def p_def)
  moreover have "step ?u (?u\<lparr>main_rest := client [2], spawned := [job]\<rparr>)" (is "step _ ?v")
    using main_step [of ?u] by (simp add: start_def p_def)
  ultimately have r: "step\<^sup>*\<^sup>* ?s ?v" by (meson rtranclp.rtrancl_into_rtrancl rtranclp.rtrancl_refl)
  have "\<not> crashed ?v" using Workers_bounded [OF N r] by blast
  moreover have "length (spawned ?v) = 1" by simp
  ultimately show ?thesis using N r by blast
qed

text \<open>C28: Every run of a client ends: each step leaves less work, and a state without a next step is one where
  the client has returned from its last \<open>Wait\<close>, every goroutine has ended, all jobs are done and all
  tokens are back.\<close>

theorem Workers_all_jobs_end:
  assumes "New n = Inr p" "step\<^sup>*\<^sup>* (start p ks) s"
  shows "(\<forall>t. step s t \<longrightarrow> work_left t < work_left s) \<and>
    ((\<nexists>t. step s t) \<longrightarrow> main_rest s = [] \<and> list_all (\<lambda>xs. xs = []) (spawned s) \<and> jobs_done s = sum_list ks \<and>
       int (queue (pool_of s)) = n \<and> wg (pool_of s) = 0)"
proof -
  have "0 < nat n" "int (nat n) = n" using New_Inr(1) [OF assms(1)] by simp_all
  then show ?thesis
    using stuck_finished [OF inv_reachable [OF assms]] step_works by metis
qed

theorem Workers_all_jobs_end_witness:
  "\<exists>p. New 1 = Inr p \<and> (\<forall>t. step (start p [2, 1]) t \<longrightarrow> work_left t < work_left (start p [2, 1]))"
proof -
  have N: "New 1 = Inr \<lparr>wg = 0, queue = 1, capacity = 1\<rparr>" by (simp add: New_def)
  then show ?thesis using Workers_all_jobs_end [OF N rtranclp.rtrancl_refl] by blast
qed

end
