(* ===== verification/ErrGroup.thy ===== *)
theory ErrGroup
  imports GoPrelude
begin

text \<open>
  Error groups (\<open>sync/errgroup/errgroup.go\<close>): goroutines that run functions under an optional limit and an optional
  cancellation on error, as a step relation over all interleavings.
\<close>

section \<open>The group\<close>

text \<open>
  \<open>bucket\<close> is the channel of tokens, its capacity and the number of tokens in it; \<open>g.cancel\<close>,
  \<open>g.ctxCancel\<close> and \<open>g.ctxErr\<close> are set together, which \<open>has_cancel\<close> tells, and \<open>cancelled\<close> tells whether the
  context is. An error is a value of \<open>'e\<close>, \<open>nil\<close> is \<^term>\<open>None\<close>.
\<close>

record 'e group =
  firstErr :: int
  wg :: nat
  bucket :: "(nat \<times> nat) option"
  errs :: "'e option list"
  has_cancel :: bool
  cancelled :: bool

definition WithNErrs :: "nat \<Rightarrow> 'e group" where
  "WithNErrs nerrs = \<lparr>firstErr = -1, wg = 0, bucket = None, errs = replicate nerrs None, has_cancel = False, cancelled = False\<rparr>"

definition WithConcurrency :: "'e group \<Rightarrow> int \<Rightarrow> 'e group" where
  "WithConcurrency g n = (if n \<le> 0 then g\<lparr>bucket := None\<rparr> else g\<lparr>bucket := Some (nat n, nat n)\<rparr>)"

definition WithCancelOnError :: "'e group \<Rightarrow> 'e group" where
  "WithCancelOnError g = g\<lparr>has_cancel := True\<rparr>"

definition WaitErr :: "'e group \<Rightarrow> 'e option" where
  "WaitErr g = (if firstErr g \<ge> 0 \<and> int (length (errs g)) > firstErr g then errs g ! nat (firstErr g) else None)"

section \<open>Its goroutines\<close>

text \<open>
  Where a goroutine of \<open>Go\<close> stands: at the select, before the call of f, before the compare-and-swap and the store
  for an error, before the call of cancel, and before the two deferred actions. \<open>aborted\<close> tells that the
  select took the branch of the cancelled context, \<open>called\<close> that f was called. Indices are those of a slice, so
  natural numbers; \<open>Go\<close> with a negative one panics when f fails.
\<close>

datatype 'e pc = AtSelect | AtRun | AtSwap 'e | AtStore 'e | AtCancel | AtRelease | AtDone | Exited

record 'e task =
  index :: nat
  result :: "'e option"
  pc :: "'e pc"
  token :: bool
  aborted :: bool
  called :: bool

definition new_task :: "nat \<Rightarrow> 'e option \<Rightarrow> 'e task" where
  "new_task i r = \<lparr>index = i, result = r, pc = AtSelect, token = False, aborted = False, called = False\<rparr>"

text \<open>The value \<open>ce\<close> is what the context's \<open>Err\<close> returns once it is cancelled.\<close>

inductive task_step :: "'e \<Rightarrow> 'e group \<Rightarrow> 'e task \<Rightarrow> 'e group \<Rightarrow> 'e task \<Rightarrow> bool" for ce where
  no_bucket: "pc t = AtSelect \<Longrightarrow> bucket g = None \<Longrightarrow> task_step ce g t g (t\<lparr>pc := AtRun\<rparr>)"
| take_token: "pc t = AtSelect \<Longrightarrow> bucket g = Some (c, Suc n) \<Longrightarrow>
    task_step ce g t (g\<lparr>bucket := Some (c, n)\<rparr>) (t\<lparr>pc := AtRun, token := True\<rparr>)"
| abort: "pc t = AtSelect \<Longrightarrow> bucket g = Some b \<Longrightarrow> has_cancel g \<Longrightarrow> cancelled g \<Longrightarrow>
    task_step ce g t g (t\<lparr>pc := (if index t < length (errs g) then AtSwap ce else AtRelease), aborted := True\<rparr>)"
| run_ok: "pc t = AtRun \<Longrightarrow> result t = None \<Longrightarrow> task_step ce g t g (t\<lparr>pc := AtRelease, called := True\<rparr>)"
| run_fails: "pc t = AtRun \<Longrightarrow> result t = Some e \<Longrightarrow>
    task_step ce g t g (t\<lparr>pc := (if index t < length (errs g) then AtSwap e else AtCancel), called := True\<rparr>)"
| swap: "pc t = AtSwap e \<Longrightarrow>
    task_step ce g t (g\<lparr>firstErr := (if firstErr g = -1 then int (index t) else firstErr g)\<rparr>) (t\<lparr>pc := AtStore e\<rparr>)"
| store: "pc t = AtStore e \<Longrightarrow>
    task_step ce g t (g\<lparr>errs := (errs g)[index t := Some e]\<rparr>) (t\<lparr>pc := (if aborted t then AtRelease else AtCancel)\<rparr>)"
| cancel: "pc t = AtCancel \<Longrightarrow>
    task_step ce g t (g\<lparr>cancelled := cancelled g \<or> has_cancel g\<rparr>) (t\<lparr>pc := AtRelease\<rparr>)"
| put_back: "pc t = AtRelease \<Longrightarrow> token t \<Longrightarrow> bucket g = Some (c, n) \<Longrightarrow> n < c \<Longrightarrow>
    task_step ce g t (g\<lparr>bucket := Some (c, Suc n)\<rparr>) (t\<lparr>pc := AtDone, token := False\<rparr>)"
| no_token: "pc t = AtRelease \<Longrightarrow> \<not> token t \<Longrightarrow> task_step ce g t g (t\<lparr>pc := AtDone\<rparr>)"
| done_: "pc t = AtDone \<Longrightarrow> 0 < wg g \<Longrightarrow> task_step ce g t (g\<lparr>wg := wg g - 1\<rparr>) (t\<lparr>pc := Exited\<rparr>)"

text \<open>The caller: it calls \<open>Go\<close> for each function, with its index, and then \<open>Wait\<close> (or \<open>WaitErr\<close>).\<close>

record 'e run =
  grp :: "'e group"
  tasks :: "'e task list"
  calls :: "(nat \<times> 'e option) list"
  returned :: bool

definition group_start :: "'e group \<Rightarrow> (nat \<times> 'e option) list \<Rightarrow> 'e run" where
  "group_start g fs = \<lparr>grp = g, tasks = [], calls = fs, returned = False\<rparr>"

inductive group_step :: "'e \<Rightarrow> 'e run \<Rightarrow> 'e run \<Rightarrow> bool" for ce where
  go: "calls s = (i, r) # fs \<Longrightarrow>
    group_step ce s (s\<lparr>grp := (grp s)\<lparr>wg := wg (grp s) + 1\<rparr>, tasks := tasks s @ [new_task i r], calls := fs\<rparr>)"
| task: "k < length (tasks s) \<Longrightarrow> task_step ce (grp s) (tasks s ! k) g t \<Longrightarrow>
    group_step ce s (s\<lparr>grp := g, tasks := (tasks s)[k := t]\<rparr>)"
| outside_cancel: "has_cancel (grp s) \<Longrightarrow> \<not> cancelled (grp s) \<Longrightarrow>
    group_step ce s (s\<lparr>grp := (grp s)\<lparr>cancelled := True\<rparr>\<rparr>)"
| wait: "calls s = [] \<Longrightarrow> wg (grp s) = 0 \<Longrightarrow> \<not> returned s \<Longrightarrow>
    group_step ce s (s\<lparr>grp := (grp s)\<lparr>cancelled := cancelled (grp s) \<or> has_cancel (grp s)\<rparr>, returned := True\<rparr>)"

section \<open>The invariant\<close>

text \<open>The error a goroutine will have stored, and whether its swap and its store are behind it.\<close>

definition final :: "'e \<Rightarrow> 'e task \<Rightarrow> 'e option" where
  "final ce t = (if aborted t then Some ce else result t)"

fun swapped :: "'e pc \<Rightarrow> bool" where
  "swapped AtSelect = False" | "swapped AtRun = False" | "swapped (AtSwap e) = False" | "swapped _ = True"

fun stored :: "'e pc \<Rightarrow> bool" where
  "stored (AtStore e) = False" | "stored p = swapped p"

definition task_ok :: "'e \<Rightarrow> 'e group \<Rightarrow> 'e task \<Rightarrow> bool" where
  "task_ok ce g t \<longleftrightarrow>
     (aborted t \<longrightarrow> has_cancel g \<and> bucket g \<noteq> None \<and> \<not> token t) \<and> (token t \<longrightarrow> bucket g \<noteq> None) \<and>
     (called t \<longleftrightarrow> pc t \<noteq> AtSelect \<and> pc t \<noteq> AtRun \<and> \<not> aborted t) \<and>
     (case pc t of
        AtSelect \<Rightarrow> \<not> token t \<and> \<not> aborted t
      | AtRun \<Rightarrow> \<not> aborted t \<and> (bucket g = None \<or> token t)
      | AtSwap e \<Rightarrow> final ce t = Some e \<and> index t < length (errs g)
      | AtStore e \<Rightarrow> final ce t = Some e \<and> index t < length (errs g)
      | AtDone \<Rightarrow> \<not> token t
      | Exited \<Rightarrow> \<not> token t
      | _ \<Rightarrow> True) \<and>
     (index t < length (errs g) \<longrightarrow> errs g ! index t = (if stored (pc t) then final ce t else None))"

definition tokens :: "'e task \<Rightarrow> nat" where
  "tokens t = (if token t then 1 else 0)"

definition alive :: "'e task \<Rightarrow> nat" where
  "alive t = (if pc t = Exited then 0 else 1)"

text \<open>The goroutines whose swap is behind them and that had an error to report.\<close>

definition reported :: "'e \<Rightarrow> nat \<Rightarrow> 'e task list \<Rightarrow> nat set" where
  "reported ce n ts = {index t | t. t \<in> set ts \<and> swapped (pc t) \<and> final ce t \<noteq> None \<and> index t < n}"

definition first_ok :: "int \<Rightarrow> nat set \<Rightarrow> bool" where
  "first_ok f R \<longleftrightarrow> (f = -1 \<and> R = {}) \<or> (\<exists>i\<in>R. f = int i)"

definition bucket_ok :: "(nat \<times> nat) option \<Rightarrow> (nat \<times> nat) option \<Rightarrow> 'e task list \<Rightarrow> bool" where
  "bucket_ok b0 b ts \<longleftrightarrow>
     (case b0 of None \<Rightarrow> b = None | Some (c, _) \<Rightarrow> (\<exists>n. b = Some (c, n) \<and> n + sum_list (map tokens ts) = c))"

definition group_inv :: "'e \<Rightarrow> 'e group \<Rightarrow> (nat \<times> 'e option) list \<Rightarrow> 'e run \<Rightarrow> bool" where
  "group_inv ce g0 fs s \<longleftrightarrow>
     map (\<lambda>t. (index t, result t)) (tasks s) @ calls s = fs \<and>
     length (errs (grp s)) = length (errs g0) \<and> has_cancel (grp s) = has_cancel g0 \<and>
     (\<forall>t\<in>set (tasks s). task_ok ce (grp s) t) \<and>
     (\<forall>k<length (errs g0). k \<notin> index ` set (tasks s) \<longrightarrow> errs (grp s) ! k = None) \<and>
     bucket_ok (bucket g0) (bucket (grp s)) (tasks s) \<and>
     wg (grp s) = sum_list (map alive (tasks s)) \<and>
     first_ok (firstErr (grp s)) (reported ce (length (errs g0)) (tasks s)) \<and>
     (returned s \<longrightarrow> calls s = [] \<and> (\<forall>t\<in>set (tasks s). alive t = 0))"

lemma task_step_frame:
  assumes "task_step ce g t g' t'"
  shows "index t' = index t" "result t' = result t" "has_cancel g' = has_cancel g"
    "length (errs g') = length (errs g)" "bucket g' = None \<longleftrightarrow> bucket g = None"
    "k \<noteq> index t \<Longrightarrow> errs g' ! k = errs g ! k"
  using assms by (auto elim!: task_step.cases)

lemma task_step_ok:
  assumes "task_step ce g t g' t'" "task_ok ce g t"
  shows "task_ok ce g' t'"
  using assms by (cases rule: task_step.cases) (auto simp: task_ok_def final_def split: if_splits)

lemma task_ok_other:
  assumes "task_step ce g t g' t'" "task_ok ce g u" "index u \<noteq> index t"
  shows "task_ok ce g' u"
  using assms(2,3) task_step_frame [OF assms(1)] by (simp add: task_ok_def split: pc.splits)

lemma task_step_bucket:
  assumes "task_step ce g t g' t'" "task_ok ce g t" "bucket g = Some (c, n)"
  shows "\<exists>n'. bucket g' = Some (c, n') \<and> n' + tokens t' = n + tokens t"
  using assms by (cases rule: task_step.cases) (auto simp: task_ok_def tokens_def)

lemma task_step_wg:
  assumes "task_step ce g t g' t'"
  shows "wg g' + alive t = wg g + alive t'"
  using assms by (cases rule: task_step.cases) (auto simp: alive_def)

definition reports :: "'e \<Rightarrow> nat \<Rightarrow> 'e task \<Rightarrow> bool" where
  "reports ce n t \<longleftrightarrow> swapped (pc t) \<and> final ce t \<noteq> None \<and> index t < n"

lemma reported_alt: "reported ce n ts = index ` {t \<in> set ts. reports ce n t}"
  by (auto simp: reported_def reports_def)

lemma task_step_first:
  assumes "task_step ce g t g' t'" "task_ok ce g t" "n = length (errs g)"
  shows "(reports ce n t' = reports ce n t \<and> firstErr g' = firstErr g) \<or>
    (reports ce n t' \<and> \<not> reports ce n t \<and> firstErr g' = (if firstErr g = -1 then int (index t) else firstErr g))"
  using assms by (cases rule: task_step.cases) (auto simp: task_ok_def reports_def final_def)

lemma reported_nth: "reported ce n ts = {index (ts ! j) | j. j < length ts \<and> reports ce n (ts ! j)}"
  unfolding reported_alt by (auto simp: in_set_conv_nth)

lemma reported_update:
  assumes "k < length ts" "index t' = index (ts ! k)" "distinct (map index ts)"
  shows "reported ce n (ts[k := t']) =
    (if reports ce n t' then insert (index t') (reported ce n ts) else reported ce n ts - {index t'})" (is "?L = ?R")
proof -
  have other: "index (ts ! j) \<noteq> index t'" if "j < length ts" "j \<noteq> k" for j
    using assms nth_eq_iff_index_eq [OF assms(3), of j k] that by auto
  show ?thesis
  proof (intro set_eqI iffI)
    fix i assume "i \<in> ?L"
    then obtain j where "j < length ts" "i = index (ts[k := t'] ! j)" "reports ce n (ts[k := t'] ! j)"
      by (auto simp: reported_nth)
    then show "i \<in> ?R"
      using other [of j] assms(1) by (cases "j = k") (auto simp: reported_nth)
  next
    fix i assume i: "i \<in> ?R"
    show "i \<in> ?L"
    proof (cases "i = index t'")
      case True
      then have "reports ce n t'" using i by (auto split: if_splits)
      then show ?thesis using True assms(1) unfolding reported_nth by (auto intro!: exI [of _ k])
    next
      case False
      then have "i \<in> reported ce n ts" using i by (auto split: if_splits)
      then obtain j where "j < length ts" "i = index (ts ! j)" "reports ce n (ts ! j)"
        by (auto simp: reported_nth)
      moreover have "j \<noteq> k" using False assms(2) calculation(2) by auto
      ultimately show ?thesis unfolding reported_nth by (auto intro!: exI [of _ j])
    qed
  qed
qed

lemma first_ok_update:
  assumes "k < length ts" "index t' = index (ts ! k)" "distinct (map index ts)" "first_ok f (reported ce n ts)"
    and "(reports ce n t' = reports ce n (ts ! k) \<and> f' = f) \<or>
      (reports ce n t' \<and> \<not> reports ce n (ts ! k) \<and> f' = (if f = -1 then int (index t') else f))"
  shows "first_ok f' (reported ce n (ts[k := t']))"
proof -
  have mem: "index (ts ! k) \<in> reported ce n ts \<longleftrightarrow> reports ce n (ts ! k)"
    using assms(1,3) nth_eq_iff_index_eq [OF assms(3)] by (force simp: reported_nth)
  have same: "reported ce n (ts[k := t']) = reported ce n ts" if "reports ce n t' = reports ce n (ts ! k)"
    using reported_update [OF assms(1-3), of ce n] mem that assms(2) by auto
  show ?thesis
    using assms(5)
  proof
    assume "reports ce n t' = reports ce n (ts ! k) \<and> f' = f"
    then show ?thesis using same assms(4) by simp
  next
    assume "reports ce n t' \<and> \<not> reports ce n (ts ! k) \<and> f' = (if f = -1 then int (index t') else f)"
    then show ?thesis
      using assms(4) reported_update [OF assms(1-3), of ce n] by (auto simp: first_ok_def)
  qed
qed

text \<open>The group as a caller sets it up.\<close>

definition set_up :: "nat \<Rightarrow> int \<Rightarrow> bool \<Rightarrow> 'e group" where
  "set_up nerrs limit on_error =
     (let g = WithConcurrency (WithNErrs nerrs) limit in if on_error then WithCancelOnError g else g)"

lemma set_up_fields [simp]:
  "errs (set_up n c b) = replicate n None" "has_cancel (set_up n c b) = b" "wg (set_up n c b) = 0"
  "firstErr (set_up n c b) = -1" "bucket (set_up n c b) = (if c \<le> 0 then None else Some (nat c, nat c))"
  by (simp_all add: set_up_def Let_def WithConcurrency_def WithNErrs_def WithCancelOnError_def)

lemma start_inv: "group_inv ce (set_up n c b) fs (group_start (set_up n c b) fs)"
  by (auto simp: group_inv_def group_start_def first_ok_def reported_def bucket_ok_def)

lemma task_ok_cong:
  "has_cancel g' = has_cancel g \<Longrightarrow> (bucket g' = None \<longleftrightarrow> bucket g = None) \<Longrightarrow> errs g' = errs g \<Longrightarrow>
   task_ok ce g' t = task_ok ce g t"
  by (simp add: task_ok_def split: pc.splits)

lemma task_step_alive: "task_step ce g t g' t' \<Longrightarrow> alive t = 1"
  by (cases rule: task_step.cases) (auto simp: alive_def)

lemma all_exited:
  assumes "group_inv ce g0 fs s" "returned s" "t \<in> set (tasks s)"
  shows "pc t = Exited"
proof -
  have "alive t = 0" using assms unfolding group_inv_def by blast
  then show ?thesis by (simp add: alive_def split: if_splits)
qed

lemma step_inv:
  assumes "group_inv ce g0 fs s" "group_step ce s s'" "distinct (map fst fs)"
  shows "group_inv ce g0 fs s'"
proof -
  note I = assms(1) [unfolded group_inv_def]
  have d: "distinct (map index (tasks s) @ map fst (calls s))"
  proof -
    have "map fst (map (\<lambda>t. (index t, result t)) (tasks s) @ calls s) = map fst fs" using I by simp
    then have "map index (tasks s) @ map fst (calls s) = map fst fs" by (simp add: comp_def)
    then show ?thesis using assms(3) by simp
  qed
  from assms(2) show ?thesis
  proof cases
    case (go i r fs')
    have "i \<notin> index ` set (tasks s)" using d go(2) by auto
    moreover have "i < length (errs g0) \<Longrightarrow> errs (grp s) ! i = None" using I calculation by auto
    moreover have "reported ce (length (errs g0)) (tasks s @ [new_task i r]) = reported ce (length (errs g0)) (tasks s)"
      by (auto simp: reported_def new_task_def)
    moreover have "task_ok ce (grp s\<lparr>wg := wg (grp s) + 1\<rparr>) t" if "t \<in> set (tasks s)" for t
      using I that by (subst task_ok_cong [of _ "grp s"]) simp_all
    moreover have "task_ok ce (grp s\<lparr>wg := wg (grp s) + 1\<rparr>) (new_task i r)"
      using I calculation(2) by (auto simp: task_ok_def new_task_def)
    moreover have new: "index (new_task i r) = i" "result (new_task i r) = r" "tokens (new_task i r) = 0"
      "alive (new_task i r) = 1"
      by (simp_all add: new_task_def tokens_def alive_def)
    moreover have "\<not> returned s" using I go(2) by auto
    moreover have "bucket_ok (bucket g0) (bucket (grp s)) (tasks s @ [new_task i r])"
      using conjunct1 [OF conjunct2 [OF conjunct2 [OF conjunct2 [OF conjunct2 [OF conjunct2 [OF I]]]]]]
      by (cases "bucket g0") (auto simp: bucket_ok_def new(3))
    ultimately show ?thesis
      using I unfolding go(1) group_inv_def by (simp add: go(2))
  next
    case (task k g t)
    note fr = task_step_frame [OF task(3)]
    have ok: "task_ok ce (grp s) (tasks s ! k)" using I task(2) by simp
    have other: "index u \<noteq> index (tasks s ! k)" if "u \<in> set ((tasks s)[k := t])" "u \<noteq> t" for u
    proof -
      from that(1) obtain j where "j < length ((tasks s)[k := t])" "(tasks s)[k := t] ! j = u"
        unfolding in_set_conv_nth by (elim exE conjE)
      then have j: "j < length (tasks s)" "u = (tasks s)[k := t] ! j"
        by (simp_all only: length_list_update)
      have jk: "j \<noteq> k"
      proof
        assume "j = k"
        then have "u = t" unfolding j(2) by (simp only: nth_list_update_eq [OF task(2)])
        with that(2) show False ..
      qed
      have "distinct (map index (tasks s))" using d by simp
      then have "index (tasks s ! j) \<noteq> index (tasks s ! k)"
        using nth_eq_iff_index_eq [of "map index (tasks s)" j k] j(1) task(2) jk by simp
      then show ?thesis unfolding j(2) nth_list_update_neq [OF not_sym [OF jk]] .
    qed
    have tasks_ok: "task_ok ce g u" if "u \<in> set ((tasks s)[k := t])" for u
    proof (cases "u = t")
      case True
      then show ?thesis using task_step_ok [OF task(3) ok] by simp
    next
      case False
      then have "u \<in> set (tasks s)" using that task(2) by (metis set_update_subset_insert insertE subsetD)
      then have "task_ok ce (grp s) u" using I by blast
      then show ?thesis by (rule task_ok_other [OF task(3) _ other [OF that False]])
    qed
    have keys: "map (\<lambda>t. (index t, result t)) ((tasks s)[k := t]) = map (\<lambda>t. (index t, result t)) (tasks s)"
      using fr(1,2) task(2) by (simp add: map_update list_update_same_conv)
    have idx: "index ` set ((tasks s)[k := t]) = index ` set (tasks s)"
      using arg_cong [OF keys, of "\<lambda>xs. fst ` set xs"] by (simp add: image_image)
    have free: "errs g ! x = None" if "x < length (errs g0)" "x \<notin> index ` set ((tasks s)[k := t])" for x
    proof -
      have "x \<noteq> index (tasks s ! k)" using that(2) idx task(2) by auto
      then show ?thesis using fr(6) I that idx by auto
    qed
    have buck: "bucket_ok (bucket g0) (bucket g) ((tasks s)[k := t])"
    proof (cases "bucket g0")
      case None
      then show ?thesis using I fr(5) by (simp add: bucket_ok_def)
    next
      case (Some cn)
      then obtain c where c: "bucket g0 = Some (c, snd cn)" by (cases cn) auto
      then obtain m where m: "bucket (grp s) = Some (c, m)" "m + sum_list (map tokens (tasks s)) = c"
        using I by (auto simp: bucket_ok_def)
      obtain m' where "bucket g = Some (c, m')" "m' + tokens t = m + tokens (tasks s ! k)"
        using task_step_bucket [OF task(3) ok m(1)] by blast
      then show ?thesis using c m(2) sum_list_update [OF task(2), of tokens t] by (auto simp: bucket_ok_def)
    qed
    have "wg g = sum_list (map alive ((tasks s)[k := t]))"
      using task_step_wg [OF task(3)] I sum_list_update [OF task(2), of alive t] by auto
    moreover have "first_ok (firstErr g) (reported ce (length (errs g0)) ((tasks s)[k := t]))"
      using task_step_first [OF task(3) ok, of "length (errs g0)"] I d fr(1)
      by (intro first_ok_update [OF task(2), where f = "firstErr (grp s)"]) auto
    moreover have "returned s \<longrightarrow> calls s = [] \<and> (\<forall>t\<in>set ((tasks s)[k := t]). alive t = 0)"
    proof
      assume "returned s"
      then have "pc (tasks s ! k) = Exited" using all_exited [OF assms(1)] task(2) by simp
      then show "calls s = [] \<and> (\<forall>t\<in>set ((tasks s)[k := t]). alive t = 0)" using task_step_alive [OF task(3)] by (simp add: alive_def)
    qed
    ultimately show ?thesis
      using I task(1) fr(3,4) keys free buck tasks_ok by (simp add: group_inv_def)
  next
    case outside_cancel
    have "task_ok ce (grp s') t" if "t \<in> set (tasks s)" for t
      using I that outside_cancel(1) by (subst task_ok_cong [of _ "grp s"]) simp_all
    then show ?thesis using I outside_cancel by (simp add: group_inv_def)
  next
    case wait
    have "task_ok ce (grp s') t" if "t \<in> set (tasks s)" for t
      using I that wait(1) by (subst task_ok_cong [of _ "grp s"]) simp_all
    then show ?thesis using I wait by (simp add: group_inv_def)
  qed
qed

lemma reachable_inv:
  assumes "(group_step ce)\<^sup>*\<^sup>* (group_start (set_up n c b) fs) s" "distinct (map fst fs)"
  shows "group_inv ce (set_up n c b) fs s"
  using assms(1) by (induction rule: rtranclp_induct) (auto intro: start_inv step_inv [OF _ _ assms(2)])

section \<open>Every run ends\<close>

fun pc_weight :: "'e pc \<Rightarrow> nat" where
  "pc_weight AtSelect = 7" | "pc_weight AtRun = 6" | "pc_weight (AtSwap e) = 5" | "pc_weight (AtStore e) = 4"
| "pc_weight AtCancel = 3" | "pc_weight AtRelease = 2" | "pc_weight AtDone = 1" | "pc_weight Exited = 0"

definition group_work_left :: "'e run \<Rightarrow> nat" where
  "group_work_left s = 8 * length (calls s) + sum_list (map (\<lambda>t. pc_weight (pc t)) (tasks s)) +
     (if cancelled (grp s) then 0 else 1) + (if returned s then 0 else 1)"

lemma task_step_works:
  "task_step ce g t g' t' \<Longrightarrow> pc_weight (pc t') < pc_weight (pc t) \<and> (cancelled g \<longrightarrow> cancelled g')"
  by (cases rule: task_step.cases) auto

lemma group_step_works: "group_step ce s s' \<Longrightarrow> group_work_left s' < group_work_left s"
proof (induction rule: group_step.induct)
  case (task k s g t)
  then show ?case
    using task_step_works [OF task(2)] sum_list_update [OF task(1), of "\<lambda>t. pc_weight (pc t)" t]
    by (auto simp: group_work_left_def)
qed (auto simp: group_work_left_def new_task_def)

lemma task_progress:
  assumes "group_inv ce g0 fs s" "t \<in> set (tasks s)" "pc t \<noteq> AtSelect" "pc t \<noteq> Exited"
  shows "\<exists>s'. group_step ce s s'"
proof -
  note I = assms(1) [unfolded group_inv_def]
  obtain k where k: "k < length (tasks s)" "t = tasks s ! k" using assms(2) by (auto simp: in_set_conv_nth)
  have ok: "task_ok ce (grp s) t" using I assms(2) by blast
  have "\<exists>g' t'. task_step ce (grp s) t g' t'"
  proof (cases "pc t")
    case AtRun
    then show ?thesis by (cases "result t") (blast intro: run_ok run_fails)+
  next
    case AtRelease
    show ?thesis
    proof (cases "token t")
      case True
      then obtain c n where b: "bucket (grp s) = Some (c, n)" "n + sum_list (map tokens (tasks s)) = c"
        using ok I by (auto simp: task_ok_def bucket_ok_def split: option.splits)
      have "tokens t \<le> sum_list (map tokens (tasks s))" using assms(2) by (simp add: member_le_sum_list)
      then have "n < c" using b(2) True by (simp add: tokens_def)
      then show ?thesis using put_back [OF AtRelease True b(1)] by blast
    next
      case False
      then show ?thesis using no_token [OF AtRelease] by blast
    qed
  next
    case AtDone
    have "alive t \<le> sum_list (map alive (tasks s))" using assms(2) by (simp add: member_le_sum_list)
    then have "0 < wg (grp s)" using I AtDone by (simp add: alive_def)
    then show ?thesis using done_ [OF AtDone] by blast
  qed (use assms(3,4) in \<open>blast intro: swap store cancel\<close>)+
  then show ?thesis using group_step.task [OF k(1)] k(2) by blast
qed

lemma group_progress:
  assumes "group_inv ce (set_up n c b) fs s" "\<not> returned s"
  shows "\<exists>s'. group_step ce s s'"
proof -
  note I = assms(1) [unfolded group_inv_def]
  show ?thesis
  proof (cases "\<exists>t\<in>set (tasks s). pc t \<noteq> AtSelect \<and> pc t \<noteq> Exited")
    case True
    then show ?thesis using task_progress [OF assms(1)] by blast
  next
    case idle: False
    show ?thesis
    proof (cases "\<exists>t\<in>set (tasks s). pc t = AtSelect")
      case True
      then obtain k where k: "k < length (tasks s)" "pc (tasks s ! k) = AtSelect" by (auto simp: in_set_conv_nth)
      have "\<exists>g' t'. task_step ce (grp s) (tasks s ! k) g' t'"
      proof (cases "bucket (grp s)")
        case None
        then show ?thesis using no_bucket [OF k(2)] by blast
      next
        case (Some b)
        then have "0 < c" using I by (auto simp: bucket_ok_def split: if_splits)
        then obtain m where d: "bucket (grp s) = Some (nat c, m)" "m + sum_list (map tokens (tasks s)) = nat c"
          using I by (auto simp: bucket_ok_def)
        have "\<not> token t" if "t \<in> set (tasks s)" for t
        proof -
          have "task_ok ce (grp s) t" using I that by blast
          moreover have "pc t = AtSelect \<or> pc t = Exited" using idle that by blast
          ultimately show ?thesis by (auto simp: task_ok_def)
        qed
        then have none: "sum_list (map tokens (tasks s)) = 0" by (simp add: tokens_def)
        have "m = Suc (nat c - 1)" using d(2) \<open>0 < c\<close> none by simp
        then show ?thesis using take_token [OF k(2)] d(1) by blast
      qed
      then show ?thesis using group_step.task [OF k(1)] by blast
    next
      case False
      then have "wg (grp s) = 0" using idle I by (auto simp: alive_def)
      then show ?thesis using group_step.go group_step.wait assms(2) by (metis list.exhaust surj_pair)
    qed
  qed
qed

lemma running_bounded:
  assumes "group_inv ce (set_up n c b) fs s" "0 < c"
  shows "int (length (filter (\<lambda>t. pc t = AtRun) (tasks s))) \<le> c"
proof -
  note I = assms(1) [unfolded group_inv_def]
  obtain m where m: "bucket (grp s) = Some (nat c, m)" "m + sum_list (map tokens (tasks s)) = nat c"
    using I assms(2) by (auto simp: bucket_ok_def)
  have "(if pc t = AtRun then 1 else 0) \<le> tokens t" if "t \<in> set (tasks s)" for t
    using I m(1) that by (auto simp: task_ok_def tokens_def)
  then have "sum_list (map (\<lambda>t. if pc t = AtRun then 1 else 0) (tasks s)) \<le> sum_list (map tokens (tasks s))"
    by (rule sum_list_mono)
  moreover have "length (filter (\<lambda>t. pc t = AtRun) ts) = sum_list (map (\<lambda>t. if pc t = AtRun then 1 else 0) ts)" for ts :: "'a task list"
    by (induction ts) auto
  ultimately show ?thesis using m(2) assms(2) by simp
qed

section \<open>What Wait returns\<close>

lemma Wait_entries:
  assumes "group_inv ce (set_up n c b) fs s" "returned s" "t \<in> set (tasks s)"
  shows "index t < n \<Longrightarrow> errs (grp s) ! index t = (if called t then result t else Some ce)"
    "\<not> called t \<Longrightarrow> b \<and> 0 < c"
proof -
  note I = assms(1) [unfolded group_inv_def]
  have t: "pc t = Exited" "task_ok ce (grp s) t" using all_exited [OF assms] I assms(3) by blast+
  then have c: "called t \<longleftrightarrow> \<not> aborted t" by (simp add: task_ok_def)
  show "errs (grp s) ! index t = (if called t then result t else Some ce)" if "index t < n"
    using t I that c by (simp add: task_ok_def final_def)
  assume "\<not> called t"
  then have "has_cancel (grp s)" "bucket (grp s) \<noteq> None" using t(2) c by (simp_all add: task_ok_def)
  then show "b \<and> 0 < c" using I by (auto simp: bucket_ok_def split: if_splits)
qed

lemma WaitErr_first:
  assumes "group_inv ce (set_up n c b) fs s" "returned s"
  shows "WaitErr (grp s) = None \<longleftrightarrow> (\<forall>i<n. errs (grp s) ! i = None)"
    "WaitErr (grp s) \<noteq> None \<Longrightarrow> \<exists>i<n. WaitErr (grp s) = errs (grp s) ! i"
proof -
  note I = assms(1) [unfolded group_inv_def]
  have len: "length (errs (grp s)) = n" using I by simp
  note gone = all_exited [OF assms]
  have entry: "errs (grp s) ! index t = final ce t" if "t \<in> set (tasks s)" "index t < n" for t
  proof -
    have "task_ok ce (grp s) t" using I that(1) by blast
    then show ?thesis using gone [OF that(1)] that(2) len by (simp add: task_ok_def)
  qed
  have R: "i \<in> reported ce n (tasks s) \<longleftrightarrow> i < n \<and> errs (grp s) ! i \<noteq> None" for i
  proof
    assume "i \<in> reported ce n (tasks s)"
    then show "i < n \<and> errs (grp s) ! i \<noteq> None" using entry by (force simp: reported_def)
  next
    assume i: "i < n \<and> errs (grp s) ! i \<noteq> None"
    then have "i \<in> index ` set (tasks s)" using I by auto
    then obtain t where "t \<in> set (tasks s)" "index t = i" by blast
    then show "i \<in> reported ce n (tasks s)" using entry [of t] gone [of t] i unfolding reported_def by auto
  qed
  have "first_ok (firstErr (grp s)) (reported ce n (tasks s))" using I by simp
  then consider "firstErr (grp s) = -1" "reported ce n (tasks s) = {}"
    | i where "i \<in> reported ce n (tasks s)" "firstErr (grp s) = int i"
    unfolding first_ok_def by blast
  then have "(WaitErr (grp s) = None \<longleftrightarrow> (\<forall>i<n. errs (grp s) ! i = None)) \<and>
    (WaitErr (grp s) \<noteq> None \<longrightarrow> (\<exists>i<n. WaitErr (grp s) = errs (grp s) ! i))"
  proof cases
    case 1
    then show ?thesis using R by (auto simp: WaitErr_def)
  next
    case (2 i)
    then show ?thesis using R [of i] len by (auto simp: WaitErr_def)
  qed
  then show "WaitErr (grp s) = None \<longleftrightarrow> (\<forall>i<n. errs (grp s) ! i = None)"
    "WaitErr (grp s) \<noteq> None \<Longrightarrow> \<exists>i<n. WaitErr (grp s) = errs (grp s) ! i" by blast+
qed

text \<open>C26: Whatever the limit and the interleaving, once \<open>Wait\<close> has returned for functions started with different
  indices, each function within the slice has as its entry the error it returned if it was called, and the context's
  error if it was not, which happens only with cancellation on error and a limit; entries no function was started for
  are nil; \<open>WaitErr\<close> gives an error, one of the entries, exactly when some entry is one.\<close>

theorem Group_Wait_collects:
  assumes "(group_step ce)\<^sup>*\<^sup>* (group_start (set_up n c b) fs) s" "returned s" "distinct (map fst fs)"
  shows "length (errs (grp s)) = n \<and> map (\<lambda>t. (index t, result t)) (tasks s) = fs \<and>
    (\<forall>t\<in>set (tasks s). index t < n \<longrightarrow> errs (grp s) ! index t = (if called t then result t else Some ce)) \<and>
    (\<forall>t\<in>set (tasks s). \<not> called t \<longrightarrow> b \<and> 0 < c) \<and>
    (\<forall>i<n. i \<notin> fst ` set fs \<longrightarrow> errs (grp s) ! i = None) \<and>
    (WaitErr (grp s) = None \<longleftrightarrow> (\<forall>i<n. errs (grp s) ! i = None)) \<and>
    (WaitErr (grp s) \<noteq> None \<longrightarrow> (\<exists>i<n. WaitErr (grp s) = errs (grp s) ! i))"
proof -
  note inv = reachable_inv [OF assms(1,3)]
  have keys: "map (\<lambda>t. (index t, result t)) (tasks s) = fs"
    and free: "\<forall>k<n. k \<notin> index ` set (tasks s) \<longrightarrow> errs (grp s) ! k = None"
    and len: "length (errs (grp s)) = n"
    using inv assms(2) unfolding group_inv_def by auto
  have "fst ` set fs = index ` set (tasks s)"
    using arg_cong [OF keys, of "\<lambda>xs. fst ` set xs"] by (simp add: image_image)
  then show ?thesis
    using free len keys Wait_entries [OF inv assms(2)] WaitErr_first [OF inv assms(2)]
    by (intro conjI ballI allI impI) simp_all
qed

text \<open>C27: At most as many functions run at a moment as the limit allows; every step leaves less work, and the only
  state without a next step is the one in which \<open>Wait\<close> has returned: the group never deadlocks.\<close>

theorem Group_Wait_returns:
  assumes "(group_step ce)\<^sup>*\<^sup>* (group_start (set_up n c b) fs) s" "distinct (map fst fs)"
  shows "(0 < c \<longrightarrow> int (length (filter (\<lambda>t. pc t = AtRun) (tasks s))) \<le> c) \<and>
    (\<forall>s'. group_step ce s s' \<longrightarrow> group_work_left s' < group_work_left s) \<and>
    ((\<nexists>s'. group_step ce s s') \<longrightarrow> returned s)"
proof (intro conjI allI impI)
  note inv = reachable_inv [OF assms]
  show "int (length (filter (\<lambda>t. pc t = AtRun) (tasks s))) \<le> c" if "0 < c" using running_bounded [OF inv that] .
  show "group_work_left s' < group_work_left s" if "group_step ce s s'" for s' using group_step_works [OF that] .
  show "returned s" if "\<nexists>s'. group_step ce s s'" using group_progress [OF inv] that by blast
qed

text \<open>One function that fails, without a limit: a run in which \<open>Wait\<close> returns its error.\<close>

theorem Group_Wait_collects_witness:
  "\<exists>s. (group_step 0)\<^sup>*\<^sup>* (group_start (set_up 1 0 False) [(0, Some (7 :: nat))]) s \<and> returned s \<and>
     errs (grp s) ! 0 = Some 7 \<and> WaitErr (grp s) \<noteq> None"
proof -
  let ?s0 = "group_start (set_up 1 0 False) [(0, Some (7 :: nat))]"
  define g where "g w f es = \<lparr>firstErr = f, wg = w, bucket = None, errs = es, has_cancel = False, cancelled = False\<rparr>"
    for w f and es :: "nat option list"
  define st where "st w f es p b =
    \<lparr>grp = g w f es, tasks = [\<lparr>index = 0, result = Some 7, pc = p, token = False, aborted = False,
       called = (p \<noteq> AtSelect \<and> p \<noteq> AtRun)\<rparr>],
     calls = [], returned = b\<rparr>" for w f es p b
  have B: "set_up 1 0 False = g 0 (-1) [None]"
    by (simp add: set_up_def Let_def WithConcurrency_def WithNErrs_def g_def)
  have "group_step 0 ?s0 (st 1 (-1) [None] AtSelect False)"
    using group_step.go [of ?s0 0 "Some 7" "[]" 0] unfolding B by (simp add: group_start_def st_def g_def new_task_def)
  moreover have "group_step 0 (st 1 (-1) [None] AtSelect False) (st 1 (-1) [None] AtRun False)"
    using group_step.task [of 0 "st 1 (-1) [None] AtSelect False" 0, OF _ no_bucket] by (simp add: st_def g_def)
  moreover have "group_step 0 (st 1 (-1) [None] AtRun False) (st 1 (-1) [None] (AtSwap 7) False)"
    using group_step.task [of 0 "st 1 (-1) [None] AtRun False" 0, OF _ run_fails [of _ 7]] by (simp add: st_def g_def)
  moreover have "group_step 0 (st 1 (-1) [None] (AtSwap 7) False) (st 1 0 [None] (AtStore 7) False)"
    using group_step.task [of 0 "st 1 (-1) [None] (AtSwap 7) False" 0, OF _ swap [of _ 7]] by (simp add: st_def g_def)
  moreover have "group_step 0 (st 1 0 [None] (AtStore 7) False) (st 1 0 [Some 7] AtCancel False)"
    using group_step.task [of 0 "st 1 0 [None] (AtStore 7) False" 0, OF _ store [of _ 7]] by (simp add: st_def g_def)
  moreover have "group_step 0 (st 1 0 [Some 7] AtCancel False) (st 1 0 [Some 7] AtRelease False)"
    using group_step.task [of 0 "st 1 0 [Some 7] AtCancel False" 0, OF _ cancel] by (simp add: st_def g_def)
  moreover have "group_step 0 (st 1 0 [Some 7] AtRelease False) (st 1 0 [Some 7] AtDone False)"
    using group_step.task [of 0 "st 1 0 [Some 7] AtRelease False" 0, OF _ no_token] by (simp add: st_def g_def)
  moreover have "group_step 0 (st 1 0 [Some 7] AtDone False) (st 0 0 [Some 7] Exited False)"
    using group_step.task [of 0 "st 1 0 [Some 7] AtDone False" 0, OF _ done_] by (simp add: st_def g_def)
  moreover have "group_step 0 (st 0 0 [Some 7] Exited False) (st 0 0 [Some 7] Exited True)"
    using group_step.wait [of "st 0 0 [Some 7] Exited False" 0] by (simp add: st_def g_def)
  ultimately have run: "(group_step 0)\<^sup>*\<^sup>* ?s0 (st 0 0 [Some 7] Exited True)"
    by (meson rtranclp.rtrancl_into_rtrancl rtranclp.rtrancl_refl)
  have ret: "returned (st 0 0 [Some 7] Exited True)" by (simp add: st_def)
  note W = Group_Wait_collects [OF run ret]
  let ?t = "\<lparr>index = 0, result = Some 7, pc = Exited, token = False, aborted = False, called = True\<rparr>"
  have t: "?t \<in> set (tasks (st 0 0 [Some 7] Exited True))" by (simp add: st_def)
  have "\<forall>t\<in>set (tasks (st 0 0 [Some 7] Exited True)). index t < 1 \<longrightarrow>
      errs (grp (st 0 0 [Some 7] Exited True)) ! index t = (if called t then result t else Some 0)"
    using W by simp
  from bspec [OF this t] have e: "errs (grp (st 0 0 [Some 7] Exited True)) ! 0 = Some 7" by simp
  have "WaitErr (grp (st 0 0 [Some 7] Exited True)) = None \<longleftrightarrow> (\<forall>i<1. errs (grp (st 0 0 [Some 7] Exited True)) ! i = None)"
    using W by simp
  then have "WaitErr (grp (st 0 0 [Some 7] Exited True)) \<noteq> None" using e by simp
  then show ?thesis using run ret e by blast
qed

theorem Group_Wait_returns_witness:
  "let s = group_start (set_up 3 2 True) [(0, None), (1, Some (7 :: nat)), (2, None)]
   in (\<forall>s'. group_step 0 s s' \<longrightarrow> group_work_left s' < group_work_left s) \<and> (\<exists>s'. group_step 0 s s')"
  unfolding Let_def
  using Group_Wait_returns [of 0 3 2 True "[(0, None), (1, Some 7), (2, None)]", OF rtranclp.rtrancl_refl]
  by (simp add: group_start_def)

end
