(* ===== verification/Cors.thy ===== *)
theory Cors
  imports GoStrings Wildcard
begin

text \<open>
  CORS configurations (\<open>cors/cors.go\<close>, \<open>cors/errors.go\<close>): validation, the tests a request goes through, and
  what follows the decoding of the XML text.
\<close>

section \<open>The code\<close>

record rule =
  AllowedHeader :: "string list"
  AllowedMethod :: "string list"
  AllowedOrigin :: "string list"
  ExposeHeader :: "string list"
  ID :: string
  MaxAgeSeconds :: int

text \<open>\<open>XMLName\<close> is the pair of name space and local name.\<close>

record config =
  XMLNS :: string
  XMLName :: "string \<times> string"
  CORSRules :: "rule list"

text \<open>The errors, with the fields their messages name; \<open>id\<close> is the rule's.\<close>

datatype cors_error = NoRules | ErrTooManyRules nat
  | NoOrigin (rule_id: string) | ErrAllowedOriginWildcards (Origin: string) (rule_id: string)
  | NoMethod (rule_id: string) | ErrInvalidMethod (Method: string) (rule_id: string)
  | ErrAllowedHeaderWildcards (Header: string) (rule_id: string)

definition defaultXMLNS :: string where
  "defaultXMLNS = ''http://s3.amazonaws.com/doc/2006-03-01/''"

definition allowedCORSRuleMethods :: "string list" where
  "allowedCORSRuleMethods = [''GET'', ''PUT'', ''POST'', ''DELETE'', ''HEAD'']"

text \<open>\<open>strings.Count(s, "*")\<close>\<close>

definition stars :: "string \<Rightarrow> nat" where
  "stars s = length (filter (\<lambda>c. c = CHR ''*'') s)"

text \<open>One iteration of the loop of \<open>Validate\<close>.\<close>

definition validate_rule :: "rule \<Rightarrow> cors_error option" where
  "validate_rule r =
     and_then (fail_if (AllowedOrigin r = []) (NoOrigin (ID r)))
     (and_then (first_err (\<lambda>origin. fail_if (stars origin > 1) (ErrAllowedOriginWildcards origin (ID r))) (AllowedOrigin r))
     (and_then (fail_if (AllowedMethod r = []) (NoMethod (ID r)))
     (and_then (first_err (\<lambda>m. fail_if (m \<notin> set allowedCORSRuleMethods) (ErrInvalidMethod m (ID r))) (AllowedMethod r))
       (first_err (\<lambda>h. fail_if (stars h > 1) (ErrAllowedHeaderWildcards h (ID r))) (AllowedHeader r)))))"

definition Config_Validate :: "config \<Rightarrow> cors_error option" where
  "Config_Validate c =
     and_then (fail_if (CORSRules c = []) NoRules)
     (and_then (fail_if (length (CORSRules c) > 100) (ErrTooManyRules (length (CORSRules c))))
       (first_err validate_rule (CORSRules c)))"

definition HasAllowedOrigin :: "rule \<Rightarrow> string \<Rightarrow> bool" where
  "HasAllowedOrigin c origin = list_ex (\<lambda>allowedOrigin. Match allowedOrigin origin) (AllowedOrigin c)"

definition HasAllowedMethod :: "rule \<Rightarrow> string \<Rightarrow> bool" where
  "HasAllowedMethod c method = list_ex (\<lambda>allowedMethod. allowedMethod = method) (AllowedMethod c)"

fun filter_loop :: "ext_lib \<Rightarrow> rule \<Rightarrow> string list \<Rightarrow> string list \<Rightarrow> string list \<times> bool" where
  "filter_loop L c filtered [] = (filtered, True)"
| "filter_loop L c filtered (h # hs) =
     (let header = to_lower L h
      in if list_ex (\<lambda>allowedHeader. Match (to_lower L allowedHeader) header) (AllowedHeader c)
         then filter_loop L c (filtered @ [header]) hs
         else ([], False))"

definition FilterAllowedHeaders :: "ext_lib \<Rightarrow> rule \<Rightarrow> string list \<Rightarrow> string list \<times> bool" where
  "FilterAllowedHeaders L c headers = filter_loop L c [] headers"

text \<open>
  \<open>ParseBucketCorsConfig\<close> and \<open>ToXML\<close> apart from the XML text, which the standard library decodes and
  writes: the default name space and the upper-case methods. \<open>strings.ToUpper\<close> maps ASCII texts byte
  by byte; the parameter stands for the Unicode tables it consults for the others.
\<close>

definition to_upper :: "(string \<Rightarrow> string) \<Rightarrow> string \<Rightarrow> string" where
  "to_upper unicode_upper s = (if is_ascii s then map ascii_upper s else unicode_upper s)"

definition default_namespace :: "config \<Rightarrow> config" where
  "default_namespace c = (if XMLNS c = '''' then c\<lparr>XMLNS := defaultXMLNS\<rparr> else c)"

definition ParseBucketCorsConfig_decoded :: "(string \<Rightarrow> string) \<Rightarrow> config \<Rightarrow> config" where
  "ParseBucketCorsConfig_decoded unicode_upper c =
     (let c = default_namespace c
      in c\<lparr>CORSRules := map (\<lambda>r. r\<lparr>AllowedMethod := map (to_upper unicode_upper) (AllowedMethod r)\<rparr>) (CORSRules c)\<rparr>)"

definition ToXML_value :: "config \<Rightarrow> config" where
  "ToXML_value c = default_namespace c"

section \<open>Validation\<close>

text \<open>What the S3 documentation asks of a rule.\<close>

definition rule_ok :: "rule \<Rightarrow> bool" where
  "rule_ok r \<longleftrightarrow> AllowedOrigin r \<noteq> [] \<and> AllowedMethod r \<noteq> [] \<and>
     set (AllowedMethod r) \<subseteq> {''GET'', ''PUT'', ''POST'', ''DELETE'', ''HEAD''} \<and>
     (\<forall>s \<in> set (AllowedOrigin r) \<union> set (AllowedHeader r). stars s \<le> 1)"

lemma validate_rule_ok: "validate_rule r = None \<longleftrightarrow> rule_ok r"
  by (auto simp: validate_rule_def rule_ok_def allowedCORSRuleMethods_def subset_iff not_less)

text \<open>What an error says of the rule it names.\<close>

fun blames :: "cors_error \<Rightarrow> rule \<Rightarrow> bool" where
  "blames (NoOrigin i) r = (i = ID r \<and> AllowedOrigin r = [])"
| "blames (ErrAllowedOriginWildcards s i) r = (i = ID r \<and> s \<in> set (AllowedOrigin r) \<and> stars s > 1)"
| "blames (NoMethod i) r = (i = ID r \<and> AllowedMethod r = [])"
| "blames (ErrInvalidMethod m i) r =
     (i = ID r \<and> m \<in> set (AllowedMethod r) \<and> m \<notin> {''GET'', ''PUT'', ''POST'', ''DELETE'', ''HEAD''})"
| "blames (ErrAllowedHeaderWildcards s i) r = (i = ID r \<and> s \<in> set (AllowedHeader r) \<and> stars s > 1)"
| "blames _ r = False"

lemma first_err_Some:
  "first_err f xs = Some e \<Longrightarrow> \<exists>pre x post. xs = pre @ x # post \<and> (\<forall>y\<in>set pre. f y = None) \<and> f x = Some e"
proof (induction xs)
  case (Cons a xs)
  show ?case
  proof (cases "f a")
    case None
    then obtain pre x post where "xs = pre @ x # post" "\<forall>y\<in>set pre. f y = None" "f x = Some e"
      using Cons by auto
    then have "a # xs = (a # pre) @ x # post \<and> (\<forall>y\<in>set (a # pre). f y = None) \<and> f x = Some e" using None by simp
    then show ?thesis by blast
  next
    case (Some b)
    then show ?thesis using Cons.prems by (intro exI [of _ "[]"]) simp
  qed
qed simp

lemma and_then_Some: "and_then a b = Some e \<longleftrightarrow> a = Some e \<or> a = None \<and> b = Some e"
  by (auto simp: and_then_def split: option.splits)

lemma fail_if_Some: "fail_if b x = Some e \<longleftrightarrow> b \<and> e = x"
  by (auto simp: fail_if_def)

lemma first_err_fail: "first_err (\<lambda>x. fail_if (P x) (E x)) xs = Some e \<Longrightarrow> \<exists>x\<in>set xs. P x \<and> e = E x"
  by (auto dest!: first_err_Some simp: fail_if_Some)

lemma validate_rule_blames:
  assumes "validate_rule r = Some e"
  shows "blames e r"
proof -
  consider "fail_if (AllowedOrigin r = []) (NoOrigin (ID r)) = Some e"
    | "first_err (\<lambda>s. fail_if (stars s > 1) (ErrAllowedOriginWildcards s (ID r))) (AllowedOrigin r) = Some e"
    | "fail_if (AllowedMethod r = []) (NoMethod (ID r)) = Some e"
    | "first_err (\<lambda>m. fail_if (m \<notin> set allowedCORSRuleMethods) (ErrInvalidMethod m (ID r))) (AllowedMethod r) = Some e"
    | "first_err (\<lambda>s. fail_if (stars s > 1) (ErrAllowedHeaderWildcards s (ID r))) (AllowedHeader r) = Some e"
    using assms unfolding validate_rule_def and_then_Some by blast
  then show ?thesis
  proof cases
    case 2
    then show ?thesis using first_err_fail [OF 2] by auto
  next
    case 4
    then show ?thesis using first_err_fail [OF 4] by (auto simp: allowedCORSRuleMethods_def)
  next
    case 5
    then show ?thesis using first_err_fail [OF 5] by auto
  qed (auto simp: fail_if_Some)
qed

text \<open>\<open>Validate\<close> accepts exactly the configurations of 1 to 100 rules that each have an origin and a method, only
  the five methods, and at most one wildcard in every origin and header; otherwise its error
  describes what is wrong with the first rule that is not acceptable, under that rule's id.\<close>

theorem Config_Validate_exact:
  "(Config_Validate c = None \<longleftrightarrow>
      1 \<le> length (CORSRules c) \<and> length (CORSRules c) \<le> 100 \<and> (\<forall>r\<in>set (CORSRules c). rule_ok r)) \<and>
   (case Config_Validate c of
      None \<Rightarrow> True
    | Some NoRules \<Rightarrow> CORSRules c = []
    | Some (ErrTooManyRules n) \<Rightarrow> n = length (CORSRules c) \<and> n > 100
    | Some e \<Rightarrow> (\<exists>pre r post. CORSRules c = pre @ r # post \<and> (\<forall>x\<in>set pre. rule_ok x) \<and> blames e r))"
proof -
  have accept: "Config_Validate c = None \<longleftrightarrow>
      1 \<le> length (CORSRules c) \<and> length (CORSRules c) \<le> 100 \<and> (\<forall>r\<in>set (CORSRules c). rule_ok r)"
    by (auto simp: Config_Validate_def validate_rule_ok Suc_le_eq)
  have first: "\<exists>pre r post. CORSRules c = pre @ r # post \<and> (\<forall>x\<in>set pre. rule_ok x) \<and> blames e r"
    if "first_err validate_rule (CORSRules c) = Some e" for e
    using first_err_Some [OF that] validate_rule_blames validate_rule_ok by blast
  show ?thesis
  proof (cases "Config_Validate c")
    case None
    then show ?thesis using accept by simp
  next
    case (Some e)
    then consider "CORSRules c = []" "e = NoRules"
      | "length (CORSRules c) > 100" "e = ErrTooManyRules (length (CORSRules c))"
      | "first_err validate_rule (CORSRules c) = Some e"
      by (auto simp: Config_Validate_def and_then_Some fail_if_Some)
    then show ?thesis
    proof cases
      case 3
      then show ?thesis using accept Some first [OF 3] by (cases e) auto
    qed (use accept Some in auto)
  qed
qed

section \<open>Requests\<close>

lemma stars_simps [simp]: "stars [] = 0" "stars (c # s) = (if c = CHR ''*'' then Suc (stars s) else stars s)"
  by (simp_all add: stars_def)

lemma wild_ref_plain:
  "stars p = 0 \<Longrightarrow> CHR ''?'' \<notin> set p \<Longrightarrow> wild_ref False p t \<longleftrightarrow> p = t"
  by (rule wild_ref_exact) (auto simp: Has_def stars_def filter_empty_conv list_ex_iff)

lemma wild_ref_one_star:
  "stars p = 0 \<Longrightarrow> CHR ''?'' \<notin> set p \<Longrightarrow> stars s = 0 \<Longrightarrow> CHR ''?'' \<notin> set s \<Longrightarrow>
   wild_ref False (p @ CHR ''*'' # s) t \<longleftrightarrow> (\<exists>m. t = p @ m @ s)"
proof (induction p arbitrary: t)
  case Nil
  have "wild_ref False (CHR ''*'' # s) t \<longleftrightarrow> (\<exists>k\<le>length t. drop k t = s)"
    using Nil(3,4) by (auto simp: wild_ref_star wild_ref_plain)
  also have "\<dots> \<longleftrightarrow> (\<exists>m. t = m @ s)"
    by (metis append_eq_conv_conj append_take_drop_id le_add1 length_append)
  finally show ?case by simp
next
  case (Cons c p)
  then show ?case by (cases t) (auto split: if_splits)
qed

text \<open>A rule that passed validation and has no question mark in its origins allows exactly the origins it
  lists and, for an entry with a wildcard, those that begin and end like it.\<close>

theorem valid_rule_origins:
  assumes "Config_Validate c = None" "r \<in> set (CORSRules c)"
    and "\<forall>p\<in>set (AllowedOrigin r). CHR ''?'' \<notin> set p"
  shows "HasAllowedOrigin r origin \<longleftrightarrow>
    origin \<in> set (AllowedOrigin r) \<or>
    (\<exists>p s m. p @ CHR ''*'' # s \<in> set (AllowedOrigin r) \<and> origin = p @ m @ s)"
proof -
  have ok: "stars p \<le> 1" "CHR ''?'' \<notin> set p" if "p \<in> set (AllowedOrigin r)" for p
    using assms that by (auto simp: Config_Validate_def validate_rule_ok rule_ok_def)
  have parts: "stars p = 0 \<and> stars s = 0" if "p @ CHR ''*'' # s \<in> set (AllowedOrigin r)" for p s
    using ok(1) [OF that] by (simp add: stars_def)
  have entry: "Match q origin \<longleftrightarrow> q = origin \<or> (\<exists>p s m. q = p @ CHR ''*'' # s \<and> origin = p @ m @ s)"
    if q: "q \<in> set (AllowedOrigin r)" for q
  proof (cases "CHR ''*'' \<in> set q")
    case True
    then obtain p s where ps: "q = p @ CHR ''*'' # s" by (meson split_list)
    have z: "stars p = 0" "stars s = 0" "CHR ''?'' \<notin> set p" "CHR ''?'' \<notin> set s"
      using parts [of p s] ok(2) [OF q] q ps by auto
    have matched: "Match q origin \<longleftrightarrow> (\<exists>m. origin = p @ m @ s)"
      using wild_ref_one_star [OF z(1,3,2,4)] by (simp add: Match_eq ps)
    have unique: "p' = p \<and> s' = s" if "q = p' @ CHR ''*'' # s'" for p' s'
    proof -
      have "CHR ''*'' \<notin> set p'" "CHR ''*'' \<notin> set s'"
        using parts [of p' s'] q that by (auto simp: stars_def filter_empty_conv)
      note same = append_Cons_eq_iff [OF this]
      have "p' @ CHR ''*'' # s' = p @ CHR ''*'' # s" by (rule trans [OF that [symmetric] ps])
      then show ?thesis by (simp only: same)
    qed
    show ?thesis
    proof
      assume "Match q origin"
      then obtain m where "origin = p @ m @ s" using matched by blast
      then show "q = origin \<or> (\<exists>p s m. q = p @ CHR ''*'' # s \<and> origin = p @ m @ s)" using ps by blast
    next
      assume "q = origin \<or> (\<exists>p s m. q = p @ CHR ''*'' # s \<and> origin = p @ m @ s)"
      then consider "origin = p @ [CHR ''*''] @ s" | p' s' m where "q = p' @ CHR ''*'' # s'" "origin = p' @ m @ s'"
        using ps by auto
      then show "Match q origin"
      proof cases
        case 1
        then show ?thesis using matched by blast
      next
        case (2 p' s' m)
        then show ?thesis using matched unique [OF 2(1)] by blast
      qed
    qed
  next
    case False
    then have "Match q origin \<longleftrightarrow> q = origin"
      using wild_ref_plain [of q] ok(2) [OF q] by (auto simp: Match_eq stars_def filter_empty_conv)
    then show ?thesis using False by auto
  qed
  show ?thesis
    using entry unfolding HasAllowedOrigin_def list_ex_iff by blast
qed

lemma filter_loop_eq:
  "filter_loop L c fs hs =
     (if \<forall>h\<in>set hs. \<exists>a\<in>set (AllowedHeader c). Match (to_lower L a) (to_lower L h)
      then (fs @ map (to_lower L) hs, True) else ([], False))"
  by (induction hs arbitrary: fs) (auto simp: Let_def list_ex_iff)

text \<open>The headers of a request are allowed together or not at all, and come back in lower case.\<close>

lemma FilterAllowedHeaders_spec:
  "FilterAllowedHeaders L c hs =
     (if \<forall>h\<in>set hs. \<exists>a\<in>set (AllowedHeader c). Match (to_lower L a) (to_lower L h)
      then (map (to_lower L) hs, True) else ([], False))"
  by (simp add: FilterAllowedHeaders_def filter_loop_eq)

text \<open>A question mark is no wildcard for S3, but it is one for \<open>wildcard.Match\<close>.\<close>

lemma question_mark_is_a_wildcard:
  "Config_Validate (\<lparr>XMLNS = '''', XMLName = ('''', ''''), CORSRules = [\<lparr>AllowedHeader = [], AllowedMethod = [''GET''],
     AllowedOrigin = [''http://a?b''], ExposeHeader = [], ID = '''', MaxAgeSeconds = 0\<rparr>]\<rparr>) = None"
  "HasAllowedOrigin \<lparr>AllowedHeader = [], AllowedMethod = [''GET''],
     AllowedOrigin = [''http://a?b''], ExposeHeader = [], ID = '''', MaxAgeSeconds = 0\<rparr> ''http://a.b''"
  by (simp_all add: Config_Validate_def validate_rule_def allowedCORSRuleMethods_def HasAllowedOrigin_def Match_eq
      and_then_def fail_if_def)

theorem valid_rule_origins_witness:
  "HasAllowedOrigin \<lparr>AllowedHeader = [], AllowedMethod = [''GET''], AllowedOrigin = [''https://*.example.com''],
     ExposeHeader = [], ID = ''r'', MaxAgeSeconds = 0\<rparr> ''https://www.example.com''"
proof -
  define r where "r = \<lparr>AllowedHeader = [], AllowedMethod = [''GET''], AllowedOrigin = [''https://*.example.com''],
     ExposeHeader = [], ID = ''r'', MaxAgeSeconds = 0\<rparr>"
  have "Config_Validate \<lparr>XMLNS = '''', XMLName = ('''', ''''), CORSRules = [r]\<rparr> = None"
    by (simp add: Config_Validate_def validate_rule_def allowedCORSRuleMethods_def r_def and_then_def fail_if_def)
  from valid_rule_origins [OF this, of r "''https://www.example.com''"]
  have "HasAllowedOrigin r ''https://www.example.com'' \<longleftrightarrow>
      ''https://www.example.com'' \<in> set (AllowedOrigin r) \<or>
      (\<exists>p s m. p @ CHR ''*'' # s \<in> set (AllowedOrigin r) \<and> ''https://www.example.com'' = p @ m @ s)"
    by (simp add: r_def)
  moreover have "''https://'' @ CHR ''*'' # ''.example.com'' \<in> set (AllowedOrigin r) \<and>
      ''https://www.example.com'' = ''https://'' @ ''www'' @ ''.example.com''"
    by (simp add: r_def)
  ultimately have "HasAllowedOrigin r ''https://www.example.com''" by blast
  then show ?thesis by (simp only: r_def)
qed

theorem Config_Validate_exact_witness:
  "let bad = \<lparr>XMLNS = '''', XMLName = ('''', ''''), CORSRules = [\<lparr>AllowedHeader = [], AllowedMethod = [''PATCH''],
       AllowedOrigin = [''*''], ExposeHeader = [], ID = ''r'', MaxAgeSeconds = 0\<rparr>]\<rparr>
   in Config_Validate bad = Some (ErrInvalidMethod ''PATCH'' ''r'') \<and>
      (\<exists>pre r post. CORSRules bad = pre @ r # post \<and> blames (ErrInvalidMethod ''PATCH'' ''r'') r)"
proof -
  define bad where "bad = \<lparr>XMLNS = '''', XMLName = ('''', ''''), CORSRules = [\<lparr>AllowedHeader = [],
       AllowedMethod = [''PATCH''], AllowedOrigin = [''*''], ExposeHeader = [], ID = ''r'', MaxAgeSeconds = 0\<rparr>]\<rparr>"
  have "Config_Validate bad = Some (ErrInvalidMethod ''PATCH'' ''r'')"
    by (simp add: Config_Validate_def validate_rule_def allowedCORSRuleMethods_def bad_def and_then_def fail_if_def)
  with Config_Validate_exact [of bad] show ?thesis
    unfolding Let_def bad_def [symmetric] by auto
qed

end
