(* ===== verification/Hosts.thy ===== *)
theory Hosts
  imports GoNet GoTimeFacts "HOL-Library.Word"
begin

text \<open>
  Ports, hosts and the host part of URLs (\<open>net/port.go\<close>, \<open>net/host.go\<close>, \<open>net/url.go\<close>).
\<close>

section \<open>\<open>net.SplitHostPort\<close> and \<open>net.JoinHostPort\<close>\<close>

text \<open>A failure is the text of the \<open>AddrError\<close>, without the address it is about.\<close>

definition check_brackets :: "string \<Rightarrow> nat \<Rightarrow> nat \<Rightarrow> string \<times> string \<Rightarrow> string + string \<times> string" where
  "check_brackets s j k res =
     (if contains_byte (drop j s) (CHR ''['') then Inl ''unexpected '[' in address''
      else if contains_byte (drop k s) (CHR '']'') then Inl ''unexpected ']' in address''
      else Inr res)"

definition SplitHostPort :: "string \<Rightarrow> string + string \<times> string" where
  "SplitHostPort s =
     (case last_index_byte s (CHR '':'') of
        None \<Rightarrow> Inl ''missing port in address''
      | Some i \<Rightarrow>
          (if hd s = CHR ''['' then
             (case index_byte s (CHR '']'') of
                None \<Rightarrow> Inl ''missing ']' in address''
              | Some e \<Rightarrow>
                  (if e + 1 = length s then Inl ''missing port in address''
                   else if e + 1 = i then check_brackets s 1 (e + 1) (take (e - 1) (tl s), drop (i + 1) s)
                   else if s ! (e + 1) = CHR '':'' then Inl ''too many colons in address''
                   else Inl ''missing port in address''))
           else if contains_byte (take i s) (CHR '':'') then Inl ''too many colons in address''
           else check_brackets s 0 0 (take i s, drop (i + 1) s)))"

definition JoinHostPort :: "string \<Rightarrow> string \<Rightarrow> string" where
  "JoinHostPort host port =
     (if contains_byte host (CHR '':'') then ''['' @ host @ '']:'' @ port else host @ '':'' @ port)"

text \<open>\<open>AddrError.Error\<close>\<close>

definition addr_error_text :: "string \<Rightarrow> string \<Rightarrow> string" where
  "addr_error_text addr err = (if addr \<noteq> '''' then ''address '' @ addr @ '': '' @ err else err)"

section \<open>Ports\<close>

type_synonym port = "16 word"

datatype host_error = ErrEmptyArgument | ErrAddress string | ErrPortNumber | ErrPortRange | ErrNoOpeningBracket
  | ErrHostname

definition Port_String :: "port \<Rightarrow> string" where
  "Port_String p = itoa (uint p)"

definition ParsePort :: "string \<Rightarrow> host_error + port" where
  "ParsePort s =
     (if s = ''https'' then Inr 443
      else if s = ''http'' then Inr 80
      else (case atoi s of None \<Rightarrow> Inl ErrPortNumber
            | Some i \<Rightarrow> if i < 0 \<or> i > 65535 then Inl ErrPortRange else Inr (word_of_int i)))"

section \<open>Hosts\<close>

record host =
  Name :: string
  Port :: port
  IsPortSet :: bool

definition Host_IsEmpty :: "host \<Rightarrow> bool" where
  "Host_IsEmpty h = (Name h = '''')"

definition Host_String :: "host \<Rightarrow> string" where
  "Host_String h = (if \<not> IsPortSet h then Name h else JoinHostPort (Name h) (Port_String (Port h)))"

definition Host_Equal :: "host \<Rightarrow> host \<Rightarrow> bool" where
  "Host_Equal h compHost = (Host_String h = Host_String compHost)"

text \<open>\<open>^[a-zA-Z0-9]([a-zA-Z0-9-]*[a-zA-Z0-9])?$\<close>\<close>

definition host_alnum :: "char \<Rightarrow> bool" where
  "host_alnum c = (is_digit c \<or> is_lower c \<or> is_upper c)"

definition hostLabelRegexp :: "string \<Rightarrow> bool" where
  "hostLabelRegexp l = (l \<noteq> [] \<and> host_alnum (hd l) \<and> host_alnum (last l) \<and> list_all (\<lambda>c. host_alnum c \<or> c = CHR ''-'') l)"

definition isValidHost :: "string \<Rightarrow> bool" where
  "isValidHost h =
     (if h = '''' then True
      else if ParseIP h \<noteq> None then True
      else if length h < 1 \<or> length h > 253 then False
      else
        (let labels = split_on (CHR ''.'') h
         in list_all (\<lambda>i. if i + 1 = length labels \<and> labels ! i = '''' then True
              else length (labels ! i) \<ge> 1 \<and> length (labels ! i) \<le> 63 \<and> hostLabelRegexp (labels ! i))
            [0..<length labels]))"

definition trimIPv6 :: "string \<Rightarrow> host_error + string" where
  "trimIPv6 h =
     (if h ! (length h - 1) = CHR '']'' then
        (if h ! 0 \<noteq> CHR ''['' then Inl ErrNoOpeningBracket else Inr (take (length h - 2) (drop 1 h)))
      else Inr h)"

text \<open>The part before \<open>%interface\<close>.\<close>

definition without_zone :: "string \<Rightarrow> string" where
  "without_zone h = (case last_index_byte h (CHR ''%'') of None \<Rightarrow> h | Some i \<Rightarrow> take i h)"

text \<open>The end of \<open>ParseHost\<close>: brackets, zone and validity of the host.\<close>

definition finish_host :: "string \<Rightarrow> port \<Rightarrow> bool \<Rightarrow> host_error + host" where
  "finish_host h port isPortSet =
     (case (if h \<noteq> '''' then trimIPv6 h else Inr h) of
        Inl e \<Rightarrow> Inl e
      | Inr h \<Rightarrow>
          (let trimmedHost = without_zone h
           in if \<not> isValidHost trimmedHost then Inl ErrHostname
              else Inr \<lparr>Name = h, Port = port, IsPortSet = isPortSet\<rparr>))"

definition ParseHost :: "string \<Rightarrow> host_error + host" where
  "ParseHost s =
     (if s = '''' then Inl ErrEmptyArgument
      else (case SplitHostPort s of
              Inl err \<Rightarrow>
                (if \<not> contains_str (addr_error_text s err) ''missing port in address'' then Inl (ErrAddress err)
                 else finish_host s 0 False)
            | Inr (h, portStr) \<Rightarrow>
                (case ParsePort portStr of Inl e \<Rightarrow> Inl e | Inr p \<Rightarrow> finish_host h p True)))"

text \<open>\<open>UnmarshalJSON\<close> after the JSON string is read: an empty text is the zero host.\<close>

definition Host_decoded :: "string \<Rightarrow> host_error + host" where
  "Host_decoded s = (if s = '''' then Inr \<lparr>Name = '''', Port = 0, IsPortSet = False\<rparr> else ParseHost s)"

section \<open>URLs\<close>

text \<open>The fields of \<open>url.URL\<close> the code looks at; the others are the extension of the record.\<close>

record url =
  Scheme :: string
  Host :: string
  Path :: string

datatype url_error = ErrUnexpectedScheme string | ErrSchemeWithoutHost | ErrHost host_error

definition validOptionalPort :: "string \<Rightarrow> bool" where
  "validOptionalPort port =
     (if port = '''' then True
      else if hd port \<noteq> CHR '':'' then False
      else list_all is_digit (tl port))"

definition splitHostPort :: "string \<Rightarrow> string \<times> string" where
  "splitHostPort hostPort =
     (let (h, p) = (case last_index_byte hostPort (CHR '':'') of
                      None \<Rightarrow> (hostPort, '''')
                    | Some colon \<Rightarrow>
                        if validOptionalPort (drop colon hostPort)
                        then (take colon hostPort, drop (colon + 1) hostPort) else (hostPort, ''''))
      in (if has_prefix h ''['' \<and> has_suffix h '']'' then take (length h - 2) (drop 1 h) else h, p))"

definition URL_Hostname :: "'a url_scheme \<Rightarrow> string" where
  "URL_Hostname u = fst (splitHostPort (Host u))"

definition URL_Port :: "'a url_scheme \<Rightarrow> string" where
  "URL_Port u = snd (splitHostPort (Host u))"

text \<open>\<open>String\<close> up to the call of \<open>url.URL.String\<close>; a host that does not parse panics.\<close>

definition URL_printed :: "'a url_scheme \<Rightarrow> 'a url_scheme may_panic" where
  "URL_printed u =
     (if Host u \<noteq> '''' then
        (case ParseHost (Host u) of
           Inl e \<Rightarrow> None
         | Inr h \<Rightarrow>
             Some (if Scheme u = ''http'' \<and> Port h = 80 \<or> Scheme u = ''https'' \<and> Port h = 443
                   then u\<lparr>Host := Name h\<rparr> else u))
      else Some u)"

text \<open>\<open>ParseURL\<close> and \<open>ParseHTTPURL\<close> on what \<open>url.Parse(s)\<close> returns.\<close>

definition ParseURL_parsed :: "'a url_scheme \<Rightarrow> string \<Rightarrow> url_error + 'a url_scheme" where
  "ParseURL_parsed uu s =
     (case (if URL_Hostname uu = '''' then (if Scheme uu \<noteq> '''' then Some ErrSchemeWithoutHost else None)
            else
              (let portStr = (if URL_Port uu = '''' then
                                (if Scheme uu = ''http'' then ''80'' else if Scheme uu = ''https'' then ''443'' else '''')
                              else URL_Port uu)
               in case ParseHost (JoinHostPort (URL_Hostname uu) portStr) of
                    Inl e \<Rightarrow> Some (ErrHost e) | Inr _ \<Rightarrow> None)) of
        Some e \<Rightarrow> Inl e
      | None \<Rightarrow>
          (let uu = (if Path uu \<noteq> '''' then uu\<lparr>Path := path_clean (Path uu)\<rparr> else uu);
               uu = (if has_suffix s ''/'' \<and> \<not> has_suffix (Path uu) ''/'' then uu\<lparr>Path := Path uu @ ''/''\<rparr> else uu)
           in Inr uu))"

definition ParseHTTPURL_parsed :: "'a url_scheme \<Rightarrow> string \<Rightarrow> url_error + 'a url_scheme" where
  "ParseHTTPURL_parsed uu s =
     (case ParseURL_parsed uu s of
        Inl e \<Rightarrow> Inl e
      | Inr u \<Rightarrow> if Scheme u = ''http'' \<or> Scheme u = ''https'' then Inr u else Inl (ErrUnexpectedScheme (Scheme u)))"

section \<open>Splitting and joining\<close>

lemma index_byte_at: "c \<notin> set a \<Longrightarrow> index_byte (a @ c # b) c = Some (length a)"
  by (induction a) (auto simp: index_byte_def)

lemma last_index_byte_at: "c \<notin> set b \<Longrightarrow> last_index_byte (a @ c # b) c = Some (length a)"
  using index_byte_at [of c "rev b" "rev a"] by (simp add: last_index_byte_def)

lemma last_index_byte_None: "last_index_byte s c = None \<longleftrightarrow> c \<notin> set s"
  by (simp add: last_index_byte_def index_byte_None)

lemma last_index_byte_SomeD:
  assumes "last_index_byte s c = Some i"
  shows "c \<notin> set (drop (i + 1) s)" "s = take i s @ c # drop (i + 1) s"
proof -
  have "c \<in> set s" using assms last_index_byte_None [of s c] by auto
  then obtain a b where ab: "s = a @ c # b" "c \<notin> set b" by (meson split_list_last)
  then have "i = length a" using assms last_index_byte_at [of c b a] by simp
  then show "c \<notin> set (drop (i + 1) s)" "s = take i s @ c # drop (i + 1) s" using ab by simp_all
qed

lemma split_joined:
  assumes "set h \<inter> {CHR ''['', CHR '']''} = {}" "set p \<inter> {CHR ''['', CHR '']'', CHR '':''} = {}"
  shows "SplitHostPort (JoinHostPort h p) = Inr (h, p)"
proof (cases "CHR '':'' \<in> set h")
  case True
  have "last_index_byte ((CHR ''['' # h @ [CHR '']'']) @ CHR '':'' # p) (CHR '':'') = Some (length h + 2)"
    using assms(2) by (subst last_index_byte_at) auto
  moreover have "index_byte ((CHR ''['' # h) @ CHR '']'' # CHR '':'' # p) (CHR '']'') = Some (length h + 1)"
    using assms(1) by (subst index_byte_at) auto
  ultimately show ?thesis
    using True assms by (auto simp: SplitHostPort_def JoinHostPort_def contains_byte_def check_brackets_def)
next
  case False
  have "last_index_byte (h @ CHR '':'' # p) (CHR '':'') = Some (length h)"
    using assms(2) by (subst last_index_byte_at) auto
  moreover have "hd (h @ CHR '':'' # p) \<noteq> CHR ''[''" using assms(1) by (cases h) auto
  ultimately show ?thesis
    using False assms by (auto simp: SplitHostPort_def JoinHostPort_def contains_byte_def check_brackets_def)
qed

lemma split_no_brackets:
  assumes "SplitHostPort s = Inr (h, p)"
  shows "set h \<inter> {CHR ''['', CHR '']''} = {}"
proof -
  obtain i where i: "last_index_byte s (CHR '':'') = Some i"
    using assms by (auto simp: SplitHostPort_def split: option.splits)
  show ?thesis
  proof (cases "hd s = CHR ''[''")
    case True
    then obtain e where e: "index_byte s (CHR '']'') = Some e" "h = take (e - 1) (tl s)"
      "CHR ''['' \<notin> set (drop 1 s)"
      using assms i by (auto simp: SplitHostPort_def check_brackets_def contains_byte_def split: option.splits if_splits)
    have "\<forall>j<e. s ! j \<noteq> CHR '']''" using index_func_SomeD [OF e(1) [unfolded index_byte_def]] by blast
    then have "CHR '']'' \<notin> set (take e s)" by (auto simp: in_set_conv_nth)
    moreover have "set h \<subseteq> set (take e s)"
      unfolding e(2) by (cases s; cases e) auto
    moreover have "set h \<subseteq> set (drop 1 s)" unfolding e(2) by (cases s) (auto dest: in_set_takeD)
    ultimately show ?thesis using e(3) by auto
  next
    case False
    then have "h = take i s" "CHR ''['' \<notin> set s" "CHR '']'' \<notin> set s"
      using assms i by (auto simp: SplitHostPort_def check_brackets_def contains_byte_def split: if_splits)
    then show ?thesis by (auto dest: in_set_takeD)
  qed
qed

section \<open>Parsing what is printed\<close>

lemma atoi_itoa: "0 \<le> i \<Longrightarrow> i < 2 ^ 63 \<Longrightarrow> atoi (itoa i) = Some i"
proof -
  assume i: "0 \<le> i" "i < 2 ^ 63"
  define d where "d = nat_digits (nat i)"
  have dig: "set d \<subseteq> Collect is_digit" by (simp add: d_def nat_digits_digits)
  have ne: "d \<noteq> []" unfolding d_def by (subst nat_digits.simps) simp
  then obtain c t where ct: "d = c # t" by (cases d) auto
  have "is_digit c" using dig ct by auto
  then have "c \<noteq> CHR ''-''" "c \<noteq> CHR ''+''" by (auto simp: is_digit_def byte_def)
  moreover have "list_all is_digit d" using dig by (auto simp: list_all_iff)
  moreover have "digits_value d = i" using i(1) by (simp add: d_def)
  ultimately show ?thesis
    using i ct by (simp add: itoa_def d_def [symmetric] atoi_def)
qed

lemma ParsePort_String: "ParsePort (Port_String p) = Inr p"
proof -
  have b: "0 \<le> uint p" "uint p < 65536" using uint_lt2p [of p] by simp_all
  have dig: "set (Port_String p) \<subseteq> Collect is_digit"
    using b by (simp add: Port_String_def itoa_def nat_digits_digits)
  have "Port_String p \<noteq> ''https''" "Port_String p \<noteq> ''http''"
    using dig by (auto simp: is_digit_def byte_def)
  moreover have "atoi (Port_String p) = Some (uint p)" unfolding Port_String_def using b by (intro atoi_itoa) auto
  ultimately show ?thesis using b by (simp add: ParsePort_def)
qed

lemma ParsePort_exact:
  "ParsePort s = Inr p \<longleftrightarrow> s = ''http'' \<and> p = 80 \<or> s = ''https'' \<and> p = 443 \<or> atoi s = Some (uint p)"
proof -
  have "uint p < 65536" using uint_lt2p [of p] by simp
  moreover have "atoi ''http'' = None" "atoi ''https'' = None" by code_simp+
  moreover have "uint (word_of_int i :: 16 word) = i" if "0 \<le> i" "i \<le> 65535" for i
    using that by (simp add: unsigned_of_int take_bit_int_eq_self)
  ultimately show ?thesis by (auto simp: ParsePort_def split: option.splits)
qed

lemma finish_name:
  assumes "finish_host s p b = Inr h" "CHR '']'' \<notin> set s"
  shows "h = \<lparr>Name = s, Port = p, IsPortSet = b\<rparr>"
proof -
  have "trimIPv6 s = Inr s" if "s \<noteq> ''''"
  proof -
    have "s ! (length s - 1) \<noteq> CHR '']''" using assms(2) that by (metis last_conv_nth last_in_set)
    then show ?thesis by (simp add: trimIPv6_def)
  qed
  then show ?thesis
    using assms(1) by (cases "s = ''''") (auto simp: finish_host_def Let_def split: if_splits)
qed

lemma finish_fields:
  assumes "finish_host s p b = Inr h"
  shows "Port h = p" "IsPortSet h = b"
  using assms by (auto simp: finish_host_def Let_def split: sum.splits if_splits)

text \<open>A host that is accepted once is accepted again under its own name.\<close>

lemma finish_again:
  assumes "finish_host s p b = Inr h" "CHR '']'' \<notin> set (Name h)"
  shows "finish_host (Name h) p b = Inr h"
proof -
  have h: "Port h = p" "IsPortSet h = b" by (rule finish_fields [OF assms(1)])+
  have ok: "isValidHost (without_zone (Name h))"
    using assms(1) by (auto simp: finish_host_def Let_def split: sum.splits if_splits option.splits)
  have "trimIPv6 (Name h) = Inr (Name h)" if "Name h \<noteq> ''''"
  proof -
    have "Name h ! (length (Name h) - 1) \<noteq> CHR '']''" using assms(2) that by (metis last_conv_nth last_in_set)
    then show ?thesis by (simp add: trimIPv6_def)
  qed
  then show ?thesis
    using ok h by (cases "Name h = ''''") (auto simp: finish_host_def Let_def)
qed

lemma contains_str_self: "contains_str s s"
  by (auto simp: contains_str_def list_ex_iff has_prefix_def intro!: bexI [of _ 0])

lemma contains_str_suffix: "contains_str (a @ s) s"
  by (auto simp: contains_str_def list_ex_iff has_prefix_def intro!: bexI [of _ "length a"])

lemma missing_port_text: "contains_str (addr_error_text s ''missing port in address'') ''missing port in address''"
  using contains_str_suffix [of "''address '' @ s @ '': ''" "''missing port in address''"]
  by (simp add: addr_error_text_def contains_str_self)

lemma ParseHost_cases:
  assumes "ParseHost s = Inr h"
  obtains (ported) n q p where "SplitHostPort s = Inr (n, q)" "ParsePort q = Inr p" "finish_host n p True = Inr h"
    | (bare) "finish_host s 0 False = Inr h"
  using assms by (auto simp: ParseHost_def split: if_splits sum.splits)

lemma port_text_plain: "set (Port_String p) \<inter> {CHR ''['', CHR '']'', CHR '':''} = {}"
proof -
  have "0 \<le> uint p" by simp
  then have "set (Port_String p) \<subseteq> Collect is_digit" by (simp add: Port_String_def itoa_def nat_digits_digits)
  then show ?thesis by (auto simp: is_digit_def byte_def)
qed

text \<open>C38: Printing a parsed host and parsing the text again gives the host back, when its port is set, or
  when its name is neither empty nor contains a colon or a closing bracket.\<close>

theorem ParseHost_String:
  assumes "ParseHost s = Inr h"
    and "IsPortSet h \<or> Name h \<noteq> '''' \<and> CHR '':'' \<notin> set (Name h) \<and> CHR '']'' \<notin> set (Name h)"
  shows "ParseHost (Host_String h) = Inr h"
  using assms(1)
proof (cases rule: ParseHost_cases)
  case (ported n q p)
  have plain: "set n \<inter> {CHR ''['', CHR '']''} = {}" by (rule split_no_brackets [OF ported(1)])
  then have h: "h = \<lparr>Name = n, Port = p, IsPortSet = True\<rparr>" using finish_name [OF ported(3)] by blast
  have "JoinHostPort n (Port_String p) \<noteq> ''''" by (simp add: JoinHostPort_def)
  then show ?thesis
    using split_joined [OF plain port_text_plain [of p]] ported(3) by (simp add: h Host_String_def ParseHost_def ParsePort_String)
next
  case bare
  have p: "Port h = 0" "\<not> IsPortSet h" using finish_fields [OF bare] by simp_all
  then have n: "Name h \<noteq> ''''" "CHR '':'' \<notin> set (Name h)" "CHR '']'' \<notin> set (Name h)" using assms(2) by simp_all
  have "SplitHostPort (Name h) = Inl ''missing port in address''"
    using n(2) last_index_byte_None [of "Name h" "CHR '':''"] by (simp add: SplitHostPort_def)
  then show ?thesis
    using finish_again [OF bare n(3)] n(1) p(2) missing_port_text [of "Name h"] by (simp add: Host_String_def ParseHost_def)
qed

theorem ParseHost_String_witness:
  "ParseHost (Host_String \<lparr>Name = ''::1'', Port = 9000, IsPortSet = True\<rparr>) =
     Inr \<lparr>Name = ''::1'', Port = 9000, IsPortSet = True\<rparr>"
proof -
  have "ParseHost ''[::1]:9000'' = Inr \<lparr>Name = ''::1'', Port = 9000, IsPortSet = True\<rparr>"
    by code_simp
  from ParseHost_String [OF this] show ?thesis by simp
qed

text \<open>Without a port the brackets of an IPv6 host are lost, and its text no longer parses.\<close>

lemma bare_ipv6_host_does_not_round_trip:
  "ParseHost ''[::1]'' = Inr \<lparr>Name = ''::1'', Port = 0, IsPortSet = False\<rparr>"
  "Host_String \<lparr>Name = ''::1'', Port = 0, IsPortSet = False\<rparr> = ''::1''"
  "ParseHost ''::1'' = Inl (ErrAddress ''too many colons in address'')"
  by (code_simp, simp add: Host_String_def, code_simp)

text \<open>\<open>ParseURL\<close> accepts a host with a colon and no port, which \<open>String\<close> then panics on.\<close>

lemma parsed_url_panics:
  "let u = \<lparr>Scheme = ''http'', Host = ''a:'', Path = ''''\<rparr>
   in ParseURL_parsed u ''http://a:'' = Inr u \<and> URL_printed u = None"
  by code_simp

text \<open>The default port is dropped together with the brackets.\<close>

lemma default_port_drops_brackets:
  "URL_printed \<lparr>Scheme = ''http'', Host = ''[::1]:80'', Path = ''''\<rparr> = Some \<lparr>Scheme = ''http'', Host = ''::1'', Path = ''''\<rparr>"
  by code_simp

end
