(* ===== verification/Rng.thy ===== *)
theory Rng
  imports GoPrelude "HOL-Library.Word"
begin

unbundle bit_operations_syntax

text \<open>
  The pseudo-random reader (\<open>rng/reader.go\<close>, \<open>rng/xor.go\<close>): a seekable stream made from a seeded buffer and
  keys that change with every pass over it.
\<close>

section \<open>Words and bytes\<close>

text \<open>\<open>binary.LittleEndian.Uint64\<close> and \<open>PutUint64\<close>; out of range both panic, which no caller provokes.\<close>

fun little_endian :: "8 word list \<Rightarrow> 64 word" where
  "little_endian [] = 0"
| "little_endian (b # bs) = ucast b OR push_bit 8 (little_endian bs)"

definition load64 :: "8 word list \<Rightarrow> nat \<Rightarrow> 64 word" where
  "load64 b i = little_endian (take 8 (drop i b))"

definition bytes_of :: "64 word \<Rightarrow> 8 word list" where
  "bytes_of v = map (\<lambda>k. ucast (drop_bit (8 * k) v)) [0..<8]"

definition store64 :: "8 word list \<Rightarrow> nat \<Rightarrow> 64 word \<Rightarrow> 8 word list" where
  "store64 b i v = take i b @ bytes_of v @ drop (i + 8) b"

text \<open>A store inside the slice keeps its length, so the index passes its end.\<close>

lemma length_bytes_of [simp]: "length (bytes_of v) = 8"
  by (simp add: bytes_of_def)

lemma length_store64 [simp]: "i + 8 \<le> length b \<Longrightarrow> length (store64 b i v) = length b"
  by (simp add: store64_def)

section \<open>The exclusive or with four keys\<close>

text \<open>\<open>xor32Go\<close> with \<open>unsafe\<close>, by index, and without, by slices; the assembly version is not modelled.\<close>

function xor_indexed :: "8 word list \<Rightarrow> 8 word list \<Rightarrow> 64 word list \<Rightarrow> nat \<Rightarrow> 8 word list may_panic" where
  "xor_indexed inp out v i =
     (if length out < i + 32 then Some out
      else if length inp < i + 32 then None
      else
        (let out = store64 out i (v ! 0 XOR load64 inp i);
             out = store64 out (i + 8) (v ! 1 XOR load64 inp (i + 8));
             out = store64 out (i + 16) (v ! 2 XOR load64 inp (i + 16));
             out = store64 out (i + 24) (v ! 3 XOR load64 inp (i + 24))
         in xor_indexed inp out v (i + 32)))"
  by pat_completeness auto
termination
  by (relation "measure (\<lambda>(inp, out, v, i). length out - i)") auto

function xor_slices :: "8 word list \<Rightarrow> 8 word list \<Rightarrow> 64 word list \<Rightarrow> 8 word list may_panic" where
  "xor_slices inp out v =
     (if length out < 32 then Some out
      else if length inp < 32 then None
      else
        (let inS = take 32 inp;
             v0 = v ! 0 XOR load64 inS 0;
             v1 = v ! 1 XOR load64 inS 8;
             v2 = v ! 2 XOR load64 inS 16;
             v3 = v ! 3 XOR load64 inS 24;
             out = store64 out 0 v0;
             out = store64 out 8 v1;
             out = store64 out 16 v2;
             out = store64 out 24 v3
         in map_option (\<lambda>rest. take 32 out @ rest) (xor_slices (drop 32 inp) (drop 32 out) v)))"
  by pat_completeness auto
termination
  by (relation "measure (\<lambda>(inp, out, v). length out)") auto

declare xor_indexed.simps [simp del] xor_slices.simps [simp del]

section \<open>The reader\<close>

definition bufferSize :: int where
  "bufferSize = 16384"

text \<open>
  The options are fields of the reader; \<open>rng\<close> is what the entropy source still has to give, the
  numbers \<open>offset\<close> and \<open>size\<close> are \<open>int64\<close> far from their limits.
\<close>

record reader =
  buf :: "8 word list"
  tmp :: "8 word list"
  subxor :: "64 word list"
  offset :: int
  bufferSeeded :: bool
  rng :: "8 word list"
  size_opt :: int
  fullReset :: bool

datatype io_error = EOF | ErrUnexpectedEOF | SeekEndless | SeekWhence | SeekNegative

text \<open>\<open>io.ReadFull(r.o.rng, b)\<close>: the bytes read into the front of b, and the error.\<close>

definition read_full :: "8 word list \<Rightarrow> 8 word list \<Rightarrow> 8 word list \<times> 8 word list \<times> io_error option" where
  "read_full source b =
     (let got = take (length b) source
      in (got @ drop (length got) b, drop (length b) source,
          if length got = length b then None else if got = [] then Some EOF else Some ErrUnexpectedEOF))"

definition init :: "reader \<Rightarrow> io_error option \<times> reader" where
  "init r =
     (let (e, r) = (if bufferSeeded r then (None, r)
                    else (let (b, rest, e) = read_full (rng r) (buf r);
                              r = r\<lparr>buf := b, rng := rest\<rparr>
                          in case e of Some err \<Rightarrow> (e, r) | None \<Rightarrow> (None, r\<lparr>bufferSeeded := \<not> fullReset r\<rparr>)))
      in case e of
           Some err \<Rightarrow> (e, r)
         | None \<Rightarrow>
             (let (t, rest, e) = read_full (rng r) (tmp r);
                  r = r\<lparr>tmp := t, rng := rest\<rparr>
              in case e of
                   Some err \<Rightarrow> (e, r)
                 | None \<Rightarrow> (None, r\<lparr>subxor := [load64 t 0, load64 t 8, load64 t 16, load64 t 24], offset := 0\<rparr>)))"

text \<open>
  \<open>NewReader\<close>: the options, none of which fails, change the default ones (no size, no full reset, and
  entropy from a generator seeded with the time, here the argument).
\<close>

definition WithRNG :: "8 word list \<Rightarrow> reader \<Rightarrow> reader" where
  "WithRNG source r = r\<lparr>rng := source\<rparr>"

definition WithSize :: "int \<Rightarrow> reader \<Rightarrow> reader" where
  "WithSize sz r = r\<lparr>size_opt := sz\<rparr>"

definition WithFullReset :: "bool \<Rightarrow> reader \<Rightarrow> reader" where
  "WithFullReset b r = r\<lparr>fullReset := b\<rparr>"

definition NewReader :: "8 word list \<Rightarrow> (reader \<Rightarrow> reader) list \<Rightarrow> io_error option \<times> reader" where
  "NewReader clock_seeded opts =
     init (foldl (\<lambda>r opt. opt r)
       \<lparr>buf = replicate 16384 0, tmp = replicate 32 0, subxor = replicate 4 0, offset = 0, bufferSeeded = False,
        rng = clock_seeded, size_opt = -1, fullReset = False\<rparr> opts)"

definition Reset :: "reader \<Rightarrow> io_error option \<times> reader" where
  "Reset r = init r"

definition ResetSize :: "reader \<Rightarrow> int \<Rightarrow> io_error option \<times> reader" where
  "ResetSize r sz = init (r\<lparr>size_opt := sz\<rparr>)"

definition scrambleU64 :: "64 word \<Rightarrow> 64 word" where
  "scrambleU64 v =
     (let h64 = v XOR (0x1cad21f72c81017c XOR 0xdb979083e96dd4de);
          h64 = word_rotl 49 h64 XOR word_rotl 24 h64;
          h64 = h64 * 0x9fb21c651e98df25;
          h64 = h64 XOR (drop_bit 35 h64 + 8);
          h64 = h64 * 0x9fb21c651e98df25
      in h64 XOR drop_bit 28 h64)"

definition block_keys :: "reader \<Rightarrow> int \<Rightarrow> 64 word list" where
  "block_keys r off =
     (let blockN = word_of_int (off div bufferSize);
          scrambleBase = scrambleU64 blockN
      in map (\<lambda>i. scrambleBase XOR subxor r ! i XOR blockN * 11400714785074694791) [0..<4])"

text \<open>
  One iteration of the loops of \<open>Read\<close> and \<open>ReadAt\<close> at an offset, with the rest of the slice p: the bytes written
  to its front, the scratch bytes \<open>r.tmp\<close>, and whether the copy was aligned. The inner
  \<^term>\<open>None\<close> is a panic.
\<close>

definition read_block :: "reader \<Rightarrow> int \<Rightarrow> 8 word list \<Rightarrow> (8 word list \<times> 8 word list \<times> bool) may_panic" where
  "read_block r off p =
     (let keys = block_keys r off
      in if off mod 32 \<noteq> 0 \<or> length p < 32 then
           (let startAligned = nat (off mod bufferSize div 32 * 32)
            in case xor_indexed (drop startAligned (buf r)) (tmp r) keys 0 of
                 None \<Rightarrow> None
               | Some t \<Rightarrow>
                   (let startCopy = nat (off mod 32);
                        copied = take (length p) (drop startCopy t)
                    in if copied = [] then None else Some (copied, t, False)))
         else
           (let input = drop (nat (off mod bufferSize)) (buf r);
                lenAligned = min (length p div 32 * 32) (length input)
            in map_option (\<lambda>out. (out, tmp r, True)) (xor_indexed input (take lenAligned p) keys 0)))"

text \<open>The loops; the outer \<^term>\<open>None\<close> is a loop that does not end.\<close>

partial_function (option) read_loop ::
  "bool \<Rightarrow> reader \<Rightarrow> 8 word list \<Rightarrow> 8 word list \<Rightarrow> (8 word list \<times> reader) may_panic option" where
  "read_loop isEOF r p out =
     (if p = [] then Some (Some (out, r))
      else (case read_block r (offset r) p of
              None \<Rightarrow> Some None
            | Some (piece, t, aligned) \<Rightarrow>
                (let r = r\<lparr>tmp := t, offset := offset r + int (length piece)\<rparr>;
                     p = drop (length piece) p; out = out @ piece
                 in if aligned \<and> length p < 32 \<and> length out > 0 \<and> \<not> isEOF then Some (Some (out, r))
                    else read_loop isEOF r p out)))"

partial_function (option) read_at_loop ::
  "reader \<Rightarrow> int \<Rightarrow> 8 word list \<Rightarrow> 8 word list \<Rightarrow> (8 word list \<times> reader) may_panic option" where
  "read_at_loop r off p out =
     (if p = [] then Some (Some (out, r))
      else (case read_block r off p of
              None \<Rightarrow> Some None
            | Some (piece, t, aligned) \<Rightarrow>
                read_at_loop (r\<lparr>tmp := t\<rparr>) (off + int (length piece)) (drop (length piece) p) (out @ piece)))"

text \<open>
  \<open>Read\<close> and \<open>ReadAt\<close>: the bytes written to the front of p (their number is the result n), the error and the
  reader afterwards; reslicing p to a negative length panics.
\<close>

definition cut_at_size :: "reader \<Rightarrow> int \<Rightarrow> 8 word list \<Rightarrow> (bool \<times> 8 word list) may_panic" where
  "cut_at_size r off p =
     (if size_opt r \<ge> 0 \<and> int (length p) + off \<ge> size_opt r then
        (if size_opt r - off < 0 then None else Some (True, take (nat (size_opt r - off)) p))
      else Some (False, p))"

definition Read :: "reader \<Rightarrow> 8 word list \<Rightarrow> (8 word list \<times> io_error option \<times> reader) may_panic option" where
  "Read r p =
     (case cut_at_size r (offset r) p of
        None \<Rightarrow> Some None
      | Some (isEOF, p) \<Rightarrow>
          map_option (map_option (\<lambda>(out, r). (out, if isEOF then Some EOF else None, r))) (read_loop isEOF r p []))"

definition ReadAt :: "reader \<Rightarrow> 8 word list \<Rightarrow> int \<Rightarrow> (8 word list \<times> io_error option \<times> reader) may_panic option" where
  "ReadAt r p off =
     (case cut_at_size r off p of
        None \<Rightarrow> Some None
      | Some (isEOF, p) \<Rightarrow>
          map_option (map_option (\<lambda>(out, r). (out, if isEOF then Some EOF else None, r))) (read_at_loop r off p []))"

text \<open>\<open>Seek\<close> sets the offset before it checks it.\<close>

definition Seek :: "reader \<Rightarrow> int \<Rightarrow> int \<Rightarrow> (io_error + int) \<times> reader" where
  "Seek r off whence =
     (let check = (\<lambda>r. if offset r < 0 then (Inl SeekNegative, r)
                       else if size_opt r \<ge> 0 \<and> offset r > size_opt r then (Inl ErrUnexpectedEOF, r)
                       else (Inr (offset r), r))
      in if whence = 0 then check (r\<lparr>offset := off\<rparr>)
         else if whence = 1 then check (r\<lparr>offset := offset r + off\<rparr>)
         else if whence = 2 then
           (if size_opt r < 0 then (Inl SeekEndless, r) else check (r\<lparr>offset := size_opt r + off\<rparr>))
         else (Inl SeekWhence, r))"

section \<open>The exclusive or, byte by byte\<close>

lemma bit_little_endian:
  "length bs \<le> 8 \<Longrightarrow> bit (little_endian bs) m \<longleftrightarrow> m < 8 * length bs \<and> bit (bs ! (m div 8)) (m mod 8)"
proof (induction bs arbitrary: m)
  case (Cons b bs)
  have IH: "bit (little_endian bs) k \<longleftrightarrow> k < 8 * length bs \<and> bit (bs ! (k div 8)) (k mod 8)" for k
    using Cons by simp
  show ?case
  proof (cases "m < 8")
    case True
    then show ?thesis by (auto simp: bit_simps)
  next
    case False
    have "\<not> bit b m" using False bit_imp_le_length [of b m] by auto
    moreover have "m < 64" if "m - 8 < 8 * length bs" using that Cons.prems by simp
    moreover have "m div 8 = Suc ((m - 8) div 8)" "m mod 8 = (m - 8) mod 8"
      using False by (simp_all add: le_div_geq le_mod_geq)
    ultimately show ?thesis using False by (auto simp: bit_simps IH)
  qed
qed simp

lemma nth_bytes_of: "k < 8 \<Longrightarrow> bytes_of v ! k = ucast (drop_bit (8 * k) v)"
  by (simp add: bytes_of_def)

lemma bytes_of_xor: "k < 8 \<Longrightarrow> bytes_of (v XOR w) ! k = bytes_of v ! k XOR bytes_of w ! k"
  by (simp add: nth_bytes_of bit_eq_iff bit_simps)

lemma bytes_of_little_endian: "length bs = 8 \<Longrightarrow> k < 8 \<Longrightarrow> bytes_of (little_endian bs) ! k = bs ! k"
proof (rule bit_word_eqI)
  fix n assume h: "length bs = 8" "k < 8" "n < LENGTH(8)"
  then have "n < 8" by simp
  then have "(8 * k + n) div 8 = k" "(8 * k + n) mod 8 = n" "8 * k + n < 64" using h(2) by simp_all
  then show "bit (bytes_of (little_endian bs) ! k) n = bit (bs ! k) n"
    using h \<open>n < 8\<close> by (simp add: nth_bytes_of bit_simps bit_little_endian)
qed

definition key_byte :: "64 word list \<Rightarrow> nat \<Rightarrow> 8 word" where
  "key_byte v j = bytes_of (v ! (j div 8)) ! (j mod 8)"

lemma store_xor_nth:
  assumes "i + 8 \<le> length out" "i + 8 \<le> length inp" "k < length out"
  shows "store64 out i (v XOR load64 inp i) ! k = (if i \<le> k \<and> k < i + 8 then inp ! k XOR bytes_of v ! (k - i) else out ! k)"
proof -
  have "bytes_of (v XOR load64 inp i) ! (k - i) = inp ! k XOR bytes_of v ! (k - i)" if "i \<le> k" "k < i + 8"
  proof -
    have "k - i < 8" using that by simp
    then have "bytes_of (v XOR load64 inp i) ! (k - i) = bytes_of v ! (k - i) XOR inp ! k"
      using assms that by (simp add: bytes_of_xor load64_def bytes_of_little_endian)
    then show ?thesis by (simp only: xor.commute)
  qed
  then show ?thesis using assms by (auto simp: store64_def nth_append)
qed

text \<open>The four stores of one iteration of either loop.\<close>

lemma four_stores:
  assumes "i + 32 \<le> length out" "i + 32 \<le> length inp"
    and o1: "o1 = store64 out i (v ! 0 XOR load64 inp i)"
    and o2: "o2 = store64 o1 (i + 8) (v ! 1 XOR load64 inp (i + 8))"
    and o3: "o3 = store64 o2 (i + 16) (v ! 2 XOR load64 inp (i + 16))"
    and o4: "o4 = store64 o3 (i + 24) (v ! 3 XOR load64 inp (i + 24))"
  shows "length o4 = length out"
    "k < length out \<Longrightarrow> o4 ! k = (if i \<le> k \<and> k < i + 32 then inp ! k XOR key_byte v (k - i) else out ! k)"
proof -
  have len: "length o1 = length out" "length o2 = length out" "length o3 = length out"
    using assms(1) by (simp_all add: o1 o2 o3)
  then show "length o4 = length out" using assms(1) by (simp add: o4)
  assume k: "k < length out"
  have v: "o4 ! k = (if i + 24 \<le> k \<and> k < i + 32 then inp ! k XOR bytes_of (v ! 3) ! (k - (i + 24))
    else if i + 16 \<le> k \<and> k < i + 24 then inp ! k XOR bytes_of (v ! 2) ! (k - (i + 16))
    else if i + 8 \<le> k \<and> k < i + 16 then inp ! k XOR bytes_of (v ! 1) ! (k - (i + 8))
    else if i \<le> k \<and> k < i + 8 then inp ! k XOR bytes_of (v ! 0) ! (k - i) else out ! k)"
    unfolding o4 o3 o2 o1 using assms(1,2) k by (simp add: store_xor_nth)
  show "o4 ! k = (if i \<le> k \<and> k < i + 32 then inp ! k XOR key_byte v (k - i) else out ! k)"
  proof (cases "i \<le> k \<and> k < i + 32")
    case True
    define j where "j = k - i"
    have j: "k = i + j" "j < 32" using True unfolding j_def by linarith+
    consider "j < 8" | "8 \<le> j" "j < 16" | "16 \<le> j" "j < 24" | "24 \<le> j" using j(2) by linarith
    then show ?thesis
    proof cases
      case 1 then show ?thesis using v j by (simp add: key_byte_def)
    next
      case 2 then have "j div 8 = 1" "j mod 8 = j - 8" by (simp_all add: div_nat_eqI le_mod_geq)
      then show ?thesis using v j 2 by (simp add: key_byte_def)
    next
      case 3 then have "j div 8 = 2" "j mod 8 = j - 16" by (simp_all add: div_nat_eqI le_mod_geq)
      then show ?thesis using v j 3 by (simp add: key_byte_def)
    next
      case 4 then have "j div 8 = 3" "j mod 8 = j - 24" using j(2) by (simp_all add: div_nat_eqI le_mod_geq)
      then show ?thesis using v j 4 by (simp add: key_byte_def)
    qed
  next
    case False
    then show ?thesis using v by auto
  qed
qed

lemma xor_indexed_spec:
  assumes "i mod 32 = 0" "length out mod 32 = 0" "i \<le> length out" "length out \<le> length inp"
  shows "\<exists>res. xor_indexed inp out v i = Some res \<and> length res = length out \<and>
    (\<forall>k<length out. res ! k = (if k < i then out ! k else inp ! k XOR key_byte v (k mod 32)))"
  using assms
proof (induction inp out v i rule: xor_indexed.induct)
  case (1 inp out v i)
  show ?case
  proof (cases "length out < i + 32")
    case True
    then have "i = length out" using 1(2-4) by presburger
    then show ?thesis by (subst xor_indexed.simps) simp
  next
    case False
    then have room: "\<not> length inp < i + 32" using 1(5) by simp
    define o1 where "o1 = store64 out i (v ! 0 XOR load64 inp i)"
    define o2 where "o2 = store64 o1 (i + 8) (v ! 1 XOR load64 inp (i + 8))"
    define o3 where "o3 = store64 o2 (i + 16) (v ! 2 XOR load64 inp (i + 16))"
    define o4 where "o4 = store64 o3 (i + 24) (v ! 3 XOR load64 inp (i + 24))"
    have "i + 32 \<le> length out" "i + 32 \<le> length inp" using False room by simp_all
    note four = four_stores [OF this o1_def o2_def o3_def o4_def]
    have key: "k mod 32 = k - i" if "i \<le> k" "k < i + 32" for k
    proof -
      obtain q where q: "i = 32 * q" using 1(2) by auto
      obtain j where "k = i + j" using \<open>i \<le> k\<close> le_Suc_ex by blast
      then show ?thesis using q that(2) by simp
    qed
    have "\<exists>res. xor_indexed inp o4 v (i + 32) = Some res \<and> length res = length o4 \<and>
        (\<forall>k<length o4. res ! k = (if k < i + 32 then o4 ! k else inp ! k XOR key_byte v (k mod 32)))"
      unfolding o4_def o3_def o2_def o1_def
      by (rule 1(1) [OF False room refl refl refl refl])
        (use 1(2-5) False in \<open>simp_all add: mod_add_left_eq [symmetric]\<close>)
    moreover have "xor_indexed inp out v i = xor_indexed inp o4 v (i + 32)"
      using False room by (subst xor_indexed.simps) (simp add: o4_def o3_def o2_def o1_def Let_def)
    ultimately show ?thesis using four key by auto
  qed
qed

lemma load64_take: "i + 8 \<le> n \<Longrightarrow> load64 (take n b) i = load64 b i"
  by (simp add: load64_def drop_take min_absorb1)

lemma xor_slices_spec:
  assumes "length out mod 32 = 0" "length out \<le> length inp"
  shows "\<exists>res. xor_slices inp out v = Some res \<and> length res = length out \<and>
    (\<forall>k<length out. res ! k = inp ! k XOR key_byte v (k mod 32))"
  using assms
proof (induction out arbitrary: inp rule: length_induct)
  case (1 out)
  show ?case
  proof (cases "length out < 32")
    case True
    then have "out = []" using 1(2) by simp
    then show ?thesis by (subst xor_slices.simps) simp
  next
    case False
    then have room: "\<not> length inp < 32" using 1(3) by simp
    define o1 where "o1 = store64 out 0 (v ! 0 XOR load64 inp 0)"
    define o2 where "o2 = store64 o1 (0 + 8) (v ! 1 XOR load64 inp (0 + 8))"
    define o3 where "o3 = store64 o2 (0 + 16) (v ! 2 XOR load64 inp (0 + 16))"
    define o4 where "o4 = store64 o3 (0 + 24) (v ! 3 XOR load64 inp (0 + 24))"
    have "0 + 32 \<le> length out" "0 + 32 \<le> length inp" using False room by simp_all
    note stores = four_stores [OF this o1_def o2_def o3_def o4_def]
    have four: "length o4 = length out" "k < length out \<Longrightarrow> o4 ! k = (if k < 32 then inp ! k XOR key_byte v k else out ! k)" for k
      using stores by simp_all
    have IH: "\<exists>res. xor_slices (drop 32 inp) (drop 32 o4) v = Some res \<and> length res = length (drop 32 o4) \<and>
        (\<forall>k<length (drop 32 o4). res ! k = drop 32 inp ! k XOR key_byte v (k mod 32))"
    proof -
      have l: "length (drop 32 o4) < length out" "length (drop 32 o4) mod 32 = 0" "length (drop 32 o4) \<le> length (drop 32 inp)"
        using four(1) 1(2,3) False by (simp_all add: le_mod_geq)
      show ?thesis by (rule 1(1) [rule_format, OF l])
    qed
    then obtain res where res: "xor_slices (drop 32 inp) (drop 32 o4) v = Some res" "length res = length out - 32"
      "\<forall>k<length out - 32. res ! k = inp ! (k + 32) XOR key_byte v (k mod 32)"
      using four(1) room by (auto simp: add.commute)
    have all: "(take 32 o4 @ res) ! k = inp ! k XOR key_byte v (k mod 32)" if "k < length out" for k
    proof (cases "k < 32")
      case True
      then show ?thesis using four that by (simp add: nth_append)
    next
      case False
      then have "k - 32 < length out - 32" "k mod 32 = (k - 32) mod 32" using that by (simp_all add: le_mod_geq)
      then show ?thesis using res(3) four(1) False that by (auto simp: nth_append min_def)
    qed
    have "xor_slices inp out v = map_option (\<lambda>rest. take 32 o4 @ rest) (xor_slices (drop 32 inp) (drop 32 o4) v)"
      using False room
      by (subst xor_slices.simps) (simp only: Let_def if_False load64_take o1_def o2_def o3_def o4_def, simp add: load64_take)
    moreover have "length (take 32 o4 @ res) = length out" using four(1) res(2) False by simp
    ultimately show ?thesis using res(1) all by simp
  qed
qed

lemma xor_versions_agree:
  assumes "length out mod 32 = 0" "length out \<le> length inp"
  shows "xor_indexed inp out v 0 = xor_slices inp out v"
proof -
  obtain a where a: "xor_indexed inp out v 0 = Some a" "length a = length out"
    "\<forall>k<length out. a ! k = inp ! k XOR key_byte v (k mod 32)"
    using xor_indexed_spec [of 0 out inp v] assms by auto
  obtain b where b: "xor_slices inp out v = Some b" "length b = length out"
    "\<forall>k<length out. b ! k = inp ! k XOR key_byte v (k mod 32)"
    using xor_slices_spec [OF assms] by blast
  have "a = b" using a b by (intro nth_equalityI) auto
  then show ?thesis using a b by simp
qed

section \<open>The stream\<close>

text \<open>The byte of the stream at a position, and readers whose arrays have the lengths Go's types give them.\<close>

definition stream :: "reader \<Rightarrow> int \<Rightarrow> 8 word" where
  "stream r i = buf r ! nat (i mod bufferSize) XOR key_byte (block_keys r i) (nat (i mod 32))"

definition reader_ok :: "reader \<Rightarrow> bool" where
  "reader_ok r \<longleftrightarrow> length (buf r) = 16384 \<and> length (tmp r) = 32 \<and> length (subxor r) = 4"

definition stream_from :: "reader \<Rightarrow> int \<Rightarrow> nat \<Rightarrow> 8 word list" where
  "stream_from r off n = map (\<lambda>k. stream r (off + int k)) [0..<n]"

lemma length_stream_from [simp]: "length (stream_from r off n) = n"
  by (simp add: stream_from_def)

lemma stream_from_nonempty: "0 < n \<Longrightarrow> stream_from r off n \<noteq> []"
  by (simp add: stream_from_def)

lemma stream_from_nth [simp]: "k < n \<Longrightarrow> stream_from r off n ! k = stream r (off + int k)"
  by (simp add: stream_from_def)

lemma stream_from_append: "stream_from r off m @ stream_from r (off + int m) n = stream_from r off (m + n)"
  by (rule nth_equalityI) (auto simp: nth_append)

text \<open>The stream is fixed by the buffer and the keys.\<close>

lemma stream_unchanged [simp]: "stream (r\<lparr>tmp := t\<rparr>) = stream r" "stream (r\<lparr>offset := i\<rparr>) = stream r"
  by (auto simp: stream_def block_keys_def Let_def)

lemma stream_from_unchanged [simp]:
  "stream_from (r\<lparr>tmp := t\<rparr>) = stream_from r" "stream_from (r\<lparr>offset := i\<rparr>) = stream_from r"
  by (auto simp: stream_from_def fun_eq_iff)

lemma reader_ok_updates [simp]:
  "reader_ok (r\<lparr>offset := i\<rparr>) = reader_ok r" "reader_ok r \<Longrightarrow> length t = 32 \<Longrightarrow> reader_ok (r\<lparr>tmp := t\<rparr>)"
  by (auto simp: reader_ok_def)

lemma block_keys_same: "x div bufferSize = y div bufferSize \<Longrightarrow> block_keys r x = block_keys r y"
  by (simp add: block_keys_def Let_def)

lemma same_block:
  assumes "off mod 16384 + int k < 16384"
  shows "(off + int k) div 16384 = off div 16384" "(off + int k) mod 16384 = off mod 16384 + int k"
proof -
  have "off + int k = 16384 * (off div 16384) + (off mod 16384 + int k)" by simp
  moreover have "0 \<le> off mod 16384 + int k" by simp
  ultimately show "(off + int k) div 16384 = off div 16384" "(off + int k) mod 16384 = off mod 16384 + int k"
    using assms by (rule int_div_pos_eq, rule int_mod_pos_eq)
qed

lemma aligned_start:
  fixes off :: int
  shows "int (nat (off mod 16384 div 32 * 32)) + int (nat (off mod 32)) = off mod 16384" "nat (off mod 32) < 32"
    "nat (off mod 16384 div 32 * 32) + 32 \<le> 16384"
proof -
  have a: "0 \<le> off mod 16384 div 32 * 32" "0 \<le> off mod 32" "off mod 32 < 32" by simp_all
  have "off mod 16384 mod 32 = off mod 32" by (rule mod_mod_cancel) simp
  then have b: "off mod 16384 div 32 * 32 + off mod 32 = off mod 16384" by (metis div_mult_mod_eq)
  moreover have "off mod 16384 < 16384" by simp
  ultimately have "off mod 16384 div 32 < 512" using a(2) by linarith
  then have c: "off mod 16384 div 32 * 32 + 32 \<le> 16384" by linarith
  show "int (nat (off mod 16384 div 32 * 32)) + int (nat (off mod 32)) = off mod 16384" using a b by simp
  show "nat (off mod 32) < 32" using a by linarith
  show "nat (off mod 16384 div 32 * 32) + 32 \<le> 16384" using a(1) c by linarith
qed

lemma aligned_length:
  fixes a :: nat
  assumes "a < 16384" "a mod 32 = 0" "32 \<le> l" "m = 16384 - a"
  shows "min (l div 32 * 32) m mod 32 = 0" "0 < min (l div 32 * 32) m" "min (l div 32 * 32) m \<le> l"
    "a + min (l div 32 * 32) m \<le> 16384"
proof -
  have "32 dvd a" using assms(2) by presburger
  then have "32 dvd m" unfolding assms(4) by (intro dvd_diff_nat) simp_all
  then show "min (l div 32 * 32) m mod 32 = 0" by (simp add: min_def)
  have "0 < l div 32" using assms(3) by (simp add: div_greater_zero_iff)
  then show "0 < min (l div 32 * 32) m" using assms(1,4) by simp
  have "l div 32 * 32 \<le> l" by simp
  then show "min (l div 32 * 32) m \<le> l" by linarith
  show "a + min (l div 32 * 32) m \<le> 16384" using assms(1,4) by linarith
qed

lemma read_block_stream:
  assumes "reader_ok r" "p \<noteq> []"
  shows "\<exists>n t b. read_block r off p = Some (stream_from r off n, t, b) \<and> length t = 32 \<and> 0 < n \<and> n \<le> length p \<and>
    (b \<longrightarrow> off mod 32 = 0 \<and> n mod 32 = 0)"
proof (cases "off mod 32 \<noteq> 0 \<or> length p < 32")
  case True
  define a where "a = nat (off mod 16384 div 32 * 32)"
  define c where "c = nat (off mod 32)"
  note ac = aligned_start [of off, folded a_def c_def]
  obtain t where t: "xor_indexed (drop a (buf r)) (tmp r) (block_keys r off) 0 = Some t" "length t = 32"
    "\<forall>k<32. t ! k = drop a (buf r) ! k XOR key_byte (block_keys r off) (k mod 32)"
  proof -
    have "length (tmp r) = 32" "32 \<le> length (drop a (buf r))" using assms(1) ac(3) by (simp_all add: reader_ok_def)
    then show ?thesis using xor_indexed_spec [of 0 "tmp r" "drop a (buf r)" "block_keys r off"] that by auto
  qed
  define n where "n = min (length p) (32 - c)"
  have "take (length p) (drop c t) = stream_from r off n"
  proof (rule nth_equalityI)
    show "length (take (length p) (drop c t)) = length (stream_from r off n)"
      using t(2) by (simp add: n_def min.commute)
    fix k assume k: "k < length (take (length p) (drop c t))"
    then have kc: "c + k < 32" "k < length p" using t(2) by auto
    have in_block: "off mod 16384 + int k < 16384" using ac kc(1) by linarith
    have pos: "nat ((off + int k) mod 16384) = a + (c + k)" using same_block(2) [OF in_block] ac(1) by linarith
    have "int c = off mod 32" unfolding c_def by simp
    then have "off + int k = 32 * (off div 32) + (int c + int k)" by simp
    then have "(off + int k) mod 32 = int c + int k"
      using kc(1) by (intro int_mod_pos_eq [of _ _ "off div 32"]) simp_all
    then have low: "nat ((off + int k) mod 32) = c + k" by linarith
    have "take (length p) (drop c t) ! k = t ! (c + k)" using kc t(2) ac(2) by simp
    also have "\<dots> = stream r (off + int k)"
      using t(3) kc(1) ac(3) assms(1) pos low block_keys_same [of "off + int k" off r] same_block(1) [OF in_block]
      by (simp add: stream_def bufferSize_def reader_ok_def)
    finally show "take (length p) (drop c t) ! k = stream_from r off n ! k"
      using kc by (simp add: n_def)
  qed
  moreover have "0 < n" "n \<le> length p" using assms(2) ac(2) by (simp_all add: n_def)
  moreover have "stream_from r off n \<noteq> []" using calculation(2) by (rule stream_from_nonempty)
  ultimately show ?thesis
    using True t(1,2) by (auto simp: read_block_def Let_def bufferSize_def a_def c_def)
next
  case False
  define a where "a = nat (off mod 16384)"
  define n where "n = min (length p div 32 * 32) (length (drop a (buf r)))"
  have o: "off mod 32 = 0" using False by simp
  have "off mod 16384 mod 32 = off mod 32" by (rule mod_mod_cancel) simp
  moreover have ia: "int a = off mod 16384" "a < 16384" unfolding a_def by (simp, linarith)
  ultimately have "int (a mod 32) = 0" using o by (simp add: zmod_int)
  then have a: "int a = off mod 16384" "a < 16384" "off mod 32 = 0" "a mod 32 = 0" using ia o by simp_all
  have "32 \<le> length p" "length (drop a (buf r)) = 16384 - a" using False assms(1) by (simp_all add: reader_ok_def)
  note n = aligned_length [OF a(2,4) this, folded n_def]
  obtain res where res: "xor_indexed (drop a (buf r)) (take n p) (block_keys r off) 0 = Some res" "length res = n"
    "\<forall>k<n. res ! k = drop a (buf r) ! k XOR key_byte (block_keys r off) (k mod 32)"
    using xor_indexed_spec [of 0 "take n p" "drop a (buf r)" "block_keys r off"] n by (auto simp: n_def)
  have "res = stream_from r off n"
  proof (rule nth_equalityI)
    show "length res = length (stream_from r off n)" using res(2) by (simp add: stream_from_def)
    fix k assume k: "k < length res"
    have in_block: "off mod 16384 + int k < 16384" using a(1) n(4) k res(2) by linarith
    have pos: "nat ((off + int k) mod 16384) = a + k" using same_block(2) [OF in_block] a(1) by linarith
    have "(off + int k) mod 32 = int k mod 32" using a(3) by (metis add_0 mod_add_left_eq)
    then have low: "nat ((off + int k) mod 32) = k mod 32" by (simp add: nat_mod_distrib)
    show "res ! k = stream_from r off n ! k"
      using res k n(4) assms(1) pos low block_keys_same [of "off + int k" off r] same_block(1) [OF in_block]
      by (simp add: stream_def bufferSize_def reader_ok_def)
  qed
  moreover have "\<not> (off mod 32 \<noteq> 0 \<or> length p < 32)" using False by simp
  then have "read_block r off p = Some (res, tmp r, True)"
    using res(1) unfolding read_block_def Let_def bufferSize_def a_def [symmetric] n_def [symmetric] by simp
  moreover have "length (tmp r) = 32" using assms(1) by (simp add: reader_ok_def)
  ultimately show ?thesis
    using n a(3) by (intro exI [of _ n] exI [of _ "tmp r"] exI [of _ True]) simp
qed

section \<open>Reading\<close>

lemma read_at_loop_stream:
  assumes "reader_ok r"
  shows "\<exists>t. length t = 32 \<and> read_at_loop r off p out = Some (Some (out @ stream_from r off (length p), r\<lparr>tmp := t\<rparr>))"
  using assms
proof (induction "length p" arbitrary: r off p out rule: less_induct)
  case less
  show ?case
  proof (cases "p = []")
    case True
    then have "read_at_loop r off p out = Some (Some (out @ stream_from r off (length p), r\<lparr>tmp := tmp r\<rparr>))"
      by (subst read_at_loop.simps) (simp add: stream_from_def)
    then show ?thesis using less.prems unfolding reader_ok_def by blast
  next
    case False
    obtain n t b where b: "read_block r off p = Some (stream_from r off n, t, b)" "length t = 32" "0 < n" "n \<le> length p"
      using read_block_stream [OF less.prems False] by blast
    have "length (drop n p) < length p" "reader_ok (r\<lparr>tmp := t\<rparr>)" using b less.prems by simp_all
    from less.hyps [OF this, of "off + int n" "out @ stream_from r off n"] obtain t' where t': "length t' = 32"
      "read_at_loop (r\<lparr>tmp := t\<rparr>) (off + int n) (drop n p) (out @ stream_from r off n) =
         Some (Some ((out @ stream_from r off n) @ stream_from r (off + int n) (length p - n), r\<lparr>tmp := t'\<rparr>))"
      by auto
    have "stream_from r off n @ stream_from r (off + int n) (length p - n) = stream_from r off (length p)"
      using stream_from_append [of r off n "length p - n"] b(4) by simp
    then have "read_at_loop r off p out = Some (Some (out @ stream_from r off (length p), r\<lparr>tmp := t'\<rparr>))"
      using t'(2) False b(1) by (subst read_at_loop.simps) simp
    then show ?thesis using t'(1) by blast
  qed
qed

text \<open>How many bytes one \<open>Read\<close> delivers: all, or all but an incomplete group of 32 at an aligned position.\<close>

definition read_amount :: "bool \<Rightarrow> int \<Rightarrow> nat \<Rightarrow> nat \<Rightarrow> bool" where
  "read_amount isEOF off len n \<longleftrightarrow>
     n \<le> len \<and> (0 < len \<longrightarrow> 0 < n) \<and> (n < len \<longrightarrow> \<not> isEOF \<and> len < n + 32 \<and> (off + int n) mod 32 = 0)"

lemma read_loop_stream:
  assumes "reader_ok r"
  shows "\<exists>n t. read_loop isEOF r p out =
      Some (Some (out @ stream_from r (offset r) n, r\<lparr>tmp := t, offset := offset r + int n\<rparr>)) \<and>
    length t = 32 \<and> read_amount isEOF (offset r) (length p) n"
  using assms
proof (induction "length p" arbitrary: r p out rule: less_induct)
  case less
  let ?res = "\<lambda>n t. Some (Some (out @ stream_from r (offset r) n, r\<lparr>tmp := t, offset := offset r + int n\<rparr>))"
  show ?case
  proof (cases "p = []")
    case True
    then have "read_loop isEOF r p out = ?res 0 (tmp r)" by (subst read_loop.simps) (simp add: stream_from_def)
    moreover have "length (tmp r) = 32" using less.prems by (simp add: reader_ok_def)
    ultimately show ?thesis using True unfolding read_amount_def by fastforce
  next
    case False
    obtain n t b where b: "read_block r (offset r) p = Some (stream_from r (offset r) n, t, b)" "length t = 32" "0 < n"
      "n \<le> length p" "b \<longrightarrow> offset r mod 32 = 0 \<and> n mod 32 = 0"
      using read_block_stream [OF less.prems False, of "offset r"] by (elim exE conjE)
    define r' where "r' = r\<lparr>tmp := t, offset := offset r + int n\<rparr>"
    have r': "offset r' = offset r + int n" "stream_from r' = stream_from r" "reader_ok r'"
      using less.prems b(2) by (simp_all add: r'_def)
    let ?break = "b \<and> length p - n < 32 \<and> \<not> isEOF"
    have step: "read_loop isEOF r p out = (if ?break then Some (Some (out @ stream_from r (offset r) n, r'))
        else read_loop isEOF r' (drop n p) (out @ stream_from r (offset r) n))"
      using False b(1,3) by (subst read_loop.simps) (simp add: r'_def Let_def stream_from_nonempty)
    show ?thesis
    proof (cases ?break)
      case True
      have "read_loop isEOF r p out = ?res n t" unfolding step using True by (simp add: r'_def)
      moreover have "(offset r + int n) mod 32 = 0" using True b(5) by presburger
      then have "read_amount isEOF (offset r) (length p) n" using True b(3,4) by (auto simp: read_amount_def)
      ultimately show ?thesis using b(2) by blast
    next
      case cont: False
      have "length (drop n p) < length p" using b(3,4) by simp
      from less.hyps [OF this r'(3), of "out @ stream_from r (offset r) n"] obtain n' t' where n':
        "read_loop isEOF r' (drop n p) (out @ stream_from r (offset r) n) =
           Some (Some ((out @ stream_from r (offset r) n) @ stream_from r (offset r + int n) n',
             r'\<lparr>tmp := t', offset := offset r + int n + int n'\<rparr>))" "length t' = 32"
        "read_amount isEOF (offset r + int n) (length p - n) n'"
        using r'(1,2) by auto
      have "read_loop isEOF r p out = ?res (n + n') t'"
        unfolding step if_not_P [OF cont] using n'(1) stream_from_append [of r "offset r" n n'] by (simp add: r'_def add.assoc)
      moreover have "read_amount isEOF (offset r) (length p) (n + n')"
        using n'(3) b(3,4) by (auto simp: read_amount_def add.assoc)
      ultimately show ?thesis using n'(2) by blast
    qed
  qed
qed

definition reads_to_end :: "reader \<Rightarrow> int \<Rightarrow> nat \<Rightarrow> bool" where
  "reads_to_end r off len \<longleftrightarrow> 0 \<le> size_opt r \<and> size_opt r \<le> off + int len"

definition available :: "reader \<Rightarrow> int \<Rightarrow> nat \<Rightarrow> nat" where
  "available r off len = (if reads_to_end r off len then nat (size_opt r - off) else len)"

lemma cut_at_size_inside:
  assumes "size_opt r < 0 \<or> off \<le> size_opt r"
  shows "\<exists>q. cut_at_size r off p = Some (reads_to_end r off (length p), q) \<and> length q = available r off (length p)"
  using assms by (auto simp: cut_at_size_def reads_to_end_def available_def add.commute)

text \<open>C39: Inside the stream, \<open>Read\<close> always returns. It delivers the bytes of the stream from the
  offset on and moves the offset behind them; it makes progress whenever bytes are left, stops short only at
  a multiple of 32, and reports the end exactly when the buffer reaches it, with all the bytes that are left. The
  stream itself does not change.\<close>

theorem Read_delivers_stream:
  assumes "reader_ok r" and "size_opt r < 0 \<or> offset r \<le> size_opt r"
  shows "\<exists>n r'. Read r p = Some (Some (stream_from r (offset r) n,
        if reads_to_end r (offset r) (length p) then Some EOF else None, r')) \<and>
    reader_ok r' \<and> stream r' = stream r \<and> size_opt r' = size_opt r \<and> offset r' = offset r + int n \<and>
    read_amount (reads_to_end r (offset r) (length p)) (offset r) (available r (offset r) (length p)) n"
proof -
  obtain q where q: "cut_at_size r (offset r) p = Some (reads_to_end r (offset r) (length p), q)"
    "length q = available r (offset r) (length p)"
    using cut_at_size_inside [OF assms(2)] by blast
  obtain n t where n: "read_loop (reads_to_end r (offset r) (length p)) r q [] =
      Some (Some ([] @ stream_from r (offset r) n, r\<lparr>tmp := t, offset := offset r + int n\<rparr>))" "length t = 32"
    "read_amount (reads_to_end r (offset r) (length p)) (offset r) (length q) n"
    using read_loop_stream [OF assms(1)] by blast
  show ?thesis
    by (rule exI [of _ n], rule exI [of _ "r\<lparr>tmp := t, offset := offset r + int n\<rparr>"])
      (use n q assms(1) in \<open>simp add: Read_def\<close>)
qed

theorem Read_delivers_stream_witness:
  "\<exists>n r'. Read \<lparr>buf = replicate 16384 7, tmp = replicate 32 0, subxor = [1, 2, 3, 4], offset = 5,
        bufferSeeded = True, rng = [], size_opt = 50, fullReset = False\<rparr> (replicate 100 0) =
      Some (Some (stream_from \<lparr>buf = replicate 16384 7, tmp = replicate 32 0, subxor = [1, 2, 3, 4], offset = 5,
        bufferSeeded = True, rng = [], size_opt = 50, fullReset = False\<rparr> 5 n, Some EOF, r')) \<and> n = 45 \<and> offset r' = 50"
  (is "\<exists>n r'. Read ?r ?p = _ \<and> _")
proof -
  have "reader_ok ?r" "size_opt ?r < 0 \<or> offset ?r \<le> size_opt ?r" by (simp_all add: reader_ok_def)
  from Read_delivers_stream [OF this, of ?p] show ?thesis
    by (auto simp: read_amount_def reads_to_end_def available_def)
qed

text \<open>\<open>ReadAt\<close> delivers the bytes at the position, all of them, and leaves the offset alone.\<close>

lemma ReadAt_delivers_stream:
  assumes "reader_ok r" and "size_opt r < 0 \<or> off \<le> size_opt r"
  shows "\<exists>t. length t = 32 \<and> ReadAt r p off = Some (Some (stream_from r off (available r off (length p)),
        if reads_to_end r off (length p) then Some EOF else None, r\<lparr>tmp := t\<rparr>))"
proof -
  obtain q where q: "cut_at_size r off p = Some (reads_to_end r off (length p), q)" "length q = available r off (length p)"
    using cut_at_size_inside [OF assms(2)] by blast
  show ?thesis using read_at_loop_stream [OF assms(1), of off q "[]"] q by (auto simp: ReadAt_def)
qed

text \<open>A seek beyond the end reports an error but keeps the position, and the next \<open>Read\<close> panics.\<close>

lemma seek_past_end_then_read_panics:
  assumes "0 \<le> size_opt r" "size_opt r < off"
  shows "Seek r off 0 = (Inl ErrUnexpectedEOF, r\<lparr>offset := off\<rparr>)" "Read (r\<lparr>offset := off\<rparr>) p = Some None"
  using assms by (simp_all add: Seek_def Read_def cut_at_size_def)

lemma Seek_inside:
  assumes "fst (Seek r off whence) = Inr i"
  shows "snd (Seek r off whence) = r\<lparr>offset := i\<rparr>" "0 \<le> i" "size_opt r < 0 \<or> i \<le> size_opt r"
  using assms by (auto simp: Seek_def Let_def split: if_splits)

text \<open>A reader that starts without an error has arrays of the right length.\<close>

lemma length_read_full: "length (fst (read_full src b)) = length b"
  by (auto simp: read_full_def Let_def)

lemma init_ok:
  assumes "init r = (None, r')" "length (buf r) = 16384" "length (tmp r) = 32"
  shows "reader_ok r' \<and> offset r' = 0 \<and> size_opt r' = size_opt r"
  using assms length_read_full [of "rng r" "buf r"] length_read_full [of _ "tmp r"]
  by (auto simp: init_def reader_ok_def Let_def split: prod.splits option.splits if_splits)
     (metis fst_conv)+

lemma NewReader_ok:
  assumes "set opts \<subseteq> range WithRNG \<union> range WithSize \<union> range WithFullReset" "NewReader source opts = (None, r)"
  shows "reader_ok r \<and> offset r = 0"
proof -
  have "length (buf (foldl (\<lambda>r opt. opt r) r0 opts)) = length (buf r0) \<and>
      length (tmp (foldl (\<lambda>r opt. opt r) r0 opts)) = length (tmp r0)" for r0
    using assms(1) by (induction opts arbitrary: r0) (auto simp: WithRNG_def WithSize_def WithFullReset_def)
  then show ?thesis using init_ok [OF assms(2) [unfolded NewReader_def]] by simp
qed

end
