(* ===== verification/Ilm.thy ===== *)
theory Ilm
  imports GoTimeFacts
begin

text \<open>
  Lifecycle rules (\<open>ilm/ilm.go\<close>, \<open>ilm/parse.go\<close>): making a rule from options, its validation, and editing
  an existing rule. The structs of the lifecycle package of minio-go are records with the fields the code
  uses; its tests for unset fields are the record \<open>lifecycle_lib\<close>.
\<close>

section \<open>Rules and options\<close>

record ilm_tag =
  tag_Key :: string
  tag_Value :: string

record filter_and =
  and_Tags :: "ilm_tag list"
  and_Prefix :: string
  and_SizeLessThan :: int
  and_SizeGreaterThan :: int

record rule_filter =
  fi_And :: filter_and
  fi_Prefix :: string
  fi_Tag :: ilm_tag
  fi_SizeLessThan :: int
  fi_SizeGreaterThan :: int

record expiration =
  exp_Date :: go_time
  exp_Days :: int
  exp_DeleteMarker :: bool

record transition =
  tr_Date :: go_time
  tr_StorageClass :: string
  tr_Days :: int

record all_versions_expiration =
  all_Days :: int
  all_DeleteMarker :: bool

record noncurrent_expiration =
  nce_Days :: int
  nce_Newer :: int

record noncurrent_transition =
  nct_Days :: int
  nct_Newer :: int
  nct_StorageClass :: string

record ilm_rule =
  rule_ID :: string
  RuleFilter :: rule_filter
  Status :: string
  Expiration :: expiration
  Transition :: transition
  AllVersionsExpiration :: all_versions_expiration
  NoncurrentVersionExpiration :: noncurrent_expiration
  NoncurrentVersionTransition :: noncurrent_transition

text \<open>Pointers are options.\<close>

record LifecycleOptions =
  opt_ID :: string
  opt_Status :: "bool option"
  opt_Prefix :: "string option"
  opt_Tags :: "string option"
  ObjectSizeLessThan :: "int option"
  ObjectSizeGreaterThan :: "int option"
  ExpiryDate :: "string option"
  ExpiryDays :: "string option"
  TransitionDate :: "string option"
  TransitionDays :: "string option"
  StorageClass :: "string option"
  ExpiredObjectDeleteMarker :: "bool option"
  NoncurrentVersionExpirationDays :: "int option"
  NewerNoncurrentExpirationVersions :: "int option"
  NoncurrentVersionTransitionDays :: "int option"
  NewerNoncurrentTransitionVersions :: "int option"
  NoncurrentVersionTransitionStorageClass :: "string option"
  PurgeAllVersionsDays :: "string option"
  PurgeAllVersionsDeleteMarker :: "bool option"

text \<open>The zero \<open>time.Time\<close>: January 1 of year 1, UTC.\<close>

definition zero_time :: go_time where
  "zero_time = \<lparr>unix_nano = -62135596800000000000, zone_offset = 0\<rparr>"

definition zero_tag :: ilm_tag where
  "zero_tag = \<lparr>tag_Key = '''', tag_Value = ''''\<rparr>"

definition zero_and :: filter_and where
  "zero_and = \<lparr>and_Tags = [], and_Prefix = '''', and_SizeLessThan = 0, and_SizeGreaterThan = 0\<rparr>"

definition zero_filter :: rule_filter where
  "zero_filter = \<lparr>fi_And = zero_and, fi_Prefix = '''', fi_Tag = zero_tag, fi_SizeLessThan = 0, fi_SizeGreaterThan = 0\<rparr>"

definition zero_expiration :: expiration where
  "zero_expiration = \<lparr>exp_Date = zero_time, exp_Days = 0, exp_DeleteMarker = False\<rparr>"

definition zero_transition :: transition where
  "zero_transition = \<lparr>tr_Date = zero_time, tr_StorageClass = '''', tr_Days = 0\<rparr>"

text \<open>What the code calls of the lifecycle package, and what its documentation says of it.\<close>

record lifecycle_lib =
  exp_IsDaysNull :: "expiration \<Rightarrow> bool"
  exp_IsDateNull :: "expiration \<Rightarrow> bool"
  exp_IsMarkerEnabled :: "expiration \<Rightarrow> bool"
  exp_IsNull :: "expiration \<Rightarrow> bool"
  tr_IsDaysNull :: "transition \<Rightarrow> bool"
  tr_IsDateNull :: "transition \<Rightarrow> bool"
  tr_IsNull :: "transition \<Rightarrow> bool"
  all_IsNull :: "all_versions_expiration \<Rightarrow> bool"
  nce_IsDaysNull :: "noncurrent_expiration \<Rightarrow> bool"

definition lifecycle_laws :: "lifecycle_lib \<Rightarrow> bool" where
  "lifecycle_laws LL \<longleftrightarrow>
     (\<forall>e. exp_IsDaysNull LL e = (exp_Days e = 0)) \<and>
     (\<forall>e. exp_IsDateNull LL e = (unix_nano (exp_Date e) = unix_nano zero_time)) \<and>
     (\<forall>e. exp_IsMarkerEnabled LL e = exp_DeleteMarker e) \<and>
     (\<forall>e. exp_IsNull LL e = (exp_IsDaysNull LL e \<and> exp_IsDateNull LL e \<and> \<not> exp_IsMarkerEnabled LL e)) \<and>
     (\<forall>t. tr_IsDaysNull LL t = (tr_Days t = 0)) \<and>
     (\<forall>t. tr_IsDateNull LL t = (unix_nano (tr_Date t) = unix_nano zero_time))"

section \<open>Parsing options\<close>

datatype ilm_error = ErrTransitionBeforeExpiration | ErrMissingStorageClass | ErrNegativeTransitionDays
  | ErrStandardIADays | ErrRuleAction | ErrOneExpiration | ErrOneTransition | ErrAllVersionsDays
  | ErrNoncurrentExpirationDays | ErrNoncurrentTransitionDays | ErrNoncurrentTransitionBoth
  | ErrExpiryDatePassed | ErrTransitionDatePassed | ErrZeroExpiryDate | ErrZeroExpiryDays
  | ErrTimeParse | ErrAtoi

text \<open>\<open>time.Parse("2006-01-02", _)\<close>\<close>

definition parse_date :: "string \<Rightarrow> go_time option" where
  "parse_date s = do {
     (year, s) \<leftarrow> get_year s;
     s \<leftarrow> skip_byte (CHR ''-'') s;
     (month, s) \<leftarrow> getnum True s;
     guard_m (1 \<le> month \<and> month \<le> 12);
     s \<leftarrow> skip_byte (CHR ''-'') s;
     (day, s) \<leftarrow> getnum True s;
     guard_m (s = []);
     guard_m (1 \<le> day \<and> day \<le> days_in month year);
     Some \<lparr>unix_nano = unix_days year month day * 86400 * 1000000000, zone_offset = 0\<rparr>
   }"

definition extract_tag :: "string \<Rightarrow> ilm_tag" where
  "extract_tag tag =
     (case split_two tag (CHR ''='') of
        Some (k, v) \<Rightarrow> \<lparr>tag_Key = k, tag_Value = v\<rparr>
      | None \<Rightarrow> \<lparr>tag_Key = tag, tag_Value = ''''\<rparr>)"

definition extractILMTags :: "string \<Rightarrow> ilm_tag list" where
  "extractILMTags tagLabelVal = map extract_tag (filter (\<lambda>tag. tag \<noteq> '''') (split_on (CHR ''&'') tagLabelVal))"

definition parseTransitionDate :: "string \<Rightarrow> ilm_error + go_time" where
  "parseTransitionDate s = (case parse_date s of None \<Rightarrow> Inl ErrTimeParse | Some t \<Rightarrow> Inr t)"

definition parseTransitionDays :: "string \<Rightarrow> ilm_error + int" where
  "parseTransitionDays s = (case atoi s of None \<Rightarrow> Inl ErrAtoi | Some n \<Rightarrow> Inr n)"

definition parseExpiryDate :: "string \<Rightarrow> ilm_error + go_time" where
  "parseExpiryDate s =
     (case parse_date s of
        None \<Rightarrow> Inl ErrTimeParse
      | Some t \<Rightarrow> if unix_nano t = unix_nano zero_time then Inl ErrZeroExpiryDate else Inr t)"

definition parseExpiryDays :: "string \<Rightarrow> ilm_error + int" where
  "parseExpiryDays s = (case atoi s of None \<Rightarrow> Inl ErrAtoi | Some n \<Rightarrow> if n = 0 then Inl ErrZeroExpiryDays else Inr n)"

text \<open>A text that is given is parsed and stored, one that is not leaves the field alone.\<close>

definition store_parsed :: "(string \<Rightarrow> ilm_error + 'v) \<Rightarrow> ('v \<Rightarrow> 'r \<Rightarrow> 'r) \<Rightarrow> string option \<Rightarrow> 'r \<Rightarrow> ilm_error + 'r" where
  "store_parsed parse store given r =
     (case given of None \<Rightarrow> Inr r | Some s \<Rightarrow> (case parse s of Inl e \<Rightarrow> Inl e | Inr v \<Rightarrow> Inr (store v r)))"

definition if_parsed :: "ilm_error + 'r \<Rightarrow> ('r \<Rightarrow> ilm_error + 's) \<Rightarrow> ilm_error + 's" where
  "if_parsed m f = (case m of Inl e \<Rightarrow> Inl e | Inr r \<Rightarrow> f r)"

definition parseTransition :: "string option \<Rightarrow> string option \<Rightarrow> string option \<Rightarrow> ilm_error + transition" where
  "parseTransition storageClass transitionDateStr transitionDaysStr =
     if_parsed (store_parsed parseTransitionDate (\<lambda>d t. t\<lparr>tr_Date := d\<rparr>) transitionDateStr zero_transition) (\<lambda>t.
     if_parsed (store_parsed parseTransitionDays (\<lambda>d t. t\<lparr>tr_Days := d\<rparr>) transitionDaysStr t) (\<lambda>t.
     Inr (case storageClass of None \<Rightarrow> t | Some c \<Rightarrow> t\<lparr>tr_StorageClass := c\<rparr>)))"

definition parseExpiry :: "string option \<Rightarrow> string option \<Rightarrow> bool option \<Rightarrow> ilm_error + expiration" where
  "parseExpiry expiryDate expiryDays expiredDeleteMarker =
     if_parsed (store_parsed parseExpiryDate (\<lambda>d e. e\<lparr>exp_Date := d\<rparr>) expiryDate zero_expiration) (\<lambda>e.
     if_parsed (store_parsed parseExpiryDays (\<lambda>d e. e\<lparr>exp_Days := d\<rparr>) expiryDays e) (\<lambda>e.
     Inr (case expiredDeleteMarker of None \<Rightarrow> e | Some b \<Rightarrow> e\<lparr>exp_DeleteMarker := b\<rparr>)))"

definition parseAllVersionsExpiry :: "string option \<Rightarrow> bool option \<Rightarrow> ilm_error + all_versions_expiration" where
  "parseAllVersionsExpiry expiryDays deleteMarker =
     if_parsed (store_parsed parseExpiryDays (\<lambda>d a. a\<lparr>all_Days := d\<rparr>) expiryDays
       \<lparr>all_Days = 0, all_DeleteMarker = False\<rparr>) (\<lambda>a.
     Inr (case deleteMarker of None \<Rightarrow> a | Some b \<Rightarrow> a\<lparr>all_DeleteMarker := b\<rparr>))"

section \<open>Validation\<close>

definition validateTranExpDate :: "lifecycle_lib \<Rightarrow> ilm_rule \<Rightarrow> ilm_error option" where
  "validateTranExpDate LL r =
     (let expiryDateSet = (\<not> exp_IsDateNull LL (Expiration r));
          transitionSet = (\<not> tr_IsNull LL (Transition r));
          transitionDateSet = (transitionSet \<and> \<not> tr_IsDateNull LL (Transition r))
      in if transitionDateSet \<and> expiryDateSet \<and> time_before (exp_Date (Expiration r)) (tr_Date (Transition r))
         then Some ErrTransitionBeforeExpiration
         else if transitionDateSet \<and> tr_StorageClass (Transition r) = '''' then Some ErrMissingStorageClass
         else None)"

definition validateTranDays :: "ext_lib \<Rightarrow> ilm_rule \<Rightarrow> ilm_error option" where
  "validateTranDays L r =
     (if tr_Days (Transition r) < 0 then Some ErrNegativeTransitionDays
      else if tr_Days (Transition r) < 30 \<and> to_lower L (tr_StorageClass (Transition r)) = ''standard_ia''
      then Some ErrStandardIADays else None)"

definition validateRuleAction :: "lifecycle_lib \<Rightarrow> ilm_rule \<Rightarrow> ilm_error option" where
  "validateRuleAction LL r =
     (let expirySet = (\<not> exp_IsNull LL (Expiration r));
          allVersExpirySet = (\<not> all_IsNull LL (AllVersionsExpiration r));
          transitionSet = (\<not> tr_IsNull LL (Transition r));
          noncurrentExpirySet = (\<not> nce_IsDaysNull LL (NoncurrentVersionExpiration r));
          newerNoncurrentVersionsExpiry = (nce_Newer (NoncurrentVersionExpiration r) > 0);
          noncurrentTransitionSet = (nct_StorageClass (NoncurrentVersionTransition r) \<noteq> '''');
          newerNoncurrentVersionsTransition = (nct_Newer (NoncurrentVersionTransition r) > 0)
      in if \<not> expirySet \<and> \<not> allVersExpirySet \<and> \<not> transitionSet \<and> \<not> noncurrentExpirySet \<and>
            \<not> noncurrentTransitionSet \<and> \<not> newerNoncurrentVersionsExpiry \<and> \<not> newerNoncurrentVersionsTransition
         then Some ErrRuleAction else None)"

definition validateExpiration :: "lifecycle_lib \<Rightarrow> ilm_rule \<Rightarrow> ilm_error option" where
  "validateExpiration LL r =
     (let i = (0::nat);
          i = (if \<not> exp_IsDaysNull LL (Expiration r) then i + 1 else i);
          i = (if \<not> exp_IsDateNull LL (Expiration r) then i + 1 else i);
          i = (if exp_IsMarkerEnabled LL (Expiration r) then i + 1 else i)
      in if i > 1 then Some ErrOneExpiration else None)"

definition validateTransition :: "lifecycle_lib \<Rightarrow> ilm_rule \<Rightarrow> ilm_error option" where
  "validateTransition LL r =
     (if \<not> tr_IsDaysNull LL (Transition r) \<and> \<not> tr_IsDateNull LL (Transition r) then Some ErrOneTransition else None)"

definition validateAllVersionsExpiration :: "ilm_rule \<Rightarrow> ilm_error option" where
  "validateAllVersionsExpiration r = (if all_Days (AllVersionsExpiration r) < 0 then Some ErrAllVersionsDays else None)"

definition validateNoncurrentExpiration :: "ilm_rule \<Rightarrow> ilm_error option" where
  "validateNoncurrentExpiration r =
     (if nce_Days (NoncurrentVersionExpiration r) < 0 then Some ErrNoncurrentExpirationDays else None)"

definition validateNoncurrentTransition :: "ilm_rule \<Rightarrow> ilm_error option" where
  "validateNoncurrentTransition r =
     (let days = nct_Days (NoncurrentVersionTransition r);
          storageClass = nct_StorageClass (NoncurrentVersionTransition r)
      in if days < 0 then Some ErrNoncurrentTransitionDays
         else if days > 0 \<and> storageClass = '''' then Some ErrNoncurrentTransitionBoth else None)"

text \<open>The argument is the text of the current local date.\<close>

definition validateTranExpCurdate :: "lifecycle_lib \<Rightarrow> string \<Rightarrow> ilm_rule \<Rightarrow> ilm_error option" where
  "validateTranExpCurdate LL curTimeStr r =
     (let expirySet = (\<not> exp_IsNull LL (Expiration r));
          transitionSet = (\<not> tr_IsNull LL (Transition r));
          transitionDateSet = (transitionSet \<and> \<not> tr_IsDateNull LL (Transition r));
          expiryDateSet = (expirySet \<and> \<not> exp_IsDateNull LL (Expiration r))
      in case parse_date curTimeStr of
           None \<Rightarrow> Some ErrTimeParse
         | Some currentTime \<Rightarrow>
             (if expirySet \<and> expiryDateSet \<and> time_before (exp_Date (Expiration r)) currentTime then Some ErrExpiryDatePassed
              else if transitionSet \<and> transitionDateSet \<and> time_before (tr_Date (Transition r)) currentTime
              then Some ErrTransitionDatePassed else None))"

fun first_failure :: "ilm_error option list \<Rightarrow> ilm_error option" where
  "first_failure [] = None"
| "first_failure (None # es) = first_failure es"
| "first_failure (Some e # es) = Some e"

definition validateILMRule :: "lifecycle_lib \<Rightarrow> ext_lib \<Rightarrow> string \<Rightarrow> ilm_rule \<Rightarrow> ilm_error option" where
  "validateILMRule LL L curTimeStr r =
     first_failure [validateRuleAction LL r, validateExpiration LL r, validateTransition LL r,
       validateAllVersionsExpiration r, validateTranExpCurdate LL curTimeStr r, validateTranExpDate LL r,
       validateTranDays L r, validateNoncurrentExpiration r, validateNoncurrentTransition r]"

section \<open>New rules\<close>

definition count_set :: "'v option \<Rightarrow> nat" where
  "count_set v = (if v \<noteq> None then 1 else 0)"

definition value_or :: "'v \<Rightarrow> 'v option \<Rightarrow> 'v" where
  "value_or d v = (case v of None \<Rightarrow> d | Some x \<Rightarrow> x)"

definition opts_Filter :: "LifecycleOptions \<Rightarrow> rule_filter" where
  "opts_Filter opts =
     (let tags = (case opt_Tags opts of None \<Rightarrow> [] | Some s \<Rightarrow> extractILMTags s);
          prefix = value_or '''' (opt_Prefix opts);
          szLt = value_or 0 (ObjectSizeLessThan opts);
          szGt = value_or 0 (ObjectSizeGreaterThan opts);
          predCount = length tags + count_set (opt_Prefix opts) + count_set (ObjectSizeLessThan opts) +
            count_set (ObjectSizeGreaterThan opts)
      in if predCount \<ge> 2 then
           zero_filter\<lparr>fi_And := \<lparr>and_Tags = tags, and_Prefix = prefix, and_SizeLessThan = szLt, and_SizeGreaterThan = szGt\<rparr>\<rparr>
         else
           (let f = zero_filter\<lparr>fi_Prefix := prefix, fi_SizeGreaterThan := szGt, fi_SizeLessThan := szLt\<rparr>
            in if length tags \<ge> 1 then f\<lparr>fi_Tag := tags ! 0\<rparr> else f))"

definition ToILMRule :: "lifecycle_lib \<Rightarrow> ext_lib \<Rightarrow> string \<Rightarrow> LifecycleOptions \<Rightarrow> ilm_error + ilm_rule" where
  "ToILMRule LL L curTimeStr opts =
     if_parsed (parseExpiry (ExpiryDate opts) (ExpiryDays opts) (ExpiredObjectDeleteMarker opts)) (\<lambda>expiry.
     if_parsed (parseAllVersionsExpiry (PurgeAllVersionsDays opts) (PurgeAllVersionsDeleteMarker opts)) (\<lambda>allVersExpiry.
     if_parsed (parseTransition (StorageClass opts) (TransitionDate opts) (TransitionDays opts)) (\<lambda>trans.
     (let newRule = \<lparr>rule_ID = opt_ID opts, RuleFilter = opts_Filter opts,
            Status = (if opt_Status opts = Some False then ''Disabled'' else ''Enabled''),
            Expiration = expiry, Transition = trans, AllVersionsExpiration = allVersExpiry,
            NoncurrentVersionExpiration = \<lparr>nce_Days = value_or 0 (NoncurrentVersionExpirationDays opts),
              nce_Newer = value_or 0 (NewerNoncurrentExpirationVersions opts)\<rparr>,
            NoncurrentVersionTransition = \<lparr>nct_Days = value_or 0 (NoncurrentVersionTransitionDays opts),
              nct_Newer = value_or 0 (NewerNoncurrentTransitionVersions opts),
              nct_StorageClass = value_or '''' (NoncurrentVersionTransitionStorageClass opts)\<rparr>\<rparr>
      in case validateILMRule LL L curTimeStr newRule of Some e \<Rightarrow> Inl e | None \<Rightarrow> Inr newRule))))"

section \<open>Editing a rule\<close>

text \<open>The rule is edited in place, so an error leaves it as far as it was edited.\<close>

definition apply_tags :: "LifecycleOptions \<Rightarrow> rule_filter \<Rightarrow> rule_filter" where
  "apply_tags opts f =
     (case opt_Tags opts of
        None \<Rightarrow> f
      | Some s \<Rightarrow>
          (let f = f\<lparr>fi_And := (fi_And f)\<lparr>and_Tags := extractILMTags s\<rparr>\<rparr>
           in if and_Prefix (fi_And f) \<noteq> '''' \<or> fi_Prefix f \<noteq> '''' then
                (let p = (if fi_Prefix f \<noteq> '''' then fi_Prefix f else and_Prefix (fi_And f))
                 in if s \<noteq> '''' then f\<lparr>fi_And := (fi_And f)\<lparr>and_Prefix := p\<rparr>, fi_Prefix := ''''\<rparr>
                    else f\<lparr>fi_Prefix := p, fi_And := (fi_And f)\<lparr>and_Prefix := ''''\<rparr>\<rparr>)
              else f))"

definition apply_prefix :: "LifecycleOptions \<Rightarrow> rule_filter \<Rightarrow> rule_filter" where
  "apply_prefix opts f =
     (case opt_Prefix opts of
        None \<Rightarrow> f
      | Some p \<Rightarrow>
          (if and_Tags (fi_And f) \<noteq> [] then f\<lparr>fi_Prefix := '''', fi_And := (fi_And f)\<lparr>and_Prefix := p\<rparr>\<rparr>
           else f\<lparr>fi_Prefix := p, fi_And := (fi_And f)\<lparr>and_Prefix := ''''\<rparr>\<rparr>))"

definition apply_expiry :: "LifecycleOptions \<Rightarrow> expiration \<Rightarrow> ilm_error + expiration" where
  "apply_expiry opts e =
     (case ExpiryDate opts of
        Some s \<Rightarrow> store_parsed parseExpiryDate (\<lambda>d e. e\<lparr>exp_Date := d, exp_Days := 0, exp_DeleteMarker := False\<rparr>) (Some s) e
      | None \<Rightarrow>
          (case ExpiryDays opts of
             Some s \<Rightarrow> store_parsed parseExpiryDays (\<lambda>d e. e\<lparr>exp_Days := d, exp_Date := zero_time\<rparr>) (Some s) e
           | None \<Rightarrow>
               Inr (case ExpiredObjectDeleteMarker opts of
                      None \<Rightarrow> e
                    | Some b \<Rightarrow> e\<lparr>exp_DeleteMarker := b, exp_Days := 0, exp_Date := zero_time\<rparr>)))"

definition apply_purge :: "LifecycleOptions \<Rightarrow> all_versions_expiration \<Rightarrow> ilm_error + all_versions_expiration" where
  "apply_purge opts a =
     if_parsed (store_parsed parseExpiryDays (\<lambda>d a. a\<lparr>all_Days := d\<rparr>) (PurgeAllVersionsDays opts) a) (\<lambda>a.
     Inr (case PurgeAllVersionsDeleteMarker opts of None \<Rightarrow> a | Some b \<Rightarrow> a\<lparr>all_DeleteMarker := b\<rparr>))"

definition apply_transition :: "LifecycleOptions \<Rightarrow> transition \<Rightarrow> ilm_error + transition" where
  "apply_transition opts t =
     (case TransitionDate opts of
        Some s \<Rightarrow> store_parsed parseTransitionDate (\<lambda>d t. t\<lparr>tr_Date := d, tr_Days := 0\<rparr>) (Some s) t
      | None \<Rightarrow> store_parsed parseTransitionDays (\<lambda>d t. t\<lparr>tr_Days := d, tr_Date := zero_time\<rparr>) (TransitionDays opts) t)"

definition apply_rest :: "LifecycleOptions \<Rightarrow> ilm_rule \<Rightarrow> ilm_rule" where
  "apply_rest opts r =
     (let r = r\<lparr>NoncurrentVersionExpiration := (NoncurrentVersionExpiration r)
            \<lparr>nce_Days := value_or (nce_Days (NoncurrentVersionExpiration r)) (NoncurrentVersionExpirationDays opts),
             nce_Newer := value_or (nce_Newer (NoncurrentVersionExpiration r)) (NewerNoncurrentExpirationVersions opts)\<rparr>\<rparr>;
          r = r\<lparr>NoncurrentVersionTransition := (NoncurrentVersionTransition r)
            \<lparr>nct_Days := value_or (nct_Days (NoncurrentVersionTransition r)) (NoncurrentVersionTransitionDays opts),
             nct_Newer := value_or (nct_Newer (NoncurrentVersionTransition r)) (NewerNoncurrentTransitionVersions opts),
             nct_StorageClass := value_or (nct_StorageClass (NoncurrentVersionTransition r))
               (NoncurrentVersionTransitionStorageClass opts)\<rparr>\<rparr>;
          r = r\<lparr>Transition := (Transition r)
            \<lparr>tr_StorageClass := value_or (tr_StorageClass (Transition r)) (StorageClass opts)\<rparr>\<rparr>
      in case opt_Status opts of
           None \<Rightarrow> r
         | Some b \<Rightarrow> r\<lparr>Status := if b then ''Enabled'' else ''Disabled''\<rparr>)"

definition ApplyRuleFields :: "ilm_rule \<Rightarrow> LifecycleOptions \<Rightarrow> ilm_error option \<times> ilm_rule" where
  "ApplyRuleFields dest opts =
     (let dest = dest\<lparr>RuleFilter := apply_prefix opts (apply_tags opts (RuleFilter dest))\<rparr>
      in case apply_expiry opts (Expiration dest) of
           Inl err \<Rightarrow> (Some err, dest)
         | Inr e \<Rightarrow>
             (let dest = dest\<lparr>Expiration := e\<rparr>
              in case apply_purge opts (AllVersionsExpiration dest) of
                   Inl err \<Rightarrow> (Some err, dest)
                 | Inr a \<Rightarrow>
                     (let dest = dest\<lparr>AllVersionsExpiration := a\<rparr>
                      in case apply_transition opts (Transition dest) of
                           Inl err \<Rightarrow> (Some err, dest)
                         | Inr t \<Rightarrow> (None, apply_rest opts (dest\<lparr>Transition := t\<rparr>)))))"

section \<open>What a filter holds\<close>

datatype constraint = HasTag ilm_tag | HasPrefix string | SmallerThan int | LargerThan int

text \<open>A zero value constrains nothing.\<close>

definition constraints :: "ilm_tag list \<Rightarrow> string \<Rightarrow> int \<Rightarrow> int \<Rightarrow> constraint list" where
  "constraints tags prefix lt gt =
     map HasTag (filter (\<lambda>t. t \<noteq> zero_tag) tags) @ (if prefix = '''' then [] else [HasPrefix prefix]) @
     (if lt = 0 then [] else [SmallerThan lt]) @ (if gt = 0 then [] else [LargerThan gt])"

definition and_constraints :: "rule_filter \<Rightarrow> constraint list" where
  "and_constraints f =
     constraints (and_Tags (fi_And f)) (and_Prefix (fi_And f)) (and_SizeLessThan (fi_And f)) (and_SizeGreaterThan (fi_And f))"

definition top_constraints :: "rule_filter \<Rightarrow> constraint list" where
  "top_constraints f = constraints [fi_Tag f] (fi_Prefix f) (fi_SizeLessThan f) (fi_SizeGreaterThan f)"

definition opts_constraints :: "LifecycleOptions \<Rightarrow> constraint list" where
  "opts_constraints opts =
     constraints (case opt_Tags opts of None \<Rightarrow> [] | Some s \<Rightarrow> extractILMTags s) (value_or '''' (opt_Prefix opts))
       (value_or 0 (ObjectSizeLessThan opts)) (value_or 0 (ObjectSizeGreaterThan opts))"

lemma constraints_none: "constraints [] '''' 0 0 = []" "constraints [zero_tag] '''' 0 0 = []"
  by (simp_all add: constraints_def)

lemma value_or_unset: "count_set v = 0 \<Longrightarrow> value_or d v = d"
  by (simp add: count_set_def value_or_def split: if_splits)

lemma few_constraints:
  assumes "length tags + count_set p + count_set lt + count_set gt \<le> 1"
  shows "length (constraints tags (value_or '''' p) (value_or 0 lt) (value_or 0 gt)) \<le> 1"
    "constraints [if tags = [] then zero_tag else tags ! 0] (value_or '''' p) (value_or 0 lt) (value_or 0 gt) =
       constraints tags (value_or '''' p) (value_or 0 lt) (value_or 0 gt)"
proof -
  have le: "count_set v \<le> 1" for v :: "'v option" by (simp add: count_set_def)
  have "tags = [] \<or> (\<exists>t. tags = [t])" using assms by (cases tags) (auto simp: Suc_le_eq)
  then show "constraints [if tags = [] then zero_tag else tags ! 0] (value_or '''' p) (value_or 0 lt) (value_or 0 gt) =
       constraints tags (value_or '''' p) (value_or 0 lt) (value_or 0 gt)"
    by (auto simp: constraints_def)
  have "length (constraints tags (value_or '''' p) (value_or 0 lt) (value_or 0 gt)) \<le>
      length tags + count_set p + count_set lt + count_set gt"
    by (auto simp: constraints_def value_or_def count_set_def split: option.splits intro: le_trans [OF length_filter_le])
  then show "length (constraints tags (value_or '''' p) (value_or 0 lt) (value_or 0 gt)) \<le> 1" using assms by linarith
qed

text \<open>The filter of a new rule holds exactly the constraints of the options (zero values constrain
  nothing): all of them in its And part with nothing beside it, or at most one, and then outside the And part.\<close>

theorem Filter_exact:
  "set (and_constraints (opts_Filter opts)) \<union> set (top_constraints (opts_Filter opts)) = set (opts_constraints opts) \<and>
   (top_constraints (opts_Filter opts) = [] \<or>
    and_constraints (opts_Filter opts) = [] \<and> length (top_constraints (opts_Filter opts)) \<le> 1)"
proof -
  define tags where "tags = (case opt_Tags opts of None \<Rightarrow> [] | Some s \<Rightarrow> extractILMTags s)"
  define n where "n = length tags + count_set (opt_Prefix opts) + count_set (ObjectSizeLessThan opts) +
    count_set (ObjectSizeGreaterThan opts)"
  show ?thesis
  proof (cases "n \<ge> 2")
    case True
    then have "opts_Filter opts = zero_filter\<lparr>fi_And := \<lparr>and_Tags = tags, and_Prefix = value_or '''' (opt_Prefix opts),
        and_SizeLessThan = value_or 0 (ObjectSizeLessThan opts), and_SizeGreaterThan = value_or 0 (ObjectSizeGreaterThan opts)\<rparr>\<rparr>"
      unfolding opts_Filter_def Let_def n_def tags_def by (rule if_P)
    then show ?thesis
      by (simp add: and_constraints_def top_constraints_def opts_constraints_def zero_filter_def tags_def constraints_none)
  next
    case False
    define f where "f = zero_filter\<lparr>fi_Prefix := value_or '''' (opt_Prefix opts),
        fi_SizeGreaterThan := value_or 0 (ObjectSizeGreaterThan opts), fi_SizeLessThan := value_or 0 (ObjectSizeLessThan opts)\<rparr>"
    have "opts_Filter opts = (if length tags \<ge> 1 then f\<lparr>fi_Tag := tags ! 0\<rparr> else f)"
      unfolding opts_Filter_def Let_def f_def using False unfolding n_def tags_def by (rule if_not_P)
    then have "and_constraints (opts_Filter opts) = []"
      "top_constraints (opts_Filter opts) = constraints [if tags = [] then zero_tag else tags ! 0] (value_or '''' (opt_Prefix opts))
         (value_or 0 (ObjectSizeLessThan opts)) (value_or 0 (ObjectSizeGreaterThan opts))"
      by (auto simp: and_constraints_def top_constraints_def f_def zero_filter_def zero_and_def constraints_none Suc_le_eq)
    moreover have "n \<le> 1" using False by simp
    ultimately show ?thesis
      using few_constraints [of tags "opt_Prefix opts" "ObjectSizeLessThan opts" "ObjectSizeGreaterThan opts"]
      by (simp add: n_def opts_constraints_def tags_def)
  qed
qed

section \<open>New rules\<close>

text \<open>A field read from an optional text, or its zero value.\<close>

definition reads :: "(string \<Rightarrow> ilm_error + 'v) \<Rightarrow> 'v \<Rightarrow> string option \<Rightarrow> 'v \<Rightarrow> bool" where
  "reads parse zero given v = (case given of None \<Rightarrow> v = zero | Some s \<Rightarrow> parse s = Inr v)"

definition rule_of_options :: "LifecycleOptions \<Rightarrow> ilm_rule \<Rightarrow> bool" where
  "rule_of_options opts r \<longleftrightarrow>
     rule_ID r = opt_ID opts \<and> RuleFilter r = opts_Filter opts \<and>
     Status r = (if opt_Status opts = Some False then ''Disabled'' else ''Enabled'') \<and>
     reads parseExpiryDate zero_time (ExpiryDate opts) (exp_Date (Expiration r)) \<and>
     reads parseExpiryDays 0 (ExpiryDays opts) (exp_Days (Expiration r)) \<and>
     exp_DeleteMarker (Expiration r) = value_or False (ExpiredObjectDeleteMarker opts) \<and>
     reads parseExpiryDays 0 (PurgeAllVersionsDays opts) (all_Days (AllVersionsExpiration r)) \<and>
     all_DeleteMarker (AllVersionsExpiration r) = value_or False (PurgeAllVersionsDeleteMarker opts) \<and>
     reads parseTransitionDate zero_time (TransitionDate opts) (tr_Date (Transition r)) \<and>
     reads parseTransitionDays 0 (TransitionDays opts) (tr_Days (Transition r)) \<and>
     tr_StorageClass (Transition r) = value_or '''' (StorageClass opts) \<and>
     NoncurrentVersionExpiration r = \<lparr>nce_Days = value_or 0 (NoncurrentVersionExpirationDays opts),
       nce_Newer = value_or 0 (NewerNoncurrentExpirationVersions opts)\<rparr> \<and>
     NoncurrentVersionTransition r = \<lparr>nct_Days = value_or 0 (NoncurrentVersionTransitionDays opts),
       nct_Newer = value_or 0 (NewerNoncurrentTransitionVersions opts),
       nct_StorageClass = value_or '''' (NoncurrentVersionTransitionStorageClass opts)\<rparr>"

text \<open>What the validation asks of a rule.\<close>

definition date_set :: "go_time \<Rightarrow> bool" where
  "date_set t = (unix_nano t \<noteq> unix_nano zero_time)"

definition well_formed_rule :: "lifecycle_lib \<Rightarrow> ext_lib \<Rightarrow> string \<Rightarrow> ilm_rule \<Rightarrow> bool" where
  "well_formed_rule LL L curTimeStr r \<longleftrightarrow>
     (let e = Expiration r; t = Transition r;
          dated = (\<not> tr_IsNull LL t \<and> date_set (tr_Date t))
      in (exp_Days e \<noteq> 0 \<or> date_set (exp_Date e) \<or> exp_DeleteMarker e \<or> \<not> all_IsNull LL (AllVersionsExpiration r) \<or>
            \<not> tr_IsNull LL t \<or> \<not> nce_IsDaysNull LL (NoncurrentVersionExpiration r) \<or>
            nct_StorageClass (NoncurrentVersionTransition r) \<noteq> '''' \<or>
            nce_Newer (NoncurrentVersionExpiration r) > 0 \<or> nct_Newer (NoncurrentVersionTransition r) > 0) \<and>
         length (filter id [exp_Days e \<noteq> 0, date_set (exp_Date e), exp_DeleteMarker e]) \<le> 1 \<and>
         (tr_Days t = 0 \<or> \<not> date_set (tr_Date t)) \<and>
         0 \<le> all_Days (AllVersionsExpiration r) \<and>
         (\<exists>now. parse_date curTimeStr = Some now \<and>
            (date_set (exp_Date e) \<longrightarrow> unix_nano now \<le> unix_nano (exp_Date e)) \<and>
            (dated \<longrightarrow> unix_nano now \<le> unix_nano (tr_Date t))) \<and>
         (dated \<and> date_set (exp_Date e) \<longrightarrow> unix_nano (tr_Date t) \<le> unix_nano (exp_Date e)) \<and>
         (dated \<longrightarrow> tr_StorageClass t \<noteq> '''') \<and>
         0 \<le> tr_Days t \<and> (tr_Days t < 30 \<longrightarrow> to_lower L (tr_StorageClass t) \<noteq> ''standard_ia'') \<and>
         0 \<le> nce_Days (NoncurrentVersionExpiration r) \<and> 0 \<le> nct_Days (NoncurrentVersionTransition r) \<and>
         (nct_Days (NoncurrentVersionTransition r) > 0 \<longrightarrow> nct_StorageClass (NoncurrentVersionTransition r) \<noteq> ''''))"

lemma first_failure_None: "first_failure es = None \<longleftrightarrow> (\<forall>e\<in>set es. e = None)"
  by (induction es rule: first_failure.induct) auto

lemma lifecycle_lawsD:
  assumes "lifecycle_laws LL"
  shows "exp_IsDaysNull LL e = (exp_Days e = 0)" "exp_IsDateNull LL e = (\<not> date_set (exp_Date e))"
    "exp_IsMarkerEnabled LL e = exp_DeleteMarker e"
    "exp_IsNull LL e = (exp_Days e = 0 \<and> \<not> date_set (exp_Date e) \<and> \<not> exp_DeleteMarker e)"
    "tr_IsDaysNull LL t = (tr_Days t = 0)" "tr_IsDateNull LL t = (\<not> date_set (tr_Date t))"
  using assms by (simp_all add: lifecycle_laws_def date_set_def)

lemma validateILMRule_exact:
  assumes "lifecycle_laws LL"
  shows "validateILMRule LL L curTimeStr r = None \<longleftrightarrow> well_formed_rule LL L curTimeStr r"
proof -
  note laws = lifecycle_lawsD [OF assms]
  have 1: "validateRuleAction LL r = None \<longleftrightarrow>
      exp_Days (Expiration r) \<noteq> 0 \<or> date_set (exp_Date (Expiration r)) \<or> exp_DeleteMarker (Expiration r) \<or>
      \<not> all_IsNull LL (AllVersionsExpiration r) \<or> \<not> tr_IsNull LL (Transition r) \<or>
      \<not> nce_IsDaysNull LL (NoncurrentVersionExpiration r) \<or> nct_StorageClass (NoncurrentVersionTransition r) \<noteq> '''' \<or>
      nce_Newer (NoncurrentVersionExpiration r) > 0 \<or> nct_Newer (NoncurrentVersionTransition r) > 0"
    unfolding validateRuleAction_def Let_def laws by (simp del: not_gr_zero)
  have 2: "validateExpiration LL r = None \<longleftrightarrow>
      length (filter id [exp_Days (Expiration r) \<noteq> 0, date_set (exp_Date (Expiration r)), exp_DeleteMarker (Expiration r)]) \<le> 1"
    unfolding validateExpiration_def Let_def laws by simp
  have 3: "validateTransition LL r = None \<longleftrightarrow> tr_Days (Transition r) = 0 \<or> \<not> date_set (tr_Date (Transition r))"
    unfolding validateTransition_def laws by simp
  have 4: "validateTranExpCurdate LL curTimeStr r = None \<longleftrightarrow>
      (\<exists>now. parse_date curTimeStr = Some now \<and>
        (date_set (exp_Date (Expiration r)) \<longrightarrow> unix_nano now \<le> unix_nano (exp_Date (Expiration r))) \<and>
        (\<not> tr_IsNull LL (Transition r) \<and> date_set (tr_Date (Transition r)) \<longrightarrow> unix_nano now \<le> unix_nano (tr_Date (Transition r))))"
    unfolding validateTranExpCurdate_def Let_def laws time_before_def by (auto split: option.splits)
  have 5: "validateTranExpDate LL r = None \<longleftrightarrow>
      ((\<not> tr_IsNull LL (Transition r) \<and> date_set (tr_Date (Transition r))) \<and> date_set (exp_Date (Expiration r)) \<longrightarrow>
         unix_nano (tr_Date (Transition r)) \<le> unix_nano (exp_Date (Expiration r))) \<and>
      (\<not> tr_IsNull LL (Transition r) \<and> date_set (tr_Date (Transition r)) \<longrightarrow> tr_StorageClass (Transition r) \<noteq> '''')"
    unfolding validateTranExpDate_def Let_def laws time_before_def by auto
  have 6: "validateAllVersionsExpiration r = None \<longleftrightarrow> 0 \<le> all_Days (AllVersionsExpiration r)"
    unfolding validateAllVersionsExpiration_def by auto
  have 7: "validateTranDays L r = None \<longleftrightarrow>
      0 \<le> tr_Days (Transition r) \<and> (tr_Days (Transition r) < 30 \<longrightarrow> to_lower L (tr_StorageClass (Transition r)) \<noteq> ''standard_ia'')"
    unfolding validateTranDays_def by auto
  have 8: "validateNoncurrentExpiration r = None \<longleftrightarrow> 0 \<le> nce_Days (NoncurrentVersionExpiration r)"
    unfolding validateNoncurrentExpiration_def by auto
  have 9: "validateNoncurrentTransition r = None \<longleftrightarrow> 0 \<le> nct_Days (NoncurrentVersionTransition r) \<and>
      (nct_Days (NoncurrentVersionTransition r) > 0 \<longrightarrow> nct_StorageClass (NoncurrentVersionTransition r) \<noteq> '''')"
    unfolding validateNoncurrentTransition_def Let_def by auto
  show ?thesis
    unfolding validateILMRule_def first_failure_None well_formed_rule_def Let_def list.set ball_simps 1 2 3 4 5 6 7 8 9
    by (rule iffI; elim conjE; intro conjI TrueI; assumption)
qed

lemma if_parsed_Inr: "if_parsed m f = Inr r \<longleftrightarrow> (\<exists>v. m = Inr v \<and> f v = Inr r)"
  by (cases m) (auto simp: if_parsed_def)

lemma store_parsed_Inr:
  "store_parsed parse store given r = Inr r' \<longleftrightarrow>
     (given = None \<and> r' = r \<or> (\<exists>s v. given = Some s \<and> parse s = Inr v \<and> r' = store v r))"
  by (auto simp: store_parsed_def split: option.splits sum.splits)

lemma parseExpiry_Inr:
  "parseExpiry d n m = Inr e \<longleftrightarrow> reads parseExpiryDate zero_time d (exp_Date e) \<and> reads parseExpiryDays 0 n (exp_Days e) \<and>
     exp_DeleteMarker e = value_or False m"
  by (cases e) (auto simp: parseExpiry_def if_parsed_Inr store_parsed_Inr reads_def value_or_def zero_expiration_def
      split: option.splits)

lemma parseTransition_Inr:
  "parseTransition c d n = Inr t \<longleftrightarrow> reads parseTransitionDate zero_time d (tr_Date t) \<and>
     reads parseTransitionDays 0 n (tr_Days t) \<and> tr_StorageClass t = value_or '''' c"
  by (cases t) (auto simp: parseTransition_def if_parsed_Inr store_parsed_Inr reads_def value_or_def zero_transition_def
      split: option.splits)

lemma parseAllVersionsExpiry_Inr:
  "parseAllVersionsExpiry n m = Inr a \<longleftrightarrow> reads parseExpiryDays 0 n (all_Days a) \<and> all_DeleteMarker a = value_or False m"
  by (cases a) (auto simp: parseAllVersionsExpiry_def if_parsed_Inr store_parsed_Inr reads_def value_or_def
      split: option.splits)

definition new_rule :: "LifecycleOptions \<Rightarrow> expiration \<Rightarrow> all_versions_expiration \<Rightarrow> transition \<Rightarrow> ilm_rule" where
  "new_rule opts e a t =
     \<lparr>rule_ID = opt_ID opts, RuleFilter = opts_Filter opts,
      Status = (if opt_Status opts = Some False then ''Disabled'' else ''Enabled''),
      Expiration = e, Transition = t, AllVersionsExpiration = a,
      NoncurrentVersionExpiration = \<lparr>nce_Days = value_or 0 (NoncurrentVersionExpirationDays opts),
        nce_Newer = value_or 0 (NewerNoncurrentExpirationVersions opts)\<rparr>,
      NoncurrentVersionTransition = \<lparr>nct_Days = value_or 0 (NoncurrentVersionTransitionDays opts),
        nct_Newer = value_or 0 (NewerNoncurrentTransitionVersions opts),
        nct_StorageClass = value_or '''' (NoncurrentVersionTransitionStorageClass opts)\<rparr>\<rparr>"

lemma ToILMRule_Inr:
  "ToILMRule LL L curTimeStr opts = Inr r \<longleftrightarrow>
     (\<exists>e a t. parseExpiry (ExpiryDate opts) (ExpiryDays opts) (ExpiredObjectDeleteMarker opts) = Inr e \<and>
        parseAllVersionsExpiry (PurgeAllVersionsDays opts) (PurgeAllVersionsDeleteMarker opts) = Inr a \<and>
        parseTransition (StorageClass opts) (TransitionDate opts) (TransitionDays opts) = Inr t \<and>
        r = new_rule opts e a t \<and> validateILMRule LL L curTimeStr r = None)"
  unfolding ToILMRule_def if_parsed_Inr Let_def new_rule_def [symmetric] by (auto split: option.splits)

lemma rule_of_options_new:
  "rule_of_options opts r \<longleftrightarrow>
     (\<exists>e a t. parseExpiry (ExpiryDate opts) (ExpiryDays opts) (ExpiredObjectDeleteMarker opts) = Inr e \<and>
        parseAllVersionsExpiry (PurgeAllVersionsDays opts) (PurgeAllVersionsDeleteMarker opts) = Inr a \<and>
        parseTransition (StorageClass opts) (TransitionDate opts) (TransitionDays opts) = Inr t \<and> r = new_rule opts e a t)"
  unfolding parseExpiry_Inr parseTransition_Inr parseAllVersionsExpiry_Inr
  by (cases r) (auto simp: rule_of_options_def new_rule_def)

text \<open>A rule is made from the options exactly when every given text parses and the fields it gives are a
  well-formed rule: some action, one kind of expiration, one kind of transition, no negative numbers of days (those
  of the expiration apart), dates not in the past and in the right order, storage classes where they are needed.\<close>

theorem ToILMRule_exact:
  assumes "lifecycle_laws LL"
  shows "ToILMRule LL L curTimeStr opts = Inr r \<longleftrightarrow> rule_of_options opts r \<and> well_formed_rule LL L curTimeStr r"
  unfolding ToILMRule_Inr rule_of_options_new validateILMRule_exact [OF assms] by blast

text \<open>The tests for unset fields as minio-go documents them.\<close>

definition documented_lib :: lifecycle_lib where
  "documented_lib =
     \<lparr>exp_IsDaysNull = (\<lambda>e. exp_Days e = 0), exp_IsDateNull = (\<lambda>e. unix_nano (exp_Date e) = unix_nano zero_time),
      exp_IsMarkerEnabled = exp_DeleteMarker,
      exp_IsNull = (\<lambda>e. exp_Days e = 0 \<and> unix_nano (exp_Date e) = unix_nano zero_time \<and> \<not> exp_DeleteMarker e),
      tr_IsDaysNull = (\<lambda>t. tr_Days t = 0), tr_IsDateNull = (\<lambda>t. unix_nano (tr_Date t) = unix_nano zero_time),
      tr_IsNull = (\<lambda>t. tr_StorageClass t = ''''), all_IsNull = (\<lambda>a. all_Days a = 0), nce_IsDaysNull = (\<lambda>n. nce_Days n = 0)\<rparr>"

lemma documented_lib_laws: "lifecycle_laws documented_lib"
  by (simp add: lifecycle_laws_def documented_lib_def)

definition no_options :: LifecycleOptions where
  "no_options = \<lparr>opt_ID = ''r1'', opt_Status = None, opt_Prefix = None, opt_Tags = None, ObjectSizeLessThan = None,
     ObjectSizeGreaterThan = None, ExpiryDate = None, ExpiryDays = None, TransitionDate = None, TransitionDays = None,
     StorageClass = None, ExpiredObjectDeleteMarker = None, NoncurrentVersionExpirationDays = None,
     NewerNoncurrentExpirationVersions = None, NoncurrentVersionTransitionDays = None,
     NewerNoncurrentTransitionVersions = None, NoncurrentVersionTransitionStorageClass = None,
     PurgeAllVersionsDays = None, PurgeAllVersionsDeleteMarker = None\<rparr>"

definition sample_options :: LifecycleOptions where
  "sample_options = no_options\<lparr>opt_Prefix := Some ''doc/'', opt_Tags := Some ''a=1&b'', ExpiryDate := Some ''2031-02-28'',
     TransitionDate := Some ''2030-12-31'', StorageClass := Some ''GLACIER''\<rparr>"

lemma sample_rule:
  "\<exists>r. ToILMRule documented_lib list_lib ''2030-12-31'' sample_options = Inr r"
proof -
  have "case ToILMRule documented_lib list_lib ''2030-12-31'' sample_options of Inl e \<Rightarrow> False | Inr r \<Rightarrow> True"
    by code_simp
  then show ?thesis by (cases "ToILMRule documented_lib list_lib ''2030-12-31'' sample_options") simp_all
qed

theorem ToILMRule_exact_witness:
  "\<exists>r. rule_of_options sample_options r \<and> well_formed_rule documented_lib list_lib ''2030-12-31'' r"
  using sample_rule by (simp only: ToILMRule_exact [OF documented_lib_laws])

section \<open>Editing\<close>

lemma apply_filter_again:
  "apply_prefix opts (apply_tags opts (apply_prefix opts (apply_tags opts f))) = apply_prefix opts (apply_tags opts f)"
proof -
  obtain a p t l g where f': "f = \<lparr>fi_And = a, fi_Prefix = p, fi_Tag = t, fi_SizeLessThan = l, fi_SizeGreaterThan = g\<rparr>"
    by (rule rule_filter.cases)
  obtain T ap al ag where a: "a = \<lparr>and_Tags = T, and_Prefix = ap, and_SizeLessThan = al, and_SizeGreaterThan = ag\<rparr>"
    by (rule filter_and.cases)
  note f = f' [unfolded a]
  show ?thesis
  proof (cases "opt_Tags opts")
    case None
    then show ?thesis by (cases "opt_Prefix opts"; cases "T = []") (simp_all add: f apply_prefix_def apply_tags_def)
  next
    case (Some s)
    then show ?thesis
      by (cases "opt_Prefix opts"; cases "s = []"; cases "extractILMTags s = []"; cases "p = []"; cases "ap = []")
        (simp_all add: f apply_prefix_def apply_tags_def Let_def)
  qed
qed

lemma apply_expiry_again: "apply_expiry opts e = Inr e' \<Longrightarrow> apply_expiry opts e' = Inr e'"
  by (auto simp: apply_expiry_def store_parsed_def split: option.splits sum.splits)

lemma apply_purge_again: "apply_purge opts a = Inr a' \<Longrightarrow> apply_purge opts a' = Inr a'"
  by (auto simp: apply_purge_def store_parsed_def if_parsed_def split: option.splits sum.splits)

lemma apply_transition_again:
  "apply_transition opts t = Inr t' \<Longrightarrow> apply_transition opts (t'\<lparr>tr_StorageClass := c\<rparr>) = Inr (t'\<lparr>tr_StorageClass := c\<rparr>)"
  by (auto simp: apply_transition_def store_parsed_def split: option.splits sum.splits)

lemma apply_rest_fields [simp]:
  "RuleFilter (apply_rest opts r) = RuleFilter r" "Expiration (apply_rest opts r) = Expiration r"
  "AllVersionsExpiration (apply_rest opts r) = AllVersionsExpiration r"
  "Transition (apply_rest opts r) = (Transition r)\<lparr>tr_StorageClass := value_or (tr_StorageClass (Transition r)) (StorageClass opts)\<rparr>"
  by (auto simp: apply_rest_def Let_def split: option.splits)

lemma value_or_again [simp]: "value_or (value_or d v) v = value_or d v"
  by (simp add: value_or_def split: option.splits)

lemma apply_rest_again: "apply_rest opts (apply_rest opts r) = apply_rest opts r"
  by (cases "opt_Status opts") (simp_all add: apply_rest_def Let_def)

text \<open>Editing a rule twice with the same options is editing it once.\<close>

theorem ApplyRuleFields_idempotent:
  assumes "ApplyRuleFields dest opts = (None, r)"
  shows "ApplyRuleFields r opts = (None, r)"
proof -
  define d where "d = dest\<lparr>RuleFilter := apply_prefix opts (apply_tags opts (RuleFilter dest))\<rparr>"
  obtain e a t where eat: "apply_expiry opts (Expiration dest) = Inr e" "apply_purge opts (AllVersionsExpiration dest) = Inr a"
    "apply_transition opts (Transition dest) = Inr t"
    and r: "r = apply_rest opts (d\<lparr>Expiration := e, AllVersionsExpiration := a, Transition := t\<rparr>)"
    using assms by (auto simp: ApplyRuleFields_def Let_def d_def split: sum.splits)
  have f: "apply_prefix opts (apply_tags opts (RuleFilter r)) = RuleFilter r"
    by (simp add: r d_def apply_filter_again)
  have e: "apply_expiry opts (Expiration r) = Inr (Expiration r)"
    using apply_expiry_again [OF eat(1)] by (simp add: r)
  have a: "apply_purge opts (AllVersionsExpiration r) = Inr (AllVersionsExpiration r)"
    using apply_purge_again [OF eat(2)] by (simp add: r)
  have t: "apply_transition opts (Transition r) = Inr (Transition r)"
    using apply_transition_again [OF eat(3)] by (simp add: r)
  show ?thesis
    using f e a t apply_rest_again [of opts "d\<lparr>Expiration := e, AllVersionsExpiration := a, Transition := t\<rparr>", folded r]
    by (simp add: ApplyRuleFields_def Let_def)
qed

definition sample_rule_value :: ilm_rule where
  "sample_rule_value = new_rule no_options zero_expiration \<lparr>all_Days = 0, all_DeleteMarker = False\<rparr> zero_transition"

theorem ApplyRuleFields_idempotent_witness:
  "let r = snd (ApplyRuleFields sample_rule_value sample_options)
   in ApplyRuleFields r sample_options = (None, r) \<and> r \<noteq> sample_rule_value"
proof -
  have ok: "fst (ApplyRuleFields sample_rule_value sample_options) = None" by code_simp
  moreover have "snd (ApplyRuleFields sample_rule_value sample_options) \<noteq> sample_rule_value" by code_simp
  ultimately show ?thesis
    unfolding Let_def by (intro conjI ApplyRuleFields_idempotent [of sample_rule_value]) (simp_all add: prod_eq_iff)
qed

text \<open>Options that are not given change nothing.\<close>

lemma ApplyRuleFields_no_options: "ApplyRuleFields r no_options = (None, r)"
  by (simp add: ApplyRuleFields_def Let_def no_options_def apply_prefix_def apply_tags_def apply_expiry_def apply_purge_def
      apply_transition_def apply_rest_def if_parsed_def store_parsed_def value_or_def)

section \<open>Where the code departs from its comments\<close>

text \<open>A negative number of days until expiration is accepted.\<close>

lemma negative_expiry_days_accepted:
  "case ToILMRule documented_lib list_lib ''2030-12-31'' (no_options\<lparr>ExpiryDays := Some ''-5''\<rparr>) of
     Inl e \<Rightarrow> False | Inr r \<Rightarrow> exp_Days (Expiration r) = -5"
  by code_simp

text \<open>A transition after some days needs no storage class, and with the documented \<open>IsNull\<close> no transition does.\<close>

lemma transition_without_storage_class_accepted:
  "case ToILMRule documented_lib list_lib ''2030-12-31''
       (no_options\<lparr>ExpiryDays := Some ''5'', TransitionDays := Some ''3''\<rparr>) of
     Inl e \<Rightarrow> False | Inr r \<Rightarrow> tr_Days (Transition r) = 3 \<and> tr_StorageClass (Transition r) = ''''"
  "validateTranExpDate documented_lib r \<noteq> Some ErrMissingStorageClass"
  by code_simp (auto simp add: validateTranExpDate_def documented_lib_def Let_def)

text \<open>Setting the days until expiration keeps the delete marker, so the edited rule is no longer valid.\<close>

lemma expiry_days_keep_delete_marker:
  "let e = zero_expiration\<lparr>exp_DeleteMarker := True\<rparr>; opts = no_options\<lparr>ExpiryDays := Some ''5''\<rparr>
   in apply_expiry opts e = Inr (e\<lparr>exp_Days := 5\<rparr>)"
  by code_simp

text \<open>Tags given to a rule that has one tag leave it beside the And part, and a lone separator moves the prefix
  into an And part without tags.\<close>

lemma edited_filter_mixes_parts:
  "let f = apply_tags (no_options\<lparr>opt_Tags := Some ''b=2''\<rparr>) (zero_filter\<lparr>fi_Tag := \<lparr>tag_Key = ''a'', tag_Value = ''1''\<rparr>\<rparr>)
   in and_constraints f = [HasTag \<lparr>tag_Key = ''b'', tag_Value = ''2''\<rparr>] \<and>
      top_constraints f = [HasTag \<lparr>tag_Key = ''a'', tag_Value = ''1''\<rparr>]"
  "let f = apply_tags (no_options\<lparr>opt_Tags := Some ''&''\<rparr>) (zero_filter\<lparr>fi_Prefix := ''p''\<rparr>)
   in and_constraints f = [HasPrefix ''p''] \<and> top_constraints f = []"
  by code_simp+

text \<open>An error in a later option leaves the earlier ones applied.\<close>

lemma failed_edit_is_partial:
  "let opts = no_options\<lparr>opt_Prefix := Some ''p'', ExpiryDays := Some ''x''\<rparr>; (e, r) = ApplyRuleFields sample_rule_value opts
   in e = Some ErrAtoi \<and> fi_Prefix (RuleFilter r) = ''p''"
  by code_simp

end
