(* ===== verification/Durations.thy ===== *)
theory Durations
  imports GoTimeFacts
begin

text \<open>
  Durations (\<open>xtime/time.go\<close>, \<open>xtime/time_contrib.go\<close>): parsing with days and weeks, and the JSON form. A
  \<open>time.Duration\<close> is its \<open>int64\<close> number of nanoseconds, as an integer in that range; the wrap-around of the code's
  \<open>int64\<close> arithmetic is written out.
\<close>

section \<open>64-bit integers and floats\<close>

definition wrap64 :: "int \<Rightarrow> int" where
  "wrap64 z = (z + 2 ^ 63) mod 2 ^ 64 - 2 ^ 63"

definition max_int64 :: int where
  "max_int64 = 2 ^ 63 - 1"

text \<open>
  A non-negative \<open>float64\<close> is a significand and an exponent of two. Every operation rounds the exact result
  to 53 bits, ties to even. The exponent is unbounded: a scale so large that it is infinite for Go, or a
  quotient so small that it is subnormal, gives a fraction of zero nanoseconds either way.
\<close>

type_synonym f64 = "int \<times> int"

function bit_len :: "int \<Rightarrow> int" where
  "bit_len n = (if n \<le> 0 then 0 else 1 + bit_len (n div 2))"
  by pat_completeness auto
termination
  by (relation "measure nat") auto

declare bit_len.simps [simp del]

definition nearest_even :: "int \<Rightarrow> int \<Rightarrow> int" where
  "nearest_even num den =
     (let q = num div den; r = num mod den
      in if 2 * r < den \<or> 2 * r = den \<and> even q then q else q + 1)"

definition f_round :: "int \<Rightarrow> int \<Rightarrow> f64" where
  "f_round a b =
     (if a = 0 then (0, 0)
      else
        (let e = bit_len a - bit_len b;
             k = (if b * 2 ^ nat e \<le> a * 2 ^ nat (- e) then e - 52 else e - 53)
         in (nearest_even (a * 2 ^ nat (- k)) (b * 2 ^ nat k), k)))"

definition f_of_int :: "int \<Rightarrow> f64" where
  "f_of_int n = f_round n 1"

definition f_div :: "f64 \<Rightarrow> f64 \<Rightarrow> f64" where
  "f_div x y = (let (m, e) = f_round (fst x) (fst y) in (m, e + snd x - snd y))"

definition f_mul :: "f64 \<Rightarrow> f64 \<Rightarrow> f64" where
  "f_mul x y = (let (m, e) = f_round (fst x * fst y) 1 in (m, e + snd x + snd y))"

text \<open>The conversion to an integer, which cuts the fraction off.\<close>

definition f_trunc :: "f64 \<Rightarrow> int" where
  "f_trunc x = (if snd x \<ge> 0 then fst x * 2 ^ nat (snd x) else fst x div 2 ^ nat (- snd x))"

section \<open>Parsing\<close>

datatype duration_error = ErrInvalidDuration | ErrMissingUnit | ErrUnknownUnit string | ErrNotScalar string

definition micro_sign :: string where
  "micro_sign = [CHR 0xC2, CHR 0xB5]"

definition greek_mu :: string where
  "greek_mu = [CHR 0xCE, CHR 0xBC]"

definition unitMap :: "(string \<times> int) list" where
  "unitMap = [(''ns'', 1), (''us'', 1000), (micro_sign @ ''s'', 1000), (greek_mu @ ''s'', 1000), (''ms'', 1000000),
     (''s'', 1000000000), (''m'', 60000000000), (''h'', 3600000000000), (''d'', 86400000000000),
     (''w'', 604800000000000)]"

fun leadingInt_loop :: "int \<Rightarrow> string \<Rightarrow> (int \<times> string) option" where
  "leadingInt_loop x [] = Some (x, [])"
| "leadingInt_loop x (c # s) =
     (if \<not> is_digit c then Some (x, c # s)
      else if x > (2 ^ 63 - 1) div 10 then None
      else
        (let x = wrap64 (x * 10 + int (byte c) - 48)
         in if x < 0 then None else leadingInt_loop x s))"

definition leadingInt :: "string \<Rightarrow> (int \<times> string) option" where
  "leadingInt s = leadingInt_loop 0 s"

fun leadingFraction_loop :: "int \<Rightarrow> f64 \<Rightarrow> bool \<Rightarrow> string \<Rightarrow> int \<times> f64 \<times> string" where
  "leadingFraction_loop x scale overflow [] = (x, scale, [])"
| "leadingFraction_loop x scale overflow (c # s) =
     (if \<not> is_digit c then (x, scale, c # s)
      else if overflow then leadingFraction_loop x scale overflow s
      else if x > (2 ^ 63 - 1) div 10 then leadingFraction_loop x scale True s
      else
        (let y = wrap64 (x * 10 + int (byte c) - 48)
         in if y < 0 then leadingFraction_loop x scale True s
            else leadingFraction_loop y (f_mul scale (f_of_int 10)) overflow s))"

definition leadingFraction :: "string \<Rightarrow> int \<times> f64 \<times> string" where
  "leadingFraction s = leadingFraction_loop 0 (f_of_int 1) False s"

definition unit_char :: "char \<Rightarrow> bool" where
  "unit_char c = (c \<noteq> CHR ''.'' \<and> \<not> is_digit c)"

text \<open>One round of the loop: the nanoseconds of a number with its unit, and the rest of the text.\<close>

definition add_fraction :: "int \<Rightarrow> int \<Rightarrow> f64 \<Rightarrow> int \<Rightarrow> int" where
  "add_fraction v f scale unit = wrap64 (v + f_trunc (f_mul (f_of_int f) (f_div (f_of_int unit) scale)))"

definition scaled :: "int \<Rightarrow> int \<Rightarrow> f64 \<Rightarrow> int \<Rightarrow> duration_error + int" where
  "scaled v f scale unit =
     (if v > (2 ^ 63 - 1) div unit then Inl ErrInvalidDuration
      else
        (let v = wrap64 (v * unit)
         in if f > 0 then
              (let v = add_fraction v f scale unit in if v < 0 then Inl ErrInvalidDuration else Inr v)
            else Inr v))"

definition with_unit :: "int \<Rightarrow> int \<Rightarrow> f64 \<Rightarrow> string \<Rightarrow> duration_error + int \<times> string" where
  "with_unit v f scale s =
     (let u = takeWhile unit_char s; rest = dropWhile unit_char s
      in if u = '''' then Inl ErrMissingUnit
         else (case map_of unitMap u of
                 None \<Rightarrow> Inl (ErrUnknownUnit u)
               | Some unit \<Rightarrow> (case scaled v f scale unit of Inl e \<Rightarrow> Inl e | Inr v \<Rightarrow> Inr (v, rest))))"

definition parse_component :: "string \<Rightarrow> duration_error + int \<times> string" where
  "parse_component s =
     (if hd s \<noteq> CHR ''.'' \<and> \<not> is_digit (hd s) then Inl ErrInvalidDuration
      else (case leadingInt s of
              None \<Rightarrow> Inl ErrInvalidDuration
            | Some (v, s1) \<Rightarrow>
                (let pre = (length s \<noteq> length s1);
                     dot = (s1 \<noteq> '''' \<and> hd s1 = CHR ''.'');
                     (f, scale, s2) = (if dot then leadingFraction (tl s1) else (0, f_of_int 1, s1));
                     post = (dot \<and> length (tl s1) \<noteq> length s2)
                 in if \<not> pre \<and> \<not> post then Inl ErrInvalidDuration else with_unit v f scale s2)))"

text \<open>Each round consumes some of the text.\<close>

lemma leadingInt_loop_shorter: "leadingInt_loop x s = Some (v, t) \<Longrightarrow> length t \<le> length s"
  by (induction x s rule: leadingInt_loop.induct) (auto simp: Let_def split: if_splits)

lemma leadingFraction_loop_shorter: "leadingFraction_loop x sc b s = (f, sc', t) \<Longrightarrow> length t \<le> length s"
  by (induction x sc b s rule: leadingFraction_loop.induct) (auto simp: Let_def split: if_splits)

lemma with_unit_shorter: "with_unit v f sc s = Inr (w, t) \<Longrightarrow> length t < length s"
proof -
  assume a: "with_unit v f sc s = Inr (w, t)"
  then have "takeWhile unit_char s \<noteq> []" "t = dropWhile unit_char s"
    by (auto simp: with_unit_def Let_def split: if_splits option.splits sum.splits)
  then show ?thesis
    by (metis append.left_neutral length_append length_greater_0_conv less_add_same_cancel2 takeWhile_dropWhile_id)
qed

lemma parse_component_shorter: "parse_component s = Inr (v, t) \<Longrightarrow> length t < length s"
proof -
  assume a: "parse_component s = Inr (v, t)"
  then obtain i s1 where i: "leadingInt s = Some (i, s1)"
    by (auto simp: parse_component_def split: if_splits option.splits)
  have le: "length s1 \<le> length s" using i leadingInt_loop_shorter by (simp add: leadingInt_def)
  obtain f sc s2 where f: "(if s1 \<noteq> '''' \<and> hd s1 = CHR ''.'' then leadingFraction (tl s1) else (0, f_of_int 1, s1)) = (f, sc, s2)"
    by (metis prod.exhaust)
  have le2: "length s2 \<le> length s1"
  proof (cases "s1 \<noteq> '''' \<and> hd s1 = CHR ''.''")
    case True
    then have "leadingFraction_loop 0 (f_of_int 1) False (tl s1) = (f, sc, s2)" using f by (simp add: leadingFraction_def)
    from leadingFraction_loop_shorter [OF this] have "length s2 \<le> length (tl s1)" .
    then show ?thesis by simp
  next
    case False
    then show ?thesis using f by auto
  qed
  have "with_unit i f sc s2 = Inr (v, t)"
    using a f i unfolding parse_component_def Let_def by (simp split: if_splits)
  then show ?thesis using with_unit_shorter le le2 by fastforce
qed

function components_loop :: "int \<Rightarrow> string \<Rightarrow> duration_error + int" where
  "components_loop d s =
     (if s = '''' then Inr d
      else (case parse_component s of
              Inl e \<Rightarrow> Inl e
            | Inr (v, t) \<Rightarrow>
                (let d = wrap64 (d + v) in if d < 0 then Inl ErrInvalidDuration else components_loop d t)))"
  by pat_completeness auto
termination
  by (relation "measure (\<lambda>(d, s). length s)") (auto dest: parse_component_shorter)

declare components_loop.simps [simp del]

definition parseDuration :: "string \<Rightarrow> duration_error + int" where
  "parseDuration orig =
     (let neg = (orig \<noteq> '''' \<and> hd orig = CHR ''-'');
          s = (if orig \<noteq> '''' \<and> (hd orig = CHR ''-'' \<or> hd orig = CHR ''+'') then tl orig else orig)
      in if s = ''0'' then Inr 0
         else if s = '''' then Inl ErrInvalidDuration
         else (case components_loop 0 s of
                 Inl e \<Rightarrow> Inl e
               | Inr d \<Rightarrow> Inr (if neg then wrap64 (- d) else d)))"

section \<open>The reference: unbounded integers and range checks\<close>

text \<open>
  The same grammar read with unbounded integers that are compared with the largest number allowed. With 2 to
  the 63 and without days and weeks this is \<open>time.ParseDuration\<close>, whose \<open>uint64\<close> arithmetic compares instead of
  wrapping.
\<close>

fun ranged_int :: "int \<Rightarrow> int \<Rightarrow> string \<Rightarrow> (int \<times> string) option" where
  "ranged_int bound x [] = Some (x, [])"
| "ranged_int bound x (c # s) =
     (if \<not> is_digit c then Some (x, c # s)
      else if x * 10 + int (byte c) - 48 > bound then None
      else ranged_int bound (x * 10 + int (byte c) - 48) s)"

fun ranged_fraction :: "int \<Rightarrow> int \<Rightarrow> f64 \<Rightarrow> bool \<Rightarrow> string \<Rightarrow> int \<times> f64 \<times> string" where
  "ranged_fraction bound x scale overflow [] = (x, scale, [])"
| "ranged_fraction bound x scale overflow (c # s) =
     (if \<not> is_digit c then (x, scale, c # s)
      else if overflow \<or> x * 10 + int (byte c) - 48 > bound then ranged_fraction bound x scale True s
      else ranged_fraction bound (x * 10 + int (byte c) - 48) (f_mul scale (f_of_int 10)) overflow s)"

definition fraction_part :: "int \<Rightarrow> f64 \<Rightarrow> int \<Rightarrow> int" where
  "fraction_part f scale unit = (if f > 0 then f_trunc (f_mul (f_of_int f) (f_div (f_of_int unit) scale)) else 0)"

definition ranged_unit :: "int \<Rightarrow> (string \<times> int) list \<Rightarrow> int \<Rightarrow> int \<Rightarrow> f64 \<Rightarrow> string \<Rightarrow> duration_error + int \<times> string" where
  "ranged_unit bound units v f scale s =
     (let u = takeWhile unit_char s; rest = dropWhile unit_char s
      in if u = '''' then Inl ErrMissingUnit
         else (case map_of units u of
                 None \<Rightarrow> Inl (ErrUnknownUnit u)
               | Some unit \<Rightarrow>
                   (if v * unit + fraction_part f scale unit > bound then Inl ErrInvalidDuration
                    else Inr (v * unit + fraction_part f scale unit, rest))))"

definition ranged_component :: "int \<Rightarrow> (string \<times> int) list \<Rightarrow> string \<Rightarrow> duration_error + int \<times> string" where
  "ranged_component bound units s =
     (if hd s \<noteq> CHR ''.'' \<and> \<not> is_digit (hd s) then Inl ErrInvalidDuration
      else (case ranged_int bound 0 s of
              None \<Rightarrow> Inl ErrInvalidDuration
            | Some (v, s1) \<Rightarrow>
                (let pre = (length s \<noteq> length s1);
                     dot = (s1 \<noteq> '''' \<and> hd s1 = CHR ''.'');
                     (f, scale, s2) = (if dot then ranged_fraction bound 0 (f_of_int 1) False (tl s1) else (0, f_of_int 1, s1));
                     post = (dot \<and> length (tl s1) \<noteq> length s2)
                 in if \<not> pre \<and> \<not> post then Inl ErrInvalidDuration else ranged_unit bound units v f scale s2)))"

text \<open>The fuel is the number of rounds left; every round consumes some of the text.\<close>

fun ranged_loop :: "nat \<Rightarrow> int \<Rightarrow> (string \<times> int) list \<Rightarrow> int \<Rightarrow> string \<Rightarrow> duration_error + int" where
  "ranged_loop 0 bound units d s = (if s = '''' then Inr d else Inl ErrInvalidDuration)"
| "ranged_loop (Suc n) bound units d s =
     (if s = '''' then Inr d
      else (case ranged_component bound units s of
              Inl e \<Rightarrow> Inl e
            | Inr (v, t) \<Rightarrow> if d + v > bound then Inl ErrInvalidDuration else ranged_loop n bound units (d + v) t))"

definition ranged_ParseDuration :: "int \<Rightarrow> (string \<times> int) list \<Rightarrow> string \<Rightarrow> duration_error + int" where
  "ranged_ParseDuration bound units orig =
     (let neg = (orig \<noteq> '''' \<and> hd orig = CHR ''-'');
          s = (if orig \<noteq> '''' \<and> (hd orig = CHR ''-'' \<or> hd orig = CHR ''+'') then tl orig else orig)
      in if s = ''0'' then Inr 0
         else if s = '''' then Inl ErrInvalidDuration
         else (case ranged_loop (length s) bound units 0 s of
                 Inl e \<Rightarrow> Inl e
               | Inr d \<Rightarrow> if neg then Inr (- d) else if d > max_int64 then Inl ErrInvalidDuration else Inr d))"

section \<open>The standard functions and the JSON form\<close>

definition std_unitMap :: "(string \<times> int) list" where
  "std_unitMap = [(''ns'', 1), (''us'', 1000), (micro_sign @ ''s'', 1000), (greek_mu @ ''s'', 1000), (''ms'', 1000000),
     (''s'', 1000000000), (''m'', 60000000000), (''h'', 3600000000000)]"

definition time_ParseDuration :: "string \<Rightarrow> duration_error + int" where
  "time_ParseDuration = ranged_ParseDuration (2 ^ 63) std_unitMap"

text \<open>
  \<open>Duration.String\<close> of the standard library. \<open>fmt_frac\<close> prints the last digits of a number as a fraction without
  trailing zeros, before the text already printed, and gives what is left of the number.
\<close>

fun fmt_frac :: "nat \<Rightarrow> nat \<Rightarrow> bool \<Rightarrow> string \<Rightarrow> string \<times> nat" where
  "fmt_frac v 0 prnt acc = (if prnt then CHR ''.'' # acc else acc, v)"
| "fmt_frac v (Suc p) prnt acc =
     (let digit = v mod 10; prnt = (prnt \<or> digit \<noteq> 0)
      in fmt_frac (v div 10) p prnt (if prnt then char_of (48 + digit) # acc else acc))"

definition fmt_number :: "nat \<Rightarrow> nat \<Rightarrow> string \<Rightarrow> string" where
  "fmt_number u prec unit = (let (frac, n) = fmt_frac u prec False [] in nat_digits n @ frac @ unit)"

definition duration_digits :: "nat \<Rightarrow> string" where
  "duration_digits u =
     (if u < 1000000000 then
        (if u = 0 then ''0s''
         else if u < 1000 then fmt_number u 0 ''ns''
         else if u < 1000000 then fmt_number u 3 (micro_sign @ ''s'')
         else fmt_number u 6 ''ms'')
      else
        (let (frac, secs) = fmt_frac u 9 False [];
             txt = nat_digits (secs mod 60) @ frac @ ''s'';
             mins = secs div 60;
             hours = mins div 60
         in if mins = 0 then txt
            else if hours = 0 then nat_digits (mins mod 60) @ ''m'' @ txt
            else nat_digits hours @ ''h'' @ nat_digits (mins mod 60) @ ''m'' @ txt))"

definition Duration_String :: "int \<Rightarrow> string" where
  "Duration_String d = (if d < 0 then CHR ''-'' # duration_digits (nat (- d)) else duration_digits (nat d))"

definition ParseDuration :: "string \<Rightarrow> duration_error + int" where
  "ParseDuration s = (case time_ParseDuration s of Inr dur \<Rightarrow> Inr dur | Inl err \<Rightarrow> parseDuration s)"

text \<open>\<open>json.Marshal\<close> of a text that needs no escapes puts it between quotes.\<close>

definition Duration_MarshalJSON :: "int \<Rightarrow> string" where
  "Duration_MarshalJSON d = CHR 0x22 # Duration_String d @ [CHR 0x22]"

text \<open>The second argument is the value before.\<close>

definition Duration_UnmarshalJSON :: "string \<Rightarrow> int \<Rightarrow> duration_error + int" where
  "Duration_UnmarshalJSON bs d =
     (if length bs \<le> 2 then Inr d
      else (case ParseDuration (take (length bs - 2) (drop 1 bs)) of Inl err \<Rightarrow> Inl err | Inr dur \<Rightarrow> Inr dur))"

text \<open>A YAML node: whether it is a scalar, its value and its tag.\<close>

definition Duration_UnmarshalYAML :: "bool \<Rightarrow> string \<Rightarrow> string \<Rightarrow> duration_error + int" where
  "Duration_UnmarshalYAML is_scalar val tag = (if is_scalar then ParseDuration val else Inl (ErrNotScalar tag))"

definition Duration_MarshalYAML :: "int \<Rightarrow> string" where
  "Duration_MarshalYAML d = Duration_String d"

end
