(* ===== verification/DurationFacts.thy ===== *)
theory DurationFacts
  imports Complex_Main Durations
begin

text \<open>
  What the parsing of durations computes: the \<open>int64\<close> checks are exact range checks, and the JSON form of every
  duration is read back.
\<close>

section \<open>Floats\<close>

definition val :: "f64 \<Rightarrow> real" where
  "val x = of_int (fst x) * 2 powr of_int (snd x)"

lemma bit_len_bounds: "n > 0 \<Longrightarrow> bit_len n \<ge> 1 \<and> 2 ^ nat (bit_len n - 1) \<le> n \<and> n < 2 ^ nat (bit_len n)"
proof (induction n rule: bit_len.induct)
  case (1 n)
  show ?case
  proof (cases "n = 1")
    case True
    have "bit_len 0 = 0" by (simp add: bit_len.simps)
    then have "bit_len 1 = 1" by (subst bit_len.simps) simp
    then show ?thesis using True by simp
  next
    case False
    then have half: "n div 2 > 0" using 1(2) by simp
    then have IH: "bit_len (n div 2) \<ge> 1" "2 ^ nat (bit_len (n div 2) - 1) \<le> n div 2" "n div 2 < 2 ^ nat (bit_len (n div 2))"
      using 1 by auto
    have b: "bit_len n = 1 + bit_len (n div 2)" using 1(2) by (subst bit_len.simps) simp
    have "nat (bit_len n - 1) = Suc (nat (bit_len (n div 2) - 1))" "nat (bit_len n) = Suc (nat (bit_len (n div 2)))"
      using IH(1) by (simp_all add: b)
    moreover have "2 * (n div 2) \<le> n" "n < 2 * (n div 2) + 2" by simp_all
    ultimately show ?thesis using IH b by (simp del: One_nat_def)
  qed
qed

lemma two_powr: "0 \<le> k \<Longrightarrow> (2::real) ^ nat k = 2 powr of_int k"
  using powr_realpow [of 2 "nat k"] by simp

lemma scaled_quotient:
  "of_int (a * 2 ^ nat (- k)) / of_int (b * 2 ^ nat k) = (of_int a / of_int b * 2 powr - of_int k :: real)"
proof (cases "0 \<le> k")
  case True
  then have "(2::real) ^ nat k = 2 powr of_int k" "nat (- k) = 0" by (simp_all add: two_powr)
  then show ?thesis by (simp add: powr_minus field_simps)
next
  case False
  then have "(2::real) ^ nat (- k) = 2 powr of_int (- k)" "nat k = 0" by (simp_all add: two_powr del: of_int_minus)
  then show ?thesis by simp
qed

lemma nearest_even_bounds:
  assumes "0 < den" "den \<le> num"
  shows "of_int (nearest_even num den) \<le> 2 * (of_int num / of_int den :: real)"
    "of_int num / of_int den \<le> 2 * (of_int (nearest_even num den) :: real)" "1 \<le> nearest_even num den"
proof -
  define q where "q = num div den"
  have q1: "1 \<le> q" using assms by (simp add: q_def pos_imp_zdiv_pos_iff int_one_le_iff_zero_less)
  have "q = \<lfloor>of_int num / of_int den :: real\<rfloor>" by (simp add: q_def floor_divide_of_int_eq)
  then have x: "of_int q \<le> (of_int num / of_int den :: real)" "(of_int num / of_int den :: real) \<le> of_int q + 1"
    by linarith+
  have n: "nearest_even num den = q \<or> nearest_even num den = q + 1" by (auto simp: nearest_even_def Let_def q_def)
  have "1 \<le> (of_int q :: real)" using q1 by simp
  then show "of_int (nearest_even num den) \<le> 2 * (of_int num / of_int den :: real)"
    "of_int num / of_int den \<le> 2 * (of_int (nearest_even num den) :: real)"
    using n x by auto
  show "1 \<le> nearest_even num den" using n q1 by auto
qed

lemma f_round_quotient:
  assumes "0 < a" "0 < b"
  obtains k where "f_round a b = (nearest_even (a * 2 ^ nat (- k)) (b * 2 ^ nat k), k)"
    "b * 2 ^ nat k \<le> a * 2 ^ nat (- k)" "0 < b * 2 ^ nat k" "k \<le> bit_len a - bit_len b - 52"
proof -
  define e where "e = bit_len a - bit_len b"
  define k where "k = (if b * 2 ^ nat e \<le> a * 2 ^ nat (- e) then e - 52 else e - 53)"
  have k: "k \<le> e - 52" by (simp add: k_def)
  have r: "f_round a b = (nearest_even (a * 2 ^ nat (- k)) (b * 2 ^ nat k), k)"
    using assms by (simp add: f_round_def Let_def e_def [symmetric] k_def [symmetric])
  have bl: "1 \<le> bit_len a" "1 \<le> bit_len b" using bit_len_bounds assms by blast+
  have "2 ^ nat (bit_len a - 1) \<le> (of_int a :: real)"
    using bit_len_bounds [OF assms(1)] by (metis of_int_le_iff of_int_numeral of_int_power)
  then have a: "2 powr of_int (bit_len a - 1) \<le> (of_int a :: real)" using bl by (simp add: two_powr del: of_int_diff)
  have "(of_int b :: real) < 2 ^ nat (bit_len b)"
    using bit_len_bounds [OF assms(2)] by (metis of_int_less_iff of_int_numeral of_int_power)
  then have b: "(of_int b :: real) < 2 powr of_int (bit_len b)" using bl by (simp add: two_powr)
  have "2 powr of_int k * (of_int b :: real) \<le> 2 powr of_int k * 2 powr of_int (bit_len b)" using b by simp
  also have "\<dots> = 2 powr (of_int k + of_int (bit_len b))" by (simp add: powr_add)
  also have "\<dots> \<le> 2 powr of_int (bit_len a - 1)" using k unfolding e_def by (intro powr_mono) simp_all
  also have "\<dots> \<le> of_int a" by (rule a)
  finally have "1 \<le> of_int a / of_int b * 2 powr - (of_int k :: real)"
    using assms(2) by (simp add: powr_minus field_simps)
  then have "(1::real) \<le> of_int (a * 2 ^ nat (- k)) / of_int (b * 2 ^ nat k)" by (simp only: scaled_quotient)
  moreover have den: "0 < b * 2 ^ nat k" using assms(2) by simp
  ultimately have "(of_int (b * 2 ^ nat k) :: real) \<le> of_int (a * 2 ^ nat (- k))"
    by (metis le_divide_eq_1_pos of_int_0_less_iff)
  then have "b * 2 ^ nat k \<le> a * 2 ^ nat (- k)" by (simp only: of_int_le_iff)
  then show ?thesis using that r den k by (simp add: e_def)
qed

lemma f_round_bounds:
  assumes "0 < a" "0 < b"
  shows "val (f_round a b) \<le> 2 * (of_int a / of_int b)" "of_int a / of_int b \<le> 2 * val (f_round a b)"
    "1 \<le> fst (f_round a b)"
proof -
  obtain k where k: "f_round a b = (nearest_even (a * 2 ^ nat (- k)) (b * 2 ^ nat k), k)"
    "b * 2 ^ nat k \<le> a * 2 ^ nat (- k)" "0 < b * 2 ^ nat k"
    using f_round_quotient [OF assms] by blast
  note n = nearest_even_bounds [OF k(3,2), unfolded scaled_quotient]
  have "(2::real) powr - of_int k * 2 powr of_int k = 1" by (simp add: powr_minus)
  then have c: "x * 2 powr - of_int k * 2 powr of_int k = x" for x :: real by (simp add: mult.assoc)
  have "0 < (2::real) powr of_int k" by simp
  then show "val (f_round a b) \<le> 2 * (of_int a / of_int b)"
    using mult_right_mono [OF n(1), of "2 powr of_int k"] by (simp only: val_def k(1) fst_conv snd_conv c mult.assoc [symmetric])
  show "of_int a / of_int b \<le> 2 * val (f_round a b)"
  proof -
    have "0 \<le> (2::real) powr of_int k" by simp
    from mult_right_mono [OF n(2) this] show ?thesis
      by (simp only: val_def k(1) fst_conv snd_conv c mult.assoc [symmetric])
  qed
  show "1 \<le> fst (f_round a b)" using n(3) by (simp add: k(1))
qed

text \<open>Rounding at most doubles or halves a number; that is all the range checks need.\<close>

lemma f_of_int_bounds:
  assumes "0 < n"
  shows "val (f_of_int n) \<le> 2 * of_int n" "1 \<le> fst (f_of_int n)"
  using f_round_bounds [of n 1] assms by (simp_all add: f_of_int_def)

lemma powr_moved: "c * 2 powr of_int (e + i + j) = (c * 2 powr of_int e) * 2 powr of_int i * (2 powr of_int j :: real)"
  by (simp add: powr_add)

lemma f_mul_bounds:
  assumes "1 \<le> fst x" "1 \<le> fst y"
  shows "val (f_mul x y) \<le> 2 * (val x * val y)" "val x * val y \<le> 2 * val (f_mul x y)" "1 \<le> fst (f_mul x y)"
proof -
  obtain m e where r: "f_round (fst x * fst y) 1 = (m, e)" by (metis prod.exhaust)
  have pos: "0 < fst x * fst y" using assms by simp
  note b = f_round_bounds [OF pos zero_less_one, unfolded r]
  have v: "val (f_mul x y) = val (m, e) * (2 powr of_int (snd x) * 2 powr of_int (snd y))"
    by (simp add: f_mul_def r val_def powr_add)
  have xy: "val x * val y = of_int (fst x * fst y) * (2 powr of_int (snd x) * 2 powr of_int (snd y))" by (simp add: val_def)
  have p: "0 \<le> (2::real) powr of_int (snd x) * 2 powr of_int (snd y)" by simp
  show "val (f_mul x y) \<le> 2 * (val x * val y)"
    unfolding v xy using mult_right_mono [OF b(1) p] by simp
  show "val x * val y \<le> 2 * val (f_mul x y)"
    unfolding v xy using mult_right_mono [OF b(2) p] by simp
  show "1 \<le> fst (f_mul x y)" using b(3) by (simp add: f_mul_def r)
qed

lemma f_div_bounds:
  assumes "1 \<le> fst x" "1 \<le> fst y"
  shows "val (f_div x y) \<le> 2 * (val x / val y)" "1 \<le> fst (f_div x y)"
proof -
  obtain m e where r: "f_round (fst x) (fst y) = (m, e)" by (metis prod.exhaust)
  have pos: "0 < fst x" "0 < fst y" using assms by simp_all
  note b = f_round_bounds [OF pos, unfolded r]
  have v: "val (f_div x y) = val (m, e) * (2 powr of_int (snd x) * 2 powr - of_int (snd y))"
    by (simp add: f_div_def r val_def powr_add powr_diff powr_minus field_simps)
  have xy: "val x / val y = of_int (fst x) / of_int (fst y) * (2 powr of_int (snd x) * 2 powr - of_int (snd y))"
    by (simp add: val_def powr_minus field_simps)
  have p: "0 \<le> (2::real) powr of_int (snd x) * 2 powr - of_int (snd y)" by simp
  show "val (f_div x y) \<le> 2 * (val x / val y)"
    unfolding v xy using mult_right_mono [OF b(1) p] by simp
  show "1 \<le> fst (f_div x y)" using b(3) by (simp add: f_div_def r)
qed

lemma val_pos: "1 \<le> fst x \<Longrightarrow> 0 < val x"
  by (simp add: val_def)

lemma f_trunc_bounds:
  assumes "1 \<le> fst x"
  shows "0 \<le> f_trunc x" "of_int (f_trunc x) \<le> val x"
proof -
  show "0 \<le> f_trunc x" using assms by (simp add: f_trunc_def pos_imp_zdiv_nonneg_iff)
  show "of_int (f_trunc x) \<le> val x"
  proof (cases "0 \<le> snd x")
    case True
    then show ?thesis by (simp add: f_trunc_def val_def two_powr)
  next
    case False
    then have "(2::real) ^ nat (- snd x) = 2 powr of_int (- snd x)" by (intro two_powr) simp
    then have p: "(2::real) powr of_int (snd x) = 1 / 2 ^ nat (- snd x)" by (simp add: powr_minus field_simps)
    have "of_int (fst x div 2 ^ nat (- snd x)) \<le> (of_int (fst x) / of_int (2 ^ nat (- snd x)) :: real)"
      by (rule real_of_int_div4)
    then show ?thesis using False by (simp add: f_trunc_def val_def p)
  qed
qed

section \<open>Scales\<close>

text \<open>The scale after reading n digits is exact up to 19 digits, and not smaller afterwards.\<close>

definition scale_n :: "nat \<Rightarrow> f64" where
  "scale_n n = ((\<lambda>sc. f_mul sc (f_of_int 10)) ^^ n) (f_of_int 1)"

lemma scale_0: "scale_n 0 = f_of_int 1"
  by (simp add: scale_n_def)

lemma scale_Suc: "scale_n (Suc n) = f_mul (scale_n n) (f_of_int 10)"
  by (simp add: scale_n_def)

fun scales :: "nat \<Rightarrow> f64 \<Rightarrow> f64 list" where
  "scales 0 sc = []"
| "scales (Suc n) sc = sc # scales n (f_mul sc (f_of_int 10))"

lemma scales_nth: "k < n \<Longrightarrow> scales n (scale_n i) ! k = scale_n (i + k)"
proof (induction n arbitrary: i k)
  case (Suc n)
  then show ?case
    using Suc.IH [of "k - 1" "Suc i"] by (cases k) (simp_all flip: scale_Suc)
qed simp

definition exact_power :: "nat \<Rightarrow> f64 \<Rightarrow> bool" where
  "exact_power k sc = (fst sc * 2 ^ nat (snd sc) = 10 ^ k * 2 ^ nat (- snd sc) \<and> 1 \<le> fst sc)"

lemma scales_exact: "list_all2 exact_power [0..<20] (scales 20 (f_of_int 1))"
  by code_simp

lemma scale_exact: "k \<le> 19 \<Longrightarrow> val (scale_n k) = 10 ^ k \<and> 1 \<le> fst (scale_n k)"
proof -
  assume k: "k \<le> 19"
  have "length [0..<20::nat] = 20" by simp
  then have "exact_power ([0..<20] ! k) (scales 20 (scale_n 0) ! k)"
    using list_all2_nthD [OF scales_exact, of k] k by (simp add: scale_0)
  then have ex: "exact_power k (scale_n k)" using k scales_nth [of k 20 0] by simp
  define m e where "m = fst (scale_n k)" and "e = snd (scale_n k)"
  have "of_int (m * 2 ^ nat e) = (of_int (10 ^ k * 2 ^ nat (- e)) :: real)" using ex by (simp add: exact_power_def m_def e_def)
  moreover have "(2::real) powr of_int e = 2 ^ nat e / 2 ^ nat (- e)"
    using two_powr [of e] two_powr [of "- e"] by (cases "0 \<le> e") (simp_all add: powr_minus field_simps)
  ultimately have "val (scale_n k) = 10 ^ k" by (simp add: val_def m_def [symmetric] e_def [symmetric])
  then show ?thesis using ex by (simp add: exact_power_def)
qed

lemma scale_large: "val (scale_n (19 + k)) \<ge> 10 ^ 19 \<and> 1 \<le> fst (scale_n (19 + k))"
proof (induction k)
  case 0
  then show ?case using scale_exact [of 19] by simp
next
  case (Suc k)
  have ten: "val (f_of_int 10) = 10" "1 \<le> fst (f_of_int 10)"
    using f_of_int_bounds [of 10] by (code_simp, simp)
  show ?case
    using Suc f_mul_bounds [of "scale_n (19 + k)" "f_of_int 10"] ten unfolding add_Suc_right scale_Suc by auto
qed

lemma scale_fst: "1 \<le> fst (scale_n n)"
  using scale_exact [of n] scale_large [of "n - 19"] by (cases "n \<le> 19") auto

lemma digits_below_scale:
  assumes "x < 10 ^ n" "x \<le> max_int64"
  shows "of_int x \<le> val (scale_n n)"
proof (cases "n \<le> 19")
  case True
  have "of_int x \<le> (of_int (10 ^ n) :: real)" using assms(1) by (simp only: of_int_le_iff)
  then show ?thesis using scale_exact [OF True] by simp
next
  case False
  have "of_int x \<le> (of_int max_int64 :: real)" using assms(2) by (simp only: of_int_le_iff)
  also have "\<dots> \<le> 10 ^ 19" by (simp add: max_int64_def)
  also have "\<dots> \<le> val (scale_n n)" using scale_large [of "n - 19"] False by simp
  finally show ?thesis .
qed

section \<open>The checks of the code\<close>

lemma digit_range: "is_digit c \<Longrightarrow> 0 \<le> int (byte c) - 48 \<and> int (byte c) - 48 \<le> 9"
  by (auto simp: is_digit_def)

text \<open>A result that wraps around is negative.\<close>

lemma wrap64_check:
  assumes "0 \<le> z" "z < 2 ^ 64"
  shows "wrap64 z < 0 \<longleftrightarrow> z > max_int64" "z \<le> max_int64 \<Longrightarrow> wrap64 z = z"
proof -
  have low: "wrap64 z = z" if "z < 2 ^ 63"
    using assms(1) that by (simp add: wrap64_def mod_pos_pos_trivial)
  have high: "wrap64 z = z - 2 ^ 64" if "2 ^ 63 \<le> z"
  proof -
    have "z + 2 ^ 63 = (z - 2 ^ 63) + 2 ^ 64" by simp
    then have "(z + 2 ^ 63) mod 2 ^ 64 = (z - 2 ^ 63) mod 2 ^ 64" by (metis mod_add_self2)
    then show ?thesis using assms(2) that by (simp add: wrap64_def mod_pos_pos_trivial)
  qed
  show "wrap64 z < 0 \<longleftrightarrow> z > max_int64" "z \<le> max_int64 \<Longrightarrow> wrap64 z = z"
    using low high assms by (cases "z < 2 ^ 63"; simp add: max_int64_def)+
qed

lemma next_digit:
  assumes "0 \<le> x" "x \<le> (2 ^ 63 - 1) div 10" "is_digit c"
  shows "wrap64 (x * 10 + int (byte c) - 48) < 0 \<longleftrightarrow> x * 10 + int (byte c) - 48 > max_int64"
    "x * 10 + int (byte c) - 48 \<le> max_int64 \<Longrightarrow> wrap64 (x * 10 + int (byte c) - 48) = x * 10 + int (byte c) - 48"
    "0 \<le> x * 10 + int (byte c) - 48"
proof -
  have "0 \<le> x * 10 + int (byte c) - 48" "x * 10 + int (byte c) - 48 < 2 ^ 64"
    using digit_range [OF assms(3)] assms(1,2) by simp_all
  then show "wrap64 (x * 10 + int (byte c) - 48) < 0 \<longleftrightarrow> x * 10 + int (byte c) - 48 > max_int64"
    "x * 10 + int (byte c) - 48 \<le> max_int64 \<Longrightarrow> wrap64 (x * 10 + int (byte c) - 48) = x * 10 + int (byte c) - 48"
    "0 \<le> x * 10 + int (byte c) - 48"
    using wrap64_check by blast+
qed

lemma too_large: "is_digit c \<Longrightarrow> (2 ^ 63 - 1) div 10 < x \<Longrightarrow> x * 10 + int (byte c) - 48 > max_int64"
  using digit_range [of c] by (simp add: max_int64_def)

lemma leadingInt_ranged: "0 \<le> x \<Longrightarrow> leadingInt_loop x s = ranged_int max_int64 x s"
proof (induction s arbitrary: x)
  case (Cons c s)
  show ?case
  proof (cases "is_digit c \<and> x \<le> (2 ^ 63 - 1) div 10")
    case True
    note d = next_digit [of x c]
    show ?thesis
      using True d Cons by (cases "x * 10 + int (byte c) - 48 > max_int64") (simp_all add: Let_def)
  next
    case False
    then show ?thesis using too_large [of c x] by (auto simp: not_le)
  qed
qed simp

lemma ranged_int_nonneg: "ranged_int bound x s = Some (v, t) \<Longrightarrow> 0 \<le> x \<Longrightarrow> 0 \<le> v"
proof (induction bound x s rule: ranged_int.induct)
  case (2 bound x c s)
  then show ?case using digit_range [of c] by (auto split: if_splits)
qed simp

lemma ranged_int_bounded: "ranged_int bound x s = Some (v, t) \<Longrightarrow> x \<le> bound \<Longrightarrow> v \<le> bound"
  by (induction bound x s rule: ranged_int.induct) (auto split: if_splits)

lemma ranged_fraction_stops: "ranged_fraction bound x sc True s = (x, sc, dropWhile is_digit s)"
  by (induction s) auto

lemma leadingFraction_ranged:
  "0 \<le> x \<Longrightarrow> leadingFraction_loop x sc b s = ranged_fraction max_int64 x sc b s"
proof (induction s arbitrary: x sc b)
  case (Cons c s)
  show ?case
  proof (cases "is_digit c \<and> \<not> b \<and> x \<le> (2 ^ 63 - 1) div 10")
    case True
    note d = next_digit [of x c]
    show ?thesis
      using True d Cons by (cases "x * 10 + int (byte c) - 48 > max_int64") (simp_all add: Let_def)
  next
    case False
    then show ?thesis using too_large [of c x] Cons by (auto simp: not_le)
  qed
qed simp

text \<open>The digits kept of a fraction are fewer than its scale.\<close>

lemma ranged_fraction_bounds:
  assumes "ranged_fraction max_int64 x (scale_n n) b s = (f, sc, t)" "0 \<le> x" "x < 10 ^ n" "x \<le> max_int64"
  shows "\<exists>k. sc = scale_n k \<and> 0 \<le> f \<and> f < 10 ^ k \<and> f \<le> max_int64"
  using assms
proof (induction s arbitrary: x n b)
  case (Cons c s)
  define y where "y = x * 10 + int (byte c) - 48"
  show ?case
  proof (cases "is_digit c \<and> \<not> b \<and> y \<le> max_int64")
    case True
    then have y: "0 \<le> y" "y < 10 ^ Suc n" using digit_range [of c] Cons.prems(2,3) by (simp_all add: y_def)
    have "ranged_fraction max_int64 y (scale_n (Suc n)) b s = (f, sc, t)"
      using Cons.prems(1) True by (simp add: scale_Suc y_def)
    from Cons.IH [OF this y] True show ?thesis by blast
  next
    case False
    then show ?thesis
      using Cons.prems ranged_fraction_stops [of max_int64 x "scale_n n" s]
      by (cases "is_digit c") (auto simp: y_def)
  qed
qed auto

lemma fraction_part_bounds:
  assumes "0 \<le> f" "of_int f \<le> val sc" "1 \<le> fst sc" "0 < unit"
  shows "0 \<le> fraction_part f sc unit" "fraction_part f sc unit \<le> 16 * unit"
proof -
  define p where "p = f_mul (f_of_int f) (f_div (f_of_int unit) sc)"
  have "0 \<le> f_trunc p \<and> f_trunc p \<le> 16 * unit" if "0 < f"
  proof -
    have x: "1 \<le> fst (f_of_int f)" "val (f_of_int f) \<le> 2 * of_int f" using f_of_int_bounds [OF that] by simp_all
    have u: "1 \<le> fst (f_of_int unit)" "val (f_of_int unit) \<le> 2 * of_int unit" using f_of_int_bounds [OF assms(4)] by simp_all
    have q: "1 \<le> fst (f_div (f_of_int unit) sc)" "val (f_div (f_of_int unit) sc) \<le> 2 * (val (f_of_int unit) / val sc)"
      using f_div_bounds [OF u(1) assms(3)] by simp_all
    have sc: "0 < val sc" by (rule val_pos [OF assms(3)])
    have "val (f_div (f_of_int unit) sc) \<le> 4 * of_int unit / val sc"
      using q(2) divide_right_mono [OF u(2), of "val sc"] sc by simp
    moreover have "0 < val (f_div (f_of_int unit) sc)" by (rule val_pos [OF q(1)])
    moreover have "0 < val (f_of_int f)" by (rule val_pos [OF x(1)])
    ultimately have "val (f_of_int f) * val (f_div (f_of_int unit) sc) \<le> (2 * of_int f) * (4 * of_int unit / val sc)"
      using x(2) that by (intro mult_mono) simp_all
    also have "\<dots> = 8 * of_int unit * (of_int f / val sc)" by simp
    also have "\<dots> \<le> 8 * of_int unit * 1" using assms(2,4) sc by (intro mult_left_mono) simp_all
    finally have le: "val (f_of_int f) * val (f_div (f_of_int unit) sc) \<le> 8 * of_int unit" by simp
    note m = f_mul_bounds [OF x(1) q(1), folded p_def]
    have "of_int (f_trunc p) \<le> val p" by (rule f_trunc_bounds(2) [OF m(3)])
    also have "\<dots> \<le> 16 * of_int unit" using m(1) le by simp
    finally show ?thesis using f_trunc_bounds(1) [OF m(3)] by simp
  qed
  then show "0 \<le> fraction_part f sc unit" "fraction_part f sc unit \<le> 16 * unit"
    using assms(4) by (simp_all add: fraction_part_def p_def)
qed

lemma unitMap_range: "map_of unitMap u = Some unit \<Longrightarrow> 0 < unit \<and> unit \<le> 604800000000000"
proof -
  assume "map_of unitMap u = Some unit"
  then have "unit \<in> snd ` set unitMap" by (metis map_of_SomeD image_eqI snd_conv)
  moreover have "\<forall>x \<in> snd ` set unitMap. 0 < x \<and> x \<le> 604800000000000" by (simp add: unitMap_def)
  ultimately show ?thesis by blast
qed

lemma div_limit: "0 < u \<Longrightarrow> v \<le> m div u \<longleftrightarrow> v * u \<le> m" for u :: int
proof
  assume u: "0 < u" and "v \<le> m div u"
  then have "v * u \<le> m div u * u" by simp
  also have "\<dots> \<le> m" using pos_mod_sign [OF u, of m] by (simp add: minus_mod_eq_div_mult [symmetric])
  finally show "v * u \<le> m" .
next
  assume u: "0 < u" and "v * u \<le> m"
  then have "v * u div u \<le> m div u" by (intro zdiv_mono1)
  then show "v \<le> m div u" using u by simp
qed

lemma scaled_ranged:
  assumes "0 \<le> v" "v \<le> max_int64" "0 < unit" "0 \<le> fraction_part f sc unit" "fraction_part f sc unit < 2 ^ 63"
  shows "scaled v f sc unit = (if v * unit + fraction_part f sc unit > max_int64 then Inl ErrInvalidDuration
    else Inr (v * unit + fraction_part f sc unit))"
proof (cases "v * unit \<le> max_int64")
  case True
  then have "\<not> v > (2 ^ 63 - 1) div unit"
    using div_limit [OF assms(3)] by (simp add: max_int64_def not_less)
  moreover have z: "0 \<le> v * unit" "v * unit < 2 ^ 64" using assms(1,3) True by (simp_all add: max_int64_def)
  moreover have "wrap64 (v * unit) = v * unit" using wrap64_check(2) [OF z] True by simp
  moreover have zf: "0 \<le> v * unit + fraction_part f sc unit" "v * unit + fraction_part f sc unit < 2 ^ 64"
    using z(1) True assms(4,5) by (simp_all add: max_int64_def)
  ultimately show ?thesis
    using wrap64_check [OF zf] True by (auto simp: scaled_def add_fraction_def fraction_part_def Let_def)
next
  case False
  then have "v > (2 ^ 63 - 1) div unit"
    using div_limit [OF assms(3), of v "2 ^ 63 - 1"] by (simp add: max_int64_def not_le)
  then show ?thesis using False assms(4) by (simp add: scaled_def)
qed

lemma with_unit_ranged:
  assumes "0 \<le> v" "v \<le> max_int64" "sc = scale_n k" "0 \<le> f" "f < 10 ^ k" "f \<le> max_int64"
  shows "with_unit v f sc s = ranged_unit max_int64 unitMap v f sc s"
proof -
  have "scaled v f sc unit = (if v * unit + fraction_part f sc unit > max_int64 then Inl ErrInvalidDuration
      else Inr (v * unit + fraction_part f sc unit))" if "map_of unitMap u = Some unit" for u unit
  proof -
    have u: "0 < unit" "unit \<le> 604800000000000" using unitMap_range [OF that] by simp_all
    have "of_int f \<le> val sc" using digits_below_scale [OF assms(5,6)] by (simp add: assms(3))
    from fraction_part_bounds [OF assms(4) this _ u(1)] have "0 \<le> fraction_part f sc unit" "fraction_part f sc unit \<le> 16 * unit"
      using scale_fst [of k] by (simp_all add: assms(3))
    then show ?thesis using u(2) by (intro scaled_ranged [OF assms(1,2) u(1)]) simp_all
  qed
  then show ?thesis
    unfolding with_unit_def ranged_unit_def Let_def by (auto split: option.splits)
qed

lemma fraction_read:
  assumes "(if s1 \<noteq> '''' \<and> hd s1 = CHR ''.'' then ranged_fraction max_int64 0 (f_of_int 1) False (tl s1)
      else (0, f_of_int 1, s1)) = (f, sc, s2)"
  shows "\<exists>k. sc = scale_n k \<and> 0 \<le> f \<and> f < 10 ^ k \<and> f \<le> max_int64"
proof (cases "s1 \<noteq> '''' \<and> hd s1 = CHR ''.''")
  case True
  then have "ranged_fraction max_int64 0 (scale_n 0) False (tl s1) = (f, sc, s2)" using assms by (simp add: scale_0)
  then show ?thesis by (rule ranged_fraction_bounds) (simp_all add: max_int64_def)
next
  case False
  then have "sc = f_of_int 1" "f = 0" using assms by auto
  then show ?thesis by (intro exI [of _ 0]) (simp add: scale_0 max_int64_def)
qed

lemma parse_component_ranged: "parse_component s = ranged_component max_int64 unitMap s"
proof (cases "ranged_int max_int64 0 s")
  case None
  then show ?thesis by (simp add: parse_component_def ranged_component_def leadingInt_def leadingInt_ranged)
next
  case (Some r)
  obtain v s1 where r: "ranged_int max_int64 0 s = Some (v, s1)" using Some by (cases r) simp
  have v: "0 \<le> v" "v \<le> max_int64"
    using ranged_int_nonneg [OF r] ranged_int_bounded [OF r] by (simp_all add: max_int64_def)
  obtain f sc s2 where f: "(if s1 \<noteq> '''' \<and> hd s1 = CHR ''.'' then leadingFraction (tl s1) else (0, f_of_int 1, s1)) = (f, sc, s2)"
    by (metis prod.exhaust)
  have lf: "leadingFraction t = ranged_fraction max_int64 0 (f_of_int 1) False t" for t
    by (simp add: leadingFraction_def leadingFraction_ranged)
  obtain k where k: "sc = scale_n k" "0 \<le> f" "f < 10 ^ k" "f \<le> max_int64"
    using fraction_read [OF f [unfolded lf]] by blast
  note w = with_unit_ranged [OF v k]
  show ?thesis
    using r f w unfolding parse_component_def ranged_component_def Let_def leadingInt_def leadingInt_ranged [OF order_refl] lf
    by simp blast
qed

lemma ranged_component_range:
  assumes "ranged_component max_int64 unitMap s = Inr (v, t)"
  shows "0 \<le> v" "v \<le> max_int64"
proof -
  obtain i s1 where i: "ranged_int max_int64 0 s = Some (i, s1)"
    using assms by (auto simp: ranged_component_def split: if_splits option.splits)
  obtain f sc s2 where f: "(if s1 \<noteq> '''' \<and> hd s1 = CHR ''.'' then ranged_fraction max_int64 0 (f_of_int 1) False (tl s1)
      else (0, f_of_int 1, s1)) = (f, sc, s2)"
    by (metis prod.exhaust)
  obtain k where k: "sc = scale_n k" "0 \<le> f" "f < 10 ^ k" "f \<le> max_int64" using fraction_read [OF f] by blast
  have "ranged_unit max_int64 unitMap i f sc s2 = Inr (v, t)"
    using assms f i unfolding ranged_component_def Let_def by (simp split: if_splits)
  then obtain u unit where u: "map_of unitMap u = Some unit" "v = i * unit + fraction_part f sc unit" "v \<le> max_int64"
    by (auto simp: ranged_unit_def Let_def split: if_splits option.splits)
  show "v \<le> max_int64" by (rule u(3))
  have "0 < unit" using unitMap_range [OF u(1)] by simp
  moreover have "0 \<le> i" using ranged_int_nonneg [OF i] by simp
  moreover have "0 \<le> fraction_part f sc unit"
    using fraction_part_bounds(1) [OF k(2) _ _ calculation(1)] digits_below_scale [OF k(3,4)] scale_fst [of k] by (simp add: k(1))
  ultimately show "0 \<le> v" by (simp add: u(2))
qed

lemma components_loop_ranged:
  "length s \<le> n \<Longrightarrow> 0 \<le> d \<Longrightarrow> d \<le> max_int64 \<Longrightarrow> components_loop d s = ranged_loop n max_int64 unitMap d s \<and>
     (\<forall>r. components_loop d s = Inr r \<longrightarrow> 0 \<le> r \<and> r \<le> max_int64)"
proof (induction n arbitrary: d s)
  case 0
  then show ?case by (simp add: components_loop.simps)
next
  case (Suc n)
  show ?case
  proof (cases "s = '''' \<or> (\<exists>e. ranged_component max_int64 unitMap s = Inl e)")
    case True
    then show ?thesis
      using Suc.prems by (subst (1 2) components_loop.simps) (auto simp: parse_component_ranged)
  next
    case False
    then obtain v t where v: "ranged_component max_int64 unitMap s = Inr (v, t)" and ne: "s \<noteq> ''''"
      by (cases "ranged_component max_int64 unitMap s") auto
    have r: "0 \<le> v" "v \<le> max_int64" by (rule ranged_component_range [OF v])+
    have len: "length t \<le> n" using parse_component_shorter [of s v t] v Suc.prems(1) by (simp add: parse_component_ranged)
    have z: "0 \<le> d + v" "d + v < 2 ^ 64" using r Suc.prems(2,3) by (simp_all add: max_int64_def)
    have step: "components_loop d s = (if d + v > max_int64 then Inl ErrInvalidDuration else components_loop (d + v) t)"
      using v ne wrap64_check [OF z] by (subst components_loop.simps) (auto simp: parse_component_ranged Let_def)
    show ?thesis
    proof (cases "d + v > max_int64")
      case True
      then show ?thesis using v ne by (simp add: step)
    next
      case in_range: False
      then have "d + v \<le> max_int64" by simp
      from Suc.IH [OF len z(1) this] show ?thesis using v ne in_range by (simp add: step)
    qed
  qed
qed

text \<open>C36: The \<open>int64\<close> arithmetic of the parser, which looks for results that have wrapped around, accepts and
  computes the same, with the same errors, as unbounded integers that are compared with the largest \<open>int64\<close>.\<close>

theorem parseDuration_checks_exact: "parseDuration s = ranged_ParseDuration max_int64 unitMap s"
proof -
  define t where "t = (if s \<noteq> '''' \<and> (hd s = CHR ''-'' \<or> hd s = CHR ''+'') then tl s else s)"
  note loop = components_loop_ranged [of t "length t" 0]
  have neg: "wrap64 (- d) = - d" if "0 \<le> d" "d \<le> max_int64" for d
    using that by (simp add: wrap64_def max_int64_def mod_pos_pos_trivial)
  have l: "components_loop 0 t = ranged_loop (length t) max_int64 unitMap 0 t"
    "components_loop 0 t = Inr r \<Longrightarrow> 0 \<le> r \<and> r \<le> max_int64" for r
    using loop by (simp_all add: max_int64_def)
  show ?thesis
  proof (cases "components_loop 0 t")
    case (Inl e)
    then show ?thesis
      using l(1) unfolding parseDuration_def ranged_ParseDuration_def Let_def t_def [symmetric] by simp
  next
    case (Inr d)
    then show ?thesis
      using l(1) l(2) [OF Inr] neg [of d] unfolding parseDuration_def ranged_ParseDuration_def Let_def t_def [symmetric] by simp
  qed
qed

section \<open>Exact floats\<close>

definition exact :: "f64 \<Rightarrow> int \<Rightarrow> bool" where
  "exact x n = (snd x \<le> 0 \<and> fst x = n * 2 ^ nat (- snd x))"

lemma exact_trunc: "exact x n \<Longrightarrow> f_trunc x = n"
  by (cases "snd x = 0") (auto simp: exact_def f_trunc_def)

lemma nearest_even_exact: "0 < den \<Longrightarrow> nearest_even (q * den) den = q"
  by (simp add: nearest_even_def Let_def)

lemma f_round_exact:
  assumes "0 < n" "n < 2 ^ 53"
  shows "exact (fst (f_round (n * 2 ^ i) 1), snd (f_round (n * 2 ^ i) 1) - int i) n"
proof -
  have pos: "0 < n * 2 ^ i" using assms(1) by simp
  obtain k where k: "f_round (n * 2 ^ i) 1 = (nearest_even (n * 2 ^ i * 2 ^ nat (- k)) (1 * 2 ^ nat k), k)"
    "k \<le> bit_len (n * 2 ^ i) - bit_len 1 - 52"
    using f_round_quotient [OF pos zero_less_one] by blast
  have one: "bit_len 1 = 1" by code_simp
  have "(2::int) ^ nat (bit_len (n * 2 ^ i) - 1) \<le> n * 2 ^ i" using bit_len_bounds [OF pos] by simp
  also have "\<dots> < 2 ^ 53 * 2 ^ i" using assms(2) by simp
  also have "\<dots> = 2 ^ (53 + i)" by (simp only: power_add)
  finally have "nat (bit_len (n * 2 ^ i) - 1) < 53 + i" by (rule power_less_imp_less_exp [rotated]) simp
  then have ki: "k \<le> int i" using k(2) one by linarith
  have num: "n * 2 ^ i * 2 ^ nat (- k) = (n * 2 ^ nat (int i - k)) * 2 ^ nat k"
  proof -
    have "i + nat (- k) = nat (int i - k) + nat k" using ki by linarith
    then show ?thesis by (simp only: mult.assoc power_add [symmetric])
  qed
  have "fst (f_round (n * 2 ^ i) 1) = n * 2 ^ nat (int i - k)"
    unfolding k(1) fst_conv num mult_1_left by (rule nearest_even_exact) simp
  then show ?thesis using ki by (simp add: exact_def k(1))
qed

lemma exact_of_int: "0 < n \<Longrightarrow> n < 2 ^ 53 \<Longrightarrow> exact (f_of_int n) n"
  using f_round_exact [of n 0] by (simp add: f_of_int_def)

lemma exact_mul:
  assumes "exact x m" "exact y n" "0 < m * n" "m * n < 2 ^ 53"
  shows "exact (f_mul x y) (m * n)"
proof -
  define i where "i = nat (- snd x) + nat (- snd y)"
  have "fst x * fst y = m * n * 2 ^ i"
    using assms(1,2) by (simp add: exact_def i_def power_add)
  moreover have "snd x + snd y = - int i" using assms(1,2) by (simp add: exact_def i_def)
  ultimately show ?thesis
    using f_round_exact [OF assms(3,4), of i] by (simp add: f_mul_def Let_def case_prod_beta algebra_simps)
qed

lemma unit_quotients:
  "list_all (\<lambda>p. list_all (\<lambda>j. exact (f_div (f_of_int (10 ^ p)) (scales 20 (f_of_int 1) ! j)) (10 ^ (p - j))) [1..<Suc p]) [3, 6, 9]"
  by code_simp

lemma unit_quotient:
  assumes "p \<in> {3, 6, 9}" "0 < j" "j \<le> p"
  shows "exact (f_div (f_of_int (10 ^ p)) (scale_n j)) (10 ^ (p - j))"
proof -
  have "scales 20 (f_of_int 1) ! j = scale_n j" using scales_nth [of j 20 0] assms by (auto simp: scale_0)
  moreover have "j \<in> set [1..<Suc p]" "p \<in> set [3, 6, 9]" using assms by auto
  ultimately show ?thesis using unit_quotients by (simp only: list_all_iff) (metis (no_types, lifting))
qed

lemma fraction_exact:
  assumes "p \<in> {3, 6, 9}" "0 < j" "j \<le> p" "0 \<le> f" "f < 10 ^ j"
  shows "fraction_part f (scale_n j) (10 ^ p) = f * 10 ^ (p - j)"
proof (cases "f = 0")
  case False
  have "f * 10 ^ (p - j) < 10 ^ j * 10 ^ (p - j)" using assms(5) by simp
  also have "\<dots> = 10 ^ p" using assms(3) by (simp flip: power_add)
  also have "\<dots> \<le> (10 ^ 9 :: int)" using assms(1) by auto
  finally have small: "f * 10 ^ (p - j) < 2 ^ 53" by simp
  have pos: "0 < f * 10 ^ (p - j)" using False assms(4) by simp
  have "f \<le> f * 10 ^ (p - j)" using assms(4) by (simp add: mult_le_cancel_left1)
  then have "f < 2 ^ 53" using small by linarith
  then have "exact (f_of_int f) f" using False assms(4) by (intro exact_of_int) simp_all
  then have "exact (f_mul (f_of_int f) (f_div (f_of_int (10 ^ p)) (scale_n j))) (f * 10 ^ (p - j))"
    by (rule exact_mul [OF _ unit_quotient [OF assms(1-3)] pos small])
  then show ?thesis using False assms(4) by (simp add: fraction_part_def exact_trunc)
qed (simp add: fraction_part_def)

section \<open>Reading digits\<close>

definition more_digits :: "int \<Rightarrow> string \<Rightarrow> int" where
  "more_digits x ds = foldl (\<lambda>v c. 10 * v + (int (byte c) - 48)) x ds"

lemma more_digits_simps: "more_digits x [] = x" "more_digits x (c # ds) = more_digits (10 * x + (int (byte c) - 48)) ds"
  by (simp_all add: more_digits_def)

lemma digits_value_more: "digits_value ds = more_digits 0 ds"
  by (simp add: digits_value_def more_digits_def)

lemma more_digits_ge: "0 \<le> x \<Longrightarrow> list_all is_digit ds \<Longrightarrow> x \<le> more_digits x ds"
proof (induction ds arbitrary: x)
  case (Cons c ds)
  have "x \<le> 10 * x + (int (byte c) - 48)" using Cons.prems digit_range [of c] by auto
  moreover have "10 * x + (int (byte c) - 48) \<le> more_digits (10 * x + (int (byte c) - 48)) ds"
    using Cons.prems digit_range [of c] by (intro Cons.IH) auto
  ultimately show ?case by (simp only: more_digits_simps)
qed (simp add: more_digits_simps)

lemma next_step: "x * 10 + int (byte c) - 48 = 10 * x + (int (byte c) - 48)" by simp

lemma ranged_int_digits:
  assumes "0 \<le> x" "list_all is_digit ds" "t = '''' \<or> \<not> is_digit (hd t)" "more_digits x ds \<le> bound"
  shows "ranged_int bound x (ds @ t) = Some (more_digits x ds, t)"
  using assms
proof (induction ds arbitrary: x)
  case Nil
  then show ?case by (cases t) (auto simp: more_digits_simps)
next
  case (Cons c ds)
  define y where "y = 10 * x + (int (byte c) - 48)"
  have y: "0 \<le> y" using Cons.prems digit_range [of c] by (auto simp: y_def)
  have "y \<le> more_digits y ds" using more_digits_ge [OF y] Cons.prems by simp
  then have "y \<le> bound" using Cons.prems(4) by (simp add: more_digits_simps y_def)
  then show ?case
    using Cons.IH [OF y] Cons.prems unfolding more_digits_simps y_def [symmetric] by (simp add: next_step y_def)
qed

lemma ranged_fraction_digits:
  assumes "0 \<le> x" "list_all is_digit ds" "t = '''' \<or> \<not> is_digit (hd t)" "more_digits x ds \<le> bound"
  shows "ranged_fraction bound x (scale_n k) False (ds @ t) = (more_digits x ds, scale_n (k + length ds), t)"
  using assms
proof (induction ds arbitrary: x k)
  case Nil
  then show ?case by (cases t) (auto simp: more_digits_simps)
next
  case (Cons c ds)
  define y where "y = 10 * x + (int (byte c) - 48)"
  have y: "0 \<le> y" using Cons.prems digit_range [of c] by (auto simp: y_def)
  have "y \<le> more_digits y ds" using more_digits_ge [OF y] Cons.prems by simp
  then have "y \<le> bound" using Cons.prems(4) by (simp add: more_digits_simps y_def)
  then show ?case
    using Cons.IH [OF y, of "Suc k"] Cons.prems unfolding more_digits_simps y_def [symmetric]
    by (simp add: next_step y_def flip: scale_Suc)
qed

text \<open>A number, perhaps a fraction, and a unit, before the next number or at the end.\<close>

definition next_number :: "string \<Rightarrow> bool" where
  "next_number t = (t = '''' \<or> is_digit (hd t))"

definition good_unit :: "string \<Rightarrow> int \<Rightarrow> bool" where
  "good_unit u unit = (u \<noteq> '''' \<and> list_all unit_char u \<and> map_of std_unitMap u = Some unit)"

lemma unit_split: "list_all unit_char u \<Longrightarrow> next_number t \<Longrightarrow> takeWhile unit_char (u @ t) = u \<and> dropWhile unit_char (u @ t) = t"
  by (cases t) (auto simp: next_number_def unit_char_def list_all_iff takeWhile_append2 dropWhile_append2)

lemma digits_nat: "list_all is_digit (nat_digits n)" "nat_digits n \<noteq> []" "more_digits 0 (nat_digits n) = int n"
  using nat_digits_digits [of n] by (auto simp: list_all_iff digits_value_more [symmetric]) (subst (asm) nat_digits.simps, auto split: if_splits)

lemma ranged_unit_good:
  assumes "good_unit u unit" "next_number t" "v * unit + fraction_part f sc unit \<le> bound"
  shows "ranged_unit bound std_unitMap v f sc (u @ t) = Inr (v * unit + fraction_part f sc unit, t)"
  using assms unit_split [of u t] by (simp add: ranged_unit_def good_unit_def Let_def)

lemma component_whole:
  assumes "good_unit u unit" "next_number t" "int n * unit \<le> 2 ^ 63" "int n \<le> 2 ^ 63"
  shows "ranged_component (2 ^ 63) std_unitMap (nat_digits n @ u @ t) = Inr (int n * unit, t)"
proof -
  have u: "u \<noteq> ''''" "unit_char (hd u)" using assms(1) by (cases u; auto simp: good_unit_def)+
  then have nd: "u @ t \<noteq> ''''" "hd (u @ t) = hd u" "\<not> is_digit (hd u)" "hd u \<noteq> CHR ''.''" by (auto simp: unit_char_def)
  have r: "ranged_int (2 ^ 63) 0 (nat_digits n @ u @ t) = Some (int n, u @ t)"
    using ranged_int_digits [of 0 "nat_digits n" "u @ t" "2 ^ 63"] digits_nat [of n] nd assms(4) by simp
  have h: "is_digit (hd (nat_digits n @ u @ t))" using digits_nat [of n] by (cases "nat_digits n") auto
  have "fraction_part 0 sc unit = 0" for sc by (simp add: fraction_part_def)
  then have w: "ranged_unit (2 ^ 63) std_unitMap (int n) 0 (f_of_int 1) (u @ t) = Inr (int n * unit, t)"
    using ranged_unit_good [OF assms(1,2), of "int n" 0 "f_of_int 1" "2 ^ 63"] assms(3) by simp
  have "length (nat_digits n @ u @ t) \<noteq> length (u @ t)" using digits_nat(2) [of n] by simp
  then show ?thesis using r h w nd unfolding ranged_component_def Let_def by simp
qed

lemma component_fraction:
  assumes "good_unit u (10 ^ p)" "p \<in> {3, 6, 9}" "next_number t" "list_all is_digit ds" "0 < length ds" "length ds \<le> p"
    and "int n * 10 ^ p + digits_value ds * 10 ^ (p - length ds) \<le> 2 ^ 63"
  shows "ranged_component (2 ^ 63) std_unitMap (nat_digits n @ (CHR ''.'' # ds) @ u @ t) =
    Inr (int n * 10 ^ p + digits_value ds * 10 ^ (p - length ds), t)"
proof -
  have u: "u \<noteq> ''''" "unit_char (hd u)" using assms(1) by (cases u; auto simp: good_unit_def)+
  then have nd: "u @ t \<noteq> ''''" "hd (u @ t) = hd u" "\<not> is_digit (hd u)" by (auto simp: unit_char_def)
  have f: "0 \<le> digits_value ds" "digits_value ds < 10 ^ length ds" using digits_value_bounds [OF assms(4)] by simp_all
  have "(10::int) ^ length ds \<le> 10 ^ 9" using assms(2,6) by (intro power_increasing) auto
  then have f63: "more_digits 0 ds \<le> 2 ^ 63" using f(2) by (simp add: digits_value_more)
  have "int n \<le> int n * 10 ^ p" by (simp add: mult_le_cancel_left1)
  moreover have "0 \<le> digits_value ds * 10 ^ (p - length ds)" using f(1) by simp
  ultimately have n63: "int n \<le> 2 ^ 63" using assms(7) by linarith
  have r: "ranged_int (2 ^ 63) 0 (nat_digits n @ (CHR ''.'' # ds) @ u @ t) = Some (int n, (CHR ''.'' # ds) @ u @ t)"
    using ranged_int_digits [of 0 "nat_digits n" "(CHR ''.'' # ds) @ u @ t" "2 ^ 63"] digits_nat [of n] n63
    by (simp add: is_digit_def byte_def)
  have rf: "ranged_fraction (2 ^ 63) 0 (f_of_int 1) False (ds @ u @ t) = (digits_value ds, scale_n (length ds), u @ t)"
    using ranged_fraction_digits [of 0 ds "u @ t" "2 ^ 63" 0] assms(4) nd f63 by (simp add: scale_0 digits_value_more)
  have fp: "fraction_part (digits_value ds) (scale_n (length ds)) (10 ^ p) = digits_value ds * 10 ^ (p - length ds)"
    by (rule fraction_exact [OF assms(2,5,6) f])
  have h: "is_digit (hd (nat_digits n @ (CHR ''.'' # ds) @ u @ t))" using digits_nat [of n] by (cases "nat_digits n") auto
  have w: "ranged_unit (2 ^ 63) std_unitMap (int n) (digits_value ds) (scale_n (length ds)) (u @ t) =
      Inr (int n * 10 ^ p + digits_value ds * 10 ^ (p - length ds), t)"
    using ranged_unit_good [OF assms(1,3), of "int n" "digits_value ds" "scale_n (length ds)" "2 ^ 63"] assms(7) by (simp add: fp)
  have "length (nat_digits n @ (CHR ''.'' # ds) @ u @ t) \<noteq> length ((CHR ''.'' # ds) @ u @ t)" using digits_nat(2) [of n] by simp
  then show ?thesis using r rf h w unfolding ranged_component_def Let_def by simp
qed

section \<open>Printing fractions\<close>

lemma digit_char: "is_digit (char_of (48 + n mod 10 :: nat))" "int (byte (char_of (48 + n mod 10))) - 48 = int (n mod 10)"
  by (simp_all add: is_digit_def byte_def)

lemma fmt_frac_printing:
  "\<exists>ds. fmt_frac v p True acc = (CHR ''.'' # ds @ acc, v div 10 ^ p) \<and> length ds = p \<and> list_all is_digit ds \<and>
     digits_value ds = int (v mod 10 ^ p)"
proof (induction p arbitrary: v acc)
  case 0
  then show ?case by (simp add: digits_value_def)
next
  case (Suc p)
  obtain ds where ds: "fmt_frac (v div 10) p True (char_of (48 + v mod 10) # acc) =
      (CHR ''.'' # ds @ char_of (48 + v mod 10) # acc, v div 10 div 10 ^ p)" "length ds = p" "list_all is_digit ds"
    "digits_value ds = int (v div 10 mod 10 ^ p)"
    using Suc.IH by blast
  have "v mod 10 ^ Suc p = 10 * (v div 10 mod 10 ^ p) + v mod 10" by (simp add: mod_mult2_eq)
  then have "digits_value (ds @ [char_of (48 + v mod 10)]) = int (v mod 10 ^ Suc p)"
    using ds(4) digit_char(2) [of v] by (simp add: digits_value_append)
  moreover have "v div 10 div 10 ^ p = v div 10 ^ Suc p" by (simp add: div_mult2_eq)
  ultimately show ?case using ds digit_char(1) [of v]
    by (intro exI [of _ "ds @ [char_of (48 + v mod 10)]"]) (simp add: Let_def)
qed

lemma fmt_frac_spec:
  "\<exists>fr. fmt_frac v p False [] = (fr, v div 10 ^ p) \<and>
     (if v mod 10 ^ p = 0 then fr = []
      else \<exists>ds. fr = CHR ''.'' # ds \<and> 0 < length ds \<and> length ds \<le> p \<and> list_all is_digit ds \<and>
        digits_value ds * 10 ^ (p - length ds) = int (v mod 10 ^ p))"
proof (induction p arbitrary: v)
  case 0
  then show ?case by simp
next
  case (Suc p)
  have m: "v mod 10 ^ Suc p = 10 * (v div 10 mod 10 ^ p) + v mod 10" by (simp add: mod_mult2_eq)
  have d: "v div 10 div 10 ^ p = v div 10 ^ Suc p" by (simp add: div_mult2_eq)
  show ?case
  proof (cases "v mod 10 = 0")
    case True
    obtain fr where fr: "fmt_frac (v div 10) p False [] = (fr, v div 10 div 10 ^ p)"
      "if v div 10 mod 10 ^ p = 0 then fr = []
       else \<exists>ds. fr = CHR ''.'' # ds \<and> 0 < length ds \<and> length ds \<le> p \<and> list_all is_digit ds \<and>
         digits_value ds * 10 ^ (p - length ds) = int (v div 10 mod 10 ^ p)"
      using Suc.IH by blast
    have s: "fmt_frac v (Suc p) False [] = (fr, v div 10 ^ Suc p)" using fr(1) True d by (simp add: Let_def)
    show ?thesis
    proof (cases "v div 10 mod 10 ^ p = 0")
      case zero: True
      then show ?thesis using s fr(2) m True by simp
    next
      case nz: False
      then obtain ds where ds: "fr = CHR ''.'' # ds" "0 < length ds" "length ds \<le> p" "list_all is_digit ds"
        "digits_value ds * 10 ^ (p - length ds) = int (v div 10 mod 10 ^ p)"
        using fr(2) by auto
      have "digits_value ds * 10 ^ (Suc p - length ds) = int (v mod 10 ^ Suc p)"
        using ds(3,5) m True by (simp add: Suc_diff_le)
      moreover have "v mod 10 ^ Suc p \<noteq> 0" using m nz by simp
      ultimately show ?thesis using s ds by (intro exI [of _ fr]) auto
    qed
  next
    case False
    obtain ds where ds: "fmt_frac (v div 10) p True [char_of (48 + v mod 10)] =
        (CHR ''.'' # ds @ [char_of (48 + v mod 10)], v div 10 div 10 ^ p)" "length ds = p" "list_all is_digit ds"
      "digits_value ds = int (v div 10 mod 10 ^ p)"
      using fmt_frac_printing [of "v div 10" p "[char_of (48 + v mod 10)]"] by blast
    have "digits_value (ds @ [char_of (48 + v mod 10)]) = int (v mod 10 ^ Suc p)"
      using ds(4) m digit_char(2) [of v] by (simp add: digits_value_append)
    moreover have "v mod 10 ^ Suc p \<noteq> 0" using m False by simp
    ultimately show ?thesis
      using ds d False digit_char(1) [of v]
      by (intro exI [of _ "CHR ''.'' # ds @ [char_of (48 + v mod 10)]"]) (auto simp: Let_def)
  qed
qed

text \<open>JSON numbers are taken apart like strings: 105 is read as the zero duration, 15 is ignored.\<close>

lemma json_numbers_misread:
  "Duration_UnmarshalJSON ''105'' d = Inr 0" "Duration_UnmarshalJSON ''15'' d = Inr d"
  "Duration_UnmarshalJSON ''null'' d = Inl ErrInvalidDuration"
  "parseDuration ''1w2d3.5h'' = Inr 790200000000000"
  by (simp_all add: Duration_UnmarshalJSON_def) (code_simp)+

section \<open>The JSON form is read back\<close>

lemma printed_component:
  assumes "fmt_frac v p False [] = (fr, m)" "good_unit u (10 ^ p)" "p \<in> {0, 3, 6, 9}" "next_number t"
    and "int n * 10 ^ p + int (v mod 10 ^ p) \<le> 2 ^ 63"
  shows "ranged_component (2 ^ 63) std_unitMap (nat_digits n @ fr @ u @ t) = Inr (int n * 10 ^ p + int (v mod 10 ^ p), t)"
proof -
  have fr: "if v mod 10 ^ p = 0 then fr = []
      else \<exists>ds. fr = CHR ''.'' # ds \<and> 0 < length ds \<and> length ds \<le> p \<and> list_all is_digit ds \<and>
        digits_value ds * 10 ^ (p - length ds) = int (v mod 10 ^ p)"
    using fmt_frac_spec [of v p] assms(1) by auto
  show ?thesis
  proof (cases "v mod 10 ^ p = 0")
    case True
    have "int n \<le> int n * 10 ^ p" by (simp add: mult_le_cancel_left1)
    then have "int n \<le> 2 ^ 63" "int n * 10 ^ p \<le> 2 ^ 63" using assms(5) by linarith+
    then show ?thesis using component_whole [OF assms(2,4)] True fr by simp
  next
    case False
    then obtain ds where ds: "fr = CHR ''.'' # ds" "0 < length ds" "length ds \<le> p" "list_all is_digit ds"
      "digits_value ds * 10 ^ (p - length ds) = int (v mod 10 ^ p)"
      using fr by auto
    have p: "p \<in> {3, 6, 9}" using False assms(3) by (cases "p = 0") auto
    show ?thesis
      using component_fraction [OF assms(2) p assms(4) ds(4,2,3), of n] assms(5) by (simp add: ds(1,5))
  qed
qed

lemma loop_end: "ranged_loop n bound units d '''' = Inr d"
  by (cases n) simp_all

lemma loop_step:
  "ranged_component bound units s = Inr (v, t) \<Longrightarrow> s \<noteq> '''' \<Longrightarrow> d + v \<le> bound \<Longrightarrow>
     ranged_loop (Suc n) bound units d s = ranged_loop n bound units (d + v) t"
  by simp

lemma loop_fuel: "ranged_loop n bound units d s = Inr r \<Longrightarrow> n \<le> m \<Longrightarrow> ranged_loop m bound units d s = Inr r"
proof (induction n arbitrary: m d s)
  case 0
  then show ?case by (cases m) (auto split: if_splits)
next
  case (Suc n)
  then obtain k where m: "m = Suc k" "n \<le> k" by (cases m) auto
  show ?case
    using Suc.prems(1) Suc.IH [OF _ m(2)] by (auto simp: m(1) split: if_splits sum.splits prod.splits)
qed

lemma good_units:
  "good_unit ''ns'' 1" "good_unit (micro_sign @ ''s'') 1000" "good_unit ''ms'' 1000000"
  "good_unit ''s'' 1000000000" "good_unit ''m'' 60000000000" "good_unit ''h'' 3600000000000"
  by code_simp+

lemma next_number_digits: "next_number (nat_digits n @ s)" "next_number ''''"
  using digits_nat(1,2) [of n] by (cases "nat_digits n"; simp add: next_number_def)+

lemma digits_start: "nat_digits n @ s \<noteq> ''''" "is_digit (hd (nat_digits n @ s))"
  using digits_nat(1,2) [of n] by (cases "nat_digits n"; simp)+

lemma seconds_loop:
  assumes "fmt_frac v 9 False [] = (fr, m)" "0 \<le> d" "d + (int n * 1000000000 + int (v mod 1000000000)) \<le> 2 ^ 63"
  shows "ranged_loop (Suc k) (2 ^ 63) std_unitMap d (nat_digits n @ fr @ ''s'') =
    Inr (d + (int n * 1000000000 + int (v mod 1000000000)))"
proof -
  have "ranged_component (2 ^ 63) std_unitMap (nat_digits n @ fr @ ''s'' @ '''') =
      Inr (int n * 10 ^ 9 + int (v mod 10 ^ 9), '''')"
    using assms(2,3) good_units(4) next_number_digits(2) by (intro printed_component [OF assms(1)]) simp_all
  then have "ranged_component (2 ^ 63) std_unitMap (nat_digits n @ fr @ ''s'') =
      Inr (int n * 1000000000 + int (v mod 1000000000), '''')" by simp
  from loop_step [OF this digits_start(1) assms(3), of k] show ?thesis by (simp only: loop_end)
qed

lemma whole_loop:
  assumes "good_unit u unit" "next_number t" "0 \<le> d" "d + int n * unit \<le> 2 ^ 63" "int n \<le> 2 ^ 63"
  shows "ranged_loop (Suc k) (2 ^ 63) std_unitMap d (nat_digits n @ u @ t) =
    ranged_loop k (2 ^ 63) std_unitMap (d + int n * unit) t"
proof -
  have "ranged_component (2 ^ 63) std_unitMap (nat_digits n @ u @ t) = Inr (int n * unit, t)"
    using assms by (intro component_whole) simp_all
  from loop_step [OF this digits_start(1) assms(4)] show ?thesis .
qed

lemma int_parts: "int (v div k) * int k + int (v mod k) = int v"
  by (simp only: of_nat_mult [symmetric] of_nat_add [symmetric] div_mult_mod_eq)

lemma small_number:
  assumes "good_unit u (10 ^ p)" "p \<in> {0, 3, 6, 9}" "int v \<le> 2 ^ 63"
  shows "ranged_loop (Suc k) (2 ^ 63) std_unitMap 0 (fmt_number v p u) = Inr (int v)"
proof -
  obtain fr m where fr: "fmt_frac v p False [] = (fr, m)" by (metis prod.exhaust)
  have m: "m = v div 10 ^ p" using fmt_frac_spec [of v p] fr by auto
  have v: "int m * 10 ^ p + int (v mod 10 ^ p) = int v"
    unfolding m using int_parts [of v "10 ^ p"] by simp
  have "ranged_component (2 ^ 63) std_unitMap (nat_digits m @ fr @ u @ '''') = Inr (int v, '''')"
    using printed_component [OF fr assms(1,2) next_number_digits(2), of m] assms(3) by (simp add: v)
  then have "ranged_component (2 ^ 63) std_unitMap (nat_digits m @ fr @ u) = Inr (int v, '''')" by simp
  from loop_step [OF this digits_start(1), of 0 k] show ?thesis
    using assms(3) by (simp only: fmt_number_def fr Let_def prod.case loop_end add_0)
qed

lemma clock_parts:
  fixes secs :: nat
  shows "int (secs div 60 div 60) * 3600000000000 + int (secs div 60 mod 60) * 60000000000 + int (secs mod 60) * 1000000000
    = int secs * 1000000000"
  using int_parts [of secs 60] int_parts [of "secs div 60" 60] by linarith

lemma printed_text: "Suc 0 \<le> length (nat_digits n @ x)"
  using digits_nat(2) [of n] by (cases "nat_digits n") simp_all

lemma printed_length: "Suc 0 \<le> length x \<Longrightarrow> Suc (length x) \<le> length (nat_digits n @ x)"
  using printed_text [of n "[]"] by simp

lemma clock_read:
  assumes "fmt_frac u 9 False [] = (fr, secs)" "int u \<le> 2 ^ 63" "1000000000 \<le> u"
  shows "\<exists>n \<le> length (duration_digits u). ranged_loop n (2 ^ 63) std_unitMap 0 (duration_digits u) = Inr (int u)"
proof -
  have secs: "secs = u div 1000000000" using fmt_frac_spec [of u 9] assms(1) by auto
  have u: "int secs * 1000000000 + int (u mod 1000000000) = int u" unfolding secs using int_parts [of u 1000000000] by simp
  define h where "h = secs div 60 div 60"
  define mi where "mi = secs div 60 mod 60"
  define sc where "sc = secs mod 60"
  have sum: "int h * 3600000000000 + int mi * 60000000000 + (int sc * 1000000000 + int (u mod 1000000000)) = int u"
    using clock_parts [of secs] u by (simp add: h_def mi_def sc_def)
  have small: "int h \<le> 2 ^ 63" "int mi \<le> 2 ^ 63"
    "0 + int h * 3600000000000 + int mi * 60000000000 \<le> 2 ^ 63" "0 + int h * 3600000000000 \<le> 2 ^ 63"
    "0 + int mi * 60000000000 \<le> 2 ^ 63"
    using sum assms(2) by linarith+
  define rest where "rest = nat_digits sc @ fr @ ''s''"
  have last: "ranged_loop (Suc k) (2 ^ 63) std_unitMap d rest = Inr (d + (int sc * 1000000000 + int (u mod 1000000000)))"
    if "0 \<le> d" "d + (int sc * 1000000000 + int (u mod 1000000000)) \<le> 2 ^ 63" for d k
    unfolding rest_def by (rule seconds_loop [OF assms(1) that])
  have d: "duration_digits u = (if secs div 60 = 0 then rest else if h = 0 then nat_digits mi @ ''m'' @ rest
      else nat_digits h @ ''h'' @ nat_digits mi @ ''m'' @ rest)"
    using assms(3) unfolding duration_digits_def assms(1) Let_def rest_def h_def mi_def sc_def by simp
  have nn: "next_number rest" "next_number (nat_digits mi @ ''m'' @ rest)" unfolding rest_def by (rule next_number_digits)+
  have lens: "Suc 0 \<le> length rest" "Suc (Suc 0) \<le> length (nat_digits mi @ ''m'' @ rest)"
    "Suc (Suc (Suc 0)) \<le> length (nat_digits h @ ''h'' @ nat_digits mi @ ''m'' @ rest)"
    using printed_text [of sc] printed_text [of mi "[]"] printed_text [of h "[]"] by (simp_all add: rest_def)
  consider "secs div 60 = 0" | "secs div 60 \<noteq> 0" "h = 0" | "secs div 60 \<noteq> 0" "h \<noteq> 0" by blast
  then show ?thesis
  proof cases
    case 1
    then have "h = 0" "mi = 0" by (simp_all add: h_def mi_def)
    then have "ranged_loop (Suc 0) (2 ^ 63) std_unitMap 0 rest = Inr (int u)" using last [of 0 0] sum assms(2) by simp
    then show ?thesis using d 1 lens(1) by (intro exI [of _ "Suc 0"]) simp
  next
    case 2
    then have t: "duration_digits u = nat_digits mi @ ''m'' @ rest" using d by simp
    have "ranged_loop (Suc (Suc 0)) (2 ^ 63) std_unitMap 0 (duration_digits u) =
        ranged_loop (Suc 0) (2 ^ 63) std_unitMap (0 + int mi * 60000000000) rest"
      unfolding t by (rule whole_loop [OF good_units(5) nn(1)]) (use small in simp_all)
    also have "\<dots> = Inr (int u)" using last [of "0 + int mi * 60000000000" 0] sum assms(2) 2 by simp
    finally show ?thesis using lens(2) unfolding t [symmetric] by blast
  next
    case 3
    then have t: "duration_digits u = nat_digits h @ ''h'' @ nat_digits mi @ ''m'' @ rest" using d by simp
    have "ranged_loop (Suc (Suc (Suc 0))) (2 ^ 63) std_unitMap 0 (duration_digits u) =
        ranged_loop (Suc (Suc 0)) (2 ^ 63) std_unitMap (0 + int h * 3600000000000) (nat_digits mi @ ''m'' @ rest)"
      unfolding t by (rule whole_loop [OF good_units(6) nn(2)]) (use small in simp_all)
    also have "\<dots> = ranged_loop (Suc 0) (2 ^ 63) std_unitMap (0 + int h * 3600000000000 + int mi * 60000000000) rest"
      by (rule whole_loop [OF good_units(5) nn(1)]) (use small in simp_all)
    also have "\<dots> = Inr (int u)"
      using last [of "0 + int h * 3600000000000 + int mi * 60000000000" 0] sum assms(2) by simp
    finally show ?thesis using lens(3) unfolding t [symmetric] by blast
  qed
qed

lemma duration_digits_read:
  assumes "int u \<le> 2 ^ 63"
  shows "\<exists>n \<le> length (duration_digits u). ranged_loop n (2 ^ 63) std_unitMap 0 (duration_digits u) = Inr (int u)"
proof (cases "u < 1000000000")
  case False
  then show ?thesis using clock_read assms by (metis not_le prod.exhaust)
next
  case True
  have len: "Suc 0 \<le> length (fmt_number u p x)" for p x
    unfolding fmt_number_def Let_def by (cases "fmt_frac u p False []") (simp only: prod.case printed_text)
  note small = small_number [of _ _ u 0, OF _ _ assms]
  consider "u = 0" | "u \<noteq> 0" "u < 1000" | "1000 \<le> u" "u < 1000000" | "1000000 \<le> u" by linarith
  then show ?thesis
  proof cases
    case 1
    have "nat_digits 0 = ''0''" by code_simp
    then have "duration_digits u = nat_digits 0 @ ''s'' @ ''''" using 1 by (simp add: duration_digits_def)
    moreover have "ranged_loop (Suc 0) (2 ^ 63) std_unitMap 0 (nat_digits 0 @ ''s'' @ '''') = Inr (int u)"
      using whole_loop [OF good_units(4) next_number_digits(2), of 0 0 0] 1 by (simp only: loop_end) simp
    ultimately show ?thesis using printed_text by metis
  next
    case 2
    then have d: "duration_digits u = fmt_number u 0 ''ns''" using True by (simp add: duration_digits_def)
    show ?thesis unfolding d by (rule exI, rule conjI, rule len, rule small) (simp_all add: good_units)
  next
    case 3
    then have d: "duration_digits u = fmt_number u 3 (micro_sign @ ''s'')" using True by (simp add: duration_digits_def)
    show ?thesis unfolding d by (rule exI, rule conjI, rule len, rule small) (simp_all add: good_units)
  next
    case 4
    then have d: "duration_digits u = fmt_number u 6 ''ms''" using True by (simp add: duration_digits_def)
    show ?thesis unfolding d by (rule exI, rule conjI, rule len, rule small) (simp_all add: good_units)
  qed
qed

lemma duration_digits_start: "is_digit (hd (duration_digits u))" "2 \<le> length (duration_digits u)"
proof -
  have "\<exists>n x. duration_digits u = nat_digits n @ x \<and> x \<noteq> ''''"
  proof (cases "u = 0")
    case True
    have "nat_digits 0 = ''0''" by code_simp
    then show ?thesis using True by (intro exI [of _ 0] exI [of _ "''s''"]) (simp add: duration_digits_def)
  next
    case False
    then show ?thesis
      by (auto simp: duration_digits_def fmt_number_def Let_def micro_sign_def split: prod.splits simp del: nat_digits.simps)
  qed
  then obtain n x where d: "duration_digits u = nat_digits n @ x" "x \<noteq> ''''" by blast
  show "is_digit (hd (duration_digits u))" unfolding d(1) by (rule digits_start)
  show "2 \<le> length (duration_digits u)" unfolding d(1) using printed_length [of x n] d(2) by (cases x) auto
qed

text \<open>Every duration is read back from its JSON form, whatever value is replaced.\<close>

theorem Duration_JSON_round_trip:
  assumes "- (2 ^ 63) \<le> d" "d < 2 ^ 63"
  shows "Duration_UnmarshalJSON (Duration_MarshalJSON d) d0 = Inr d"
proof -
  define u where "u = nat (if d < 0 then - d else d)"
  have u: "int u = (if d < 0 then - d else d)" "int u \<le> 2 ^ 63" using assms by (simp_all add: u_def)
  define t where "t = duration_digits u"
  have t: "is_digit (hd t)" "2 \<le> length t" unfolding t_def by (rule duration_digits_start)+
  have ne: "t \<noteq> ''''" "t \<noteq> ''0''" "hd t \<noteq> CHR ''-''" "hd t \<noteq> CHR ''+''" using t by (auto simp: is_digit_def byte_def)
  obtain n where n: "n \<le> length t" "ranged_loop n (2 ^ 63) std_unitMap 0 t = Inr (int u)"
    using duration_digits_read [OF u(2)] unfolding t_def by blast
  have loop: "ranged_loop (length t) (2 ^ 63) std_unitMap 0 t = Inr (int u)" by (rule loop_fuel [OF n(2,1)])
  have "time_ParseDuration (Duration_String d) = Inr d"
  proof (cases "d < 0")
    case True
    then have "Duration_String d = CHR ''-'' # t" by (simp add: Duration_String_def t_def u_def)
    then show ?thesis using True loop ne u(1) by (simp add: time_ParseDuration_def ranged_ParseDuration_def Let_def)
  next
    case False
    then have "Duration_String d = t" by (simp add: Duration_String_def t_def u_def)
    then show ?thesis
      using False loop ne u(1) assms(2) by (simp add: time_ParseDuration_def ranged_ParseDuration_def Let_def max_int64_def)
  qed
  moreover have "\<not> length (Duration_MarshalJSON d) \<le> 2"
    using ne(1) by (auto simp: Duration_MarshalJSON_def Duration_String_def t_def u_def)
  ultimately show ?thesis
    by (simp add: Duration_UnmarshalJSON_def Duration_MarshalJSON_def ParseDuration_def)
qed

theorem Duration_JSON_round_trip_witness:
  "Duration_UnmarshalJSON (Duration_MarshalJSON (-9223372036854775808)) 7 = Inr (-9223372036854775808)"
  by (rule Duration_JSON_round_trip) simp_all

end
