(* ===== verification/SafeFile.thy ===== *)
theory SafeFile
  imports GoStrings
begin

text \<open>
  Files that appear under their name only when they are complete (\<open>safe/safe.go\<close>). The file system is a map from
  paths to contents. Whether a call of the operating system succeeds is part of the operation, so that a run is a
  list of operations with any outcomes.
\<close>

section \<open>State and operations\<close>

type_synonym file_system = "string \<Rightarrow> string option"

record safe_file =
  f_name :: string
  tmpfile :: string
  closed :: bool
  aborted :: bool

datatype safe_error = WriteOnClosed | WriteOnAborted | CloseOnClosed | CloseOnAborted | AbortOnClosed | AbortOnAborted
  | OsError

text \<open>
  \<open>os.Remove\<close>, \<open>os.Rename\<close> and \<open>os.File.Write\<close>: a removal or renaming that fails changes nothing, a write that
  fails may have written some bytes (\<^term>\<open>Some n\<close>), one that succeeds has written all (\<^term>\<open>None\<close>).
\<close>

definition os_Remove :: "bool \<Rightarrow> string \<Rightarrow> file_system \<Rightarrow> file_system" where
  "os_Remove succeeds p fs = (if succeeds then fs(p := None) else fs)"

definition os_Rename :: "bool \<Rightarrow> string \<Rightarrow> string \<Rightarrow> file_system \<Rightarrow> file_system" where
  "os_Rename succeeds old new fs = (if succeeds then fs(old := None, new := fs old) else fs)"

definition os_Write :: "nat option \<Rightarrow> string \<Rightarrow> string \<Rightarrow> file_system \<Rightarrow> file_system" where
  "os_Write stopped b p fs =
     (case fs p of
        None \<Rightarrow> fs
      | Some c \<Rightarrow> fs(p := Some (c @ (case stopped of None \<Rightarrow> b | Some n \<Rightarrow> take n b))))"

text \<open>The deferred clean-up of \<open>Write\<close> and \<open>Close\<close> after an error.\<close>

definition clean_up :: "bool \<Rightarrow> safe_file \<times> file_system \<Rightarrow> safe_file \<times> file_system" where
  "clean_up rm s = ((fst s)\<lparr>aborted := True\<rparr>, os_Remove rm (tmpfile (fst s)) (snd s))"

definition File_Write :: "string \<Rightarrow> nat option \<Rightarrow> bool \<Rightarrow> safe_file \<times> file_system \<Rightarrow> safe_error option \<times> safe_file \<times> file_system" where
  "File_Write b stopped rm s =
     (let (f, fs) = s
      in if closed f then (Some WriteOnClosed, s)
         else if aborted f then (Some WriteOnAborted, s)
         else
           (let fs = os_Write stopped b (tmpfile f) fs
            in if stopped \<noteq> None then (Some OsError, clean_up rm (f, fs)) else (None, f, fs)))"

definition File_Close :: "bool \<Rightarrow> bool \<Rightarrow> bool \<Rightarrow> safe_file \<times> file_system \<Rightarrow> safe_error option \<times> safe_file \<times> file_system" where
  "File_Close close_ok rename_ok rm s =
     (let (f, fs) = s
      in if closed f then (Some CloseOnClosed, clean_up rm s)
         else if aborted f then (Some CloseOnAborted, clean_up rm s)
         else if \<not> close_ok then (Some OsError, clean_up rm s)
         else
           (let fs = os_Rename rename_ok (tmpfile f) (f_name f) fs;
                f = f\<lparr>closed := True\<rparr>
            in if rename_ok then (None, f, fs) else (Some OsError, clean_up rm (f, fs))))"

text \<open>The error of closing the temporary file is ignored.\<close>

definition File_Abort :: "bool \<Rightarrow> safe_file \<times> file_system \<Rightarrow> safe_error option \<times> safe_file \<times> file_system" where
  "File_Abort rm s =
     (let (f, fs) = s
      in if closed f then (Some AbortOnClosed, s)
         else if aborted f then (Some AbortOnAborted, s)
         else (if rm then None else Some OsError, clean_up rm s))"

text \<open>
  \<open>CreateFile\<close>: the argument tmp is the name \<open>os.CreateTemp\<close> has made up, if it could. The missing parent
  directories it creates are not part of the map.
\<close>

definition CreateFile ::
  "string \<Rightarrow> bool \<Rightarrow> string option \<Rightarrow> bool \<Rightarrow> bool \<Rightarrow> file_system \<Rightarrow> (safe_error + safe_file) \<times> file_system" where
  "CreateFile name mkdir_ok tmp chmod_ok rm fs =
     (if \<not> mkdir_ok then (Inl OsError, fs)
      else (case tmp of
              None \<Rightarrow> (Inl OsError, fs)
            | Some t \<Rightarrow>
                (let fs = fs(t := Some '''')
                 in if \<not> chmod_ok then (Inl OsError, os_Remove rm t fs)
                    else (Inr \<lparr>f_name = name, tmpfile = t, closed = False, aborted = False\<rparr>, fs))))"

section \<open>Runs\<close>

datatype file_op = OpWrite string "nat option" bool | OpClose bool bool bool | OpAbort bool

fun apply_op :: "file_op \<Rightarrow> safe_file \<times> file_system \<Rightarrow> safe_error option \<times> safe_file \<times> file_system" where
  "apply_op (OpWrite b stopped rm) s = File_Write b stopped rm s"
| "apply_op (OpClose close_ok rename_ok rm) s = File_Close close_ok rename_ok rm s"
| "apply_op (OpAbort rm) s = File_Abort rm s"

fun run_ops :: "file_op list \<Rightarrow> safe_file \<times> file_system \<Rightarrow> safe_file \<times> file_system" where
  "run_ops [] s = s"
| "run_ops (op # ops) s = run_ops ops (snd (apply_op op s))"

lemmas op_defs = File_Write_def File_Close_def File_Abort_def clean_up_def os_Remove_def os_Rename_def os_Write_def Let_def

text \<open>Names never change, and a file that is closed or aborted stays so.\<close>

lemma apply_op_frame:
  "f_name (fst (snd (apply_op op s))) = f_name (fst s)" "tmpfile (fst (snd (apply_op op s))) = tmpfile (fst s)"
  "closed (fst s) \<or> aborted (fst s) \<Longrightarrow> closed (fst (snd (apply_op op s))) \<or> aborted (fst (snd (apply_op op s)))"
  "p \<noteq> f_name (fst s) \<Longrightarrow> p \<noteq> tmpfile (fst s) \<Longrightarrow> snd (snd (apply_op op s)) p = snd s p"
  by (cases op; cases s; auto simp: op_defs split: option.splits)+

lemma apply_op_ended:
  assumes "closed (fst s) \<or> aborted (fst s)" "p \<noteq> tmpfile (fst s)"
  shows "snd (snd (apply_op op s)) p = snd s p"
  using assms by (cases op; cases s) (auto simp: op_defs split: option.splits)

lemma run_ops_frame:
  "p \<noteq> f_name (fst s) \<Longrightarrow> p \<noteq> tmpfile (fst s) \<Longrightarrow> snd (run_ops ops s) p = snd s p"
  by (induction ops arbitrary: s) (simp_all add: apply_op_frame)

lemma run_ops_ended:
  "closed (fst s) \<or> aborted (fst s) \<Longrightarrow> p \<noteq> tmpfile (fst s) \<Longrightarrow> snd (run_ops ops s) p = snd s p"
  by (induction ops arbitrary: s) (simp_all add: apply_op_frame apply_op_ended)

lemma run_ops_append: "run_ops (a @ b) s = run_ops b (run_ops a s)"
  by (induction a arbitrary: s) simp_all

text \<open>A file that is still being written has all the bytes so far under its temporary name.\<close>

lemma open_run:
  assumes "\<not> closed (fst s)" "\<not> aborted (fst s)" "snd s (tmpfile (fst s)) = Some c" "tmpfile (fst s) \<noteq> f_name (fst s)"
  shows "snd (run_ops ops s) (f_name (fst s)) = snd s (f_name (fst s)) \<or>
    (\<exists>bs rms rm rest. ops = map2 (\<lambda>b rm. OpWrite b None rm) bs rms @ OpClose True True rm # rest \<and> length rms = length bs \<and>
       snd (run_ops ops s) (f_name (fst s)) = Some (c @ concat bs))"
  using assms
proof (induction ops arbitrary: s c)
  case (Cons op ops)
  obtain f fs where s: "s = (f, fs)" by (cases s)
  define s' where "s' = snd (apply_op op s)"
  have names: "f_name (fst s') = f_name f" "tmpfile (fst s') = tmpfile f" by (simp_all add: s'_def s apply_op_frame)
  show ?case
  proof (cases "\<exists>b rm. op = OpWrite b None rm")
    case True
    then obtain b rm where op: "op = OpWrite b None rm" by blast
    have s'eq: "s' = (f, fs(tmpfile f := Some (c @ b)))" using Cons.prems by (simp add: s'_def s op op_defs)
    have IH: "snd (run_ops ops s') (f_name f) = fs (f_name f) \<or>
        (\<exists>bs rms rm rest. ops = map2 (\<lambda>b rm. OpWrite b None rm) bs rms @ OpClose True True rm # rest \<and> length rms = length bs \<and>
           snd (run_ops ops s') (f_name f) = Some ((c @ b) @ concat bs))"
      using Cons.IH [of s' "c @ b"] Cons.prems by (simp add: s'eq s)
    have run: "run_ops (op # ops) s = run_ops ops s'" by (simp add: s'_def)
    from IH show ?thesis
    proof
      assume "snd (run_ops ops s') (f_name f) = fs (f_name f)"
      then show ?thesis using run by (simp add: s)
    next
      assume "\<exists>bs rms rm rest. ops = map2 (\<lambda>b rm. OpWrite b None rm) bs rms @ OpClose True True rm # rest \<and> length rms = length bs \<and>
           snd (run_ops ops s') (f_name f) = Some ((c @ b) @ concat bs)"
      then obtain bs rms rm' rest where w: "ops = map2 (\<lambda>b rm. OpWrite b None rm) bs rms @ OpClose True True rm' # rest"
        "length rms = length bs" "snd (run_ops ops s') (f_name f) = Some ((c @ b) @ concat bs)" by blast
      have "op # ops = map2 (\<lambda>b rm. OpWrite b None rm) (b # bs) (rm # rms) @ OpClose True True rm' # rest" by (simp add: op w(1))
      moreover have "snd (run_ops (op # ops) s) (f_name f) = Some (c @ concat (b # bs))" using w(3) by (simp add: s'_def)
      moreover have "length (rm # rms) = length (b # bs)" using w(2) by simp
      ultimately show ?thesis unfolding s fst_conv by blast
    qed
  next
    case not_write: False
    show ?thesis
    proof (cases "\<exists>rm. op = OpClose True True rm")
      case True
      then obtain rm where op: "op = OpClose True True rm" by blast
      have s'eq: "closed (fst s')" "snd s' (f_name f) = Some c" using Cons.prems by (simp_all add: s'_def s op op_defs)
      have "snd (run_ops ops s') (f_name f) = Some c"
        using run_ops_ended [of s' "f_name f" ops] s'eq names Cons.prems(4) by (simp add: s)
      then have "snd (run_ops (op # ops) s) (f_name f) = Some (c @ concat [])" by (simp add: s'_def)
      moreover have "op # ops = map2 (\<lambda>b rm. OpWrite b None rm) [] [] @ OpClose True True rm # ops" by (simp add: op)
      ultimately show ?thesis unfolding s fst_conv by (metis list.size(3))
    next
      case False
      have "closed (fst s') \<or> aborted (fst s')" "snd s' (f_name f) = fs (f_name f)"
        using Cons.prems not_write False unfolding s'_def s
        by (cases op; auto simp: op_defs split: option.splits)+
      then have "snd (run_ops ops s') (f_name f) = fs (f_name f)"
        using run_ops_ended [of s' "f_name f" ops] names Cons.prems(4) by (simp add: s)
      then show ?thesis by (simp add: s'_def s)
    qed
  qed
qed simp

text \<open>C30: However the operations on a safe file go, nothing but the named file and its temporary file changes,
  and the named file changes only when complete writes are followed by a complete close; then it holds exactly the
  bytes written.\<close>

theorem safe_file_atomic:
  assumes "CreateFile name mkdir_ok (Some tmp) chmod_ok rm fs = (Inr f, fs1)" "tmp \<noteq> name"
  shows "(\<forall>p. p \<noteq> name \<and> p \<noteq> tmp \<longrightarrow> snd (run_ops ops (f, fs1)) p = fs p) \<and>
    (snd (run_ops ops (f, fs1)) name = fs name \<or>
     (\<exists>bs rms rm rest. ops = map2 (\<lambda>b rm. OpWrite b None rm) bs rms @ OpClose True True rm # rest \<and> length rms = length bs \<and>
        snd (run_ops ops (f, fs1)) name = Some (concat bs)))"
proof -
  have f: "f = \<lparr>f_name = name, tmpfile = tmp, closed = False, aborted = False\<rparr>" "fs1 = fs(tmp := Some '''')"
    using assms(1) by (auto simp: CreateFile_def Let_def split: if_splits)
  have "\<forall>p. p \<noteq> name \<and> p \<noteq> tmp \<longrightarrow> snd (run_ops ops (f, fs1)) p = fs p"
    using run_ops_frame [of _ "(f, fs1)" ops] by (simp add: f)
  then show ?thesis
    using open_run [of "(f, fs1)" "''''" ops] assms(2) by (simp add: f)
qed

theorem safe_file_atomic_witness:
  "\<exists>f fs1. CreateFile ''a'' True (Some ''t'') True True (\<lambda>p. None) = (Inr f, fs1) \<and>
     snd (run_ops [OpWrite ''xy'' None True, OpWrite ''z'' None True, OpClose True True True] (f, fs1)) ''a'' = Some ''xyz'' \<and>
     snd (run_ops [OpWrite ''xy'' None True, OpWrite ''z'' (Some 0) True, OpClose True True True] (f, fs1)) ''b'' = None"
proof -
  let ?f = "\<lparr>f_name = ''a'', tmpfile = ''t'', closed = False, aborted = False\<rparr>"
  let ?fs = "(\<lambda>p. None)(''t'' := Some '''')"
  have c: "CreateFile ''a'' True (Some ''t'') True True (\<lambda>p. None) = (Inr ?f, ?fs)" by (simp add: CreateFile_def)
  moreover have "snd (run_ops [OpWrite ''xy'' None True, OpWrite ''z'' None True, OpClose True True True] (?f, ?fs)) ''a'' = Some ''xyz''"
    by (simp add: op_defs)
  moreover have "snd (run_ops [OpWrite ''xy'' None True, OpWrite ''z'' (Some 0) True, OpClose True True True] (?f, ?fs)) ''b'' = None"
    using safe_file_atomic [OF c, THEN conjunct1, rule_format, of "''b''"] by (simp del: run_ops.simps)
  ultimately show ?thesis by blast
qed

text \<open>After an error whose clean-up succeeds, and after a successful close, the temporary file is gone.\<close>

lemma no_temporary_file_left:
  assumes "apply_op op s = (e, s')" "\<not> closed (fst s)" "\<not> aborted (fst s)" "tmpfile (fst s) \<noteq> f_name (fst s)"
    and "closed (fst s') \<or> aborted (fst s')"
    and "case op of OpWrite b stopped rm \<Rightarrow> rm | OpClose c n rm \<Rightarrow> rm | OpAbort rm \<Rightarrow> rm"
  shows "snd s' (tmpfile (fst s)) = None"
  using assms by (cases op; cases s) (auto simp: op_defs split: option.splits if_splits)

text \<open>Closing a closed file again removes whatever bears the temporary name by then, and marks the file aborted.\<close>

lemma second_close_removes_by_name:
  assumes "closed f"
  shows "File_Close c n True (f, fs) = (Some CloseOnClosed, f\<lparr>aborted := True\<rparr>, fs(tmpfile f := None))"
  using assms by (simp add: op_defs)

end
