(* ===== verification/LdapDN.thy ===== *)
theory LdapDN
  imports Trie
begin

text \<open>
  Reading the attribute types and values of a distinguished name: \<open>ldap/decode_dn_contrib.go\<close>.
\<close>

section \<open>The code\<close>

text \<open>
  The texts of the errors are constructors: an escape at the end, an escape followed by one rune that is not special,
  by two runes of more than two bytes, by two bytes of which one is no hexadecimal digit.
\<close>

datatype dn_error = CorruptedEscape | EscapeCutShort nat | EscapeNotBytes string | EscapeNotHex string

text \<open>\<open>strings.Trim(s, " ")\<close>\<close>

definition trim_spaces :: "string \<Rightarrow> string" where
  "trim_spaces s = rev (dropWhile (\<lambda>c. c = CHR '' '') (rev (dropWhile (\<lambda>c. c = CHR '' '') s)))"

definition stripLeadingAndTrailingSpaces :: "string \<Rightarrow> string" where
  "stripLeadingAndTrailingSpaces inVal =
     (let noSpaces = trim_spaces inVal
      in if length noSpaces > 0 \<and> last noSpaces = CHR 0x5C \<and> last inVal = CHR '' '' then noSpaces @ '' ''
         else noSpaces)"

text \<open>The characters that stand for themselves after an escape: space, quote, \<open>#\<close>, \<open>+\<close>, \<open>,\<close>, \<open>;\<close>, \<open><\<close>, \<open>=\<close>, \<open>>\<close>, \<open>\\<close>.\<close>

definition special_runes :: "nat list" where
  "special_runes = [0x20, 0x22, 0x23, 0x2B, 0x2C, 0x3B, 0x3C, 0x3D, 0x3E, 0x5C]"

text \<open>\<open>hex.Decode\<close> of one byte.\<close>

definition hex_digit :: "char \<Rightarrow> nat option" where
  "hex_digit c =
     (if is_digit c then Some (byte c - 48)
      else if 97 \<le> byte c \<and> byte c \<le> 102 then Some (byte c - 87)
      else if 65 \<le> byte c \<and> byte c \<le> 70 then Some (byte c - 55)
      else None)"

definition hex_pair :: "string \<Rightarrow> char option" where
  "hex_pair xx =
     (case (hex_digit (xx ! 0), hex_digit (xx ! 1)) of
        (Some h, Some l) \<Rightarrow> Some (char_of (16 * h + l))
      | _ \<Rightarrow> None)"

definition written :: "string \<Rightarrow> dn_error + string \<Rightarrow> dn_error + string" where
  "written b rest = (case rest of Inl e \<Rightarrow> Inl e | Inr s \<Rightarrow> Inr (b @ s))"

fun decode_loop :: "nat list \<Rightarrow> dn_error + string" where
  "decode_loop [] = Inr ''''"
| "decode_loop (c # s) =
     (if c \<noteq> 0x5C then written (encode_rune c) (decode_loop s)
      else (case s of
              [] \<Rightarrow> Inl CorruptedEscape
            | d # t \<Rightarrow>
                (if d \<in> set special_runes then written (encode_rune d) (decode_loop t)
                 else (case t of
                         [] \<Rightarrow> Inl (EscapeCutShort d)
                       | e # u \<Rightarrow>
                           (let xx = encode_rune d @ encode_rune e
                            in if length xx \<noteq> 2 then Inl (EscapeNotBytes xx)
                               else (case hex_pair xx of
                                       None \<Rightarrow> Inl (EscapeNotHex xx)
                                     | Some b \<Rightarrow> written [b] (decode_loop u)))))))"

definition DecodeDN :: "string \<Rightarrow> dn_error + string" where
  "DecodeDN str = decode_loop (runes (stripLeadingAndTrailingSpaces str))"

section \<open>Escaped texts\<close>

text \<open>
  An escaped text is a sequence of runes that stand for themselves, escaped special characters and escaped bytes.
\<close>

datatype piece = Raw nat | Special nat | Hex char char

fun piece_runes :: "piece \<Rightarrow> nat list" where
  "piece_runes (Raw r) = [r]"
| "piece_runes (Special r) = [0x5C, r]"
| "piece_runes (Hex h l) = [0x5C, byte h, byte l]"

fun piece_ok :: "piece \<Rightarrow> bool" where
  "piece_ok (Raw r) \<longleftrightarrow> r \<noteq> 0x5C \<and> decode_rune (encode_rune r) = (Some r, length (encode_rune r))"
| "piece_ok (Special r) \<longleftrightarrow> r \<in> set special_runes"
| "piece_ok (Hex h l) \<longleftrightarrow> hex_digit h \<noteq> None \<and> hex_digit l \<noteq> None"

fun piece_value :: "piece \<Rightarrow> string" where
  "piece_value (Raw r) = encode_rune r"
| "piece_value (Special r) = encode_rune r"
| "piece_value (Hex h l) = [char_of (16 * the (hex_digit h) + the (hex_digit l))]"

definition escaped :: "piece list \<Rightarrow> string" where
  "escaped ps = concat (map encode_rune (concat (map piece_runes ps)))"

definition proper_rune :: "nat \<Rightarrow> bool" where
  "proper_rune r \<longleftrightarrow> decode_rune (encode_rune r) = (Some r, length (encode_rune r))"

lemma ascii_rune:
  assumes "r < 128"
  shows "encode_rune r = [char_of r]" "proper_rune r"
proof -
  show e: "encode_rune r = [char_of r]" using assms by (simp add: encode_rune_def)
  have "byte (char_of r) = r" using assms by (simp add: byte_def)
  then show "proper_rune r" using assms by (simp add: proper_rune_def e decode_rune_def)
qed

lemma range_runes_shift: "map snd (range_runes k s) = map snd (range_runes 0 s)"
proof (induction s arbitrary: k rule: length_induct)
  case (1 s)
  show ?case
  proof (cases "s = []")
    case False
    obtain v w where d: "decode_rune s = (v, w)" by (cases "decode_rune s")
    show ?thesis
    proof (cases v)
      case None
      have "length (tl s) < length s" using False by simp
      note shift = 1 [rule_format, OF this]
      show ?thesis using False d None shift [of "Suc k"] shift [of "Suc 0"] by (subst (1 2) range_runes.simps) simp
    next
      case (Some r)
      have "length (drop w s) < length s" using decode_rune_Some [of s r w] d Some by auto
      note shift = 1 [rule_format, OF this]
      show ?thesis using False d Some shift [of "k + w"] shift [of w] by (subst (1 2) range_runes.simps) simp
    qed
  qed (simp add: range_runes.simps)
qed

lemma runes_encoded:
  assumes "proper_rune r"
  shows "runes (encode_rune r @ s) = r # runes s"
proof -
  let ?w = "length (encode_rune r)"
  have d: "decode_rune (encode_rune r @ s) = (Some r, ?w)"
    using decode_rune_stable [of "encode_rune r" r ?w s] assms by (simp add: proper_rune_def)
  then have "encode_rune r @ s \<noteq> []" using decode_rune_Some by fastforce
  then show ?thesis using d range_runes_shift [of ?w s] by (subst range_runes.simps) simp
qed

lemma runes_concat: "\<forall>r\<in>set rs. proper_rune r \<Longrightarrow> runes (concat (map encode_rune rs)) = rs"
  by (induction rs) (simp_all add: runes_encoded range_runes.simps [of _ "[]"])

lemma hex_digit_ascii: "hex_digit h = Some v \<Longrightarrow> byte h < 128 \<and> byte h \<notin> set special_runes"
  by (auto simp: hex_digit_def is_digit_def special_runes_def split: if_splits)

lemma special_ascii: "r \<in> set special_runes \<Longrightarrow> r < 128"
  by (auto simp: special_runes_def)

lemma piece_runes_proper:
  assumes "piece_ok p" "r \<in> set (piece_runes p)"
  shows "proper_rune r"
  using assms
proof (cases p)
  case (Hex h l)
  then show ?thesis using assms by (auto intro!: ascii_rune(2) dest: hex_digit_ascii)
qed (auto simp: proper_rune_def [symmetric] special_ascii ascii_rune(2))

lemma runes_escaped: "list_all piece_ok ps \<Longrightarrow> runes (escaped ps) = concat (map piece_runes ps)"
  unfolding escaped_def by (rule runes_concat) (auto simp: list_all_iff intro: piece_runes_proper)

lemma decode_piece:
  assumes "piece_ok p"
  shows "decode_loop (piece_runes p @ rs) = written (piece_value p) (decode_loop rs)"
proof (cases p)
  case (Hex h l)
  then obtain v w where v: "hex_digit h = Some v" "hex_digit l = Some w" using assms by auto
  note a = hex_digit_ascii [OF v(1)] hex_digit_ascii [OF v(2)]
  have "encode_rune (byte h) = [h]" "encode_rune (byte l) = [l]"
    using ascii_rune(1) a by (simp_all add: byte_def)
  then show ?thesis using a v Hex by (simp add: hex_pair_def)
qed (use assms in auto)

lemma decode_pieces:
  "list_all piece_ok ps \<Longrightarrow> decode_loop (concat (map piece_runes ps)) = Inr (concat (map piece_value ps))"
  by (induction ps) (simp_all add: decode_piece written_def)

lemma wide_rune_bytes:
  assumes "proper_rune r" "128 \<le> r" "c \<in> set (encode_rune r)"
  shows "128 \<le> byte c"
proof -
  define s where "s = encode_rune r"
  have d: "decode_rune s = (Some r, length s)" using assms(1) by (simp add: s_def proper_rune_def)
  have "list_all (\<lambda>c. 128 \<le> byte c) s"
    using d assms(2) by (cases s) (auto simp: decode_rune_def Let_def cont_byte_def split: list.splits if_splits)
  then show ?thesis using assms(3) by (simp add: s_def list_all_iff)
qed

lemma ascii_in_rune:
  assumes "proper_rune r" "c \<in> set (encode_rune r)" "byte c < 128"
  shows "r = byte c" "encode_rune r = [c]"
proof -
  have "r < 128" using wide_rune_bytes [OF assms(1) _ assms(2)] assms(3) by fastforce
  then show "r = byte c" "encode_rune r = [c]" using assms(2) ascii_rune(1) by auto
qed

lemma encode_rune_nonempty: "encode_rune r \<noteq> []"
  by (simp add: encode_rune_def)

text \<open>The runes of a text are proper, and they are its bytes again when the text is valid.\<close>

lemma runes_proper: "r \<in> set (runes s) \<Longrightarrow> proper_rune r"
proof (induction s rule: length_induct)
  case (1 s)
  have u: "proper_rune 65533" by (simp add: proper_rune_def encode_rune_def decode_rune_def cont_byte_def)
  show ?case
  proof (cases "s = []")
    case False
    obtain v w where d: "decode_rune s = (v, w)" by (cases "decode_rune s")
    show ?thesis
    proof (cases v)
      case None
      have "runes s = 65533 # runes (tl s)"
        using False d None range_runes_shift [of "Suc 0" "tl s"] by (subst range_runes.simps) (simp del: map_map)
      then have "r = 65533 \<or> r \<in> set (runes (tl s))" using 1 (2) by (simp del: set_map)
      then show ?thesis using 1 (1) [rule_format, of "tl s"] False u by auto
    next
      case (Some q)
      note D = decode_rune_Some [OF d [unfolded Some]]
      have q: "proper_rune q"
        using decode_rune_stable [of s q w "[]"] D d Some by (simp add: proper_rune_def) (metis length_take min.absorb2)
      have "runes s = q # runes (drop w s)"
        using False d Some range_runes_shift [of w "drop w s"] by (subst range_runes.simps) (simp del: map_map)
      then have "r = q \<or> r \<in> set (runes (drop w s))" using 1 (2) by (simp del: set_map)
      moreover have "length (drop w s) < length s" using D False by simp
      ultimately show ?thesis using 1 (1) q by blast
    qed
  qed (use 1 (2) in \<open>simp add: range_runes.simps\<close>)
qed

lemma encode_runes:
  "valid_utf8 s \<Longrightarrow> concat (map encode_rune (runes s)) = s"
proof (induction s rule: valid_utf8.induct)
  case (1 s)
  show ?case
  proof (cases "s = []")
    case False
    obtain q w where d: "decode_rune s = (Some q, w)" and v: "valid_utf8 (drop w s)"
      using 1 (2) False by (subst (asm) valid_utf8.simps) (auto split: prod.splits option.splits)
    have "concat (map encode_rune (runes (drop w s))) = drop w s"
      using 1 (1) [OF False d [symmetric] refl] v by simp
    then have "concat (map encode_rune (runes s)) = encode_rune q @ drop w s"
      using False d range_runes_shift [of w "drop w s"] by (subst range_runes.simps) (simp del: map_map)
    then show ?thesis using decode_rune_Some [OF d] by (metis append_take_drop_id)
  qed (simp add: range_runes.simps)
qed

section \<open>Decoding is exact\<close>

lemma decode_loop_Inr:
  assumes "decode_loop rs = Inr v" "\<forall>r\<in>set rs. proper_rune r"
  shows "\<exists>ps. list_all piece_ok ps \<and> rs = concat (map piece_runes ps) \<and> v = concat (map piece_value ps)"
  using assms
proof (induction rs arbitrary: v rule: decode_loop.induct)
  case 1
  then show ?case by (intro exI [of _ "[]"]) simp
next
  case (2 c s)
  have step: ?case if w: "written b (decode_loop u) = Inr v" and "\<And>w. decode_loop u = Inr w \<Longrightarrow>
      \<exists>ps. list_all piece_ok ps \<and> u = concat (map piece_runes ps) \<and> w = concat (map piece_value ps)"
    "piece_ok p" "piece_value p = b" "c # s = piece_runes p @ u" for b u p
  proof -
    obtain w where w: "decode_loop u = Inr w" "v = b @ w" by (cases "decode_loop u") (use w in \<open>auto simp: written_def\<close>)
    from that(2) [OF w(1)] obtain ps where "list_all piece_ok ps" "u = concat (map piece_runes ps)"
      "w = concat (map piece_value ps)" by blast
    then show ?thesis using w that(3-5) by (intro exI [of _ "p # ps"]) simp
  qed
  consider (raw) "c \<noteq> 0x5C" | (special) d t where "c = 0x5C" "s = d # t" "d \<in> set special_runes"
    | (hex) d e u where "c = 0x5C" "s = d # e # u" "d \<notin> set special_runes"
    using "2.prems"(1) by (auto split: list.splits if_splits)
  then show ?case
  proof cases
    case raw
    show ?thesis
      by (rule step [of "encode_rune c" s "Raw c"]) (use 2 raw in \<open>simp_all add: proper_rune_def\<close>)
  next
    case special
    show ?thesis
      by (rule step [of "encode_rune d" t "Special d"]) (use 2 special in simp_all)
  next
    case hex
    let ?xx = "encode_rune d @ encode_rune e"
    have x: "length ?xx = 2" and "hex_pair ?xx \<noteq> None"
      using "2.prems"(1) hex by (auto simp: Let_def split: if_splits option.splits)
    then obtain b where b: "hex_pair ?xx = Some b" by blast
    have one: "\<exists>h. encode_rune r = [h] \<and> byte h = r" if "length (encode_rune r) = 1" "proper_rune r" for r
    proof -
      have "r < 128" using that(1) by (simp add: encode_rune_def split: if_splits)
      then show ?thesis using ascii_rune(1) by (intro exI [of _ "char_of r"]) simp
    qed
    have "length (encode_rune d) = 1" "length (encode_rune e) = 1"
      using x encode_rune_nonempty [of d] encode_rune_nonempty [of e] by (cases "encode_rune d"; cases "encode_rune e"; simp)+
    then obtain h l where h: "encode_rune d = [h]" "byte h = d" "encode_rune e = [l]" "byte l = e"
      using one [of d] one [of e] "2.prems"(2) hex by auto
    then have "piece_ok (Hex h l)" "piece_value (Hex h l) = [b]"
      using b by (auto simp: hex_pair_def split: option.splits)
    moreover have "written [b] (decode_loop u) = Inr v" using "2.prems"(1) hex x b h by simp
    ultimately show ?thesis
      by (rule_tac step [of "[b]" u "Hex h l"]) (use 2 hex x b h in simp_all)
  qed
qed

text \<open>A text decodes exactly when it is made of such pieces, to what they stand for.\<close>

lemma DecodeDN_exact:
  "DecodeDN s = Inr v \<longleftrightarrow>
     (\<exists>ps. list_all piece_ok ps \<and> runes (stripLeadingAndTrailingSpaces s) = concat (map piece_runes ps) \<and>
        v = concat (map piece_value ps))"
  unfolding DecodeDN_def using decode_loop_Inr runes_proper decode_pieces by (metis sum.inject(2))

lemma trim_spaces_id: "s \<noteq> [] \<Longrightarrow> hd s \<noteq> CHR '' '' \<Longrightarrow> last s \<noteq> CHR '' '' \<Longrightarrow> trim_spaces s = s"
proof -
  assume "s \<noteq> []" "hd s \<noteq> CHR '' ''" "last s \<noteq> CHR '' ''"
  then have "dropWhile (\<lambda>c. c = CHR '' '') s = s" "dropWhile (\<lambda>c. c = CHR '' '') (rev s) = rev s"
    by (simp_all add: dropWhile_eq_self_iff hd_rev)
  then show ?thesis by (simp add: trim_spaces_def)
qed

lemma trim_spaces_escaped:
  assumes "hd (u @ [CHR 0x5C]) \<noteq> CHR '' ''"
  shows "stripLeadingAndTrailingSpaces (u @ [CHR 0x5C, CHR '' '']) = u @ [CHR 0x5C, CHR '' '']"
proof -
  have "hd (u @ [CHR 0x5C, CHR '' '']) \<noteq> CHR '' ''" using assms by (cases u) simp_all
  then have "trim_spaces (u @ [CHR 0x5C, CHR '' '']) = u @ [CHR 0x5C]"
    by (cases u) (simp_all add: trim_spaces_def)
  then show ?thesis by (simp add: stripLeadingAndTrailingSpaces_def)
qed

lemma strip_plain:
  assumes "s \<noteq> [] \<Longrightarrow> hd s \<noteq> CHR '' ''" "s \<noteq> [] \<Longrightarrow> last s \<noteq> CHR '' '' \<or> (\<exists>u. s = u @ [CHR 0x5C, CHR '' ''])"
  shows "stripLeadingAndTrailingSpaces s = s"
proof (cases "s = [] \<or> last s \<noteq> CHR '' ''")
  case True
  then have "trim_spaces s = s" using trim_spaces_id [of s] assms(1) by (cases s) (auto simp: trim_spaces_def)
  then show ?thesis using True by (auto simp: stripLeadingAndTrailingSpaces_def)
next
  case False
  then obtain u where u: "s = u @ [CHR 0x5C, CHR '' '']" using assms(2) by blast
  have "hd (u @ [CHR 0x5C]) \<noteq> CHR '' ''" using assms(1) u by (cases u) auto
  then show ?thesis unfolding u by (rule trim_spaces_escaped)
qed

lemma escaped_ends:
  assumes "list_all piece_ok ps" "ps \<noteq> []"
  shows "hd ps \<noteq> Raw 0x20 \<Longrightarrow> hd (escaped ps) \<noteq> CHR '' ''"
    and "last ps \<noteq> Raw 0x20 \<Longrightarrow> last (escaped ps) \<noteq> CHR '' '' \<or> (\<exists>u. escaped ps = u @ [CHR 0x5C, CHR '' ''])"
proof -
  have space: "byte (CHR '' '') = 32" by code_simp
  have bs: "encode_rune 0x5C = [CHR 0x5C]" by code_simp
  have ends: "p = Raw 0x20" if "piece_ok p" "hd (concat (map encode_rune (piece_runes p))) = CHR '' ''" for p
  proof (cases p)
    case (Raw r)
    then have "CHR '' '' \<in> set (encode_rune r)" using that(2) encode_rune_nonempty [of r] hd_in_set by force
    then show ?thesis using ascii_in_rune(1) [of r "CHR '' ''"] that(1) Raw space by (simp add: proper_rune_def)
  qed (use that in \<open>simp_all add: bs\<close>)
  obtain p qs where p: "ps = p # qs" using assms(2) by (cases ps) auto
  have ne: "concat (map encode_rune (piece_runes p)) \<noteq> []" for p
    by (cases p) (auto simp: encode_rune_nonempty)
  show "hd ps \<noteq> Raw 0x20 \<Longrightarrow> hd (escaped ps) \<noteq> CHR '' ''"
    using ends [of p] assms ne [of p] unfolding p by (auto simp: escaped_def)
  obtain q rs where q: "ps = rs @ [q]" using assms(2) by (cases ps rule: rev_cases) auto
  show "last (escaped ps) \<noteq> CHR '' '' \<or> (\<exists>u. escaped ps = u @ [CHR 0x5C, CHR '' ''])" if "last ps \<noteq> Raw 0x20"
  proof -
    define pre where "pre = concat (map encode_rune (concat (map piece_runes rs)))"
    have e: "escaped ps = pre @ concat (map encode_rune (piece_runes q))" by (simp add: escaped_def pre_def q)
    have ok: "piece_ok q" using assms(1) q by simp
    show ?thesis
    proof (cases q)
      case (Raw r)
      then have "last (escaped ps) \<in> set (encode_rune r)" using encode_rune_nonempty [of r] by (simp add: e)
      then have "last (escaped ps) = CHR '' '' \<Longrightarrow> r = 32"
        using ascii_in_rune(1) [of r "CHR '' ''"] ok Raw space by (simp add: proper_rune_def)
      then show ?thesis using that q Raw by auto
    next
      case (Special r)
      then have "escaped ps = pre @ [CHR 0x5C, char_of r]"
        using ok special_ascii [of r] ascii_rune(1) [of r] by (simp add: e bs)
      then show ?thesis by (cases "char_of r = CHR '' ''") auto
    next
      case (Hex h l)
      then have h: "byte h < 128" "byte l < 128" "byte l \<notin> set special_runes" using ok hex_digit_ascii by auto
      then have "escaped ps = pre @ [CHR 0x5C, h, l]" using Hex ascii_rune(1) by (simp add: e bs)
      moreover have "l \<noteq> CHR '' ''" using h(3) space by (auto simp: special_runes_def)
      ultimately show ?thesis by simp
    qed
  qed
qed

lemma strip_escaped:
  assumes "list_all piece_ok ps" "ps \<noteq> [] \<Longrightarrow> hd ps \<noteq> Raw 0x20 \<and> last ps \<noteq> Raw 0x20"
  shows "stripLeadingAndTrailingSpaces (escaped ps) = escaped ps"
proof (cases "ps = []")
  case False
  show ?thesis using escaped_ends [OF assms(1) False] assms(2) [OF False] by (intro strip_plain) blast+
qed (simp add: escaped_def stripLeadingAndTrailingSpaces_def trim_spaces_def)

lemma decode_stripped:
  assumes "stripLeadingAndTrailingSpaces s = escaped ps" "list_all piece_ok ps"
  shows "DecodeDN s = Inr (concat (map piece_value ps))"
  unfolding DecodeDN_def assms(1) using runes_escaped [OF assms(2)] decode_pieces [OF assms(2)] by simp

text \<open>C31: Text in which any characters may be written as they are, the special ones after a backslash and any bytes as
  hexadecimal pairs decodes to what it stands for, if it does not begin or end with a bare space.\<close>

theorem DecodeDN_escaped:
  assumes "list_all piece_ok ps" "ps \<noteq> [] \<Longrightarrow> hd ps \<noteq> Raw 0x20 \<and> last ps \<noteq> Raw 0x20"
  shows "DecodeDN (escaped ps) = Inr (concat (map piece_value ps))"
  using decode_stripped [OF strip_escaped [OF assms] assms(1)] .


theorem DecodeDN_escaped_witness:
  "DecodeDN (escaped [Raw 0x61, Raw 0x20, Special 0x2C, Hex (CHR ''c'') (CHR ''3''), Hex (CHR ''A'') (CHR ''9''), Raw 0xE9, Special 0x20]) =
     Inr (''a ,'' @ [CHR 0xC3, CHR 0xA9, CHR 0xC3, CHR 0xA9] @ '' '')"
proof -
  let ?ps = "[Raw 0x61, Raw 0x20, Special 0x2C, Hex (CHR ''c'') (CHR ''3''), Hex (CHR ''A'') (CHR ''9''), Raw 0xE9, Special 0x20]"
  have "list_all piece_ok ?ps" by code_simp
  moreover have "concat (map piece_value ?ps) = ''a ,'' @ [CHR 0xC3, CHR 0xA9, CHR 0xC3, CHR 0xA9] @ '' ''" by code_simp
  ultimately show ?thesis using DecodeDN_escaped [of ?ps] by simp
qed

text \<open>So every valid text has an escaped form that gives it back.\<close>

definition escape_dn :: "string \<Rightarrow> piece list" where
  "escape_dn s = map (\<lambda>r. if r \<in> set special_runes then Special r else Raw r) (runes s)"

lemma special_or_raw_ok:
  "\<forall>r\<in>set rs. proper_rune r \<Longrightarrow> list_all piece_ok (map (\<lambda>r. if r \<in> set special_runes then Special r else Raw r) rs)"
  by (induction rs) (auto simp: proper_rune_def special_runes_def)

lemma DecodeDN_escape_dn:
  assumes "valid_utf8 s"
  shows "DecodeDN (escaped (escape_dn s)) = Inr s"
proof -
  have ok: "list_all piece_ok (escape_dn s)"
    unfolding escape_dn_def by (rule special_or_raw_ok) (use runes_proper in blast)
  have "p \<noteq> Raw 0x20" if "p \<in> set (escape_dn s)" for p
    using that by (auto simp: escape_dn_def special_runes_def)
  moreover have "concat (map piece_value (escape_dn s)) = concat (map encode_rune (runes s))"
    by (simp add: escape_dn_def comp_def if_distrib [of piece_value] cong: if_cong)
  ultimately show ?thesis
    using decode_stripped [OF strip_escaped [OF ok] ok] encode_runes [OF assms] hd_in_set last_in_set by metis
qed

text \<open>An escaped backslash at the end lets one trailing space through.\<close>

lemma space_after_escaped_backslash_kept:
  "DecodeDN [CHR ''a'', CHR 0x5C, CHR 0x5C, CHR '' '', CHR '' ''] = Inr [CHR ''a'', CHR 0x5C, CHR '' '']"
proof -
  let ?ps = "[Raw 0x61, Special 0x5C, Raw 0x20]"
  have "stripLeadingAndTrailingSpaces [CHR ''a'', CHR 0x5C, CHR 0x5C, CHR '' '', CHR '' ''] = escaped ?ps" by code_simp
  moreover have "list_all piece_ok ?ps" "concat (map piece_value ?ps) = [CHR ''a'', CHR 0x5C, CHR '' '']" by code_simp+
  ultimately show ?thesis using decode_stripped by metis
qed

end
