(* ===== verification/Ldap.thy ===== *)
theory Ldap
  imports Hosts Claims
begin

text \<open>
  The LDAP configuration (\<open>ldap/ldap.go\<close>): connecting, looking up users, groups and names. The LDAP library, the
  resolver and the servers are a parameter: a record of what they answer.
\<close>

section \<open>Errors\<close>

text \<open>An error is its text and the result code of the LDAP error it wraps, if any (\<open>ldap.IsErrorWithCode\<close>).\<close>

record ldap_err =
  err_code :: "nat option"
  err_text :: string

definition errors_New :: "string \<Rightarrow> ldap_err" where
  "errors_New t = \<lparr>err_code = None, err_text = t\<rparr>"

text \<open>\<open>fmt.Errorf(pre + "%w", err)\<close>\<close>

definition Wrap :: "string \<Rightarrow> ldap_err \<Rightarrow> ldap_err" where
  "Wrap pre err = err\<lparr>err_text := pre @ err_text err\<rparr>"

fun traverse :: "('a \<Rightarrow> 'e + 'b) \<Rightarrow> 'a list \<Rightarrow> 'e + 'b list" where
  "traverse f [] = Inr []"
| "traverse f (x # xs) =
     (case f x of Inl e \<Rightarrow> Inl e
      | Inr y \<Rightarrow> (case traverse f xs of Inl e \<Rightarrow> Inl e | Inr ys \<Rightarrow> Inr (y # ys)))"

section \<open>The world outside\<close>

text \<open>\<open>ServerName\<close> is the one field of \<open>tls.Config\<close> the code touches.\<close>

record tls_config =
  ServerName :: string

record conn =
  conn_url :: string
  conn_tls :: "tls_config option"

datatype scope = ScopeBaseObject | ScopeWholeSubtree

text \<open>What varies between the search requests of the code.\<close>

record search_request =
  BaseDN :: string
  Scope :: scope
  SearchFilter :: string
  SearchAttributes :: "string list"

record entry =
  entry_DN :: string
  entry_Attributes :: "(string \<times> string list) list"

record 'dn ldap_world =
  ParseDN :: "string \<Rightarrow> ldap_err + 'dn"
  DN_String :: "'dn \<Rightarrow> string"
  AncestorOf :: "'dn \<Rightarrow> 'dn \<Rightarrow> bool"
  CompileFilter :: "string \<Rightarrow> ldap_err option"
  EscapeFilter :: "string \<Rightarrow> string"
  DialURL :: "string \<Rightarrow> tls_config option \<Rightarrow> ldap_err option"
  StartTLS :: "string \<Rightarrow> tls_config \<Rightarrow> ldap_err option"
  Bind :: "conn \<Rightarrow> string \<Rightarrow> string \<Rightarrow> ldap_err option"
  UnauthenticatedBind :: "conn \<Rightarrow> string \<Rightarrow> ldap_err option"
  Search :: "conn \<Rightarrow> search_request \<Rightarrow> ldap_err + entry list"
  LookupSRV :: "string \<Rightarrow> string \<Rightarrow> string \<Rightarrow> ldap_err + (string \<times> port) list"

section \<open>The configuration\<close>

definition dnDelimiter :: char where "dnDelimiter = CHR '';''"

definition attrDelimiter :: char where "attrDelimiter = CHR '',''"

definition noAttrsSpec :: "string list" where "noAttrsSpec = [''1.1'']"

record 'dn BaseDNInfo =
  Original :: string
  ServerDN :: string
  Parsed :: 'dn

record 'dn ldap_config =
  Enabled :: bool
  ServerAddr :: string
  SRVRecordName :: string
  ServerInsecure :: bool
  ServerStartTLS :: bool
  TLS :: "tls_config option"
  LookupBindDN :: string
  LookupBindPassword :: string
  UserDNSearchBaseDistName :: string
  userDNSearchBaseDistNames :: "'dn BaseDNInfo list"
  UserDNSearchFilter :: string
  UserDNAttributes :: string
  userDNAttributesList :: "string list"
  GroupSearchBaseDistName :: string
  groupSearchBaseDistNames :: "'dn BaseDNInfo list"
  GroupSearchFilter :: string

definition Config_Clone :: "'dn ldap_config \<Rightarrow> 'dn ldap_config" where
  "Config_Clone l = l"

section \<open>Connecting\<close>

text \<open>What goes over the wire, in order; the flag says whether the call succeeded.\<close>

datatype wire_event = Dialed string "tls_config option" bool | TimeoutSet | TLSStarted tls_config bool | ConnClosed
  | BindSent string string bool

definition dial :: "'dn ldap_world \<Rightarrow> string \<Rightarrow> tls_config option \<Rightarrow> wire_event list \<times> (ldap_err + conn)" where
  "dial W url tls =
     (case DialURL W url tls of
        Some err \<Rightarrow> ([Dialed url tls False], Inl err)
      | None \<Rightarrow> ([Dialed url tls True], Inr \<lparr>conn_url = url, conn_tls = tls\<rparr>))"

text \<open>The end of \<open>connect\<close>: the timeout of every connection.\<close>

definition with_timeout :: "wire_event list \<times> (ldap_err + conn) \<Rightarrow> wire_event list \<times> (ldap_err + conn)" where
  "with_timeout r = (case snd r of Inl err \<Rightarrow> r | Inr c \<Rightarrow> (fst r @ [TimeoutSet], Inr c))"

definition upgrade :: "'dn ldap_world \<Rightarrow> tls_config \<Rightarrow> wire_event list \<times> (ldap_err + conn) \<Rightarrow> wire_event list \<times> (ldap_err + conn)" where
  "upgrade W tls r =
     (case snd r of
        Inl err \<Rightarrow> r
      | Inr c \<Rightarrow>
          (case StartTLS W (conn_url c) tls of
             Some err \<Rightarrow> (fst r @ [TimeoutSet, TLSStarted tls False, ConnClosed], Inl err)
           | None \<Rightarrow> (fst r @ [TimeoutSet, TLSStarted tls True], Inr (c\<lparr>conn_tls := Some tls\<rparr>))))"

definition connect :: "'dn ldap_world \<Rightarrow> 'dn ldap_config \<Rightarrow> string \<Rightarrow> wire_event list \<times> (ldap_err + conn)" where
  "connect W l ldapAddr =
     (if ServerInsecure l \<and> \<not> ServerStartTLS l then with_timeout (dial W (''ldap://'' @ ldapAddr) None)
      else
        (case SplitHostPort ldapAddr of
           Inl err \<Rightarrow> ([], Inl (errors_New (addr_error_text ldapAddr err)))
         | Inr (host, _) \<Rightarrow>
             (let tlsConfig = (case TLS l of None \<Rightarrow> \<lparr>ServerName = ''''\<rparr> | Some t \<Rightarrow> t)\<lparr>ServerName := host\<rparr>
              in if ServerStartTLS l then with_timeout (upgrade W tlsConfig (dial W (''ldap://'' @ ldapAddr) None))
                 else with_timeout (dial W (''ldaps://'' @ ldapAddr) (Some tlsConfig)))))"

definition srv_addr :: "string \<times> port \<Rightarrow> string" where
  "srv_addr a = fst a @ '':'' @ itoa (uint (snd a))"

text \<open>The loop over the servers of a record: the events, the first connection, or all the errors.\<close>

fun connect_loop :: "'dn ldap_world \<Rightarrow> 'dn ldap_config \<Rightarrow> (string \<times> port) list \<Rightarrow> wire_event list \<times> (ldap_err list + conn)" where
  "connect_loop W l [] = ([], Inl [])"
| "connect_loop W l (addr # addrs) =
     (case connect W l (srv_addr addr) of
        (ev, Inr c) \<Rightarrow> (ev, Inr c)
      | (ev, Inl err) \<Rightarrow>
          (case connect_loop W l addrs of
             (ev', Inl errs) \<Rightarrow> (ev @ ev', Inl (err # errs))
           | (ev', Inr c) \<Rightarrow> (ev @ ev', Inr c)))"

fun join_str :: "string \<Rightarrow> string list \<Rightarrow> string" where
  "join_str sep [] = ''''"
| "join_str sep [s] = s"
| "join_str sep (s # t # ss) = s @ sep @ join_str sep (t # ss)"

definition Connect :: "'dn ldap_world \<Rightarrow> 'dn ldap_config option \<Rightarrow> wire_event list \<times> (ldap_err + conn)" where
  "Connect W receiver =
     (case receiver of
        None \<Rightarrow> ([], Inl (errors_New ''ldap is not configured''))
      | Some l \<Rightarrow>
          (if \<not> Enabled l then ([], Inl (errors_New ''ldap is not configured''))
           else if SRVRecordName l \<notin> {''on'', ''ldap'', ''ldaps'', ''''} then
             ([], Inl (errors_New ''invalid SRV Record Name parameter''))
           else
             (let srvService = (if SRVRecordName l \<in> {''ldap'', ''ldaps''} then SRVRecordName l else '''');
                  srvProto = (if SRVRecordName l \<in> {''ldap'', ''ldaps''} then ''tcp'' else '''');
                  srvName = (if SRVRecordName l = '''' then '''' else ServerAddr l)
              in if srvName = '''' then
                   (case SplitHostPort (ServerAddr l) of
                      Inl err \<Rightarrow>
                        (if contains_str (addr_error_text (ServerAddr l) err) ''missing port in address''
                         then connect W l (JoinHostPort (ServerAddr l) ''636'')
                         else ([], Inl (errors_New (addr_error_text (ServerAddr l) err))))
                    | Inr _ \<Rightarrow> connect W l (ServerAddr l))
                 else
                   (case LookupSRV W srvService srvProto srvName of
                      Inl err \<Rightarrow> ([], Inl (Wrap ''DNS SRV Record lookup error: '' err))
                    | Inr addrs \<Rightarrow>
                        (case connect_loop W l addrs of
                           (ev, Inr c) \<Rightarrow> (ev, Inr c)
                         | (ev, Inl errs) \<Rightarrow>
                             (ev, Inl (errors_New (''could not connect to any LDAP server: '' @
                                join_str ''; '' (map2 (\<lambda>a e. ''Connect err to '' @ srv_addr a @ '' - '' @ err_text e) addrs errs)))))))))"

definition IsErrorWithCode :: "ldap_err \<Rightarrow> nat \<Rightarrow> bool" where
  "IsErrorWithCode err n = (err_code err = Some n)"

definition LookupBind :: "'dn ldap_world \<Rightarrow> 'dn ldap_config \<Rightarrow> conn \<Rightarrow> wire_event list \<times> ldap_err option" where
  "LookupBind W l c =
     (let err = (if LookupBindPassword l = '''' then UnauthenticatedBind W c (LookupBindDN l)
                 else Bind W c (LookupBindDN l) (LookupBindPassword l))
      in ([BindSent (LookupBindDN l) (LookupBindPassword l) (err = None)],
          (case err of None \<Rightarrow> None
           | Some err \<Rightarrow>
               (if IsErrorWithCode err 49 then Some (Wrap ''ldap lookup bind user invalid credentials error: '' err)
                else Some (Wrap ''ldap client: '' err)))))"

section \<open>Looking up names\<close>

record DNSearchResult =
  NormDN :: string
  ActualDN :: string
  Attributes :: "string \<Rightarrow> string list option"

definition NormalizeDN :: "'dn ldap_world \<Rightarrow> string \<Rightarrow> ldap_err + string" where
  "NormalizeDN W dn =
     (case ParseDN W dn of
        Inl err \<Rightarrow> Inl (Wrap (''DN ('' @ dn @ '') parse failure: '') err)
      | Inr p \<Rightarrow> Inr (DN_String W p))"

definition attrs_map :: "(string \<times> string list) list \<Rightarrow> string \<Rightarrow> string list option" where
  "attrs_map attrs = foldl (\<lambda>m (n, v). m(n \<mapsto> v)) Map.empty attrs"

definition entry_result :: "'dn ldap_world \<Rightarrow> entry \<Rightarrow> ldap_err + DNSearchResult" where
  "entry_result W e =
     (case NormalizeDN W (entry_DN e) of
        Inl err \<Rightarrow> Inl err
      | Inr normDN \<Rightarrow> Inr \<lparr>NormDN = normDN, ActualDN = entry_DN e, Attributes = attrs_map (entry_Attributes e)\<rparr>)"

text \<open>The search of \<open>LookupUsername\<close> below one base.\<close>

definition users_below :: "'dn ldap_world \<Rightarrow> conn \<Rightarrow> string \<Rightarrow> string list \<Rightarrow> 'dn BaseDNInfo \<Rightarrow> ldap_err + DNSearchResult list" where
  "users_below W c flt attrsToFetch base =
     (case Search W c \<lparr>BaseDN = ServerDN base, Scope = ScopeWholeSubtree, SearchFilter = flt, SearchAttributes = attrsToFetch\<rparr> of
        Inl err \<Rightarrow>
          (if IsErrorWithCode err 32
           then Inl (Wrap (''base DN ('' @ ServerDN base @ '') for user DN search does not exist: '') err)
           else Inl err)
      | Inr entries \<Rightarrow> traverse (entry_result W) entries)"

definition user_filter :: "'dn ldap_world \<Rightarrow> 'dn ldap_config \<Rightarrow> string \<Rightarrow> string" where
  "user_filter W l username = replace_all ''%s'' (EscapeFilter W username) (UserDNSearchFilter l)"

definition LookupUsername :: "'dn ldap_world \<Rightarrow> 'dn ldap_config \<Rightarrow> conn \<Rightarrow> string \<Rightarrow> ldap_err + DNSearchResult" where
  "LookupUsername W l c username =
     (let attrsToFetch = (if userDNAttributesList l \<noteq> [] then userDNAttributesList l else noAttrsSpec)
      in (case traverse (users_below W c (user_filter W l username) attrsToFetch) (userDNSearchBaseDistNames l) of
            Inl err \<Rightarrow> Inl err
          | Inr found \<Rightarrow>
              (let foundDistNames = concat found
               in if foundDistNames = [] then Inl (errors_New (''user DN not found for: '' @ username))
                  else if length foundDistNames \<noteq> 1 then
                    Inl (errors_New (''multiple DNs for '' @ username @ '' found - please fix the search filter''))
                  else Inr (hd foundDistNames))))"

definition getGroups :: "'dn ldap_world \<Rightarrow> conn \<Rightarrow> search_request \<Rightarrow> ldap_err + string list" where
  "getGroups W c sreq =
     (case Search W c sreq of
        Inl err \<Rightarrow>
          (if IsErrorWithCode err 32
           then Inl (Wrap (''base DN ('' @ BaseDN sreq @ '') for group search does not exist: '') err)
           else Inl (Wrap ''ldap client: '' err))
      | Inr entries \<Rightarrow> traverse (\<lambda>e. NormalizeDN W (entry_DN e)) entries)"

definition group_filter :: "'dn ldap_world \<Rightarrow> 'dn ldap_config \<Rightarrow> string \<Rightarrow> string \<Rightarrow> string" where
  "group_filter W l username bindDN =
     replace_all ''%d'' (EscapeFilter W bindDN) (replace_all ''%s'' (EscapeFilter W username) (GroupSearchFilter l))"

definition groups_below :: "'dn ldap_world \<Rightarrow> conn \<Rightarrow> string \<Rightarrow> string \<Rightarrow> 'dn BaseDNInfo \<Rightarrow> ldap_err + string list" where
  "groups_below W c flt bindDN base =
     (case getGroups W c \<lparr>BaseDN = ServerDN base, Scope = ScopeWholeSubtree, SearchFilter = flt, SearchAttributes = noAttrsSpec\<rparr> of
        Inl err \<Rightarrow> Inl (Wrap (''error finding groups of '' @ bindDN @ '': '') err)
      | Inr gs \<Rightarrow> Inr gs)"

definition SearchForUserGroups :: "'dn ldap_world \<Rightarrow> 'dn ldap_config \<Rightarrow> conn \<Rightarrow> string \<Rightarrow> string \<Rightarrow> ldap_err + string list" where
  "SearchForUserGroups W l c username bindDN =
     (if GroupSearchFilter l \<noteq> '''' then
        (case traverse (groups_below W c (group_filter W l username bindDN) bindDN) (groupSearchBaseDistNames l) of
           Inl err \<Rightarrow> Inl err
         | Inr gs \<Rightarrow> Inr (concat gs))
      else Inr [])"

text \<open>\<open>LookupDN\<close>; no result and no error is \<^term>\<open>Inr None\<close>.\<close>

definition LookupDN :: "'dn ldap_world \<Rightarrow> conn \<Rightarrow> string \<Rightarrow> string list \<Rightarrow> ldap_err + DNSearchResult option" where
  "LookupDN W c dn attrs =
     (let attrsToFetch = (if attrs \<noteq> [] then attrs else noAttrsSpec)
      in (case Search W c \<lparr>BaseDN = dn, Scope = ScopeBaseObject, SearchFilter = ''(objectClass=*)'', SearchAttributes = attrsToFetch\<rparr> of
            Inl err \<Rightarrow> (if IsErrorWithCode err 32 then Inr None else Inl (Wrap ''ldap client: '' err))
          | Inr entries \<Rightarrow>
              (if length entries \<noteq> 1 then
                 Inl (errors_New (''multiple DNs found for '' @ dn @ '' - this should not happen for a base object search''))
               else map_sum id Some (entry_result W (hd entries)))))"

end
