(* ===== verification/LdapValidate.thy ===== *)
theory LdapValidate
  imports Ldap
begin

text \<open>
  Validation of the LDAP configuration (\<open>ldap/validation.go\<close>), with the texts it reports.
\<close>

section \<open>Results\<close>

datatype result = ConfigOk | ConnectivityError | ConnectionParamMisconfigured | LookupBindError
  | UserSearchParamsMisconfigured | GroupSearchParamsMisconfigured | UserDNLookupError | GroupMembershipsLookupError

fun result_text :: "result \<Rightarrow> string" where
  "result_text ConfigOk = ''Config OK''"
| "result_text ConnectivityError = ''LDAP Server Connection Error''"
| "result_text ConnectionParamMisconfigured = ''LDAP Server Connection Parameters Misconfigured''"
| "result_text LookupBindError = ''LDAP Lookup Bind Error''"
| "result_text UserSearchParamsMisconfigured = ''User Search Parameters Misconfigured''"
| "result_text GroupSearchParamsMisconfigured = ''Group Search Parameters Misconfigured''"
| "result_text UserDNLookupError = ''User DN Lookup Error''"
| "result_text GroupMembershipsLookupError = ''Group Memberships Lookup Error''"

record validation =
  Result :: result
  Detail :: string
  Suggestion :: string
  ErrCause :: "ldap_err option"

abbreviation nl :: string where "nl \<equiv> [CHR 0x0A]"

definition report :: "result \<Rightarrow> string \<Rightarrow> string \<Rightarrow> validation" where
  "report r d s = \<lparr>Result = r, Detail = d, Suggestion = s, ErrCause = None\<rparr>"

definition report_cause :: "result \<Rightarrow> string \<Rightarrow> string \<Rightarrow> ldap_err \<Rightarrow> validation" where
  "report_cause r d s err = \<lparr>Result = r, Detail = d, Suggestion = s, ErrCause = Some err\<rparr>"

definition Validation_IsOk :: "validation \<Rightarrow> bool" where
  "Validation_IsOk v = (Result v = ConfigOk)"

definition Validation_Error :: "validation \<Rightarrow> string" where
  "Validation_Error v = (if Result v = ConfigOk then '''' else result_text (Result v) @ '': '' @ Detail v)"

definition Validation_FormatError :: "validation \<Rightarrow> string" where
  "Validation_FormatError v =
     (if Result v = ConfigOk then ''''
      else join_str nl
        ([''Result: '' @ result_text (Result v), ''Detail: '' @ Detail v] @
         (if Suggestion v \<noteq> '''' then [''Suggestion: '' @ Suggestion v] else []) @
         (case ErrCause v of None \<Rightarrow> [] | Some err \<Rightarrow> [''Due to: '' @ err_text err])))"

section \<open>The parts of the validation\<close>

definition validSRVRecordNames :: "string list" where
  "validSRVRecordNames = [''ldap'', ''ldaps'', ''on'']"

definition splitAndTrim :: "string \<Rightarrow> char \<Rightarrow> string list" where
  "splitAndTrim s sep = filter (\<lambda>v. length v \<noteq> 0) (map trim_space (split_on sep s))"

definition base_on_server :: "'dn ldap_world \<Rightarrow> conn \<Rightarrow> string \<Rightarrow> ldap_err + 'dn BaseDNInfo" where
  "base_on_server W c dn =
     (case LookupDN W c dn [] of
        Inl err \<Rightarrow> Inl (Wrap (''base DN `'' @ dn @ ''` lookup failed: '') err)
      | Inr None \<Rightarrow> Inl (errors_New (''base DN `'' @ dn @ ''` not found in the LDAP server''))
      | Inr (Some lookupResult) \<Rightarrow>
          (case ParseDN W (NormDN lookupResult) of
             Inl err \<Rightarrow> Inl (Wrap (''unexpectedly failed to parse DN `'' @ NormDN lookupResult @ ''`: '') err)
           | Inr p \<Rightarrow> Inr \<lparr>Original = dn, ServerDN = NormDN lookupResult, Parsed = p\<rparr>))"

definition validateAndParseBaseDNList :: "'dn ldap_world \<Rightarrow> conn \<Rightarrow> string list \<Rightarrow> ldap_err + 'dn BaseDNInfo list" where
  "validateAndParseBaseDNList W c baseDNList = traverse (base_on_server W c) baseDNList"

definition base_offline :: "'dn ldap_world \<Rightarrow> string \<Rightarrow> ldap_err + 'dn BaseDNInfo" where
  "base_offline W dn =
     (case ParseDN W dn of
        Inl err \<Rightarrow> Inl (Wrap (''unexpectedly failed to parse DN `'' @ dn @ ''`: '') err)
      | Inr p \<Rightarrow> Inr \<lparr>Original = dn, ServerDN = '''', Parsed = p\<rparr>)"

definition parseBaseDNListOffline :: "'dn ldap_world \<Rightarrow> string list \<Rightarrow> ldap_err + 'dn BaseDNInfo list" where
  "parseBaseDNListOffline W baseDNList = traverse (base_offline W) baseDNList"

text \<open>\<open>^[a-zA-Z][a-zA-Z0-9-]*$\<close>\<close>

definition validAttributeRegex :: "string \<Rightarrow> bool" where
  "validAttributeRegex a =
     (a \<noteq> [] \<and> (is_lower (hd a) \<or> is_upper (hd a)) \<and>
      list_all (\<lambda>c. is_lower c \<or> is_upper c \<or> is_digit c \<or> c = CHR ''-'') (tl a))"

definition validateAttributes :: "string list \<Rightarrow> ldap_err option" where
  "validateAttributes attrs =
     (case find (\<lambda>attr. \<not> validAttributeRegex attr) attrs of
        None \<Rightarrow> None
      | Some attr \<Rightarrow> Some (errors_New (''attribute name `'' @ attr @ ''` is invalid'')))"

fun overlap_with :: "'dn ldap_world \<Rightarrow> 'dn BaseDNInfo \<Rightarrow> 'dn BaseDNInfo list \<Rightarrow> (string \<times> string) option" where
  "overlap_with W b [] = None"
| "overlap_with W b (c # cs) =
     (if AncestorOf W (Parsed b) (Parsed c) then Some (Original b, Original c)
      else if AncestorOf W (Parsed c) (Parsed b) then Some (Original c, Original b)
      else overlap_with W b cs)"

fun checkForDNOverlaps :: "'dn ldap_world \<Rightarrow> 'dn BaseDNInfo list \<Rightarrow> string \<times> string" where
  "checkForDNOverlaps W [] = ('''', '''')"
| "checkForDNOverlaps W (b # bs) =
     (case overlap_with W b bs of Some p \<Rightarrow> p | None \<Rightarrow> checkForDNOverlaps W bs)"

definition dummyUser :: string where "dummyUser = ''a''"

definition dummyDN :: string where "dummyDN = ''uid=a,dc=min,dc=io''"

definition compileFilter :: "'dn ldap_world \<Rightarrow> string \<Rightarrow> ldap_err option" where
  "compileFilter W s = CompileFilter W (replace_all ''%d'' dummyDN (replace_all ''%s'' dummyUser s))"

section \<open>Validate\<close>

text \<open>
  \<open>validate\<close> in its three parts, each with the report of its early return. The connection is there exactly when the
  validation is not offline; it is closed when the validation returns.
\<close>

definition validate_bind :: "'dn ldap_world \<Rightarrow> bool \<Rightarrow> 'dn ldap_config \<Rightarrow> validation + conn option" where
  "validate_bind W offline l =
     (if ServerAddr l = '''' then Inl (report ConnectionParamMisconfigured ''Address is empty'' ''Set a server address.'')
      else if SRVRecordName l \<noteq> '''' \<and> SRVRecordName l \<notin> set validSRVRecordNames then
        Inl (report ConnectionParamMisconfigured ''SRV Record Name is invalid''
          (''If given, SRV Record Name must be one of \"ldap\", \"ldaps\" or \"on\".'' @ nl @
           ''    Please refer to documentation for more details''))
      else
        (case (if offline then Inr None else map_sum id Some (snd (Connect W (Some l)))) of
           Inl err \<Rightarrow>
             Inl (report_cause ConnectivityError (''Could not connect to LDAP server: '' @ err_text err)
               (''Check:'' @ nl @
           ''    (1) server address'' @ nl @
           ''    (2) TLS parameters,'' @ nl @
           ''    (3) LDAP server's TLS certificate is trusted by MinIO (when using TLS - highly recommended)'' @ nl @
           ''    (4) SRV Record lookup if given, and'' @ nl @
           ''    (5) LDAP service is up and reachable'') err)
         | Inr c \<Rightarrow>
             (if LookupBindDN l = '''' then
                Inl (report LookupBindError ''Lookup Bind UserDN not specified''
                  ''Specify LDAP service account credentials for performing lookups.'')
              else
                (case (case c of None \<Rightarrow> None | Some c \<Rightarrow> snd (LookupBind W l c)) of
                   Some err \<Rightarrow>
                     Inl (report_cause LookupBindError (''Error connecting as LDAP Lookup Bind user: '' @ err_text err)
                       ''Check LDAP Lookup Bind user credentials and if user is allowed to login'' err)
                 | None \<Rightarrow> Inr c))))"

definition parse_bases :: "'dn ldap_world \<Rightarrow> conn option \<Rightarrow> string list \<Rightarrow> ldap_err + 'dn BaseDNInfo list" where
  "parse_bases W c dns =
     (case c of None \<Rightarrow> parseBaseDNListOffline W dns | Some c \<Rightarrow> validateAndParseBaseDNList W c dns)"

text \<open>The filter of the user search, from its first check on.\<close>

definition validate_user_filter :: "'dn ldap_world \<Rightarrow> string \<Rightarrow> validation option" where
  "validate_user_filter W flt =
     (if flt = '''' then
        Some (report UserSearchParamsMisconfigured ''UserDN search filter is empty''
          (''Set the UserDN search filter template:'' @ nl @
           ''    Use \"%s\" - it will be replaced by the login user name and sent to the LDAP server.'' @ nl @
           ''    For example: \"(uid=%s)\"''))
      else if contains_str flt ''%d'' then
        Some (report UserSearchParamsMisconfigured ''User DN search filter contains `%d`''
          (''User DN search filter is a template where \"%s\" is replaced by the login username.'' @ nl @
           ''    \"%d\" is not supported here.'' @ nl @
           ''    Please provide a search filter containing \"%s\"''))
      else if \<not> contains_str flt ''%s'' then
        Some (report UserSearchParamsMisconfigured ''User DN search filter does not contain `%s`''
          (''During login, the user's DN is looked up using the search filter template:'' @ nl @
           ''    \"%s\" gets replaced by the given username - it must be used.'' @ nl @
           ''    Enter an LDAP search filter containing \"%s\"''))
      else
        (case compileFilter W flt of
           None \<Rightarrow> None
         | Some err \<Rightarrow>
             Some (report UserSearchParamsMisconfigured
               (''User DN search filter `'' @ flt @ ''` failed to compile: '' @ err_text err)
               ''Ensure that the User DN search filter is valid'')))"

definition validate_users :: "'dn ldap_world \<Rightarrow> conn option \<Rightarrow> 'dn ldap_config \<Rightarrow> validation option \<times> 'dn ldap_config" where
  "validate_users W c l =
     (case parse_bases W c (splitAndTrim (UserDNSearchBaseDistName l) dnDelimiter) of
        Inl err \<Rightarrow>
          (Some (report UserSearchParamsMisconfigured
             (''UserDN search base DN failed to validate/parse: '' @ err_text err)
             ''Set the UserDN search base to a valid DN - e.g. as returned by an LDAP search''),
           l\<lparr>userDNSearchBaseDistNames := []\<rparr>)
      | Inr bases \<Rightarrow>
          (let l = l\<lparr>userDNSearchBaseDistNames := bases\<rparr>;
               (ancestor, descendant) = checkForDNOverlaps W bases;
               userDNAttributes = splitAndTrim (UserDNAttributes l) attrDelimiter
           in if length bases = 0 then
                (Some (report UserSearchParamsMisconfigured ''UserDN search base is empty''
                   ''Set the UserDN search base to the DN of the directory subtree where users are present''), l)
              else if ancestor \<noteq> '''' then
                (Some (report UserSearchParamsMisconfigured
                   (''User Search Base DN `'' @ ancestor @ ''` is an ancestor of `'' @ descendant @ ''`'')
                   ''No two base DNs may overlap - please remove one of them''), l)
              else
                (case (if length userDNAttributes > 0 then validateAttributes userDNAttributes else None) of
                   Some err \<Rightarrow>
                     (Some (report UserSearchParamsMisconfigured
                        (''UserDN attributes `'' @ UserDNAttributes l @ ''` are invalid: '' @ err_text err)
                        ''Ensure that the attribute names are valid LDAP short names of attributes (not OIDs)''), l)
                 | None \<Rightarrow>
                     (validate_user_filter W (UserDNSearchFilter l), l\<lparr>userDNAttributesList := userDNAttributes\<rparr>))))"

definition validate_groups :: "'dn ldap_world \<Rightarrow> conn option \<Rightarrow> 'dn ldap_config \<Rightarrow> validation option \<times> 'dn ldap_config" where
  "validate_groups W c l =
     (if GroupSearchBaseDistName l \<noteq> '''' \<or> GroupSearchFilter l \<noteq> '''' then
        (case parse_bases W c (splitAndTrim (GroupSearchBaseDistName l) dnDelimiter) of
           Inl err \<Rightarrow>
             (Some (report GroupSearchParamsMisconfigured (''Group Search Base DN failed to parse: '' @ err_text err)
                ''Set the Group Search Base DN to a valid DN - e.g. as returned by an LDAP search''),
              l\<lparr>groupSearchBaseDistNames := []\<rparr>)
         | Inr bases \<Rightarrow>
             (let (ancestor, descendant) = checkForDNOverlaps W bases
              in (if length bases = 0 then
                    Some (report GroupSearchParamsMisconfigured ''Group Search Base DN is required.''
                      (''Since you entered a value for the Group Search Filter - enter a value for the Group Search Base DN too:'' @ nl @
           ''    Enter this value as the DN of the subtree where groups will be found.''))
                  else if ancestor \<noteq> '''' then
                    Some (report GroupSearchParamsMisconfigured
                      (''Group Search Base DN `'' @ ancestor @ ''` is an ancestor of `'' @ descendant @ ''`'')
                      ''No two base DNs may overlap - please remove one of them'')
                  else if GroupSearchFilter l = '''' then
                    Some (report GroupSearchParamsMisconfigured ''Group Search Filter is required.''
                      (''Since you entered a value for the Group Search Base DN - enter a value for the Group Search Filter too. This is a template where, before the query is sent to the server:'' @ nl @
           ''    \"%s\" is replaced with the login username;'' @ nl @
           ''    \"%d\" is replaced with the DN of the login user.'' @ nl @
           ''    For example: \"(&(objectclass=groupOfNames)(memberUid=%s))\"''))
                  else if \<not> contains_str (GroupSearchFilter l) ''%d'' \<and> \<not> contains_str (GroupSearchFilter l) ''%s'' then
                    Some (report GroupSearchParamsMisconfigured
                      ''GroupSearchFilter must contain at least one of \"%s\" or \"%d\"''
                      (''During group membership lookup the group search filter template is used:'' @ nl @
           ''    \"%s\" gets replaced by the given username, and'' @ nl @
           ''    \"%d\" gets replaced by the user's DN.'' @ nl @
           ''    Either one is needed to find only groups that the user is a member of.'' @ nl @
           ''    Enter an LDAP search filter template using at least one of these.''))
                  else
                    (case compileFilter W (GroupSearchFilter l) of
                       None \<Rightarrow> None
                     | Some err \<Rightarrow>
                         Some (report GroupSearchParamsMisconfigured
                           (''Group DN search filter `'' @ GroupSearchFilter l @ ''` failed to compile: '' @ err_text err)
                           ''Ensure that the Group DN search filter is valid'')),
                  l\<lparr>groupSearchBaseDistNames := bases\<rparr>)))
      else (None, l))"

definition validate :: "'dn ldap_world \<Rightarrow> bool \<Rightarrow> 'dn ldap_config \<Rightarrow> validation \<times> 'dn ldap_config" where
  "validate W offline l =
     (if \<not> Enabled l then (report ConfigOk ''Config is not enabled'' '''', l)
      else
        (case validate_bind W offline l of
           Inl v \<Rightarrow> (v, l)
         | Inr c \<Rightarrow>
             (case validate_users W c l of
                (Some v, l) \<Rightarrow> (v, l)
              | (None, l) \<Rightarrow>
                  (case validate_groups W c l of
                     (Some v, l) \<Rightarrow> (v, l)
                   | (None, l) \<Rightarrow> (report ConfigOk '''' '''', l)))))"

definition Validate :: "'dn ldap_world \<Rightarrow> 'dn ldap_config \<Rightarrow> validation \<times> 'dn ldap_config" where
  "Validate W l = validate W False l"

definition ValidateOffline :: "'dn ldap_world \<Rightarrow> 'dn ldap_config \<Rightarrow> validation \<times> 'dn ldap_config" where
  "ValidateOffline W l = validate W True l"

section \<open>ValidateLookup\<close>

record UserLookupResult =
  DN :: string
  DNAttributes :: "string \<Rightarrow> string list option"
  GroupDNMemberships :: "string list"

text \<open>The lookups once the configuration is valid.\<close>

definition lookup_user :: "'dn ldap_world \<Rightarrow> 'dn ldap_config \<Rightarrow> string \<Rightarrow> UserLookupResult option \<times> validation" where
  "lookup_user W l testUsername =
     (case snd (Connect W (Some l)) of
        Inl err \<Rightarrow>
          (None, report_cause ConnectivityError (''Could not connect to LDAP server: '' @ err_text err)
             (''Check:'' @ nl @
           ''    (1) server address'' @ nl @
           ''    (2) TLS parameters, and'' @ nl @
           ''    (3) LDAP server's TLS certificate is trusted by MinIO (when using TLS - highly recommended)'') err)
      | Inr c \<Rightarrow>
          (case snd (LookupBind W l c) of
             Some err \<Rightarrow>
               (None, report_cause LookupBindError (''Error connecting as LDAP Lookup Bind user: '' @ err_text err)
                  ''Check LDAP Lookup Bind user credentials and if user is allowed to login'' err)
           | None \<Rightarrow>
               (case LookupUsername W l c testUsername of
                  Inl err \<Rightarrow>
                    (None, report_cause UserDNLookupError
                       (''Got an error when looking up user ('' @ testUsername @ '') DN: '' @ err_text err)
                       (''Check if this is a temporary error and try again.'' @ nl @
           ''    Perhaps there is an error in the user search filter or user search base DN.'') err)
                | Inr dnResult \<Rightarrow>
                    (case SearchForUserGroups W l c testUsername (NormDN dnResult) of
                       Inl err \<Rightarrow>
                         (None, report_cause GroupMembershipsLookupError
                            (''Got an error when looking up groups for user(=>'' @ testUsername @ '', dn=>'' @
                               NormDN dnResult @ ''): '' @ err_text err)
                            (''Check if this is a temporary error and try again.'' @ nl @
           ''    Perhaps there is an error in the group search filter or group search base DN.'') err)
                     | Inr groups \<Rightarrow>
                         (Some \<lparr>DN = NormDN dnResult, DNAttributes = Attributes dnResult, GroupDNMemberships = groups\<rparr>,
                          report ConfigOk ''User lookup done.'' '''')))))"

definition ValidateLookup ::
  "'dn ldap_world \<Rightarrow> 'dn ldap_config \<Rightarrow> string \<Rightarrow> (UserLookupResult option \<times> validation) \<times> 'dn ldap_config" where
  "ValidateLookup W l testUsername =
     (if testUsername = '''' then ((None, report UserDNLookupError ''Provided username is empty'' ''''), l)
      else
        (case Validate W l of
           (v, l) \<Rightarrow> if \<not> Validation_IsOk v then ((None, v), l) else (lookup_user W l testUsername, l)))"

end
