(* ===== verification/LdapFacts.thy ===== *)
theory LdapFacts
  imports LdapValidate
begin

text \<open>
  What the LDAP configuration guarantees: bind credentials never go out in clear unless asked, what a valid
  configuration is, that validation is idempotent, and when a user is found.
\<close>

section \<open>Connections\<close>

text \<open>
  What is on the wire between two events. A bind needs an encrypted line whose timeout is armed; an upgrade needs the
  timeout; the name a certificate is checked against must be the host of the address dialed.
\<close>

datatype line = NoLine | Line string bool bool

definition names_host :: "tls_config \<Rightarrow> string \<Rightarrow> bool" where
  "names_host t addr = (case SplitHostPort addr of Inl _ \<Rightarrow> False | Inr (h, _) \<Rightarrow> ServerName t = h)"

fun wire_step :: "line \<Rightarrow> wire_event \<Rightarrow> line option" where
  "wire_step NoLine (Dialed url tls ok) =
     (if has_prefix url ''ldaps://'' then
        (case tls of None \<Rightarrow> None
         | Some t \<Rightarrow> if names_host t (drop 8 url) then Some (if ok then Line url True False else NoLine) else None)
      else if has_prefix url ''ldap://'' then Some (if ok then Line url False False else NoLine)
      else None)"
| "wire_step (Line url e armed) TimeoutSet = Some (Line url e True)"
| "wire_step (Line url e armed) (TLSStarted t ok) =
     (if armed \<and> \<not> e \<and> names_host t (drop 7 url) then Some (Line url ok armed) else None)"
| "wire_step (Line url e armed) ConnClosed = Some NoLine"
| "wire_step (Line url e armed) (BindSent dn pw ok) = (if e \<and> armed then Some (Line url e armed) else None)"
| "wire_step _ _ = None"

fun wire_run :: "line \<Rightarrow> wire_event list \<Rightarrow> line option" where
  "wire_run s [] = Some s"
| "wire_run s (e # es) = (case wire_step s e of None \<Rightarrow> None | Some s \<Rightarrow> wire_run s es)"

lemma wire_run_append:
  "wire_run s (es @ fs) = (case wire_run s es of None \<Rightarrow> None | Some s \<Rightarrow> wire_run s fs)"
  by (induction es arbitrary: s) (simp_all split: option.splits)

lemma dial_prefixes:
  "has_prefix (''ldaps://'' @ a) ''ldaps://''" "\<not> has_prefix (''ldap://'' @ a) ''ldaps://''" "has_prefix (''ldap://'' @ a) ''ldap://''"
  "drop 8 (''ldaps://'' @ a) = a" "drop 7 (''ldap://'' @ a) = a"
  by (simp_all add: has_prefix_def)

definition line_after :: "wire_event list \<times> ('e + conn) \<Rightarrow> bool" where
  "line_after r \<longleftrightarrow>
     (case snd r of
        Inl _ \<Rightarrow> wire_run NoLine (fst r) = Some NoLine
      | Inr c \<Rightarrow> \<exists>url. wire_run NoLine (fst r) = Some (Line url True True))"

lemma connect_line:
  assumes "ServerStartTLS l \<or> \<not> ServerInsecure l"
  shows "line_after (connect W l addr)"
proof (cases "SplitHostPort addr")
  case (Inl err)
  then show ?thesis using assms by (auto simp: connect_def line_after_def)
next
  case (Inr hp)
  obtain h p where hp: "SplitHostPort addr = Inr (h, p)" using Inr by (cases hp) auto
  define t where "t = (case TLS l of None \<Rightarrow> \<lparr>ServerName = ''''\<rparr> | Some t \<Rightarrow> t)\<lparr>ServerName := h\<rparr>"
  have n: "names_host t addr" by (simp add: names_host_def hp t_def)
  have c: "connect W l addr =
     (if ServerStartTLS l then with_timeout (upgrade W t (dial W (''ldap://'' @ addr) None))
      else with_timeout (dial W (''ldaps://'' @ addr) (Some t)))"
    unfolding connect_def t_def Let_def hp by (cases "ServerStartTLS l") (use assms in simp_all)
  note defs = line_after_def with_timeout_def dial_def upgrade_def
  show ?thesis
  proof (cases "ServerStartTLS l")
    case True
    show ?thesis unfolding c using True n dial_prefixes(2-)
      by (cases "DialURL W (''ldap://'' @ addr) None"; cases "StartTLS W (''ldap://'' @ addr) t")
        (simp_all only: defs if_True option.case fst_conv snd_conv sum.case conn.simps append.simps append_assoc
          wire_run.simps wire_step.simps if_False dial_prefixes n not_False_eq_True simp_thms option.inject line.inject)
  next
    case False
    show ?thesis unfolding c using False n dial_prefixes
      by (cases "DialURL W (''ldaps://'' @ addr) (Some t)")
        (simp_all only: defs if_False option.case fst_conv snd_conv sum.case append.simps append_assoc
          wire_run.simps wire_step.simps if_True dial_prefixes n simp_thms option.inject line.inject)
  qed
qed

lemma connect_loop_line:
  assumes "ServerStartTLS l \<or> \<not> ServerInsecure l"
  shows "line_after (connect_loop W l addrs)"
proof (induction addrs)
  case (Cons a addrs)
  note c = connect_line [OF assms, of W "srv_addr a"]
  obtain ev r where e: "connect W l (srv_addr a) = (ev, r)" by (cases "connect W l (srv_addr a)")
  obtain ev' r' where e': "connect_loop W l addrs = (ev', r')" by (cases "connect_loop W l addrs")
  show ?case using c Cons unfolding connect_loop.simps e e' line_after_def
    by (cases r; cases r') (simp_all add: wire_run_append)
qed (simp add: line_after_def)

lemma Connect_line:
  assumes "ServerStartTLS l \<or> \<not> ServerInsecure l"
  shows "line_after (Connect W (Some l))"
proof -
  note c = connect_line [OF assms] and cl = connect_loop_line [OF assms]
  have none: "line_after ([], Inl e)" for e :: ldap_err by (simp add: line_after_def)
  have loop: "line_after (case connect_loop W l addrs of (ev, Inl errs) \<Rightarrow> (ev, Inl (f errs)) | (ev, Inr c) \<Rightarrow> (ev, Inr c))"
    for addrs and f :: "ldap_err list \<Rightarrow> ldap_err"
    using cl [of W addrs] by (auto simp: line_after_def split: prod.splits sum.splits)
  show ?thesis unfolding Connect_def Let_def option.case
    by (auto simp: none c loop split: sum.splits)
qed

text \<open>C24: Unless the plain connection is asked for, whatever the network does, a login sends the bind credentials only over
  a line encrypted for the host dialed and with a timeout, never waits for an upgrade without a timeout, and leaves no
  connection open when connecting fails.\<close>

theorem login_never_in_clear:
  assumes "ServerStartTLS l \<or> \<not> ServerInsecure l"
  shows "case Connect W (Some l) of
     (ev, Inl err) \<Rightarrow> wire_run NoLine ev = Some NoLine
   | (ev, Inr c) \<Rightarrow> \<exists>url. wire_run NoLine (ev @ fst (LookupBind W l c)) = Some (Line url True True)"
  using Connect_line [OF assms, of W]
  by (auto simp: line_after_def wire_run_append LookupBind_def Let_def split: prod.splits sum.splits)

lemma login_never_in_clear_witness:
  "\<exists>(W :: nat ldap_world) l ev c. Connect W (Some l) = (ev, Inr c) \<and> ServerInsecure l \<and> ServerStartTLS l \<and>
     ev = [Dialed ''ldap://a:636'' None True, TimeoutSet, TLSStarted \<lparr>ServerName = ''a''\<rparr> True, TimeoutSet] \<and>
     (\<exists>url. wire_run NoLine (ev @ fst (LookupBind W l c)) = Some (Line url True True))"
proof -
  let ?W = "\<lparr>ParseDN = (\<lambda>s. Inr 0), DN_String = (\<lambda>d. ''''), AncestorOf = (<), CompileFilter = (\<lambda>s. None), EscapeFilter = (\<lambda>s. s),
    DialURL = (\<lambda>u t. None), StartTLS = (\<lambda>u t. None), Bind = (\<lambda>c d p. None), UnauthenticatedBind = (\<lambda>c d. None),
    Search = (\<lambda>c r. Inr []), LookupSRV = (\<lambda>a b c. Inr [])\<rparr> :: nat ldap_world"
  let ?l = "\<lparr>Enabled = True, ServerAddr = ''a'', SRVRecordName = '''', ServerInsecure = True, ServerStartTLS = True, TLS = None,
    LookupBindDN = ''d'', LookupBindPassword = ''p'', UserDNSearchBaseDistName = '''', userDNSearchBaseDistNames = [],
    UserDNSearchFilter = '''', UserDNAttributes = '''', userDNAttributesList = [], GroupSearchBaseDistName = '''',
    groupSearchBaseDistNames = [], GroupSearchFilter = ''''\<rparr> :: nat ldap_config"
  let ?ev = "[Dialed ''ldap://a:636'' None True, TimeoutSet, TLSStarted \<lparr>ServerName = ''a''\<rparr> True, TimeoutSet]"
  let ?c = "\<lparr>conn_url = ''ldap://a:636'', conn_tls = Some \<lparr>ServerName = ''a''\<rparr>\<rparr>"
  have c: "Connect ?W (Some ?l) = (?ev, Inr ?c)" by code_simp
  then show ?thesis using login_never_in_clear [of ?l ?W] by (intro exI [of _ ?W] exI [of _ ?l] exI [of _ ?ev] exI [of _ ?c]) simp
qed

section \<open>Valid configurations\<close>

lemma traverse_Inr: "traverse f xs = Inr ys \<longleftrightarrow> list_all2 (\<lambda>x y. f x = Inr y) xs ys"
proof (induction xs arbitrary: ys)
  case (Cons x xs)
  show ?case by (cases "f x"; cases "traverse f xs"; cases ys) (auto simp flip: Cons.IH)
qed auto

lemma overlap_with_None:
  "overlap_with W b cs = None \<longleftrightarrow> (\<forall>c\<in>set cs. \<not> AncestorOf W (Parsed b) (Parsed c) \<and> \<not> AncestorOf W (Parsed c) (Parsed b))"
  by (induction cs) auto

lemma overlap_with_Some: "overlap_with W b cs = Some p \<Longrightarrow> fst p \<in> Original ` set (b # cs)"
  by (induction cs) (auto split: if_splits)

definition no_overlap :: "'dn ldap_world \<Rightarrow> 'dn BaseDNInfo list \<Rightarrow> bool" where
  "no_overlap W = sorted_wrt (\<lambda>b c. \<not> AncestorOf W (Parsed b) (Parsed c) \<and> \<not> AncestorOf W (Parsed c) (Parsed b))"

lemma checkForDNOverlaps_iff:
  assumes "\<forall>b\<in>set bs. Original b \<noteq> ''''"
  shows "fst (checkForDNOverlaps W bs) = '''' \<longleftrightarrow> no_overlap W bs"
  using assms
proof (induction bs)
  case (Cons b bs)
  show ?case
  proof (cases "overlap_with W b bs")
    case None
    then show ?thesis using Cons by (simp add: no_overlap_def overlap_with_None [THEN iffD1])
  next
    case (Some p)
    have "\<exists>c\<in>set bs. AncestorOf W (Parsed b) (Parsed c) \<or> AncestorOf W (Parsed c) (Parsed b)"
      using Some overlap_with_None [of W b bs] by auto
    moreover have "fst p \<noteq> ''''" using overlap_with_Some [OF Some] Cons.prems by auto
    ultimately show ?thesis using Some by (auto simp: no_overlap_def)
  qed
qed (simp add: no_overlap_def)

lemma parse_bases_originals:
  assumes "parse_bases W c dns = Inr bs"
  shows "map Original bs = dns"
proof -
  obtain f :: "string \<Rightarrow> ldap_err + 'a BaseDNInfo" where f: "list_all2 (\<lambda>x y. f x = Inr y) dns bs" "\<And>x y. f x = Inr y \<Longrightarrow> Original y = x"
  proof (cases c)
    case None
    show ?thesis by (rule that [of "base_offline W"]) (use assms None in
      \<open>auto simp: parse_bases_def parseBaseDNListOffline_def traverse_Inr base_offline_def split: sum.splits\<close>)
  next
    case (Some k)
    show ?thesis by (rule that [of "base_on_server W k"]) (use assms Some in
      \<open>auto simp: parse_bases_def validateAndParseBaseDNList_def traverse_Inr base_on_server_def split: sum.splits option.splits\<close>)
  qed
  from f(1) show ?thesis by (induction rule: list_all2_induct) (simp_all add: f(2))
qed

lemma split_bases_nonempty:
  assumes "parse_bases W c (splitAndTrim s sep) = Inr bs" "b \<in> set bs"
  shows "Original b \<noteq> ''''"
proof -
  have "Original b \<in> set (splitAndTrim s sep)" using parse_bases_originals [OF assms(1)] assms(2) by (metis image_eqI set_map)
  then show ?thesis by (auto simp: splitAndTrim_def)
qed

lemma parsed_overlap:
  "parse_bases W c (splitAndTrim s sep) = Inr bs \<Longrightarrow> fst (checkForDNOverlaps W bs) = '''' \<longleftrightarrow> no_overlap W bs"
  using checkForDNOverlaps_iff split_bases_nonempty by blast

definition bases_ok :: "'dn ldap_world \<Rightarrow> conn option \<Rightarrow> string \<Rightarrow> bool" where
  "bases_ok W c s =
     (case parse_bases W c (splitAndTrim s dnDelimiter) of Inl _ \<Rightarrow> False | Inr bs \<Rightarrow> bs \<noteq> [] \<and> no_overlap W bs)"

definition user_filter_ok :: "'dn ldap_world \<Rightarrow> string \<Rightarrow> bool" where
  "user_filter_ok W f \<longleftrightarrow> contains_str f ''%s'' \<and> \<not> contains_str f ''%d'' \<and> compileFilter W f = None"

definition group_filter_ok :: "'dn ldap_world \<Rightarrow> string \<Rightarrow> bool" where
  "group_filter_ok W f \<longleftrightarrow> (contains_str f ''%s'' \<or> contains_str f ''%d'') \<and> compileFilter W f = None"

text \<open>How the validation of a mode talks to the server.\<close>

definition bound :: "'dn ldap_world \<Rightarrow> bool \<Rightarrow> 'dn ldap_config \<Rightarrow> conn option \<Rightarrow> bool" where
  "bound W offline l c \<longleftrightarrow>
     (if offline then c = None
      else \<exists>k. c = Some k \<and> snd (Connect W (Some l)) = Inr k \<and> snd (LookupBind W l k) = None)"

definition valid_config :: "'dn ldap_world \<Rightarrow> bool \<Rightarrow> 'dn ldap_config \<Rightarrow> bool" where
  "valid_config W offline l \<longleftrightarrow>
     ServerAddr l \<noteq> '''' \<and> SRVRecordName l \<in> {'''', ''ldap'', ''ldaps'', ''on''} \<and> LookupBindDN l \<noteq> '''' \<and>
     list_all validAttributeRegex (splitAndTrim (UserDNAttributes l) attrDelimiter) \<and> user_filter_ok W (UserDNSearchFilter l) \<and>
     (\<exists>c. bound W offline l c \<and> bases_ok W c (UserDNSearchBaseDistName l) \<and>
        (GroupSearchBaseDistName l = '''' \<and> GroupSearchFilter l = '''' \<or>
         bases_ok W c (GroupSearchBaseDistName l) \<and> group_filter_ok W (GroupSearchFilter l)))"

lemma contains_empty: "\<not> contains_str '''' ''%s''" "\<not> contains_str '''' ''%d''"
  by (simp_all add: contains_str_def has_prefix_def)

lemma validate_bind_Inr:
  "validate_bind W offline l = Inr c \<longleftrightarrow>
     ServerAddr l \<noteq> '''' \<and> SRVRecordName l \<in> {'''', ''ldap'', ''ldaps'', ''on''} \<and> LookupBindDN l \<noteq> '''' \<and> bound W offline l c"
proof (cases offline)
  case False
  show ?thesis
    by (cases "snd (Connect W (Some l))")
      (use False in \<open>auto simp: validate_bind_def bound_def validSRVRecordNames_def split: option.splits\<close>)
qed (auto simp: validate_bind_def bound_def validSRVRecordNames_def)

lemma validateAttributes_None: "validateAttributes attrs = None \<longleftrightarrow> list_all validAttributeRegex attrs"
  by (auto simp: validateAttributes_def list_all_iff find_None_iff find_Some_iff split: option.splits)

lemma validate_user_filter_None: "validate_user_filter W f = None \<longleftrightarrow> user_filter_ok W f"
  by (auto simp: validate_user_filter_def user_filter_ok_def contains_empty split: option.splits)

lemma validate_users_None:
  "fst (validate_users W c l) = None \<longleftrightarrow>
     bases_ok W c (UserDNSearchBaseDistName l) \<and>
     list_all validAttributeRegex (splitAndTrim (UserDNAttributes l) attrDelimiter) \<and> user_filter_ok W (UserDNSearchFilter l)"
proof (cases "parse_bases W c (splitAndTrim (UserDNSearchBaseDistName l) dnDelimiter)")
  case (Inr bs)
  obtain a d where o: "checkForDNOverlaps W bs = (a, d)" by (cases "checkForDNOverlaps W bs")
  have a: "a = '''' \<longleftrightarrow> no_overlap W bs" using parsed_overlap [OF Inr] o by simp
  have v: "(if length A > 0 then validateAttributes A else None) = validateAttributes A" for A
    by (cases A) (simp_all add: validateAttributes_def)
  show ?thesis unfolding validate_users_def v
    by (cases "validateAttributes (splitAndTrim (UserDNAttributes l) attrDelimiter)")
      (auto simp: v bases_ok_def Inr o a Let_def validate_user_filter_None simp flip: validateAttributes_None)
qed (simp add: validate_users_def bases_ok_def)

lemma validate_groups_None:
  "fst (validate_groups W c l) = None \<longleftrightarrow>
     GroupSearchBaseDistName l = '''' \<and> GroupSearchFilter l = '''' \<or>
     bases_ok W c (GroupSearchBaseDistName l) \<and> group_filter_ok W (GroupSearchFilter l)"
proof (cases "parse_bases W c (splitAndTrim (GroupSearchBaseDistName l) dnDelimiter)")
  case (Inr bs)
  obtain a d where o: "checkForDNOverlaps W bs = (a, d)" by (cases "checkForDNOverlaps W bs")
  have a: "a = '''' \<longleftrightarrow> no_overlap W bs" using parsed_overlap [OF Inr] o by simp
  show ?thesis
    by (auto simp: validate_groups_def bases_ok_def group_filter_ok_def Inr o a Let_def contains_empty split: option.splits)
qed (auto simp: validate_groups_def bases_ok_def group_filter_ok_def contains_empty)

lemma failed_reports:
  "validate_bind W offline l = Inl v \<Longrightarrow> Result v \<noteq> ConfigOk"
  "validate_users W c l = (Some v, l') \<Longrightarrow> Result v \<noteq> ConfigOk"
  "validate_groups W c l = (Some v, l') \<Longrightarrow> Result v \<noteq> ConfigOk"
  by (auto simp: validate_bind_def validate_users_def validate_groups_def validate_user_filter_def report_def report_cause_def Let_def
      split: if_splits sum.splits option.splits prod.splits)

text \<open>Trimming leaves a text between two graphic ASCII characters alone.\<close>

lemma drop_space_none: "(\<And>e. e \<in> set sp \<Longrightarrow> e \<noteq> [] \<Longrightarrow> \<not> has_prefix s e) \<Longrightarrow> drop_space sp s = s"
proof -
  assume "\<And>e. e \<in> set sp \<Longrightarrow> e \<noteq> [] \<Longrightarrow> \<not> has_prefix s e"
  then have "filter (\<lambda>e. has_prefix s e \<and> e \<noteq> []) sp = []" by (auto simp: filter_empty_conv)
  then show ?thesis by (subst drop_space.simps) simp
qed

lemma has_prefix_hd: "has_prefix s e \<Longrightarrow> e \<noteq> [] \<Longrightarrow> hd s = hd e"
  by (cases e; cases s) (auto simp: has_prefix_def)

lemma space_ends:
  assumes "e \<in> set (map encode_rune space_runes)"
  shows "byte (hd e) < 33 \<or> 126 < byte (hd e)" "byte (last e) < 33 \<or> 126 < byte (last e)"
proof -
  have "list_all (\<lambda>e. (byte (hd e) < 33 \<or> 126 < byte (hd e)) \<and> (byte (last e) < 33 \<or> 126 < byte (last e))) (map encode_rune space_runes)"
    by (simp add: space_runes_def encode_rune_def)
  then show "byte (hd e) < 33 \<or> 126 < byte (hd e)" "byte (last e) < 33 \<or> 126 < byte (last e)"
    using assms unfolding list_all_iff by blast+
qed

lemma trim_space_plain:
  assumes "33 \<le> byte (hd s) \<and> byte (hd s) \<le> 126" "33 \<le> byte (last s) \<and> byte (last s) \<le> 126"
  shows "trim_space s = s"
proof -
  let ?sp = "map encode_rune space_runes"
  have "\<not> has_prefix s e" if "e \<in> set ?sp" "e \<noteq> []" for e
    using space_ends(1) [OF that(1)] assms(1) has_prefix_hd [of s e] that(2) by fastforce
  then have 1: "drop_space ?sp s = s" by (rule drop_space_none)
  have "\<not> has_prefix (rev s) r" if "r \<in> set (map rev ?sp)" "r \<noteq> []" for r
  proof -
    from that(1) have "\<exists>e\<in>set ?sp. r = rev e" by auto
    then obtain e where e: "e \<in> set ?sp" "r = rev e" by blast
    show ?thesis
      using space_ends(2) [OF e(1)] assms(2) has_prefix_hd [of "rev s" r] that(2) e(2) by (fastforce simp: hd_rev)
  qed
  then have "drop_space (map rev ?sp) (rev s) = rev s" by (rule drop_space_none)
  with 1 show ?thesis by (simp only: trim_space_def Let_def rev_rev_ident)
qed
lemma trim_space_Nil: "trim_space '''' = ''''"
proof -
  have "drop_space sp '''' = ''''" for sp by (rule drop_space_none) (simp add: has_prefix_def)
  then show ?thesis by (simp add: trim_space_def)
qed

section \<open>What validation changes\<close>

text \<open>The user part computes the bases and the attributes, the group part the bases of the groups.\<close>

definition same_users :: "'dn ldap_config \<Rightarrow> 'dn ldap_config \<Rightarrow> bool" where
  "same_users l m \<longleftrightarrow> UserDNSearchBaseDistName m = UserDNSearchBaseDistName l \<and> UserDNAttributes m = UserDNAttributes l \<and>
     UserDNSearchFilter m = UserDNSearchFilter l"

definition same_groups :: "'dn ldap_config \<Rightarrow> 'dn ldap_config \<Rightarrow> bool" where
  "same_groups l m \<longleftrightarrow> GroupSearchBaseDistName m = GroupSearchBaseDistName l \<and> GroupSearchFilter m = GroupSearchFilter l"

definition same_connection :: "'dn ldap_config \<Rightarrow> 'dn ldap_config \<Rightarrow> bool" where
  "same_connection l m \<longleftrightarrow> Enabled m = Enabled l \<and> ServerAddr m = ServerAddr l \<and> SRVRecordName m = SRVRecordName l \<and>
     ServerInsecure m = ServerInsecure l \<and> ServerStartTLS m = ServerStartTLS l \<and> TLS m = TLS l \<and>
     LookupBindDN m = LookupBindDN l \<and> LookupBindPassword m = LookupBindPassword l"

lemma validate_users_shape:
  "\<exists>v us k. \<forall>m. same_users l m \<longrightarrow> validate_users W c m =
     (v, if k then m\<lparr>userDNSearchBaseDistNames := us, userDNAttributesList := splitAndTrim (UserDNAttributes l) attrDelimiter\<rparr>
         else m\<lparr>userDNSearchBaseDistNames := us\<rparr>)"
proof (cases "parse_bases W c (splitAndTrim (UserDNSearchBaseDistName l) dnDelimiter)")
  case (Inl err)
  show ?thesis
    by (intro exI [of _ "fst (validate_users W c l)"] exI [of _ "[]"] exI [of _ False] allI impI)
        (unfold same_users_def, elim conjE, simp add: validate_users_def Inl)
next
  case (Inr bs)
  obtain a d where o: "checkForDNOverlaps W bs = (a, d)" by (cases "checkForDNOverlaps W bs")
  let ?A = "splitAndTrim (UserDNAttributes l) attrDelimiter"
  have v: "(if A \<noteq> [] then validateAttributes A else None) = validateAttributes A" for A
    by (cases A) (simp_all add: validateAttributes_def)
  consider "bs = []" | "bs \<noteq> []" "a \<noteq> ''''" | err where "bs \<noteq> []" "a = ''''" "validateAttributes ?A = Some err"
    | "bs \<noteq> []" "a = ''''" "validateAttributes ?A = None" by blast
  then show ?thesis
  proof cases
    case 1
    then show ?thesis
      by (intro exI [of _ "fst (validate_users W c l)"] exI [of _ "[]"] exI [of _ False] allI impI)
        (unfold same_users_def, elim conjE, simp add: validate_users_def Inr o Let_def)
  next
    case 2
    show ?thesis
      by (intro exI [of _ "fst (validate_users W c l)"] exI [of _ bs] exI [of _ False] allI impI)
        (unfold same_users_def, elim conjE, simp add: validate_users_def Inr o Let_def 2)
  next
    case 3
    show ?thesis
      by (intro exI [of _ "fst (validate_users W c l)"] exI [of _ bs] exI [of _ False] allI impI)
        (unfold same_users_def, elim conjE, simp add: validate_users_def Inr o Let_def v 3)
  next
    case 4
    show ?thesis
      by (intro exI [of _ "fst (validate_users W c l)"] exI [of _ bs] exI [of _ True] allI impI)
        (unfold same_users_def, elim conjE, simp add: validate_users_def Inr o Let_def v 4)
  qed
qed

lemma validate_groups_shape:
  "\<exists>v gs k. \<forall>m. same_groups l m \<longrightarrow> validate_groups W c m = (v, if k then m\<lparr>groupSearchBaseDistNames := gs\<rparr> else m)"
proof (cases "GroupSearchBaseDistName l \<noteq> '''' \<or> GroupSearchFilter l \<noteq> ''''")
  case True
  show ?thesis
  proof (cases "parse_bases W c (splitAndTrim (GroupSearchBaseDistName l) dnDelimiter)")
    case (Inl err)
    show ?thesis
      by (intro exI [of _ "fst (validate_groups W c l)"] exI [of _ "[]"] exI [of _ True] allI impI)
        (use True in \<open>auto simp: validate_groups_def same_groups_def Inl\<close>)
  next
    case (Inr bs)
    obtain a d where o: "checkForDNOverlaps W bs = (a, d)" by (cases "checkForDNOverlaps W bs")
    show ?thesis
      by (intro exI [of _ "fst (validate_groups W c l)"] exI [of _ bs] exI [of _ True] allI impI)
        (use True in \<open>auto simp: validate_groups_def same_groups_def Inr o Let_def split: option.split\<close>)
  qed
next
  case False
  show ?thesis
    by (intro exI [of _ None] exI [of _ "[]"] exI [of _ False])
      (use False in \<open>simp add: validate_groups_def same_groups_def\<close>)
qed

lemma validate_users_again:
  assumes "validate_users W c l = (u, l1)"
  shows "same_connection l l1" "same_groups l l1" "validate_users W c l1 = (u, l1)"
    "validate_users W c (l1\<lparr>groupSearchBaseDistNames := gs\<rparr>) = (u, l1\<lparr>groupSearchBaseDistNames := gs\<rparr>)"
proof -
  obtain v us k where S: "\<forall>m. same_users l m \<longrightarrow> validate_users W c m =
    (v, if k then m\<lparr>userDNSearchBaseDistNames := us, userDNAttributesList := splitAndTrim (UserDNAttributes l) attrDelimiter\<rparr>
        else m\<lparr>userDNSearchBaseDistNames := us\<rparr>)" using validate_users_shape by blast
  have "same_users l l" by (simp add: same_users_def)
  with S assms have e: "u = v" "l1 = (if k then l\<lparr>userDNSearchBaseDistNames := us,
    userDNAttributesList := splitAndTrim (UserDNAttributes l) attrDelimiter\<rparr> else l\<lparr>userDNSearchBaseDistNames := us\<rparr>)" by auto
  then show "same_connection l l1" "same_groups l l1" by (simp_all add: same_connection_def same_groups_def)
  have s: "same_users l (l1\<lparr>groupSearchBaseDistNames := gs\<rparr>)" "same_users l l1" by (simp_all add: e same_users_def)
  show "validate_users W c l1 = (u, l1)"
    "validate_users W c (l1\<lparr>groupSearchBaseDistNames := gs\<rparr>) = (u, l1\<lparr>groupSearchBaseDistNames := gs\<rparr>)"
    using S [rule_format, OF s(1)] S [rule_format, OF s(2)] by (simp_all add: e)
qed

lemma validate_groups_again:
  assumes "validate_groups W c l1 = (g, l2)"
  shows "l2 = l1 \<or> (\<exists>gs. l2 = l1\<lparr>groupSearchBaseDistNames := gs\<rparr>)" "validate_groups W c l2 = (g, l2)"
proof -
  obtain v gs k where S: "\<forall>m. same_groups l1 m \<longrightarrow> validate_groups W c m = (v, if k then m\<lparr>groupSearchBaseDistNames := gs\<rparr> else m)"
    using validate_groups_shape by blast
  have "same_groups l1 l1" by (simp add: same_groups_def)
  with S assms have e: "g = v" "l2 = (if k then l1\<lparr>groupSearchBaseDistNames := gs\<rparr> else l1)" by auto
  then show "l2 = l1 \<or> (\<exists>gs. l2 = l1\<lparr>groupSearchBaseDistNames := gs\<rparr>)" by auto
  have "same_groups l1 l2" by (simp add: e same_groups_def)
  from S [rule_format, OF this] show "validate_groups W c l2 = (g, l2)" by (simp add: e)
qed

lemma connect_same: "same_connection l m \<Longrightarrow> connect W m = connect W l"
  by (rule ext) (simp add: connect_def same_connection_def split: sum.split prod.split)

lemma connect_loop_same: "same_connection l m \<Longrightarrow> connect_loop W m addrs = connect_loop W l addrs"
  by (induction addrs) (simp_all add: connect_same)

lemma Connect_same: "same_connection l m \<Longrightarrow> Connect W (Some m) = Connect W (Some l)"
  using connect_same [of l m W] connect_loop_same [of l m W]
  by (simp add: Connect_def same_connection_def Let_def split: sum.split)

lemma validate_bind_same:
  assumes "same_connection l m"
  shows "validate_bind W offline m = validate_bind W offline l"
proof -
  have "LookupBind W m = LookupBind W l" using assms by (intro ext) (simp add: LookupBind_def same_connection_def)
  then show ?thesis using assms Connect_same [OF assms, of W]
    by (simp add: validate_bind_def same_connection_def split: sum.split option.split)
qed

definition example_world :: "string ldap_world" where
  "example_world = \<lparr>ParseDN = (\<lambda>s. if s = ''?'' then Inl (errors_New ''bad'') else Inr s), DN_String = (\<lambda>d. d),
     AncestorOf = (\<lambda>d e. d \<noteq> e \<and> has_suffix e (CHR '','' # d)), CompileFilter = (\<lambda>s. None), EscapeFilter = (\<lambda>s. s),
     DialURL = (\<lambda>u t. None), StartTLS = (\<lambda>u t. None), Bind = (\<lambda>c d p. None), UnauthenticatedBind = (\<lambda>c d. None),
     Search = (\<lambda>c r. Inr [\<lparr>entry_DN = ''u,'' @ BaseDN r, entry_Attributes = []\<rparr>]), LookupSRV = (\<lambda>a b c. Inr [])\<rparr>"

definition example_config :: "string \<Rightarrow> string ldap_config" where
  "example_config bases = \<lparr>Enabled = True, ServerAddr = ''a'', SRVRecordName = '''', ServerInsecure = False, ServerStartTLS = False,
     TLS = None, LookupBindDN = ''d'', LookupBindPassword = ''p'', UserDNSearchBaseDistName = bases, userDNSearchBaseDistNames = [],
     UserDNSearchFilter = ''(u=%s)'', UserDNAttributes = '''', userDNAttributesList = [], GroupSearchBaseDistName = '''',
     groupSearchBaseDistNames = [], GroupSearchFilter = ''''\<rparr>"

lemma example_valid:
  assumes "splitAndTrim bases dnDelimiter = dns" "dns \<in> {[''dc=a'', ''dc=b''], [''dc=a'', ''dc=a'']}"
  shows "valid_config example_world True (example_config bases)"
proof -
  have "user_filter_ok example_world ''(u=%s)''" by code_simp
  moreover have "splitAndTrim '''' attrDelimiter = []" by (simp add: splitAndTrim_def trim_space_Nil)
  moreover have "bases_ok example_world None bases"
    using assms(2) by (auto simp: bases_ok_def assms(1) parse_bases_def parseBaseDNListOffline_def base_offline_def example_world_def
      no_overlap_def has_suffix_def)
  ultimately show ?thesis by (simp add: valid_config_def example_config_def bound_def)
qed

text \<open>C33: Validation accepts exactly the configurations that are off, or whose address, record name, bind name, filters and
  attributes are as they must be, whose server (unless offline) is reached and accepts the bind, and whose base names
  parse, exist there and are not below each other.\<close>

theorem validate_ok_exact:
  "Validation_IsOk (fst (validate W offline l)) \<longleftrightarrow> \<not> Enabled l \<or> valid_config W offline l"
proof (cases "Enabled l")
  case True
  show ?thesis
  proof (cases "validate_bind W offline l")
    case (Inl v)
    then have "\<not> valid_config W offline l" using validate_bind_Inr [of W offline l] by (auto simp: valid_config_def)
    then show ?thesis using True Inl failed_reports(1) [OF Inl] by (simp add: validate_def Validation_IsOk_def)
  next
    case (Inr c)
    obtain u l1 where u: "validate_users W c l = (u, l1)" by (cases "validate_users W c l")
    obtain g l2 where g: "validate_groups W c l1 = (g, l2)" by (cases "validate_groups W c l1")
    have l1: "GroupSearchBaseDistName l1 = GroupSearchBaseDistName l" "GroupSearchFilter l1 = GroupSearchFilter l"
      using validate_users_again(2) [OF u] by (simp_all add: same_groups_def)
    have one: "bound W offline l c' \<longleftrightarrow> c' = c" for c'
      using Inr validate_bind_Inr [of W offline l] by (metis sum.inject(2))
    have "valid_config W offline l \<longleftrightarrow> u = None \<and> g = None"
      using validate_bind_Inr [THEN iffD1, OF Inr] validate_users_None [of W c l] validate_groups_None [of W c l1]
      by (auto simp: valid_config_def one u g l1)
    moreover have "Validation_IsOk (fst (validate W offline l)) \<longleftrightarrow> u = None \<and> g = None"
      using True Inr u g failed_reports(2) [of W c l] failed_reports(3) [of W c l1]
      by (auto simp: validate_def Validation_IsOk_def report_def split: option.splits)
    ultimately show ?thesis using True by simp
  qed
qed (simp add: validate_def Validation_IsOk_def report_def)

theorem validate_ok_exact_witness:
  "Validation_IsOk (fst (validate example_world True (example_config ''dc=a;dc=b''))) \<and>
   \<not> Validation_IsOk (fst (validate example_world True ((example_config ''dc=a;dc=b'')\<lparr>LookupBindDN := ''''\<rparr>)))"
proof -
  have "splitAndTrim ''dc=a;dc=b'' dnDelimiter = [''dc=a'', ''dc=b'']"
    by (simp add: splitAndTrim_def dnDelimiter_def trim_space_plain byte_def)
  then have "valid_config example_world True (example_config ''dc=a;dc=b'')" by (rule example_valid) simp
  moreover have "\<not> valid_config example_world True ((example_config ''dc=a;dc=b'')\<lparr>LookupBindDN := ''''\<rparr>)"
    by (simp add: valid_config_def)
  ultimately show ?thesis
    using validate_ok_exact [of example_world True "example_config ''dc=a;dc=b''"]
      validate_ok_exact [of example_world True "(example_config ''dc=a;dc=b'')\<lparr>LookupBindDN := ''''\<rparr>"]
    by (simp add: example_config_def)
qed

text \<open>C35: Validating a configuration again, whatever the first result was, gives the same result and changes nothing more.\<close>

theorem validate_idempotent: "validate W offline (snd (validate W offline l)) = validate W offline l"
proof (cases "Enabled l")
  case True
  show ?thesis
  proof (cases "validate_bind W offline l")
    case (Inl v)
    then show ?thesis using True by (simp add: validate_def)
  next
    case (Inr c)
    obtain u l1 where u: "validate_users W c l = (u, l1)" by (cases "validate_users W c l")
    obtain g l2 where g: "validate_groups W c l1 = (g, l2)" by (cases "validate_groups W c l1")
    note l1 = validate_users_again [OF u] and l2 = validate_groups_again [OF g]
    have c2: "same_connection l l2" using l1(1) l2(1) by (auto simp: same_connection_def)
    have e: "Enabled l1" "Enabled l2" using True l1(1) c2 by (simp_all add: same_connection_def)
    have b1: "validate_bind W offline l1 = Inr c" and b2: "validate_bind W offline l2 = Inr c"
      using Inr validate_bind_same [OF l1(1)] validate_bind_same [OF c2] by simp_all
    have u2: "validate_users W c l2 = (u, l2)" using l1(3,4) l2(1) by auto
    show ?thesis using True e Inr u g l1(3) u2 l2(2) b1 b2 by (cases u; cases g) (simp_all add: validate_def)
  qed
qed (simp add: validate_def)
section \<open>Looking up users\<close>

definition user_request :: "'dn ldap_world \<Rightarrow> 'dn ldap_config \<Rightarrow> string \<Rightarrow> 'dn BaseDNInfo \<Rightarrow> search_request" where
  "user_request W l username base =
     \<lparr>BaseDN = ServerDN base, Scope = ScopeWholeSubtree, SearchFilter = user_filter W l username,
      SearchAttributes = (if userDNAttributesList l \<noteq> [] then userDNAttributesList l else noAttrsSpec)\<rparr>"

lemma concat_list_all2: "list_all2 (list_all2 R) xss yss \<Longrightarrow> list_all2 R (concat xss) (concat yss)"
  by (induction rule: list_all2_induct) (simp_all add: list_all2_appendI)

lemma users_below_Inr:
  "users_below W c (user_filter W l username) (if userDNAttributesList l \<noteq> [] then userDNAttributesList l else noAttrsSpec) b = Inr rs \<longleftrightarrow>
     (\<exists>es. Search W c (user_request W l username b) = Inr es \<and> list_all2 (\<lambda>e r. entry_result W e = Inr r) es rs)"
  by (cases "Search W c (user_request W l username b)")
    (auto simp: users_below_def user_request_def traverse_Inr)

text \<open>C34: A user is found exactly when the searches below all the bases together return one entry, and its name parses;
  the result is that entry.\<close>

theorem LookupUsername_exact:
  "LookupUsername W l c username = Inr r \<longleftrightarrow>
     (\<exists>ess e. list_all2 (\<lambda>b es. Search W c (user_request W l username b) = Inr es) (userDNSearchBaseDistNames l) ess \<and>
        concat ess = [e] \<and> entry_result W e = Inr r)"
proof -
  let ?R = "\<lambda>e r. entry_result W e = Inr r" and ?S = "\<lambda>b es. Search W c (user_request W l username b) = Inr es"
  let ?f = "users_below W c (user_filter W l username) (if userDNAttributesList l \<noteq> [] then userDNAttributesList l else noAttrsSpec)"
  have t: "traverse ?f bs = Inr rss \<longleftrightarrow> (\<exists>ess. list_all2 ?S bs ess \<and> list_all2 (list_all2 ?R) ess rss)" for bs rss
    unfolding traverse_Inr users_below_Inr using list.rel_compp [of ?S "list_all2 ?R"]
    by (simp add: OO_def fun_eq_iff)
  have "LookupUsername W l c username = Inr r \<longleftrightarrow> (\<exists>rss. traverse ?f (userDNSearchBaseDistNames l) = Inr rss \<and> concat rss = [r])"
  proof (cases "traverse ?f (userDNSearchBaseDistNames l)")
    case (Inr rss)
    show ?thesis unfolding LookupUsername_def Let_def Inr sum.case sum.inject
      by (cases "concat rss"; cases "tl (concat rss)") (auto simp del: concat_eq_Nil_conv)
  qed (simp add: LookupUsername_def Let_def del: if_split)
  also have "\<dots> \<longleftrightarrow> (\<exists>ess e. list_all2 ?S (userDNSearchBaseDistNames l) ess \<and> concat ess = [e] \<and> ?R e r)"
  proof
    assume "\<exists>rss. traverse ?f (userDNSearchBaseDistNames l) = Inr rss \<and> concat rss = [r]"
    then obtain rss ess where w: "concat rss = [r]" "list_all2 ?S (userDNSearchBaseDistNames l) ess" "list_all2 (list_all2 ?R) ess rss"
      unfolding t by blast
    then obtain e where "concat ess = [e]" "?R e r" using concat_list_all2 [OF w(3)] by (auto simp: list_all2_Cons2)
    then show "\<exists>ess e. list_all2 ?S (userDNSearchBaseDistNames l) ess \<and> concat ess = [e] \<and> ?R e r" using w(2) by blast
  next
    assume "\<exists>ess e. list_all2 ?S (userDNSearchBaseDistNames l) ess \<and> concat ess = [e] \<and> ?R e r"
    then obtain ess e where w: "list_all2 ?S (userDNSearchBaseDistNames l) ess" "concat ess = [e]" "?R e r" by blast
    let ?rss = "map (map (\<lambda>_. r)) ess"
    have "?R x r" if "x \<in> set es" "es \<in> set ess" for x es
    proof -
      have "x \<in> set (concat ess)" using that by auto
      then show ?thesis using w(2,3) by simp
    qed
    then have "list_all2 (list_all2 ?R) ess ?rss"
      by (auto simp: list.rel_map intro!: list.rel_refl_strong)
    moreover have "concat ?rss = [r]" using w(2) by (simp flip: map_concat)
    ultimately show "\<exists>rss. traverse ?f (userDNSearchBaseDistNames l) = Inr rss \<and> concat rss = [r]"
      unfolding t using w(1) by blast
  qed
  finally show ?thesis .
qed

text \<open>A name listed twice is not below itself, so it is accepted; then no user can be found any more.\<close>

lemma repeated_base_accepted:
  "fst (checkForDNOverlaps example_world [\<lparr>Original = ''dc=a'', ServerDN = '''', Parsed = ''dc=a''\<rparr>, \<lparr>Original = ''dc=a'', ServerDN = '''', Parsed = ''dc=a''\<rparr>]) = ''''"
  by code_simp

lemma repeated_base_finds_nobody:
  assumes "userDNSearchBaseDistNames l = [b, b']" "ServerDN b' = ServerDN b"
  shows "LookupUsername W l c username \<noteq> Inr r"
proof
  assume a: "LookupUsername W l c username = Inr r"
  have e: "user_request W l username b' = user_request W l username b" using assms(2) by (simp add: user_request_def)
  let ?f = "users_below W c (user_filter W l username) (if userDNAttributesList l \<noteq> [] then userDNAttributesList l else noAttrsSpec)"
  have "?f b' = ?f b" unfolding users_below_def assms(2) ..
  moreover have "n + n \<noteq> Suc 0" for n :: nat by presburger
  ultimately show False using a assms(1) by (cases "?f b") (auto simp: LookupUsername_def Let_def split: if_splits)
qed

text \<open>
  The name of the user is put into the group filter before the second placeholder is replaced, so a user called
  \<open>%d\<close> is looked up under the distinguished name.
\<close>

lemma username_expands_placeholder:
  assumes "EscapeFilter W ''%d'' = ''%d''" "GroupSearchFilter l = ''(m=%s)''"
  shows "group_filter W l ''%d'' bindDN = ''(m='' @ EscapeFilter W bindDN @ '')''"
  by (simp add: group_filter_def assms replace_all.simps has_prefix_def)

text \<open>No entry at all is reported as several.\<close>

lemma no_entry_reported_as_several:
  assumes "\<And>r. Search W c r = Inr []"
  shows "LookupDN W c dn attrs = Inl (errors_New (''multiple DNs found for '' @ dn @ '' - this should not happen for a base object search''))"
  by (simp add: LookupDN_def Let_def assms)

end
