(* ===== verification/Quick.thy ===== *)
theory Quick
  imports SafeFile
begin

text \<open>
  Configuration files (\<open>quick/quick.go\<close>, \<open>quick/encoding.go\<close>, \<open>quick/errorutil.go\<close>): saved through \<open>SafeFile\<close> with a
  backup of the old content, or in etcd. Encoders, the reflection library and the answers of etcd are a parameter.
\<close>

section \<open>The world outside\<close>

datatype encoding = YamlEncoding | JsonEncoding

datatype etcd_error = DeadlineExceeded | OtherEtcd string

datatype quick_error = NotAStruct | NoVersionField string | VersionNotString string | FileError safe_error | ReadError
  | NotExist | EncodeError string | EtcdUnreachable | EtcdUnexpected string

text \<open>Go values of type 'd with their fields, and the encoders.\<close>

record ('d, 'v) quick_lib =
  IsStruct :: "'d \<Rightarrow> bool"
  StructName :: "'d \<Rightarrow> string"
  Fields :: "'d \<Rightarrow> (string \<times> 'v) list"
  StringValue :: "'v \<Rightarrow> string option"
  DeepEqual :: "'v \<Rightarrow> 'v \<Rightarrow> bool"
  Marshal :: "encoding \<Rightarrow> 'd \<Rightarrow> string + string"
  Unmarshal :: "encoding \<Rightarrow> string \<Rightarrow> 'd \<Rightarrow> string + 'd"

text \<open>
  How the calls of one \<open>writeFile\<close> go: those of \<open>CreateFile\<close> (with the name of the temporary file), the write, the close,
  and the removals after an error.
\<close>

record write_run =
  mkdir_ok :: bool
  tmp_name :: "string option"
  chmod_ok :: bool
  write_stopped :: "nat option"
  close_ok :: bool
  rename_ok :: bool
  remove_ok :: bool

section \<open>Files\<close>

definition writeFile :: "write_run \<Rightarrow> string \<Rightarrow> string \<Rightarrow> file_system \<Rightarrow> safe_error option \<times> file_system" where
  "writeFile r filename b fs =
     (case CreateFile filename (mkdir_ok r) (tmp_name r) (chmod_ok r) (remove_ok r) fs of
        (Inl e, fs) \<Rightarrow> (Some e, fs)
      | (Inr f, fs) \<Rightarrow>
          (case File_Write b (write_stopped r) (remove_ok r) (f, fs) of
             (Some e, _, fs) \<Rightarrow> (Some e, fs)
           | (None, s) \<Rightarrow> (case File_Close (close_ok r) (rename_ok r) (remove_ok r) s of (e, _, fs) \<Rightarrow> (e, fs))))"

text \<open>\<open>filepath.Ext\<close>\<close>

definition path_separator :: "bool \<Rightarrow> char \<Rightarrow> bool" where
  "path_separator windows c = (c = CHR ''/'' \<or> windows \<and> c = CHR 0x5C)"

fun ext_loop :: "bool \<Rightarrow> string \<Rightarrow> string \<Rightarrow> string" where
  "ext_loop windows [] acc = ''''"
| "ext_loop windows (c # cs) acc =
     (if path_separator windows c then '''' else if c = CHR ''.'' then c # acc else ext_loop windows cs (c # acc))"

definition filepath_Ext :: "bool \<Rightarrow> string \<Rightarrow> string" where
  "filepath_Ext windows path = ext_loop windows (rev path) ''''"

definition ext2EncFormat :: "ext_lib \<Rightarrow> string \<Rightarrow> encoding" where
  "ext2EncFormat L fileExtension =
     (let ext = trim_prefix (to_lower L fileExtension) ''.''
      in if ext = ''yml'' \<or> ext = ''yaml'' then YamlEncoding else JsonEncoding)"

definition lf :: string where "lf = [CHR 0x0A]"

definition crlf :: string where "crlf = [CHR 0x0D, CHR 0x0A]"

definition saved_bytes :: "ext_lib \<Rightarrow> ('d, 'v) quick_lib \<Rightarrow> bool \<Rightarrow> string \<Rightarrow> 'd \<Rightarrow> quick_error + string" where
  "saved_bytes L Q windows filename v =
     (case Marshal Q (ext2EncFormat L (filepath_Ext windows filename)) v of
        Inl e \<Rightarrow> Inl (EncodeError e)
      | Inr b \<Rightarrow> Inr (if windows then replace_all lf crlf b else b))"

definition saveFileConfig ::
  "ext_lib \<Rightarrow> ('d, 'v) quick_lib \<Rightarrow> bool \<Rightarrow> write_run \<Rightarrow> string \<Rightarrow> 'd \<Rightarrow> file_system \<Rightarrow> quick_error option \<times> file_system" where
  "saveFileConfig L Q windows r filename v fs =
     (case saved_bytes L Q windows filename v of
        Inl e \<Rightarrow> (Some e, fs)
      | Inr b \<Rightarrow> (case writeFile r filename b fs of (e, fs) \<Rightarrow> (map_option FileError e, fs)))"

definition loaded_value :: "ext_lib \<Rightarrow> ('d, 'v) quick_lib \<Rightarrow> bool \<Rightarrow> string \<Rightarrow> string \<Rightarrow> 'd \<Rightarrow> quick_error + 'd" where
  "loaded_value L Q windows filename fileData v =
     (case Unmarshal Q (ext2EncFormat L (filepath_Ext windows filename))
         (if windows then replace_all crlf lf fileData else fileData) v of
        Inl e \<Rightarrow> Inl (EncodeError e)
      | Inr w \<Rightarrow> Inr w)"

text \<open>The flag says whether the path can be read; a path that cannot gives an error other than not-exist, whether a file is there or not.\<close>

definition loadFileConfig ::
  "ext_lib \<Rightarrow> ('d, 'v) quick_lib \<Rightarrow> bool \<Rightarrow> bool \<Rightarrow> string \<Rightarrow> 'd \<Rightarrow> file_system \<Rightarrow> quick_error + 'd" where
  "loadFileConfig L Q windows readable filename v fs =
     (case fs filename of
        None \<Rightarrow> Inl (if readable then NotExist else ReadError)
      | Some fileData \<Rightarrow> (if \<not> readable then Inl ReadError else loaded_value L Q windows filename fileData v))"

section \<open>etcd\<close>

definition etcd_failure :: "etcd_error \<Rightarrow> quick_error" where
  "etcd_failure e = (case e of DeadlineExceeded \<Rightarrow> EtcdUnreachable | OtherEtcd t \<Rightarrow> EtcdUnexpected t)"

text \<open>The store of etcd as the put left it; the argument fails is the error the call returns.\<close>

definition saveFileConfigEtcd ::
  "ext_lib \<Rightarrow> ('d, 'v) quick_lib \<Rightarrow> bool \<Rightarrow> etcd_error option \<Rightarrow> string \<Rightarrow> 'd \<Rightarrow> file_system \<Rightarrow> quick_error option \<times> file_system" where
  "saveFileConfigEtcd L Q windows fails filename v store =
     (case saved_bytes L Q windows filename v of
        Inl e \<Rightarrow> (Some e, store)
      | Inr b \<Rightarrow> (case fails of Some e \<Rightarrow> (Some (etcd_failure e), store) | None \<Rightarrow> (None, store(filename \<mapsto> b))))"

definition loadFileConfigEtcd ::
  "ext_lib \<Rightarrow> ('d, 'v) quick_lib \<Rightarrow> bool \<Rightarrow> etcd_error option \<Rightarrow> string \<Rightarrow> 'd \<Rightarrow> file_system \<Rightarrow> quick_error + 'd" where
  "loadFileConfigEtcd L Q windows fails filename v store =
     (case fails of
        Some e \<Rightarrow> Inl (etcd_failure e)
      | None \<Rightarrow> (case store filename of None \<Rightarrow> Inl NotExist | Some fileData \<Rightarrow> loaded_value L Q windows filename fileData v))"

section \<open>Configurations\<close>

definition CheckData :: "('d, 'v) quick_lib \<Rightarrow> 'd \<Rightarrow> quick_error option" where
  "CheckData Q d =
     (if \<not> IsStruct Q d then Some NotAStruct
      else (case map_of (Fields Q d) ''Version'' of
              None \<Rightarrow> Some (NoVersionField (StructName Q d))
            | Some f \<Rightarrow> if StringValue Q f = None then Some (VersionNotString (StructName Q d)) else None))"

text \<open>A configuration is its data and, if it lives in etcd, a client.\<close>

record 'd quick_config =
  cfg_data :: 'd
  in_etcd :: bool

definition NewConfig :: "('d, 'v) quick_lib \<Rightarrow> 'd \<Rightarrow> bool \<Rightarrow> quick_error + 'd quick_config" where
  "NewConfig Q d clnt =
     (case CheckData Q d of Some e \<Rightarrow> Inl e | None \<Rightarrow> Inr \<lparr>cfg_data = d, in_etcd = clnt\<rparr>)"

text \<open>A configuration without a textual version panics.\<close>

definition config_Version :: "('d, 'v) quick_lib \<Rightarrow> 'd quick_config \<Rightarrow> string may_panic" where
  "config_Version Q c =
     (case map_of (Fields Q (cfg_data c)) ''Version'' of None \<Rightarrow> None | Some f \<Rightarrow> StringValue Q f)"

record save_run =
  old_readable :: bool
  backup_run :: write_run
  data_run :: write_run
  etcd_fails :: "etcd_error option"

text \<open>The backup of what is there before it is replaced.\<close>

definition save_backup :: "save_run \<Rightarrow> string \<Rightarrow> file_system \<Rightarrow> quick_error option \<times> file_system" where
  "save_backup r filename fs =
     (case fs filename of
        None \<Rightarrow> (if old_readable r then None else Some ReadError, fs)
      | Some oldData \<Rightarrow>
          (if \<not> old_readable r then (Some ReadError, fs)
           else (case writeFile (backup_run r) (filename @ ''.old'') oldData fs of
                   (e, fs) \<Rightarrow> (map_option FileError e, fs))))"

definition config_Save ::
  "ext_lib \<Rightarrow> ('d, 'v) quick_lib \<Rightarrow> bool \<Rightarrow> save_run \<Rightarrow> string \<Rightarrow> 'd quick_config \<Rightarrow> file_system \<times> file_system \<Rightarrow>
     quick_error option \<times> file_system \<times> file_system" where
  "config_Save L Q windows r filename d w =
     (let (fs, store) = w
      in if in_etcd d then
           (case saveFileConfigEtcd L Q windows (etcd_fails r) filename (cfg_data d) store of (e, store) \<Rightarrow> (e, fs, store))
         else
           (case save_backup r filename fs of
              (Some e, fs) \<Rightarrow> (Some e, fs, store)
            | (None, fs) \<Rightarrow>
                (case saveFileConfig L Q windows (data_run r) filename (cfg_data d) fs of (e, fs) \<Rightarrow> (e, fs, store))))"

definition config_Load ::
  "ext_lib \<Rightarrow> ('d, 'v) quick_lib \<Rightarrow> bool \<Rightarrow> save_run \<Rightarrow> string \<Rightarrow> 'd quick_config \<Rightarrow> file_system \<times> file_system \<Rightarrow> quick_error + 'd" where
  "config_Load L Q windows r filename d w =
     (if in_etcd d then loadFileConfigEtcd L Q windows (etcd_fails r) filename (cfg_data d) (snd w)
      else loadFileConfig L Q windows (old_readable r) filename (cfg_data d) (fst w))"

definition LoadConfig ::
  "ext_lib \<Rightarrow> ('d, 'v) quick_lib \<Rightarrow> bool \<Rightarrow> save_run \<Rightarrow> string \<Rightarrow> bool \<Rightarrow> 'd \<Rightarrow> file_system \<times> file_system \<Rightarrow> quick_error + 'd quick_config" where
  "LoadConfig L Q windows r filename clnt d w =
     (case NewConfig Q d clnt of
        Inl e \<Rightarrow> Inl e
      | Inr c \<Rightarrow> (case config_Load L Q windows r filename c w of Inl e \<Rightarrow> Inl e | Inr v \<Rightarrow> Inr (c\<lparr>cfg_data := v\<rparr>)))"

definition SaveConfig ::
  "ext_lib \<Rightarrow> ('d, 'v) quick_lib \<Rightarrow> bool \<Rightarrow> save_run \<Rightarrow> 'd \<Rightarrow> string \<Rightarrow> bool \<Rightarrow> file_system \<times> file_system \<Rightarrow>
     quick_error option \<times> file_system \<times> file_system" where
  "SaveConfig L Q windows r d filename clnt w =
     (case CheckData Q d of
        Some e \<Rightarrow> (Some e, w)
      | None \<Rightarrow> (case NewConfig Q d clnt of Inl e \<Rightarrow> (Some e, w) | Inr c \<Rightarrow> config_Save L Q windows r filename c w))"

definition GetVersion ::
  "ext_lib \<Rightarrow> ('d, 'v) quick_lib \<Rightarrow> bool \<Rightarrow> save_run \<Rightarrow> string \<Rightarrow> bool \<Rightarrow> 'd \<Rightarrow> file_system \<times> file_system \<Rightarrow>
     (quick_error + string) may_panic" where
  "GetVersion L Q windows r filename clnt zero w =
     (case LoadConfig L Q windows r filename clnt zero w of
        Inl e \<Rightarrow> Some (Inl e)
      | Inr c \<Rightarrow> map_option Inr (config_Version Q c))"

text \<open>Differences; the second compares values only.\<close>

definition config_Diff :: "('d, 'v) quick_lib \<Rightarrow> 'd quick_config \<Rightarrow> 'd quick_config \<Rightarrow> (string \<times> 'v) list" where
  "config_Diff Q d c =
     filter (\<lambda>f. \<not> list_ex (\<lambda>g. fst f = fst g) (Fields Q (cfg_data c))) (Fields Q (cfg_data d))"

definition config_DeepDiff :: "('d, 'v) quick_lib \<Rightarrow> 'd quick_config \<Rightarrow> 'd quick_config \<Rightarrow> (string \<times> 'v) list" where
  "config_DeepDiff Q d c =
     filter (\<lambda>f. \<not> list_ex (\<lambda>g. DeepEqual Q (snd f) (snd g)) (Fields Q (cfg_data c))) (Fields Q (cfg_data d))"

section \<open>Where a JSON text is wrong\<close>

text \<open>\<open>fmt.Sprintf("%5d: %s  <<<<", line, s)\<close>\<close>

definition errorFmt :: "nat \<Rightarrow> string \<Rightarrow> string" where
  "errorFmt line s = (let n = nat_digits line in replicate (5 - length n) (CHR '' '') @ n @ '': '' @ s @ ''  <<<<'')"

fun error_line :: "string \<Rightarrow> nat \<Rightarrow> string \<Rightarrow> nat \<times> string" where
  "error_line [] errLine readLine = (errLine, readLine)"
| "error_line (b # bs) errLine readLine =
     (if b = CHR 0x0A then error_line bs (errLine + 1) ''''
      else if b = CHR 0x09 then error_line bs errLine (readLine @ '' '' @ [b])
      else if b = CHR 0x0D then (errLine, readLine)
      else error_line bs errLine (readLine @ [b]))"

definition FormatJSONSyntaxError :: "int option \<Rightarrow> string \<Rightarrow> int \<Rightarrow> string" where
  "FormatJSONSyntaxError terminal data offset =
     (let errorShift = int (length (errorFmt 1 ''''));
          termWidth = (case terminal of None \<Rightarrow> 25 | Some width \<Rightarrow> width);
          (errLine, readLine) = error_line (take (nat offset) data) 1 '''';
          lineLen = int (length readLine);
          idx = lineLen - termWidth + errorShift;
          idx = (if idx < 0 \<or> idx > lineLen - 1 then 0 else idx)
      in errorFmt errLine (drop (nat idx) readLine))"

section \<open>Saving loses nothing\<close>

lemma writeFile_atomic:
  assumes "writeFile r name b fs = (e, fs')" "tmp_name r \<noteq> Some name"
  shows "e = None \<Longrightarrow> fs' name = Some b" "e \<noteq> None \<Longrightarrow> fs' name = fs name"
    "p \<noteq> name \<Longrightarrow> tmp_name r \<noteq> Some p \<Longrightarrow> fs' p = fs p"
proof -
  have "(e = None \<longrightarrow> fs' name = Some b) \<and> (e \<noteq> None \<longrightarrow> fs' name = fs name) \<and>
    (p \<noteq> name \<longrightarrow> tmp_name r \<noteq> Some p \<longrightarrow> fs' p = fs p)"
  proof (cases "tmp_name r")
    case None
    then show ?thesis using assms(1) by (cases "mkdir_ok r") (auto simp: writeFile_def CreateFile_def)
  next
    case (Some t)
    then have t: "t \<noteq> name" using assms(2) by simp
    consider "\<not> mkdir_ok r" | "mkdir_ok r" "\<not> chmod_ok r" | n where "mkdir_ok r" "chmod_ok r" "write_stopped r = Some n"
      | "mkdir_ok r" "chmod_ok r" "write_stopped r = None" "\<not> close_ok r"
      | "mkdir_ok r" "chmod_ok r" "write_stopped r = None" "close_ok r" "rename_ok r"
      | "mkdir_ok r" "chmod_ok r" "write_stopped r = None" "close_ok r" "\<not> rename_ok r" by (cases "write_stopped r") auto
    then show ?thesis
      using assms(1) t Some
      by cases (auto simp: writeFile_def CreateFile_def op_defs)
  qed
  then show "e = None \<Longrightarrow> fs' name = Some b" "e \<noteq> None \<Longrightarrow> fs' name = fs name"
    "p \<noteq> name \<Longrightarrow> tmp_name r \<noteq> Some p \<Longrightarrow> fs' p = fs p" by blast+
qed

lemma saveFileConfig_atomic:
  assumes "saveFileConfig L Q windows r name v fs = (e, fs')" "tmp_name r \<noteq> Some name"
  shows "e = None \<Longrightarrow> \<exists>b. saved_bytes L Q windows name v = Inr b \<and> fs' name = Some b" "e \<noteq> None \<Longrightarrow> fs' name = fs name"
    "p \<noteq> name \<Longrightarrow> tmp_name r \<noteq> Some p \<Longrightarrow> fs' p = fs p"
proof -
  have "(e = None \<longrightarrow> (\<exists>b. saved_bytes L Q windows name v = Inr b \<and> fs' name = Some b)) \<and> (e \<noteq> None \<longrightarrow> fs' name = fs name) \<and>
    (p \<noteq> name \<longrightarrow> tmp_name r \<noteq> Some p \<longrightarrow> fs' p = fs p)"
  proof (cases "saved_bytes L Q windows name v")
    case (Inr b)
    obtain we gs where w: "writeFile r name b fs = (we, gs)" by (cases "writeFile r name b fs")
    have "e = map_option FileError we" "gs = fs'" using assms(1) Inr w by (simp_all add: saveFileConfig_def)
    then show ?thesis using writeFile_atomic [OF w assms(2)] Inr by (cases we) simp_all
  qed (use assms(1) in \<open>auto simp: saveFileConfig_def\<close>)
  then show "e = None \<Longrightarrow> \<exists>b. saved_bytes L Q windows name v = Inr b \<and> fs' name = Some b" "e \<noteq> None \<Longrightarrow> fs' name = fs name"
    "p \<noteq> name \<Longrightarrow> tmp_name r \<noteq> Some p \<Longrightarrow> fs' p = fs p" by blast+
qed

lemma save_backup_keeps:
  assumes "save_backup r filename fs = (e, fs')" "tmp_name (backup_run r) \<notin> {Some filename, Some (filename @ ''.old'')}"
  shows "fs' filename = fs filename" "e = None \<Longrightarrow> fs filename = None \<or> fs' (filename @ ''.old'') = fs filename"
    "p \<noteq> filename @ ''.old'' \<Longrightarrow> tmp_name (backup_run r) \<noteq> Some p \<Longrightarrow> fs' p = fs p"
proof -
  have "fs' filename = fs filename \<and> (e = None \<longrightarrow> fs filename = None \<or> fs' (filename @ ''.old'') = fs filename) \<and>
    (p \<noteq> filename @ ''.old'' \<longrightarrow> tmp_name (backup_run r) \<noteq> Some p \<longrightarrow> fs' p = fs p)"
  proof (cases "fs filename")
    case (Some oldData)
    show ?thesis
    proof (cases "old_readable r")
      case True
      obtain we gs where w: "writeFile (backup_run r) (filename @ ''.old'') oldData fs = (we, gs)"
        by (cases "writeFile (backup_run r) (filename @ ''.old'') oldData fs")
      have e: "e = map_option FileError we" "gs = fs'" using assms(1) True Some w by (simp_all add: save_backup_def)
      have "tmp_name (backup_run r) \<noteq> Some (filename @ ''.old'')" using assms(2) by simp
      note a = writeFile_atomic [OF w this]
      then show ?thesis using e Some assms(2) a(3) [of filename] by (cases we) auto
    qed (use assms(1) Some in \<open>auto simp: save_backup_def\<close>)
  qed (use assms(1) in \<open>auto simp: save_backup_def\<close>)
  then show "fs' filename = fs filename" "e = None \<Longrightarrow> fs filename = None \<or> fs' (filename @ ''.old'') = fs filename"
    "p \<noteq> filename @ ''.old'' \<Longrightarrow> tmp_name (backup_run r) \<noteq> Some p \<Longrightarrow> fs' p = fs p" by blast+
qed

text \<open>C40: Saving a configuration to a file, whatever system calls fail on the way, leaves there either what was there or the
  whole new text, keeps the old text in the file or its backup, touches nothing else than its temporary files, and
  reports success only when the new text and the backup are in place.\<close>

theorem config_Save_loses_nothing:
  assumes "config_Save L Q windows r filename d (fs, store) = (e, fs', store')" "\<not> in_etcd d"
    and "tmp_name (backup_run r) \<notin> {Some filename, Some (filename @ ''.old'')}"
    and "tmp_name (data_run r) \<notin> {Some filename, Some (filename @ ''.old'')}"
  shows "(fs' filename = fs filename \<or> (\<exists>b. saved_bytes L Q windows filename (cfg_data d) = Inr b \<and> fs' filename = Some b)) \<and>
    (\<forall>old. fs filename = Some old \<longrightarrow> fs' filename = Some old \<or> fs' (filename @ ''.old'') = Some old) \<and>
    (\<forall>p. p \<notin> {filename, filename @ ''.old''} \<and> Some p \<notin> {tmp_name (backup_run r), tmp_name (data_run r)} \<longrightarrow> fs' p = fs p) \<and>
    (e = None \<longrightarrow> (\<exists>b. saved_bytes L Q windows filename (cfg_data d) = Inr b \<and> fs' filename = Some b) \<and>
       (fs filename = None \<or> fs' (filename @ ''.old'') = fs filename))"
proof -
  obtain e1 fs1 where f: "save_backup r filename fs = (e1, fs1)" by (cases "save_backup r filename fs")
  have ne: "filename \<noteq> filename @ ''.old''" by simp
  note b = save_backup_keeps [OF f assms(3)]
  show ?thesis
  proof (cases e1)
    case (Some x)
    then have "e = Some x" "fs' = fs1" using assms(1,2) f by (auto simp: config_Save_def)
    then show ?thesis using b by (cases "fs filename") auto
  next
    case None
    have sv: "saveFileConfig L Q windows (data_run r) filename (cfg_data d) fs1 = (e, fs')"
      using assms(1,2) f None by (auto simp: config_Save_def split: prod.splits)
    have td: "tmp_name (data_run r) \<noteq> Some filename" "tmp_name (data_run r) \<noteq> Some (filename @ ''.old'')"
      using assms(4) by auto
    have s: "e = None \<Longrightarrow> \<exists>b. saved_bytes L Q windows filename (cfg_data d) = Inr b \<and> fs' filename = Some b"
      "e \<noteq> None \<Longrightarrow> fs' filename = fs1 filename" "p \<noteq> filename \<Longrightarrow> tmp_name (data_run r) \<noteq> Some p \<Longrightarrow> fs' p = fs1 p" for p
      using saveFileConfig_atomic [OF sv td(1)] by simp_all
    have s': "fs' (filename @ ''.old'') = fs1 (filename @ ''.old'')" using s(3) [OF ne [symmetric] td(2)] .
    have "fs' p = fs p" if "p \<notin> {filename, filename @ ''.old''}" "Some p \<notin> {tmp_name (backup_run r), tmp_name (data_run r)}" for p
    proof -
      have "fs' p = fs1 p" by (rule s(3)) (use that in auto)
      also have "\<dots> = fs p" by (rule b(3)) (use that in auto)
      finally show ?thesis .
    qed
    moreover have bk: "fs filename = None \<or> fs' (filename @ ''.old'') = fs filename" using s' b(2) [OF None] by metis
    moreover have "fs' filename = fs filename \<or> (\<exists>b. saved_bytes L Q windows filename (cfg_data d) = Inr b \<and> fs' filename = Some b)"
      using s(1,2) b(1) by metis
    moreover have "fs' filename = Some old \<or> fs' (filename @ ''.old'') = Some old" if "fs filename = Some old" for old
      using bk that by simp
    ultimately show ?thesis using s(1) by blast
  qed
qed

definition example_lib :: "(nat, string) quick_lib" where
  "example_lib = \<lparr>IsStruct = (\<lambda>d. True), StructName = (\<lambda>d. ''c''), Fields = (\<lambda>d. [(''Version'', ''1'')]), StringValue = Some,
     DeepEqual = (=), Marshal = (\<lambda>enc d. Inr (''v:'' @ nat_digits d)), Unmarshal = (\<lambda>enc b d. Inr (length b))\<rparr>"

theorem config_Save_loses_nothing_witness:
  "\<exists>L r e fs' store'. config_Save L example_lib False r ''c.yml'' \<lparr>cfg_data = 7, in_etcd = False\<rparr> ([''c.yml'' \<mapsto> ''old''], Map.empty) =
       (e, fs', store') \<and> \<not> rename_ok (data_run r) \<and> (fs' ''c.yml'' = Some ''old'' \<or> fs' ''c.yml.old'' = Some ''old'')"
proof -
  define ok where "ok = \<lparr>mkdir_ok = True, tmp_name = Some ''t1'', chmod_ok = True, write_stopped = None, close_ok = True,
    rename_ok = True, remove_ok = True\<rparr>"
  define r where "r = \<lparr>old_readable = True, backup_run = ok, data_run = ok\<lparr>rename_ok := False\<rparr>, etcd_fails = None\<rparr>"
  let ?d = "\<lparr>cfg_data = 7, in_etcd = False\<rparr>" and ?w = "([''c.yml'' \<mapsto> ''old''], Map.empty) :: file_system \<times> file_system"
  obtain e fs' store' where s: "config_Save list_lib example_lib False r ''c.yml'' ?d ?w = (e, fs', store')"
    by (cases "config_Save list_lib example_lib False r ''c.yml'' ?d ?w")
  have t: "\<not> in_etcd ?d" "tmp_name (backup_run r) \<notin> {Some ''c.yml'', Some (''c.yml'' @ ''.old'')}"
    "tmp_name (data_run r) \<notin> {Some ''c.yml'', Some (''c.yml'' @ ''.old'')}" by (simp_all add: r_def ok_def)
  note c = config_Save_loses_nothing [OF s t]
  have "fs' ''c.yml'' = Some ''old'' \<or> fs' ''c.yml.old'' = Some ''old''" using c by simp
  then show ?thesis using s by (intro exI [of _ list_lib] exI [of _ r] exI [of _ e] exI [of _ fs'] exI [of _ store'])
    (simp add: r_def ok_def)
qed

section \<open>Saved data load again\<close>

text \<open>Line ends survive the way to a Windows file and back.\<close>

lemma replace_lf: "replace_all lf crlf (c # s) = (if c = CHR 0x0A then crlf else [c]) @ replace_all lf crlf s"
  by (subst replace_all.simps) (simp add: has_prefix_def lf_def)

lemma crlf_round_trip: "replace_all crlf lf (replace_all lf crlf s) = s"
proof (induction s)
  case (Cons c s)
  have step: "replace_all crlf lf (d # u) = d # replace_all crlf lf u"
    if "d \<noteq> CHR 0x0D \<or> u = [] \<or> hd u \<noteq> CHR 0x0A" for d u
    using that by (subst replace_all.simps) (cases u; auto simp: has_prefix_def crlf_def)
  have start: "replace_all lf crlf s = [] \<or> hd (replace_all lf crlf s) \<noteq> CHR 0x0A"
  proof (cases s)
    case (Cons a list)
    show ?thesis unfolding Cons replace_lf by (simp add: crlf_def)
  qed (simp add: replace_all.simps)
  show ?case
  proof (cases "c = CHR 0x0A")
    case True
    then have "replace_all lf crlf (c # s) = crlf @ replace_all lf crlf s" by (simp add: replace_lf)
    then show ?thesis using Cons True
      by (subst replace_all.simps) (simp add: has_prefix_def crlf_def lf_def)
  next
    case False
    then show ?thesis using Cons start by (simp add: replace_lf step)
  qed
qed (simp add: replace_all.simps)


lemma saved_config_loads:
  assumes "config_Save L Q windows r filename d (fs, store) = (None, fs', store')" "\<not> in_etcd d"
    and "tmp_name (data_run r) \<noteq> Some filename"
    and "Marshal Q (ext2EncFormat L (filepath_Ext windows filename)) (cfg_data d) = Inr b"
  shows "loadFileConfig L Q windows True filename v fs' =
     (case Unmarshal Q (ext2EncFormat L (filepath_Ext windows filename)) b v of Inl e \<Rightarrow> Inl (EncodeError e) | Inr w \<Rightarrow> Inr w)"
proof -
  obtain fs1 where "saveFileConfig L Q windows (data_run r) filename (cfg_data d) fs1 = (None, fs')"
    using assms(1,2) by (auto simp: config_Save_def split: prod.splits option.splits if_splits)
  from saveFileConfig_atomic(1) [OF this assms(3)] have "fs' filename = Some (if windows then replace_all lf crlf b else b)"
    using assms(4) by (auto simp: saved_bytes_def)
  then show ?thesis by (simp add: loadFileConfig_def loaded_value_def crlf_round_trip)
qed

section \<open>Differences and messages\<close>

text \<open>A field whose value appears under any name is not a difference.\<close>

lemma DeepDiff_ignores_names:
  assumes "f \<in> set (Fields Q (cfg_data d))" "g \<in> set (Fields Q (cfg_data c))" "DeepEqual Q (snd f) (snd g)"
  shows "f \<notin> set (config_DeepDiff Q d c)"
  using assms by (auto simp: config_DeepDiff_def list_ex_iff)

text \<open>The line number counts the line ends before the first carriage return.\<close>

lemma error_line_number:
  "fst (error_line bs n s) = n + count_list (takeWhile (\<lambda>b. b \<noteq> CHR 0x0D) bs) (CHR 0x0A)"
  by (induction bs arbitrary: n s) auto

text \<open>So in a text with Windows line ends the error is always reported in the first line, and a tab is kept beside its blank.\<close>

lemma carriage_return_ends_search:
  assumes "CHR 0x0A \<notin> set line"
  shows "fst (error_line (line @ crlf @ rest) 1 '''') = 1"
  using assms by (auto simp: error_line_number crlf_def takeWhile_append count_list_0_iff dest: set_takeWhileD)

lemma tab_is_kept: "error_line [CHR 0x09] n s = (n, s @ [CHR '' '', CHR 0x09])"
  by simp

end
