(* ===== verification/Certs.thy ===== *)
theory Certs
  imports GoStrings "HOL-Library.AList" "HOL-Library.Multiset"
begin

text \<open>
  The certificate manager of \<open>certs/manager.go\<close>, with the single certificate of \<open>certs/certs.go\<close> and the root
  certificates of \<open>certs/ca-certs.go\<close>. Files, parsers and the watcher of file changes are a record of what they answer;
  it is an argument of every operation, since files change between operations.
\<close>

section \<open>The world outside\<close>

record leaf =
  Raw :: string
  IPAddresses :: "string list"

record certificate =
  Chain :: "string list"
  Leaf :: "leaf option"

datatype cert_error = OsFailure | CertIsLink string string | KeyIsLink string string | LoadFailure | ParseFailure | IPSansNotAllowed
  | WatchFailure | NoServerCertificate | NoClientCertificate | NoValidPEM string

record cert_world =
  Getwd :: "string option"
  Lstat :: "string \<Rightarrow> bool option"
  LoadX509KeyPair :: "string \<Rightarrow> string \<Rightarrow> certificate option"
  ParseCertificate :: "string \<Rightarrow> leaf option"
  Watch :: "string \<Rightarrow> bool"

text \<open>\<open>filepath.Abs\<close> on Unix; the working directory is given without its leading slash.\<close>

definition Abs :: "cert_world \<Rightarrow> string \<Rightarrow> string option" where
  "Abs W p =
     (if has_prefix p ''/'' then Some (path_clean p)
      else map_option (\<lambda>wd. path_clean (''/'' @ wd @ ''/'' @ p)) (Getwd W))"

text \<open>\<open>isSymlink\<close>: the value of \<open>Lstat\<close> says whether the file is a symbolic link.\<close>

definition isSymlink :: "cert_world \<Rightarrow> string \<Rightarrow> bool option" where
  "isSymlink W file = Lstat W file"

text \<open>Filling in the leaf of a loaded certificate; an empty chain panics.\<close>

definition with_leaf :: "cert_world \<Rightarrow> certificate \<Rightarrow> (cert_error + certificate) may_panic" where
  "with_leaf W c =
     (if Leaf c \<noteq> None then Some (Inr c)
      else if Chain c = [] then None
      else Some (case ParseCertificate W (Chain c ! 0) of None \<Rightarrow> Inl ParseFailure | Some l \<Rightarrow> Inr (c\<lparr>Leaf := Some l\<rparr>)))"

definition load_certificate :: "cert_world \<Rightarrow> string \<Rightarrow> string \<Rightarrow> (cert_error + certificate) may_panic" where
  "load_certificate W certFile keyFile =
     (case LoadX509KeyPair W certFile keyFile of None \<Rightarrow> Some (Inl LoadFailure) | Some c \<Rightarrow> with_leaf W c)"

section \<open>The manager\<close>

datatype pair = Pair (KeyFile: string) (CertFile: string)

text \<open>
  A watcher: what it watches, whether it waits for file events (or for a timer), and whether a message waits in its
  reload channel.
\<close>

record watcher =
  watch :: pair
  by_events :: bool
  reload_pending :: bool

text \<open>The certificates are a Go map: a list with one entry for each file pair.\<close>

record manager =
  certificates :: "(pair \<times> certificate) list"
  defaultCert :: pair
  duration :: int
  disableAutoReload :: bool
  watchers :: "watcher list"

definition reloader :: "manager \<Rightarrow> pair \<Rightarrow> bool \<Rightarrow> manager" where
  "reloader m p events = m\<lparr>watchers := watchers m @ [\<lparr>watch = p, by_events = events, reload_pending = False\<rparr>]\<rparr>"

text \<open>\<open>filepath.Dir\<close> of an absolute path.\<close>

definition dir_of :: "string \<Rightarrow> string" where
  "dir_of p = path_clean (rev (dropWhile (\<lambda>c. c \<noteq> CHR ''/'') (rev p)))"

text \<open>The end of \<open>AddCertificate\<close>, under the lock.\<close>

definition store_certificate :: "bool \<Rightarrow> cert_world \<Rightarrow> manager \<Rightarrow> pair \<Rightarrow> bool \<Rightarrow> certificate \<Rightarrow> cert_error option \<times> manager" where
  "store_certificate isk8s W m p links c =
     (if length (certificates m) > 0 \<and> length (case Leaf c of None \<Rightarrow> [] | Some l \<Rightarrow> IPAddresses l) > 0 then
        (Some IPSansNotAllowed, m)
      else
        (let m = m\<lparr>certificates := AList.update p c (certificates m)\<rparr>
         in if disableAutoReload m then (None, m)
            else if links \<or> isk8s then (None, reloader m p False)
            else if \<not> Watch W (dir_of (CertFile p)) then (Some WatchFailure, m)
            else if \<not> Watch W (dir_of (KeyFile p)) then (Some WatchFailure, m)
            else (None, reloader m p True)))"

definition AddCertificate :: "bool \<Rightarrow> cert_world \<Rightarrow> manager \<Rightarrow> string \<Rightarrow> string \<Rightarrow> (cert_error option \<times> manager) may_panic" where
  "AddCertificate isk8s W m certFile keyFile =
     (case (Abs W certFile, Abs W keyFile) of
        (Some certFile, Some keyFile) \<Rightarrow>
          (case (isSymlink W certFile, isSymlink W keyFile) of
             (Some certFileIsLink, Some keyFileIsLink) \<Rightarrow>
               (if certFileIsLink \<and> \<not> keyFileIsLink then Some (Some (CertIsLink certFile keyFile), m)
                else if keyFileIsLink \<and> \<not> certFileIsLink then Some (Some (KeyIsLink keyFile certFile), m)
                else
                  (case load_certificate W certFile keyFile of
                     None \<Rightarrow> None
                   | Some (Inl e) \<Rightarrow> Some (Some e, m)
                   | Some (Inr c) \<Rightarrow>
                       Some (store_certificate isk8s W m (Pair keyFile certFile) (certFileIsLink \<and> keyFileIsLink) c)))
           | _ \<Rightarrow> Some (Some OsFailure, m))
      | _ \<Rightarrow> Some (Some OsFailure, m))"

definition WithDisableAutoReload :: "manager \<Rightarrow> manager" where
  "WithDisableAutoReload m = m\<lparr>disableAutoReload := True\<rparr>"

definition DisableAutoReload :: "manager \<Rightarrow> bool" where
  "DisableAutoReload m = disableAutoReload m"

definition UpdateReloadDuration :: "manager \<Rightarrow> int \<Rightarrow> manager" where
  "UpdateReloadDuration m t = m\<lparr>duration := t\<rparr>"

definition NewManager ::
  "bool \<Rightarrow> cert_world \<Rightarrow> string \<Rightarrow> string \<Rightarrow> (manager \<Rightarrow> manager) list \<Rightarrow> (cert_error + manager) may_panic" where
  "NewManager isk8s W certFile keyFile opts =
     (case (Abs W certFile, Abs W keyFile) of
        (Some certFile, Some keyFile) \<Rightarrow>
          (let m = foldl (\<lambda>m opt. opt m) \<lparr>certificates = [], defaultCert = Pair keyFile certFile, duration = 60 * 10 ^ 9,
                     disableAutoReload = False, watchers = []\<rparr> opts
           in (case AddCertificate isk8s W m certFile keyFile of
                 None \<Rightarrow> None
               | Some (Some e, _) \<Rightarrow> Some (Inl e)
               | Some (None, m) \<Rightarrow> Some (Inr m)))
      | _ \<Rightarrow> Some (Inl OsFailure))"

text \<open>\<open>ReloadCerts\<close>: a message into every reload channel that has room.\<close>

definition ReloadCerts :: "manager \<Rightarrow> manager" where
  "ReloadCerts m = m\<lparr>watchers := map (\<lambda>w. w\<lparr>reload_pending := True\<rparr>) (watchers m)\<rparr>"

text \<open>What the loops \<open>watchSymlinks\<close> and \<open>watchFileEvents\<close> do when they wake.\<close>

definition reload_watched :: "cert_world \<Rightarrow> pair \<Rightarrow> manager \<Rightarrow> manager may_panic" where
  "reload_watched W p m =
     (case load_certificate W (CertFile p) (KeyFile p) of
        None \<Rightarrow> None
      | Some (Inl _) \<Rightarrow> Some m
      | Some (Inr c) \<Rightarrow> Some (m\<lparr>certificates := AList.update p c (certificates m)\<rparr>))"

text \<open>What wakes a watcher: a message in its reload channel, its timer, or a file event.\<close>

datatype wake = ReloadMessage | Timer | FileEvent bool string

definition watch_step :: "cert_world \<Rightarrow> nat \<Rightarrow> wake \<Rightarrow> manager \<Rightarrow> manager may_panic" where
  "watch_step W i e m =
     (if i \<ge> length (watchers m) then Some m
      else
        (let w = watchers m ! i
         in (case e of
               ReloadMessage \<Rightarrow>
                 (if reload_pending w
                  then reload_watched W (watch w) (m\<lparr>watchers := (watchers m)[i := w\<lparr>reload_pending := False\<rparr>]\<rparr>)
                  else Some m)
             | Timer \<Rightarrow> (if by_events w then Some m else reload_watched W (watch w) m)
             | FileEvent isWriteEvent p \<Rightarrow>
                 (if \<not> by_events w \<or> \<not> isWriteEvent \<or> KeyFile (watch w) \<noteq> p \<and> CertFile (watch w) \<noteq> p then Some m
                  else reload_watched W (watch w) m))))"

section \<open>Choosing a certificate\<close>

text \<open>
  The argument order is the entries of the map in the order of iteration, supports whether the peer accepts a certificate. The
  value \<^term>\<open>Inr None\<close> is the nil certificate without an error.
\<close>

definition Manager_GetCertificate ::
  "(pair \<times> certificate) list \<Rightarrow> manager \<Rightarrow> string \<Rightarrow> (certificate \<Rightarrow> bool) \<Rightarrow> cert_error + certificate option" where
  "Manager_GetCertificate order m serverName supports =
     (if serverName = '''' then Inr (map_of (certificates m) (defaultCert m))
      else if length order = 1 then Inr (Some (snd (hd order)))
      else
        (case find (\<lambda>(p, c). supports c) order of
           Some (p, c) \<Rightarrow> Inr (Some c)
         | None \<Rightarrow>
             (case map_of (certificates m) (defaultCert m) of
                None \<Rightarrow> Inl NoServerCertificate
              | Some c \<Rightarrow> Inr (Some c))))"

definition Manager_GetClientCertificate ::
  "(pair \<times> certificate) list \<Rightarrow> (certificate \<Rightarrow> bool) \<Rightarrow> cert_error + certificate" where
  "Manager_GetClientCertificate order supports =
     (if length order = 1 then Inr (snd (hd order))
      else (case find (\<lambda>(p, c). supports c) order of Some (p, c) \<Rightarrow> Inr c | None \<Rightarrow> Inl NoClientCertificate))"

definition Manager_GetAllCertificates :: "cert_world \<Rightarrow> (pair \<times> certificate) list \<Rightarrow> leaf list" where
  "Manager_GetAllCertificates W order =
     concat (map (\<lambda>(p, c). case Leaf c of None \<Rightarrow> []
       | Some l \<Rightarrow> (case ParseCertificate W (Raw l) of None \<Rightarrow> [] | Some l' \<Rightarrow> [l'])) order)"

section \<open>One certificate\<close>

text \<open>A listener is its channel and whether the channel has room.\<close>

record cert_file =
  cf_certFile :: string
  cf_keyFile :: string
  cf_certificate :: "certificate option"
  listeners :: "nat list"

text \<open>\<open>Reload\<close> with the listeners that get the new certificate.\<close>

definition Certificate_Reload ::
  "cert_world \<Rightarrow> (nat \<Rightarrow> bool) \<Rightarrow> cert_file \<Rightarrow> (cert_error option \<times> cert_file \<times> (nat \<times> certificate) list) may_panic" where
  "Certificate_Reload W room c =
     (case load_certificate W (cf_certFile c) (cf_keyFile c) of
        None \<Rightarrow> None
      | Some (Inl e) \<Rightarrow> Some (Some e, c, [])
      | Some (Inr x) \<Rightarrow> Some (None, c\<lparr>cf_certificate := Some x\<rparr>, map (\<lambda>ch. (ch, x)) (filter room (listeners c))))"

definition NewCertificate :: "cert_world \<Rightarrow> string \<Rightarrow> string \<Rightarrow> (cert_error + cert_file) may_panic" where
  "NewCertificate W certFile keyFile =
     (case (Abs W certFile, Abs W keyFile) of
        (Some certFile, Some keyFile) \<Rightarrow>
          (case Certificate_Reload W (\<lambda>ch. True) \<lparr>cf_certFile = certFile, cf_keyFile = keyFile, cf_certificate = None, listeners = []\<rparr> of
             None \<Rightarrow> None
           | Some (Some e, _, _) \<Rightarrow> Some (Inl e)
           | Some (None, c, _) \<Rightarrow> Some (Inr c))
      | _ \<Rightarrow> Some (Inl OsFailure))"

definition Certificate_Get :: "cert_file \<Rightarrow> certificate option" where
  "Certificate_Get c = cf_certificate c"

definition Certificate_Notify :: "cert_file \<Rightarrow> nat \<Rightarrow> cert_file" where
  "Certificate_Notify c events = c\<lparr>listeners := listeners c @ [events]\<rparr>"

definition Certificate_Stop :: "cert_file \<Rightarrow> nat \<Rightarrow> cert_file" where
  "Certificate_Stop c events = c\<lparr>listeners := filter (\<lambda>listener. listener \<noteq> events) (listeners c)\<rparr>"

section \<open>Root certificates\<close>

text \<open>What is at the path: nothing or nothing readable, a file, or a directory with the contents of its readable files.\<close>

datatype at_path = Missing | NoPermission | OpenError | StatError | RegularFile "string option" | Directory "string option list option"

text \<open>The pool is the list of the PEM texts added; valid says whether a text holds a certificate.\<close>

definition GetRootCAs :: "(string \<Rightarrow> bool) \<Rightarrow> string list option \<Rightarrow> string \<Rightarrow> at_path \<Rightarrow> string list \<times> cert_error option" where
  "GetRootCAs valid systemRoots path at =
     (let rootCAs = (case systemRoots of None \<Rightarrow> [] | Some roots \<Rightarrow> roots)
      in (case at of
            Missing \<Rightarrow> (rootCAs, None)
          | NoPermission \<Rightarrow> (rootCAs, None)
          | OpenError \<Rightarrow> (rootCAs, Some OsFailure)
          | StatError \<Rightarrow> (rootCAs, Some OsFailure)
          | RegularFile None \<Rightarrow> (rootCAs, Some OsFailure)
          | RegularFile (Some b) \<Rightarrow>
              (if valid b then (rootCAs @ [b], None) else (rootCAs, Some (NoValidPEM path)))
          | Directory None \<Rightarrow> (rootCAs, Some OsFailure)
          | Directory (Some files) \<Rightarrow>
              (rootCAs @ concat (map (\<lambda>f. case f of None \<Rightarrow> [] | Some b \<Rightarrow> if valid b then [b] else []) files), None)))"

section \<open>Which certificate is served\<close>

text \<open>An absolute path is its own absolute path.\<close>

lemma path_split_append: "c \<notin> set x \<Longrightarrow> split_on c (x @ c # s) = x # split_on c s"
  by (induction x) auto

lemma path_split_join: "xs \<noteq> [] \<Longrightarrow> \<forall>x\<in>set xs. c \<notin> set x \<Longrightarrow> split_on c (join_with c xs) = xs"
proof (induction c xs rule: join_with.induct)
  case (2 c s)
  then show ?case by (simp add: split_on_no_sep)
next
  case (3 c s t ss)
  then show ?case using path_split_append [of c s "join_with c (t # ss)"] by simp
qed simp

definition proper_element :: "string \<Rightarrow> bool" where
  "proper_element x \<longleftrightarrow> x \<noteq> '''' \<and> x \<noteq> ''.'' \<and> x \<noteq> ''..'' \<and> CHR ''/'' \<notin> set x"

lemma clean_steps:
  assumes "\<forall>x\<in>set xs. CHR ''/'' \<notin> set x" "\<forall>x\<in>set st. proper_element x"
  shows "\<forall>x\<in>set (foldl (clean_step True) st xs). proper_element x"
  using assms
proof (induction xs arbitrary: st)
  case (Cons a xs)
  have "\<forall>x\<in>set (clean_step True st a). proper_element x"
    using Cons.prems by (auto simp: proper_element_def split: list.splits)
  then show ?case using Cons by simp
qed simp

lemma split_on_elements: "x \<in> set (split_on c s) \<Longrightarrow> c \<notin> set x"
  by (induction s arbitrary: x) (auto split: if_splits list.splits)

lemma clean_proper: "\<forall>x\<in>set xs. proper_element x \<Longrightarrow> foldl (clean_step True) st xs = rev xs @ st"
  by (induction xs arbitrary: st) (auto simp: proper_element_def)

lemma clean_clean: "path_clean (path_clean (CHR ''/'' # s)) = path_clean (CHR ''/'' # s)"
proof -
  define es where "es = rev (foldl (clean_step True) [] (split_on (CHR ''/'') (CHR ''/'' # s)))"
  have p: "\<forall>x\<in>set es. proper_element x" unfolding es_def set_rev by (rule clean_steps) (use split_on_elements in auto)
  have c: "path_clean (CHR ''/'' # s) = CHR ''/'' # join_with (CHR ''/'') es" by (simp add: path_clean_def es_def Let_def)
  have "split_on (CHR ''/'') (join_with (CHR ''/'') es) = (if es = [] then [''''] else es)"
    using path_split_join [of es "CHR ''/''"] p by (auto simp: proper_element_def)
  then have "foldl (clean_step True) [] (split_on (CHR ''/'') (CHR ''/'' # join_with (CHR ''/'') es)) = rev es"
    using clean_proper [OF p, of "[]"] by auto
  then show ?thesis unfolding c by (simp add: path_clean_def Let_def)
qed

lemma Abs_Abs: "Abs W p = Some q \<Longrightarrow> Abs W q = Some q"
proof -
  assume a: "Abs W p = Some q"
  have "\<exists>s. q = path_clean (CHR ''/'' # s)"
  proof (cases "has_prefix p ''/''")
    case True
    then obtain s where "p = CHR ''/'' # s" by (auto simp: has_prefix_iff)
    then show ?thesis using a True by (auto simp: Abs_def)
  qed (use a in \<open>auto simp: Abs_def\<close>)
  then obtain s where q: "q = path_clean (CHR ''/'' # s)" by blast
  then have "has_prefix q ''/''" by (simp add: path_clean_def Let_def has_prefix_def)
  then show ?thesis using clean_clean [of s] by (simp add: Abs_def q)
qed

inductive reachable :: "bool \<Rightarrow> manager \<Rightarrow> bool" for isk8s where
  created: "NewManager isk8s W certFile keyFile (replicate n WithDisableAutoReload) = Some (Inr m) \<Longrightarrow> reachable isk8s m"
| added: "reachable isk8s m \<Longrightarrow> AddCertificate isk8s W m certFile keyFile = Some (e, m') \<Longrightarrow> reachable isk8s m'"
| updated: "reachable isk8s m \<Longrightarrow> reachable isk8s (UpdateReloadDuration m t)"
| asked: "reachable isk8s m \<Longrightarrow> reachable isk8s (ReloadCerts m)"
| woken: "reachable isk8s m \<Longrightarrow> watch_step W i e m = Some m' \<Longrightarrow> reachable isk8s m'"

definition files :: "manager \<Rightarrow> pair set" where
  "files m = fst ` set (certificates m)"

lemma files_update [simp]: "files (m\<lparr>certificates := AList.update p c (certificates m)\<rparr>) = insert p (files m)"
  by (simp add: files_def dom_update)

lemma files_reloader [simp]: "files (reloader m p ev) = files m" "defaultCert (reloader m p ev) = defaultCert m"
  by (simp_all add: files_def reloader_def)

definition manager_ok :: "manager \<Rightarrow> bool" where
  "manager_ok m \<longleftrightarrow> distinct (map fst (certificates m)) \<and>
     (\<forall>w\<in>set (watchers m). watch w \<in> files m) \<and> (\<forall>(p, c)\<in>set (certificates m). Leaf c \<noteq> None)"

definition has_default :: "manager \<Rightarrow> bool" where
  "has_default m \<longleftrightarrow> defaultCert m \<in> files m"

lemma load_certificate_leaf: "load_certificate W cf kf = Some (Inr c) \<Longrightarrow> Leaf c \<noteq> None"
  by (auto simp: load_certificate_def with_leaf_def split: option.splits if_splits)

lemma update_entries: "(q, d) \<in> set (AList.update p c al) \<Longrightarrow> (q, d) = (p, c) \<or> (q, d) \<in> set al"
  by (induction al) (auto split: if_splits)

lemma update_ok:
  assumes "manager_ok m" "Leaf c \<noteq> None"
  shows "manager_ok (m\<lparr>certificates := AList.update p c (certificates m)\<rparr>)"
  using assms update_entries [of _ _ p c "certificates m"]
  by (fastforce simp: manager_ok_def distinct_update files_def dom_update)

lemma reloader_ok: "manager_ok m \<Longrightarrow> p \<in> files m \<Longrightarrow> manager_ok (reloader m p ev)"
  by (auto simp: manager_ok_def reloader_def files_def)

lemma store_certificate_ok:
  assumes "store_certificate isk8s W m p links c = (e, m')" "manager_ok m" "Leaf c \<noteq> None"
  shows "manager_ok m'" "defaultCert m' = defaultCert m" "files m \<subseteq> files m'"
    "e = None \<Longrightarrow> p \<in> files m'"
proof -
  let ?m = "m\<lparr>certificates := AList.update p c (certificates m)\<rparr>"
  have u: "manager_ok ?m" by (rule update_ok [OF assms(2,3)])
  have r: "manager_ok (reloader ?m p ev)" for ev using reloader_ok [OF u] by simp
  have "e = Some IPSansNotAllowed \<and> m' = m \<or> e = Some WatchFailure \<and> m' = ?m \<or> e = None \<and> (m' = ?m \<or> (\<exists>ev. m' = reloader ?m p ev))"
    using assms(1) by (auto simp: store_certificate_def Let_def split: if_splits)
  then show "manager_ok m'" "defaultCert m' = defaultCert m" "files m \<subseteq> files m'"
    "e = None \<Longrightarrow> p \<in> files m'"
    using assms(2) u r by auto
qed

lemma AddCertificate_ok:
  assumes "AddCertificate isk8s W m certFile keyFile = Some (e, m')" "manager_ok m"
  shows "manager_ok m'" "defaultCert m' = defaultCert m" "files m \<subseteq> files m'"
    "e = None \<Longrightarrow> \<exists>cf kf. Abs W certFile = Some cf \<and> Abs W keyFile = Some kf \<and> Pair kf cf \<in> files m'"
proof -
  have "m' = m \<and> e \<noteq> None \<or> (\<exists>cf kf links c. Abs W certFile = Some cf \<and> Abs W keyFile = Some kf \<and>
      load_certificate W cf kf = Some (Inr c) \<and> store_certificate isk8s W m (Pair kf cf) links c = (e, m'))"
    using assms(1) by (auto simp: AddCertificate_def split: option.splits if_splits sum.splits)
  then consider "m' = m" "e \<noteq> None" | cf kf links c where "Abs W certFile = Some cf" "Abs W keyFile = Some kf"
    "load_certificate W cf kf = Some (Inr c)" "store_certificate isk8s W m (Pair kf cf) links c = (e, m')" by blast
  then have "manager_ok m' \<and> defaultCert m' = defaultCert m \<and> files m \<subseteq> files m' \<and>
    (e = None \<longrightarrow> (\<exists>cf kf. Abs W certFile = Some cf \<and> Abs W keyFile = Some kf \<and> Pair kf cf \<in> files m'))"
  proof cases
    case 2
    note s = store_certificate_ok [OF 2(4) assms(2) load_certificate_leaf [OF 2(3)]]
    then show ?thesis using 2(1,2) by blast
  qed (use assms(2) in auto)
  then show "manager_ok m'" "defaultCert m' = defaultCert m" "files m \<subseteq> files m'"
    "e = None \<Longrightarrow> \<exists>cf kf. Abs W certFile = Some cf \<and> Abs W keyFile = Some kf \<and> Pair kf cf \<in> files m'" by blast+
qed

lemma reload_watched_ok:
  assumes "reload_watched W p m = Some m'" "manager_ok m" "p \<in> files m"
  shows "manager_ok m'" "defaultCert m' = defaultCert m" "files m' = files m"
proof -
  have "m' = m \<or> (\<exists>c. load_certificate W (CertFile p) (KeyFile p) = Some (Inr c) \<and> m' = m\<lparr>certificates := AList.update p c (certificates m)\<rparr>)"
    using assms(1) by (auto simp: reload_watched_def split: option.splits sum.splits)
  then have "manager_ok m' \<and> defaultCert m' = defaultCert m \<and> files m' = files m"
    using assms(2,3) update_ok load_certificate_leaf by (auto simp: insert_absorb)
  then show "manager_ok m'" "defaultCert m' = defaultCert m" "files m' = files m" by blast+
qed


lemma watch_step_ok:
  assumes "watch_step W i e m = Some m'" "manager_ok m"
  shows "manager_ok m' \<and> defaultCert m' = defaultCert m \<and> files m' = files m"
proof (cases "i < length (watchers m) \<and> m' \<noteq> m")
  case True
  define w where "w = watchers m ! i"
  define m1 where "m1 = m\<lparr>watchers := (watchers m)[i := w\<lparr>reload_pending := False\<rparr>]\<rparr>"
  have w: "w \<in> set (watchers m)" "watch w \<in> files m" using True assms(2) by (auto simp: w_def manager_ok_def)
  have m1: "manager_ok m1" "defaultCert m1 = defaultCert m" "files m1 = files m"
    using assms(2) w set_update_subset_insert [of "watchers m" i "w\<lparr>reload_pending := False\<rparr>"]
    by (auto simp: manager_ok_def m1_def files_def)
  have "reload_watched W (watch w) m1 = Some m' \<or> reload_watched W (watch w) m = Some m'"
    using assms(1) True by (auto simp: watch_step_def Let_def w_def m1_def split: if_splits wake.splits)
  then show ?thesis
    using reload_watched_ok [OF _ assms(2) w(2)] reload_watched_ok [OF _ m1(1)] m1(2,3) w(2) by metis
next
  case False
  then show ?thesis using assms by (auto simp: watch_step_def)
qed

lemma options: "foldl (\<lambda>m opt. opt m) m (replicate n WithDisableAutoReload) = m \<or>
  foldl (\<lambda>m opt. opt m) m (replicate n WithDisableAutoReload) = m\<lparr>disableAutoReload := True\<rparr>"
proof (induction n arbitrary: m)
  case (Suc n)
  show ?case using Suc.IH [of "m\<lparr>disableAutoReload := True\<rparr>"] by (simp add: WithDisableAutoReload_def)
qed simp

lemma reachable_ok: "reachable isk8s m \<Longrightarrow> manager_ok m \<and> defaultCert m \<in> files m"
proof (induction rule: reachable.induct)
  case (created W certFile keyFile n m)
  obtain cf kf where a: "Abs W certFile = Some cf" "Abs W keyFile = Some kf"
    using created by (auto simp: NewManager_def split: option.splits)
  define m0 where "m0 = foldl (\<lambda>m opt. opt m) \<lparr>certificates = [], defaultCert = Pair kf cf, duration = 60 * 10 ^ 9,
    disableAutoReload = False, watchers = []\<rparr> (replicate n WithDisableAutoReload)"
  have m0: "manager_ok m0" "defaultCert m0 = Pair kf cf"
    using options [of "\<lparr>certificates = [], defaultCert = Pair kf cf, duration = 60 * 10 ^ 9, disableAutoReload = False, watchers = []\<rparr>" n]
    by (auto simp: m0_def manager_ok_def)
  have s: "AddCertificate isk8s W m0 cf kf = Some (None, m)"
    using created a unfolding NewManager_def a prod.case option.case Let_def m0_def [symmetric]
    by (auto split: option.splits prod.splits)
  obtain cf' kf' where "Abs W cf = Some cf'" "Abs W kf = Some kf'" "Pair kf' cf' \<in> files m"
    using AddCertificate_ok(4) [OF s m0(1)] by auto
  moreover have "cf' = cf" "kf' = kf" using a calculation Abs_Abs by fastforce+
  ultimately show ?case using AddCertificate_ok(1,2) [OF s m0(1)] m0(2) by simp
next
  case (added m W certFile keyFile e m')
  then show ?case using AddCertificate_ok [of isk8s W m certFile keyFile e m'] by auto
next
  case (updated m t)
  then show ?case by (simp add: manager_ok_def UpdateReloadDuration_def files_def)
next
  case (asked m)
  then show ?case by (auto simp: manager_ok_def ReloadCerts_def files_def)
next
  case (woken m W i e m')
  then show ?case using watch_step_ok by metis
qed

text \<open>C37: Whatever was added, reloaded or failed to, in any order, a manager always serves a certificate: without a server
  name the default one; with one, whatever the order of iteration, one the client accepts, and the default one when it
  accepts none (the only one, if there is just one).\<close>

theorem GetCertificate_serves:
  assumes "reachable isk8s m" "mset order = mset (certificates m)"
  shows "\<exists>p c. Manager_GetCertificate order m serverName supports = Inr (Some c) \<and> map_of (certificates m) p = Some c \<and>
     (serverName = '''' \<longrightarrow> p = defaultCert m) \<and>
     (serverName \<noteq> '''' \<and> length order \<noteq> 1 \<and> \<not> supports c \<longrightarrow>
        p = defaultCert m \<and> (\<forall>(q, d)\<in>set (certificates m). \<not> supports d))"
proof -
  have ok: "distinct (map fst (certificates m))" "defaultCert m \<in> fst ` set (certificates m)"
    using reachable_ok [OF assms(1)] by (auto simp: manager_ok_def files_def)
  then obtain d where d: "map_of (certificates m) (defaultCert m) = Some d" by (metis map_of_eq_None_iff not_None_eq)
  have set: "set order = set (certificates m)" using assms(2) by (metis set_mset_mset)
  have here: "map_of (certificates m) p = Some c" if "(p, c) \<in> set order" for p c using that ok(1) set by simp
  consider "serverName = ''''" | "serverName \<noteq> ''''" "length order = 1"
    | "serverName \<noteq> ''''" "length order \<noteq> 1" by blast
  then show ?thesis
  proof cases
    case 2
    then obtain p c where "order = [(p, c)]" by (cases order) auto
    then show ?thesis using 2 here [of p c] by (intro exI [of _ p] exI [of _ c]) (simp add: Manager_GetCertificate_def)
  next
    case 3
    show ?thesis
    proof (cases "find (\<lambda>(p, c). supports c) order")
      case None
      then have "\<forall>(q, d)\<in>set (certificates m). \<not> supports d" using set by (auto simp: find_None_iff)
      then show ?thesis using 3 None d by (intro exI [of _ "defaultCert m"] exI [of _ d]) (simp add: Manager_GetCertificate_def)
    next
      case (Some e)
      obtain p c where e: "e = (p, c)" by (cases e)
      have "(p, c) \<in> set order" "supports c" using Some e by (auto simp: find_Some_iff) (metis nth_mem)
      then show ?thesis using 3 Some e here by (intro exI [of _ p] exI [of _ c]) (simp add: Manager_GetCertificate_def)
    qed
  qed (use d in \<open>auto simp: Manager_GetCertificate_def\<close>)
qed

definition example_files :: "string list \<Rightarrow> cert_world" where
  "example_files ips = \<lparr>Getwd = None, Lstat = (\<lambda>p. Some False), LoadX509KeyPair = (\<lambda>c k. Some \<lparr>Chain = [c], Leaf = None\<rparr>),
     ParseCertificate = (\<lambda>der. Some \<lparr>Raw = der, IPAddresses = ips\<rparr>), Watch = (\<lambda>d. True)\<rparr>"

definition example_pair :: pair where
  "example_pair = Pair ''/a.key'' ''/a.crt''"

definition example_certificate :: certificate where
  "example_certificate = \<lparr>Chain = [''/a.crt''], Leaf = Some \<lparr>Raw = ''/a.crt'', IPAddresses = [''::1'']\<rparr>\<rparr>"

definition example_manager :: manager where
  "example_manager = \<lparr>certificates = [(example_pair, example_certificate)], defaultCert = example_pair, duration = 60 * 10 ^ 9,
     disableAutoReload = False, watchers = [\<lparr>watch = example_pair, by_events = True, reload_pending = False\<rparr>]\<rparr>"

lemma example_created: "NewManager False (example_files [''::1'']) ''/a.crt'' ''//a.key'' (replicate 0 WithDisableAutoReload) = Some (Inr example_manager)"
  by code_simp

theorem GetCertificate_serves_witness:
  "Manager_GetCertificate [(example_pair, example_certificate)] example_manager '''' (\<lambda>c. False) = Inr (Some example_certificate)"
proof -
  have "reachable False example_manager" using example_created by (rule reachable.created)
  from GetCertificate_serves [OF this, of "[(example_pair, example_certificate)]" "''''" "\<lambda>c. False"]
  show ?thesis by (auto simp: example_manager_def)
qed

section \<open>Addresses in certificates\<close>

text \<open>Only the first certificate added may name addresses; the check also refuses the default certificate itself.\<close>

lemma addresses_refused:
  assumes "certificates m \<noteq> []" "Leaf c = Some l" "IPAddresses l \<noteq> []"
  shows "store_certificate isk8s W m p links c = (Some IPSansNotAllowed, m)"
  using assms by (simp add: store_certificate_def)

text \<open>A reload does not look at the addresses of the new certificate.\<close>

lemma reload_brings_addresses:
  assumes "load_certificate W (CertFile p) (KeyFile p) = Some (Inr c)"
  shows "\<exists>m'. reload_watched W p m = Some m' \<and> map_of (certificates m') p = Some c"
  using assms by (simp add: reload_watched_def update_conv)

text \<open>A certificate whose files cannot be watched is reported as an error and served all the same.\<close>

lemma failed_add_is_kept:
  assumes "\<not> Watch W (dir_of (CertFile p))" "certificates m = []" "\<not> disableAutoReload m"
  shows "\<exists>m'. store_certificate False W m p False c = (Some WatchFailure, m') \<and> map_of (certificates m') p = Some c"
  using assms by (simp add: store_certificate_def Let_def)

text \<open>
  A client certificate is served without looking at the request when there is just one, and is refused with an error,
  never replaced by the default one, when none fits.
\<close>

lemma client_certificate:
  "Manager_GetClientCertificate [(p, c)] supports = Inr c"
  "length order \<noteq> 1 \<Longrightarrow> (\<forall>(p, c)\<in>set order. \<not> supports c) \<Longrightarrow> Manager_GetClientCertificate order supports = Inl NoClientCertificate"
proof -
  show "Manager_GetClientCertificate [(p, c)] supports = Inr c" by (simp add: Manager_GetClientCertificate_def)
  assume "length order \<noteq> 1" "\<forall>(p, c)\<in>set order. \<not> supports c"
  moreover from this(2) have "find (\<lambda>(p, c). supports c) order = None" by (auto simp: find_None_iff)
  ultimately show "Manager_GetClientCertificate order supports = Inl NoClientCertificate"
    by (simp add: Manager_GetClientCertificate_def)
qed

end
