(* ===== verification/Certs2.thy ===== *)
theory Certs2
  imports Certs
begin

text \<open>
  The second certificate manager: \<open>certs/certificate2.go\<close>, \<open>certs/manager2.go\<close> and the cache of \<open>certs/global_certs.go\<close>.
  Certificates are numbered as they are made; the goroutines are steps between which everything else may happen.
\<close>

section \<open>Subscribers\<close>

text \<open>
  Both types keep a list of channels with room for one message. A channel is whether it is open and the message that
  waits in it; \<open>sub_next\<close> is the next channel made.
\<close>

record 'm subscribers =
  sub_list :: "nat list"
  sub_chan :: "nat \<Rightarrow> bool \<times> 'm option"
  sub_next :: nat

definition no_subscribers :: "'m subscribers" where
  "no_subscribers = \<lparr>sub_list = [], sub_chan = (\<lambda>ch. (True, None)), sub_next = 0\<rparr>"

definition subscribe :: "'m subscribers \<Rightarrow> 'm subscribers" where
  "subscribe s = s\<lparr>sub_list := sub_list s @ [sub_next s], sub_next := sub_next s + 1\<rparr>"

text \<open>Closing a closed channel and sending into one panic; a full channel is skipped.\<close>

definition close_chan :: "nat \<Rightarrow> 'm subscribers \<Rightarrow> 'm subscribers may_panic" where
  "close_chan ch s =
     (if fst (sub_chan s ch) then Some (s\<lparr>sub_chan := (sub_chan s)(ch := (False, snd (sub_chan s ch)))\<rparr>) else None)"

definition unsubscribe :: "nat \<Rightarrow> 'm subscribers \<Rightarrow> 'm subscribers may_panic" where
  "unsubscribe ch s = (if ch \<in> set (sub_list s) then close_chan ch (s\<lparr>sub_list := remove1 ch (sub_list s)\<rparr>) else Some s)"

definition try_send :: "nat \<Rightarrow> 'm \<Rightarrow> 'm subscribers \<Rightarrow> 'm subscribers may_panic" where
  "try_send ch x s =
     (case sub_chan s ch of
        (False, _) \<Rightarrow> None
      | (True, Some _) \<Rightarrow> Some s
      | (True, None) \<Rightarrow> Some (s\<lparr>sub_chan := (sub_chan s)(ch := (True, Some x))\<rparr>))"

fun close_all :: "nat list \<Rightarrow> 'm subscribers \<Rightarrow> 'm subscribers may_panic" where
  "close_all [] s = Some s"
| "close_all (ch # chs) s = (case close_chan ch s of None \<Rightarrow> None | Some s \<Rightarrow> close_all chs s)"

text \<open>The goroutine of a subscription takes the message out of its channel.\<close>

definition take_message :: "nat \<Rightarrow> 'm subscribers \<Rightarrow> 'm subscribers" where
  "take_message ch s = s\<lparr>sub_chan := (sub_chan s)(ch := (fst (sub_chan s ch), None))\<rparr>"

text \<open>Listed channels are different; before the list is closed they are open.\<close>

definition subs_ok :: "'m subscribers \<Rightarrow> bool" where
  "subs_ok s \<longleftrightarrow> distinct (sub_list s) \<and> (\<forall>ch\<in>set (sub_list s). ch < sub_next s) \<and> (\<forall>ch\<ge>sub_next s. fst (sub_chan s ch))"

definition subs_open :: "'m subscribers \<Rightarrow> bool" where
  "subs_open s \<longleftrightarrow> (\<forall>ch\<in>set (sub_list s). fst (sub_chan s ch))"

named_theorems subs_defs \<open>the operations on subscribers\<close>
declare subscribe_def [subs_defs] close_chan_def [subs_defs] unsubscribe_def [subs_defs] try_send_def [subs_defs]
  take_message_def [subs_defs] no_subscribers_def [subs_defs] subs_ok_def [subs_defs] subs_open_def [subs_defs]

lemma no_subscribers_ok [simp]: "subs_ok no_subscribers" "subs_open no_subscribers"
  by (auto simp: subs_defs)

lemma subscribe_ok [simp]: "subs_ok s \<Longrightarrow> subs_ok (subscribe s)" "subs_ok s \<Longrightarrow> subs_open s \<Longrightarrow> subs_open (subscribe s)"
  by (auto simp: subs_defs)

lemma take_message_ok [simp]: "subs_ok (take_message ch s) = subs_ok s" "subs_open (take_message ch s) = subs_open s"
  by (auto simp: subs_defs)

lemma try_send_ok:
  assumes "try_send ch x s = Some s'"
  shows "subs_ok s \<Longrightarrow> subs_ok s'" "subs_open s \<Longrightarrow> subs_open s'" "sub_list s' = sub_list s"
  using assms by (auto simp: subs_defs split: prod.splits bool.splits option.splits)

lemma unsubscribe_ok:
  assumes "unsubscribe ch s = Some s'" "subs_ok s"
  shows "subs_ok s'" "subs_open s \<Longrightarrow> subs_open s'"
  using assms by (auto simp: subs_defs split: if_splits)

lemma unsubscribe_returns: "subs_open s \<Longrightarrow> unsubscribe ch s \<noteq> None"
  by (auto simp: subs_defs)

lemma try_send_open: "fst (sub_chan s ch) \<Longrightarrow> try_send ch x s \<noteq> None"
  by (auto simp: subs_defs split: prod.splits bool.splits option.splits)

lemma close_all_frame:
  assumes "close_all chs s = Some s'"
  shows "sub_list s' = sub_list s" "sub_next s' = sub_next s" "fst (sub_chan s' ch) \<longleftrightarrow> fst (sub_chan s ch) \<and> ch \<notin> set chs"
  using assms
proof (induction chs arbitrary: s)
  case (Cons c chs)
  { case 1 then show ?case using Cons.IH(1) by (auto simp: close_chan_def split: if_splits option.splits) }
  { case 2 then show ?case using Cons.IH(2) by (auto simp: close_chan_def split: if_splits option.splits) }
  { case 3 then show ?case using Cons.IH(3) by (auto simp: close_chan_def split: if_splits option.splits) }
qed auto

lemma close_all_returns:
  assumes "distinct chs" "\<forall>ch\<in>set chs. fst (sub_chan s ch)"
  shows "close_all chs s \<noteq> None"
  using assms
proof (induction chs arbitrary: s)
  case (Cons ch chs)
  let ?s = "s\<lparr>sub_chan := (sub_chan s)(ch := (False, snd (sub_chan s ch)))\<rparr>"
  have "\<forall>c\<in>set chs. fst (sub_chan ?s c)" using Cons.prems by auto
  then show ?case using Cons.IH [of ?s] Cons.prems by (simp add: close_chan_def)
qed simp

lemma close_all_ok:
  assumes "close_all (sub_list s) s = Some s'" "subs_ok s"
  shows "subs_ok s'"
  using close_all_frame [OF assms(1)] assms(2) by (force simp: subs_ok_def)

section \<open>A certificate that reloads itself\<close>

text \<open>
  The key pair in use, the hashes of the two files, and the goroutine: the channels it still has to notify of the last
  reload.
\<close>

record 'k certificate2 =
  current :: 'k
  certHash :: nat
  keyHash :: nat
  c2_closed :: bool
  c2_subscribers :: "unit subscribers"
  to_notify :: "nat list"

text \<open>
  A turn of the loop, up to the copy of the list of subscribers. A file is unreadable or has a content; sha256 and
  X509KeyPair are parameters.
\<close>

definition c2_reload ::
  "(string \<Rightarrow> nat) \<Rightarrow> (string \<Rightarrow> string \<Rightarrow> 'k option) \<Rightarrow> string option \<Rightarrow> string option \<Rightarrow> 'k certificate2 \<Rightarrow> 'k certificate2" where
  "c2_reload sha256 X509KeyPair certFile keyFile c =
     (case certFile of
        None \<Rightarrow> c
      | Some certPEMBlock \<Rightarrow>
          (case keyFile of
             None \<Rightarrow> c
           | Some keyPEMBlock \<Rightarrow>
               (let newCertHash = sha256 certPEMBlock; newKeyHash = sha256 keyPEMBlock
                in if newCertHash = certHash c \<and> newKeyHash = keyHash c then c
                   else
                     (case X509KeyPair certPEMBlock keyPEMBlock of
                        None \<Rightarrow> c
                      | Some newCert \<Rightarrow>
                          c\<lparr>current := newCert, certHash := newCertHash, keyHash := newKeyHash,
                            to_notify := sub_list (c2_subscribers c)\<rparr>))))"

text \<open>One subscriber of the copied list is notified.\<close>

definition c2_notify :: "'k certificate2 \<Rightarrow> 'k certificate2 may_panic" where
  "c2_notify c =
     (case to_notify c of
        [] \<Rightarrow> Some c
      | ch # chs \<Rightarrow>
          (case try_send ch () (c2_subscribers c) of
             None \<Rightarrow> None
           | Some s \<Rightarrow> Some (c\<lparr>c2_subscribers := s, to_notify := chs\<rparr>)))"

text \<open>\<open>NewCertificate2\<close>: the flags say whether the two files can be watched.\<close>

definition NewCertificate2 ::
  "(string \<Rightarrow> nat) \<Rightarrow> (string \<Rightarrow> string \<Rightarrow> 'k option) \<Rightarrow> string option \<Rightarrow> string option \<Rightarrow> bool \<Rightarrow> bool \<Rightarrow> 'k certificate2 option" where
  "NewCertificate2 sha256 X509KeyPair certFile keyFile watch_cert watch_key =
     (case (certFile, keyFile) of
        (Some certPEMBlock, Some keyPEMBlock) \<Rightarrow>
          (case X509KeyPair certPEMBlock keyPEMBlock of
             None \<Rightarrow> None
           | Some cert \<Rightarrow>
               (if watch_cert \<and> watch_key then
                  Some \<lparr>current = cert, certHash = sha256 certPEMBlock, keyHash = sha256 keyPEMBlock, c2_closed = False,
                        c2_subscribers = no_subscribers, to_notify = []\<rparr>
                else None))
      | _ \<Rightarrow> None)"

definition c2_Subscribe :: "'k certificate2 \<Rightarrow> 'k certificate2" where
  "c2_Subscribe c = c\<lparr>c2_subscribers := subscribe (c2_subscribers c)\<rparr>"

text \<open>The function \<open>Subscribe\<close> returned for the channel.\<close>

definition c2_unsubscribe :: "nat \<Rightarrow> 'k certificate2 \<Rightarrow> 'k certificate2 may_panic" where
  "c2_unsubscribe ch c = map_option (\<lambda>s. c\<lparr>c2_subscribers := s\<rparr>) (unsubscribe ch (c2_subscribers c))"

definition c2_Close :: "'k certificate2 \<Rightarrow> 'k certificate2 may_panic" where
  "c2_Close c =
     (if c2_closed c then Some c
      else map_option (\<lambda>s. c\<lparr>c2_closed := True, c2_subscribers := s\<rparr>)
             (close_all (sub_list (c2_subscribers c)) ((c2_subscribers c)\<lparr>sub_list := []\<rparr>)))"

text \<open>What happens to a certificate; a new turn begins when all subscribers of the last are notified.\<close>

inductive c2_step :: "(string \<Rightarrow> nat) \<Rightarrow> (string \<Rightarrow> string \<Rightarrow> 'k option) \<Rightarrow> 'k certificate2 \<Rightarrow> 'k certificate2 \<Rightarrow> bool"
  for sha256 X509KeyPair where
  c2_reloads: "to_notify c = [] \<Longrightarrow> c2_step sha256 X509KeyPair c (c2_reload sha256 X509KeyPair cf kf c)"
| c2_notifies: "c2_notify c = Some c' \<Longrightarrow> c2_step sha256 X509KeyPair c c'"
| c2_subscribes: "c2_step sha256 X509KeyPair c (c2_Subscribe c)"
| c2_unsubscribes: "c2_unsubscribe ch c = Some c' \<Longrightarrow> c2_step sha256 X509KeyPair c c'"
| c2_takes: "c2_step sha256 X509KeyPair c (c\<lparr>c2_subscribers := take_message ch (c2_subscribers c)\<rparr>)"
| c2_closes: "c2_Close c = Some c' \<Longrightarrow> c2_step sha256 X509KeyPair c c'"

inductive c2_reachable :: "(string \<Rightarrow> nat) \<Rightarrow> (string \<Rightarrow> string \<Rightarrow> 'k option) \<Rightarrow> 'k certificate2 \<Rightarrow> bool"
  for sha256 X509KeyPair where
  c2_new: "NewCertificate2 sha256 X509KeyPair cf kf wc wk = Some c \<Longrightarrow> c2_reachable sha256 X509KeyPair c"
| c2_later: "c2_reachable sha256 X509KeyPair c \<Longrightarrow> c2_step sha256 X509KeyPair c c' \<Longrightarrow> c2_reachable sha256 X509KeyPair c'"

definition pair_valid :: "(string \<Rightarrow> nat) \<Rightarrow> (string \<Rightarrow> string \<Rightarrow> 'k option) \<Rightarrow> 'k \<Rightarrow> nat \<Rightarrow> nat \<Rightarrow> bool" where
  "pair_valid sha256 X509KeyPair k ch kh \<longleftrightarrow>
     (\<exists>cert key. X509KeyPair cert key = Some k \<and> ch = sha256 cert \<and> kh = sha256 key)"

definition c2_ok :: "(string \<Rightarrow> nat) \<Rightarrow> (string \<Rightarrow> string \<Rightarrow> 'k option) \<Rightarrow> 'k certificate2 \<Rightarrow> bool" where
  "c2_ok sha256 X509KeyPair c \<longleftrightarrow>
     pair_valid sha256 X509KeyPair (current c) (certHash c) (keyHash c) \<and>
     subs_ok (c2_subscribers c) \<and> subs_open (c2_subscribers c)"

lemma pair_validI: "X509KeyPair cert key = Some k \<Longrightarrow> pair_valid sha256 X509KeyPair k (sha256 cert) (sha256 key)"
  by (auto simp: pair_valid_def)

lemma c2_reload_ok: "c2_ok sha256 kp c \<Longrightarrow> c2_ok sha256 kp (c2_reload sha256 kp cf kf c)"
  by (auto simp: c2_reload_def c2_ok_def Let_def pair_validI split: option.splits)

lemma c2_Close_ok:
  assumes "c2_Close c = Some c'" "c2_ok sha256 kp c"
  shows "c2_ok sha256 kp c'"
proof (cases "c2_closed c")
  case False
  let ?s = "(c2_subscribers c)\<lparr>sub_list := []\<rparr>"
  obtain s where s: "close_all (sub_list (c2_subscribers c)) ?s = Some s" "c' = c\<lparr>c2_closed := True, c2_subscribers := s\<rparr>"
    using assms(1) False by (auto simp: c2_Close_def)
  have "\<forall>ch\<ge>sub_next s. fst (sub_chan s ch)"
    using close_all_frame [OF s(1)] assms(2) by (force simp: c2_ok_def subs_ok_def)
  then show ?thesis using close_all_frame(1) [OF s(1)] assms(2) by (simp add: s(2) c2_ok_def subs_ok_def subs_open_def)
qed (use assms in \<open>simp add: c2_Close_def\<close>)

lemma c2_step_ok: "c2_step sha256 kp c c' \<Longrightarrow> c2_ok sha256 kp c \<Longrightarrow> c2_ok sha256 kp c'"
proof (induction rule: c2_step.induct)
  case (c2_notifies c c')
  then show ?case by (auto simp: c2_notify_def c2_ok_def dest: try_send_ok(1,2) split: list.splits option.splits)
next
  case (c2_unsubscribes ch c c')
  then show ?case by (auto simp: c2_unsubscribe_def c2_ok_def dest: unsubscribe_ok)
next
  case (c2_closes c c')
  then show ?case by (rule c2_Close_ok)
next
  case (c2_reloads c cf kf)
  then show ?case by (intro c2_reload_ok)
qed (auto simp: c2_Subscribe_def c2_ok_def)

text \<open>
  Whatever the files hold meanwhile, the pair in use is one X509KeyPair accepted, for contents with the hashes kept, and
  neither unsubscribing nor closing panics.
\<close>

lemma certificate2_always_valid:
  assumes "c2_reachable sha256 kp c"
  shows "\<exists>cert key. kp cert key = Some (current c) \<and> certHash c = sha256 cert \<and> keyHash c = sha256 key"
    "c2_unsubscribe ch c \<noteq> None" "c2_Close c \<noteq> None"
proof -
  have ok: "c2_ok sha256 kp c" using assms
  proof (induction rule: c2_reachable.induct)
    case (c2_new cf kf wc wk c)
    then show ?case by (auto simp: NewCertificate2_def c2_ok_def pair_validI split: option.splits if_splits)
  qed (rule c2_step_ok)
  then show "\<exists>cert key. kp cert key = Some (current c) \<and> certHash c = sha256 cert \<and> keyHash c = sha256 key"
    "c2_unsubscribe ch c \<noteq> None"
    using unsubscribe_returns [of "c2_subscribers c" ch] by (auto simp: c2_ok_def c2_unsubscribe_def pair_valid_def)
  show "c2_Close c \<noteq> None"
    using ok close_all_returns [of "sub_list (c2_subscribers c)" "(c2_subscribers c)\<lparr>sub_list := []\<rparr>"]
    by (auto simp: c2_Close_def c2_ok_def subs_ok_def subs_open_def)
qed

text \<open>The goroutine, however, may send into a channel that was closed after the list was copied, and panics.\<close>

lemma unsubscribed_while_notifying:
  assumes "to_notify c = ch # chs" "ch \<in> set (sub_list (c2_subscribers c))" "c2_unsubscribe ch c = Some c'"
  shows "c2_notify c' = None"
  using assms by (auto simp: c2_unsubscribe_def c2_notify_def subs_defs split: if_splits)

lemma c2_reload_notifies:
  assumes "current (c2_reload sha256 kp cf kf c) \<noteq> current c"
  shows "to_notify (c2_reload sha256 kp cf kf c) = sub_list (c2_subscribers c)"
  using assms by (auto simp: c2_reload_def Let_def split: option.splits)

section \<open>The cache of certificates\<close>

text \<open>\<open>globalCertificate\<close>: the argument new makes a certificate for absolute paths.\<close>

definition globalCertificate ::
  "cert_world \<Rightarrow> (string \<Rightarrow> string \<Rightarrow> 'c option) \<Rightarrow> string \<Rightarrow> string \<Rightarrow> ((string \<times> string) \<times> 'c) list \<Rightarrow>
     'c option \<times> ((string \<times> string) \<times> 'c) list" where
  "globalCertificate W new certFile keyFile globalCerts =
     (case Abs W certFile of
        None \<Rightarrow> (None, globalCerts)
      | Some certFile \<Rightarrow>
          (case Abs W keyFile of
             None \<Rightarrow> (None, globalCerts)
           | Some keyFile \<Rightarrow>
               (case map_of globalCerts (certFile, keyFile) of
                  Some c \<Rightarrow> (Some c, globalCerts)
                | None \<Rightarrow>
                    (case new certFile keyFile of
                       None \<Rightarrow> (None, globalCerts)
                     | Some c \<Rightarrow> (Some c, AList.update (certFile, keyFile) c globalCerts)))))"

text \<open>A certificate once loaded is returned for ever, by every spelling of its paths.\<close>

lemma cached_certificate_stays:
  assumes "globalCertificate W new cf kf g = (Some c, g')" "Abs W cf = Some a" "Abs W kf = Some b"
    "Abs W' cf' = Some a" "Abs W' kf' = Some b"
  shows "globalCertificate W' new' cf' kf' g' = (Some c, g')"
  using assms by (auto simp: globalCertificate_def update_conv' split: option.splits)

section \<open>The manager\<close>

text \<open>
  The goroutine of the manager waits in its select, or passes a message on to the subscribers it has copied, or is inside
  \<open>replaceCerts\<close> where it sends nil into its own channel (the flag says whether it ends after that), or has ended, or
  has panicked.
\<close>

datatype mgr_status = Waiting | Forwarding "nat option" "nat list" | SendingNil bool | Ended | Panicked

text \<open>
  The channel \<open>certUpdateCh\<close> holds at most one message: nothing, nil or a certificate. The history of loaded lists and
  the certificates closed are kept to state what the manager does.
\<close>

record manager2 =
  m2_closed :: bool
  m2_certs :: "nat list"
  certUpdateCh :: "nat option option"
  signalCh :: bool
  m2_subscribers :: "nat option subscribers"
  status :: mgr_status
  closed_certs :: "nat list"
  loads :: "nat list list"

definition NewManager2 :: "nat list option \<Rightarrow> manager2 option" where
  "NewManager2 loaded =
     (case loaded of
        None \<Rightarrow> None
      | Some certs \<Rightarrow>
          Some \<lparr>m2_closed = False, m2_certs = certs, certUpdateCh = None, signalCh = False, m2_subscribers = no_subscribers,
                status = Waiting, closed_certs = [], loads = [certs]\<rparr>)"

text \<open>\<open>replaceCerts\<close> up to its last line.\<close>

definition replaceCerts :: "bool \<Rightarrow> nat list \<Rightarrow> manager2 \<Rightarrow> manager2" where
  "replaceCerts final newCerts m =
     m\<lparr>m2_certs := newCerts, closed_certs := closed_certs m @ m2_certs m, loads := loads m @ [newCerts], status := SendingNil final\<rparr>"

definition Manager2_Close :: "manager2 \<Rightarrow> manager2" where
  "Manager2_Close m = m\<lparr>m2_closed := True\<rparr>"

definition Manager2_Subscribe :: "manager2 \<Rightarrow> manager2" where
  "Manager2_Subscribe m = m\<lparr>m2_subscribers := subscribe (m2_subscribers m)\<rparr>"

text \<open>The function \<open>Subscribe\<close> returned for the channel.\<close>

definition Manager2_unsubscribe :: "nat \<Rightarrow> manager2 \<Rightarrow> manager2 may_panic" where
  "Manager2_unsubscribe ch m = map_option (\<lambda>s. m\<lparr>m2_subscribers := s\<rparr>) (unsubscribe ch (m2_subscribers m))"

text \<open>One subscriber of the copied list gets the message.\<close>

definition forward_one :: "nat option \<Rightarrow> nat \<Rightarrow> nat list \<Rightarrow> manager2 \<Rightarrow> manager2" where
  "forward_one cert ch chs m =
     (case try_send ch cert (m2_subscribers m) of
        None \<Rightarrow> m\<lparr>status := Panicked\<rparr>
      | Some s \<Rightarrow> m\<lparr>m2_subscribers := s, status := Forwarding cert chs\<rparr>)"

text \<open>The nil is sent; at the end the deferred function closes the channels of the subscribers, which stay listed.\<close>

definition after_nil :: "bool \<Rightarrow> manager2 \<Rightarrow> manager2" where
  "after_nil final m =
     (if final then
        (case close_all (sub_list (m2_subscribers m)) (m2_subscribers m) of
           None \<Rightarrow> m\<lparr>certUpdateCh := Some None, status := Panicked\<rparr>
         | Some s \<Rightarrow> m\<lparr>certUpdateCh := Some None, status := Ended, m2_subscribers := s\<rparr>)
      else m\<lparr>certUpdateCh := Some None, status := Waiting\<rparr>)"

text \<open>A turn of the goroutine; where several cases of the select are ready, any of them is taken.\<close>

inductive mgr_turn :: "manager2 \<Rightarrow> manager2 \<Rightarrow> bool" where
  close: "status m = Waiting \<Longrightarrow> m2_closed m \<Longrightarrow> mgr_turn m (replaceCerts True [] m)"
| update: "status m = Waiting \<Longrightarrow> certUpdateCh m = Some cert \<Longrightarrow>
    mgr_turn m (m\<lparr>certUpdateCh := None, status := Forwarding cert (sub_list (m2_subscribers m))\<rparr>)"
| forward: "status m = Forwarding cert (ch # chs) \<Longrightarrow> mgr_turn m (forward_one cert ch chs m)"
| forwarded: "status m = Forwarding cert [] \<Longrightarrow> mgr_turn m (m\<lparr>status := Waiting\<rparr>)"
| reload: "status m = Waiting \<Longrightarrow> signalCh m \<Longrightarrow> mgr_turn m (replaceCerts False newCerts (m\<lparr>signalCh := False\<rparr>))"
| reload_failed: "status m = Waiting \<Longrightarrow> signalCh m \<Longrightarrow> mgr_turn m (m\<lparr>signalCh := False\<rparr>)"
| sent: "status m = SendingNil final \<Longrightarrow> certUpdateCh m = None \<Longrightarrow> mgr_turn m (after_nil final m)"

text \<open>What happens around it: a certificate announces itself, a signal comes, subscribers come, go and read, the manager is closed.\<close>

inductive around :: "manager2 \<Rightarrow> manager2 \<Rightarrow> bool" where
  announce: "certUpdateCh m = None \<Longrightarrow> around m (m\<lparr>certUpdateCh := Some (Some cert)\<rparr>)"
| signal: "around m (m\<lparr>signalCh := True\<rparr>)"
| joins: "around m (Manager2_Subscribe m)"
| leaves: "Manager2_unsubscribe ch m = Some m' \<Longrightarrow> around m m'"
| read: "around m (m\<lparr>m2_subscribers := take_message ch (m2_subscribers m)\<rparr>)"
| shut: "around m (Manager2_Close m)"

definition mgr_step :: "manager2 \<Rightarrow> manager2 \<Rightarrow> bool" where
  "mgr_step m m' \<longleftrightarrow> mgr_turn m m' \<or> around m m'"

section \<open>Choosing a certificate\<close>

datatype choice_error = NilHello | NoServerCertificate2 | NoClientCertificate2

definition Manager2_GetCertificate :: "manager2 option \<Rightarrow> (nat \<Rightarrow> 'k) \<Rightarrow> (string \<times> ('k \<Rightarrow> bool)) option \<Rightarrow> choice_error + 'k" where
  "Manager2_GetCertificate receiver pair_of hello =
     (case receiver of
        None \<Rightarrow> Inl NoServerCertificate2
      | Some m \<Rightarrow>
          (case hello of
             None \<Rightarrow> Inl NilHello
           | Some (serverName, supports) \<Rightarrow>
               (let certs = m2_certs m
                in if length certs = 0 then Inl NoServerCertificate2
                   else if length certs = 1 then Inr (pair_of (certs ! 0))
                   else if serverName = '''' then Inr (pair_of (certs ! 0))
                   else
                     (case find (\<lambda>c. supports (pair_of c)) certs of
                        Some c \<Rightarrow> Inr (pair_of c)
                      | None \<Rightarrow> Inr (pair_of (certs ! 0))))))"

definition Manager2_GetClientCertificate :: "manager2 option \<Rightarrow> (nat \<Rightarrow> 'k) \<Rightarrow> ('k \<Rightarrow> bool) option \<Rightarrow> choice_error + 'k" where
  "Manager2_GetClientCertificate receiver pair_of reqInfo =
     (case receiver of
        None \<Rightarrow> Inl NoClientCertificate2
      | Some m \<Rightarrow>
          (case reqInfo of
             None \<Rightarrow> Inl NilHello
           | Some supports \<Rightarrow>
               (case find (\<lambda>c. supports (pair_of c)) (m2_certs m) of
                  Some c \<Rightarrow> Inr (pair_of c)
                | None \<Rightarrow> Inl NoClientCertificate2)))"

definition Manager2_HasCerts :: "manager2 option \<Rightarrow> bool" where
  "Manager2_HasCerts receiver = (case receiver of None \<Rightarrow> False | Some m \<Rightarrow> length (m2_certs m) > 0)"

section \<open>What is served, what is closed\<close>

inductive m2_reachable :: "manager2 \<Rightarrow> bool" where
  new: "NewManager2 loaded = Some m \<Longrightarrow> m2_reachable m"
| step: "m2_reachable m \<Longrightarrow> mgr_step m m' \<Longrightarrow> m2_reachable m'"

inductive_cases mgr_turnE: "mgr_turn m m'"
inductive_cases aroundE: "around m m'"

lemma around_frame:
  assumes "around m m'"
  shows "m2_certs m' = m2_certs m" "closed_certs m' = closed_certs m" "loads m' = loads m" "status m' = status m"
    "m2_closed m \<Longrightarrow> m2_closed m'" "certUpdateCh m \<noteq> None \<Longrightarrow> certUpdateCh m' = certUpdateCh m"
  using assms by (auto elim!: aroundE simp: Manager2_Subscribe_def Manager2_unsubscribe_def Manager2_Close_def)

lemma around_subs:
  assumes "around m m'" "subs_ok (m2_subscribers m)"
  shows "subs_ok (m2_subscribers m')" "subs_open (m2_subscribers m) \<Longrightarrow> subs_open (m2_subscribers m')"
  using assms unsubscribe_ok
  by (auto elim!: aroundE simp: Manager2_Subscribe_def Manager2_unsubscribe_def Manager2_Close_def)

definition certs_ok :: "manager2 \<Rightarrow> bool" where
  "certs_ok m \<longleftrightarrow> loads m \<noteq> [] \<and> m2_certs m = last (loads m) \<and> closed_certs m = concat (butlast (loads m)) \<and>
     (status m \<in> {SendingNil True, Ended} \<longrightarrow> m2_closed m \<and> m2_certs m = [])"

definition m2_ok :: "manager2 \<Rightarrow> bool" where
  "m2_ok m \<longleftrightarrow> certs_ok m \<and> subs_ok (m2_subscribers m) \<and> (status m \<noteq> Ended \<longrightarrow> subs_open (m2_subscribers m))"

lemma replaceCerts_ok:
  "m2_ok m \<Longrightarrow> status m = Waiting \<Longrightarrow> (final \<longrightarrow> m2_closed m \<and> newCerts = []) \<Longrightarrow> m2_ok (replaceCerts final newCerts m)"
  by (auto simp: m2_ok_def certs_ok_def replaceCerts_def) (metis append_butlast_last_id concat_append concat.simps append_Nil2)+

lemma after_nil_ok: "m2_ok m \<Longrightarrow> status m = SendingNil final \<Longrightarrow> m2_ok (after_nil final m)"
  using close_all_ok [of "m2_subscribers m"]
  by (auto simp: m2_ok_def certs_ok_def after_nil_def split: option.splits)

lemma forward_one_ok: "m2_ok m \<Longrightarrow> status m = Forwarding cert (ch # chs) \<Longrightarrow> m2_ok (forward_one cert ch chs m)"
  by (auto simp: m2_ok_def certs_ok_def forward_one_def dest: try_send_ok(1,2) split: option.splits)

lemma mgr_turn_ok: "mgr_turn m m' \<Longrightarrow> m2_ok m \<Longrightarrow> m2_ok m'"
proof (induction rule: mgr_turn.induct)
  case (reload m newCerts)
  then show ?case by (intro replaceCerts_ok) (auto simp: m2_ok_def certs_ok_def)
next
  case (close m)
  then show ?case by (intro replaceCerts_ok) simp_all
qed (auto simp: after_nil_ok forward_one_ok, auto simp: m2_ok_def certs_ok_def)

lemma around_ok: "around m m' \<Longrightarrow> m2_ok m \<Longrightarrow> m2_ok m'"
  using around_frame [of m m'] around_subs [of m m'] by (auto simp: m2_ok_def certs_ok_def)

lemma m2_reachable_ok: "m2_reachable m \<Longrightarrow> m2_ok m"
proof (induction rule: m2_reachable.induct)
  case (new loaded m)
  then show ?case by (auto simp: NewManager2_def m2_ok_def certs_ok_def split: option.splits)
next
  case (step m m')
  then show ?case using mgr_turn_ok around_ok by (auto simp: mgr_step_def)
qed

text \<open>
  At any time the certificates served are those of the last load, the certificates closed are exactly those of the loads
  before it, and an ended manager serves none.
\<close>

lemma manager2_serves_last_load:
  assumes "m2_reachable m"
  shows "m2_certs m = last (loads m)" "closed_certs m = concat (butlast (loads m))"
    "status m = Ended \<Longrightarrow> Manager2_GetCertificate (Some m) pair_of (Some hello) = Inl NoServerCertificate2"
  using m2_reachable_ok [OF assms] by (auto simp: m2_ok_def certs_ok_def Manager2_GetCertificate_def split: prod.splits)

text \<open>
  Until the goroutine has ended, unsubscribing is safe. After that it panics for everybody who subscribed before, since
  the closed channels stay listed.
\<close>

lemma unsubscribing_before_end: "m2_reachable m \<Longrightarrow> status m \<noteq> Ended \<Longrightarrow> Manager2_unsubscribe ch m \<noteq> None"
  using m2_reachable_ok [of m] unsubscribe_returns [of "m2_subscribers m" ch]
  by (auto simp: m2_ok_def Manager2_unsubscribe_def)

lemma unsubscribing_at_end:
  assumes "mgr_turn m m'" "status m' = Ended" "ch \<in> set (sub_list (m2_subscribers m))"
  shows "Manager2_unsubscribe ch m' = None"
proof -
  obtain s where s: "close_all (sub_list (m2_subscribers m)) (m2_subscribers m) = Some s" "m2_subscribers m' = s"
    using assms(1,2)
    by (auto elim!: mgr_turnE simp: after_nil_def replaceCerts_def forward_one_def split: if_splits option.splits)
  show ?thesis using close_all_frame [OF s(1)] assms(3)
    by (auto simp: Manager2_unsubscribe_def unsubscribe_def close_chan_def s(2))
qed

text \<open>
  The deferred function never panics; the goroutine does exactly when it passes a message on to a subscriber that left
  after the list was copied.
\<close>

lemma goroutine_panics_iff:
  assumes "m2_reachable m" "mgr_turn m m'" "status m \<noteq> Panicked"
  shows "status m' = Panicked \<longleftrightarrow>
    (\<exists>cert ch chs. status m = Forwarding cert (ch # chs) \<and> \<not> fst (sub_chan (m2_subscribers m) ch))"
proof -
  have ok: "m2_ok m" by (rule m2_reachable_ok [OF assms(1)])
  show ?thesis using assms(2,3) ok
  proof (induction rule: mgr_turn.induct)
    case (forward m cert ch chs)
    then show ?case by (auto simp: forward_one_def try_send_def split: prod.splits option.splits bool.splits)
  next
    case (sent m final)
    have "close_all (sub_list (m2_subscribers m)) (m2_subscribers m) \<noteq> None"
      by (rule close_all_returns) (use sent in \<open>auto simp: m2_ok_def subs_ok_def subs_open_def\<close>)
    then show ?case using sent by (auto simp: after_nil_def)
  qed (auto simp: replaceCerts_def)
qed

lemma left_while_forwarding:
  assumes "status m = Forwarding cert (ch # chs)" "ch \<in> set (sub_list (m2_subscribers m))"
    "Manager2_unsubscribe ch m = Some m'"
  shows "status (forward_one cert ch chs m') = Panicked"
  using assms by (auto simp: Manager2_unsubscribe_def forward_one_def subs_defs split: if_splits)

section \<open>When the goroutine hangs\<close>

definition hangs :: "manager2 \<Rightarrow> bool" where
  "hangs m \<longleftrightarrow> (\<forall>m'. mgr_step\<^sup>*\<^sup>* m m' \<longrightarrow> (\<nexists>m''. mgr_turn m' m''))"

lemma blocked_stays:
  assumes "mgr_step\<^sup>*\<^sup>* m m'" "status m = SendingNil final" "certUpdateCh m \<noteq> None"
  shows "status m' = SendingNil final \<and> certUpdateCh m' = certUpdateCh m \<and> m2_certs m' = m2_certs m"
  using assms
proof (induction rule: rtranclp_induct)
  case (step m' m'')
  then have s: "status m' = SendingNil final" "certUpdateCh m' = certUpdateCh m" "m2_certs m' = m2_certs m" by auto
  have "\<not> mgr_turn m' m''" using s step.prems by (auto elim!: mgr_turnE)
  then have "around m' m''" using step.hyps by (simp add: mgr_step_def)
  then show ?case using around_frame [of m' m''] s step.prems by auto
qed simp

text \<open>C32: The goroutine of the manager hangs for ever, whatever happens around it, exactly when it replaces its certificates
  while the update of a certificate waits in its channel: it is the only one to empty the channel it sends into.\<close>

theorem manager_hangs_iff:
  assumes "status m \<notin> {Ended, Panicked}"
  shows "hangs m \<longleftrightarrow> (\<exists>final cert. status m = SendingNil final \<and> certUpdateCh m = Some cert)"
proof
  assume h: "hangs m"
  have now: "\<nexists>m''. mgr_turn m m''" using h by (auto simp: hangs_def)
  show "\<exists>final cert. status m = SendingNil final \<and> certUpdateCh m = Some cert"
  proof (cases "status m")
    case Waiting
    let ?m = "m\<lparr>signalCh := True\<rparr>"
    have "mgr_step\<^sup>*\<^sup>* m ?m" by (intro r_into_rtranclp) (simp add: mgr_step_def around.signal)
    moreover have "mgr_turn ?m (?m\<lparr>signalCh := False\<rparr>)" by (rule mgr_turn.reload_failed) (simp_all add: Waiting)
    ultimately show ?thesis using h by (auto simp: hangs_def)
  next
    case (Forwarding cert chs)
    then show ?thesis using now mgr_turn.forward mgr_turn.forwarded by (cases chs) blast+
  next
    case (SendingNil final)
    then show ?thesis using now mgr_turn.sent [OF SendingNil] by (cases "certUpdateCh m") auto
  qed (use assms in simp_all)
next
  assume "\<exists>final cert. status m = SendingNil final \<and> certUpdateCh m = Some cert"
  then obtain final cert where b: "status m = SendingNil final" "certUpdateCh m = Some cert" by blast
  show "hangs m" unfolding hangs_def
  proof (intro allI impI notI, elim exE)
    fix m' m''
    assume "mgr_step\<^sup>*\<^sup>* m m'" "mgr_turn m' m''"
    then show False using blocked_stays [of m m' final] b by (auto elim!: mgr_turnE)
  qed
qed

text \<open>It does happen: a certificate announces its update, then the signal to reload is taken first.\<close>

theorem manager_hangs_iff_witness:
  "\<exists>m0 m. NewManager2 (Some [0, 1]) = Some m0 \<and> mgr_step\<^sup>*\<^sup>* m0 m \<and> status m \<notin> {Ended, Panicked} \<and> hangs m"
proof -
  obtain m0 where m0: "NewManager2 (Some [0, 1]) = Some m0" by (simp add: NewManager2_def)
  then have w: "status m0 = Waiting" "certUpdateCh m0 = None" by (auto simp: NewManager2_def)
  define m1 where "m1 = m0\<lparr>certUpdateCh := Some (Some 0)\<rparr>"
  define m2 where "m2 = m1\<lparr>signalCh := True\<rparr>"
  define m3 where "m3 = replaceCerts False [2] (m2\<lparr>signalCh := False\<rparr>)"
  have "mgr_step m0 m1" using around.announce [OF w(2), of 0] by (simp add: mgr_step_def m1_def)
  moreover have "mgr_step m1 m2" by (simp add: mgr_step_def m2_def around.signal)
  moreover have "mgr_step m2 m3" unfolding mgr_step_def m3_def
    by (intro disjI1 mgr_turn.reload) (simp_all add: m2_def m1_def w)
  ultimately have "mgr_step\<^sup>*\<^sup>* m0 m3" by (meson rtranclp.rtrancl_refl rtranclp.rtrancl_into_rtrancl)
  moreover have s: "status m3 = SendingNil False" "certUpdateCh m3 = Some (Some 0)"
    by (simp_all add: m3_def replaceCerts_def m2_def m1_def)
  moreover have "hangs m3" by (rule manager_hangs_iff [THEN iffD2]) (use s in auto)
  ultimately show ?thesis using m0 by (intro exI [of _ m0] exI [of _ m3]) simp
qed

section \<open>Which certificate is chosen\<close>

lemma Manager2_GetCertificate_exact:
  assumes "m2_certs m \<noteq> []"
  shows "\<exists>c\<in>set (m2_certs m). Manager2_GetCertificate (Some m) pair_of (Some (serverName, supports)) = Inr (pair_of c) \<and>
     (serverName = '''' \<longrightarrow> c = hd (m2_certs m)) \<and>
     (serverName \<noteq> '''' \<and> length (m2_certs m) > 1 \<and> \<not> supports (pair_of c) \<longrightarrow>
        c = hd (m2_certs m) \<and> (\<forall>d\<in>set (m2_certs m). \<not> supports (pair_of d)))"
proof -
  have h: "m2_certs m ! 0 = hd (m2_certs m)" "hd (m2_certs m) \<in> set (m2_certs m)" using assms by (simp_all add: hd_conv_nth)
  show ?thesis
  proof (cases "find (\<lambda>c. supports (pair_of c)) (m2_certs m)")
    case None
    then have n: "\<forall>d\<in>set (m2_certs m). \<not> supports (pair_of d)" by (auto simp: find_None_iff)
    have "Manager2_GetCertificate (Some m) pair_of (Some (serverName, supports)) = Inr (pair_of (hd (m2_certs m)))"
      using assms h(1) by (simp add: Manager2_GetCertificate_def Let_def None)
    then show ?thesis using h(2) n by blast
  next
    case (Some c)
    then have c: "c \<in> set (m2_certs m)" "supports (pair_of c)" unfolding find_Some_iff by (metis nth_mem)+
    show ?thesis
    proof (cases "serverName = '''' \<or> length (m2_certs m) = 1")
      case True
      then show ?thesis using assms h
        by (intro bexI [of _ "hd (m2_certs m)"]) (auto simp: Manager2_GetCertificate_def Let_def)
    next
      case False
      then show ?thesis using Some c assms
        by (intro bexI [of _ c]) (auto simp: Manager2_GetCertificate_def Let_def)
    qed
  qed
qed

end
