(* ===== verification/Sftp.thy ===== *)
theory Sftp
  imports Hosts
begin

text \<open>The SFTP server (\<open>sftp/sftp.go\<close>): its construction, the loop that accepts connections, and the channels of a connection.\<close>

section \<open>Construction\<close>

datatype sftp_error = ErrMissingConnectionHandlerFunction | ErrMissingSSHConfig | ErrMissingLoggerInterface | ErrInvalidPort
  | ListenFailed

text \<open>Of the functions and configurations only whether they are there matters.\<close>

record options =
  opt_Port :: int
  PublicIP :: string
  has_Logger :: bool
  has_SSHConfig :: bool
  ConnectionKeepAlive :: int
  SSHHandshakeDeadline :: int
  has_BeforeHandle :: bool
  has_HandleSFTPSession :: bool

record server =
  srv_port :: int
  publicIP :: string
  sshHandshakeDeadline :: int
  keepAlive :: "int option"
  has_beforeHandle :: bool

text \<open>The argument listens says whether the address can be listened on.\<close>

definition NewServer :: "(string \<Rightarrow> bool) \<Rightarrow> options \<Rightarrow> sftp_error + server" where
  "NewServer listens opts =
     (if \<not> has_HandleSFTPSession opts then Inl ErrMissingConnectionHandlerFunction
      else if \<not> has_SSHConfig opts then Inl ErrMissingSSHConfig
      else if \<not> has_Logger opts then Inl ErrMissingLoggerInterface
      else if opt_Port opts < 1 \<or> opt_Port opts > 65535 then Inl ErrInvalidPort
      else
        (let opts = (if SSHHandshakeDeadline opts = 0 then opts\<lparr>SSHHandshakeDeadline := 2 * 60 * 10 ^ 9\<rparr> else opts)
         in if \<not> listens (JoinHostPort (PublicIP opts) (itoa (opt_Port opts))) then Inl ListenFailed
            else Inr \<lparr>srv_port = opt_Port opts, publicIP = PublicIP opts, sshHandshakeDeadline = SSHHandshakeDeadline opts,
                      keepAlive = (if ConnectionKeepAlive opts \<noteq> 0 then Some (ConnectionKeepAlive opts) else None),
                      has_beforeHandle = has_BeforeHandle opts\<rparr>))"

section \<open>Accepting connections\<close>

text \<open>A call of Accept returns a connection or an error, which may be a timeout.\<close>

datatype accepted = NewConn nat | AcceptError bool

datatype listen_event = Handled nat | ConnClosed nat | AcceptNetworkError

datatype listen_result = StillListening | ReturnedNil | ReturnedError

text \<open>Each call of Accept comes with whether the server has been shut down by then.\<close>

fun Listen :: "(accepted \<Rightarrow> bool) option \<Rightarrow> (accepted \<times> bool) list \<Rightarrow> listen_event list \<times> listen_result" where
  "Listen beforeHandle [] = ([], StillListening)"
| "Listen beforeHandle ((a, quit) # as) =
     (let more = (\<lambda>ev. case Listen beforeHandle as of (evs, r) \<Rightarrow> (ev @ evs, r))
      in if (case beforeHandle of None \<Rightarrow> False | Some f \<Rightarrow> \<not> f a) then
           more (case a of NewConn c \<Rightarrow> [ConnClosed c] | AcceptError _ \<Rightarrow> [])
         else
           (case a of
              AcceptError timeout \<Rightarrow>
                (if quit then ([], ReturnedNil)
                 else if timeout then more [AcceptNetworkError]
                 else ([], ReturnedError))
            | NewConn c \<Rightarrow> more [Handled c]))"

section \<open>The channels of a connection\<close>

record ssh_request =
  req_Type :: string
  Payload :: string
  WantReply :: bool

datatype session_event = SessionStarted | Replied bool

definition serves_request :: "ssh_request \<Rightarrow> bool" where
  "serves_request req = (req_Type req = ''subsystem'' \<and> length (Payload req) > 4 \<and> drop 4 (Payload req) = ''sftp'')"

definition handle_requests :: "ssh_request list \<Rightarrow> session_event list" where
  "handle_requests reqs =
     concat (map (\<lambda>req. (if serves_request req then [SessionStarted] else []) @
                        (if WantReply req then [Replied (serves_request req)] else [])) reqs)"

record new_channel =
  ChannelType :: string
  can_accept :: bool
  requests :: "ssh_request list"

datatype channel_outcome = ChannelNotSession | AcceptChannelError | Session "session_event list"

definition handle_channel :: "new_channel \<Rightarrow> channel_outcome" where
  "handle_channel ch =
     (if ChannelType ch \<noteq> ''session'' then ChannelNotSession
      else if \<not> can_accept ch then AcceptChannelError
      else Session (handle_requests (requests ch)))"

text \<open>Without a handshake nothing is served: \<^term>\<open>None\<close> is the logged key exchange error.\<close>

definition handleConnection :: "bool \<Rightarrow> new_channel list \<Rightarrow> channel_outcome list option" where
  "handleConnection handshake chans = (if \<not> handshake then None else Some (map handle_channel chans))"

section \<open>What the server does\<close>

lemma NewServer_exact:
  "(\<exists>s. NewServer listens opts = Inr s) \<longleftrightarrow>
     has_HandleSFTPSession opts \<and> has_SSHConfig opts \<and> has_Logger opts \<and> opt_Port opts \<in> {1..65535} \<and>
     listens (JoinHostPort (PublicIP opts) (itoa (opt_Port opts)))"
  by (auto simp: NewServer_def Let_def)

text \<open>The listener of a server that was shut down only fails; then Listen returns, if errors pass the caller's filter.\<close>

lemma Listen_returns_after_shutdown:
  assumes "\<forall>(a, quit)\<in>set before. \<exists>c. a = NewConn c" "\<forall>f. beforeHandle = Some f \<longrightarrow> f (AcceptError timeout)"
  shows "snd (Listen beforeHandle (before @ (AcceptError timeout, True) # after)) = ReturnedNil"
  using assms(1)
proof (induction before)
  case Nil
  then show ?case using assms(2) by (auto simp: Let_def split: option.splits)
next
  case (Cons x before)
  then obtain c quit where x: "x = (NewConn c, quit)" by (cases x) auto
  show ?case using Cons by (auto simp: x Let_def split: prod.splits)
qed

text \<open>A filter that refuses errors keeps the loop running for ever, without a pause, and the shutdown is never seen.\<close>

lemma Listen_ignores_shutdown:
  assumes "\<And>timeout. \<not> f (AcceptError timeout)"
  shows "Listen (Some f) (replicate n (AcceptError False, True)) = ([], StillListening)"
  using assms by (induction n) (simp_all add: Let_def)

text \<open>Only the request for the SFTP subsystem starts a session, once for every such request.\<close>

lemma sessions_started:
  "count_list (handle_requests reqs) SessionStarted = length (filter serves_request reqs)"
  by (induction reqs) (auto simp: handle_requests_def)

end
