(* ===== verification/Spec2Isabelle.thy ===== *)
theory Spec2Isabelle
  imports MergeExamples Claims EllipsesFacts EditDistance Trie Workers ErrGroup Cors Hosts Rng Ilm DurationFacts SafeFile LdapDN LdapFacts Quick Certs Certs2 Env Sftp
begin

text \<open>
  A verification development for silo-pkg, the Go library of an object store: the access policy
  engine (\<open>policy/\<close>, \<open>policy/condition/\<close>), the wildcard matcher under it (\<open>wildcard/\<close>), and the helper
  packages beside it that carry logic of their own.

  \<^bold>\<open>How the program works.\<close> A request carries an account, an action, a bucket, an object and a map of
  condition values. A policy is a list of statements; a statement names an effect, actions or
  excluded actions, resources or excluded resources, and conditions. \<open>Policy.Decide\<close> first looks for a
  \<open>Deny\<close> statement that applies, then lets deny-only requests and the owner pass, then looks for an
  \<open>Allow\<close> statement, first by an index from actions to statements and then in the whole list. A
  statement applies when its actions cover the action (action patterns and implied actions), its
  resources match the text of the resource (patterns with \<open>${...}\<close> variables) and its conditions hold.
  Several policies are decided one after the other (\<open>IsAllowedSerial\<close>), by a pool of goroutines
  (\<open>IsAllowedPar\<close>), or merged into one first (\<open>MergePolicies\<close>). Bucket policies (\<open>bucket-policy.go\<close>) are
  the same with principals. Policies are validated when they are loaded (\<open>Validate\<close>) and more strictly
  when they are created (\<open>ValidateStrict\<close>). The other packages are independent of each other; the server
  that uses the library calls them: it expands the patterns of its drives (\<open>ellipses/\<close>), reads its
  settings (\<open>env/\<close>, \<open>quick/\<close>, \<open>xtime/\<close>, \<open>net/\<close>), logs users in over LDAP (\<open>ldap/\<close>), presents certificates
  (\<open>certs/\<close>), serves SFTP (\<open>sftp/\<close>), edits lifecycle rules (\<open>ilm/\<close>) and tests CORS requests (\<open>cors/\<close>).

  \<^bold>\<open>Conventions\<close> (theory \<open>GoPrelude\<close>). A Go string is its byte sequence; a run-time panic is
  \<^const>\<open>None\<close> of type \<open>may_panic\<close>; an error result is the error or nothing; a Go map used as a set
  is the list of its keys in one iteration order, so what holds for every list holds for every
  order. Functions of packages outside the repository (string sets of minio-go, the bucket name
  check, the Unicode case tables) are the fields of the record \<open>ext_lib\<close>, an argument of the
  definitions that use them; what is relied on of the string sets is \<open>string_set_laws\<close>. Hashing, the
  LDAP library and its servers, and the outcome of system calls are parameters in the same way. Functions
  of the Go standard library are translated for the arguments the code gives them.

  \<^bold>\<open>Theories: the language and its library.\<close>
  \<^item> \<open>GoPrelude\<close>, \<open>GoStrings\<close>, \<open>GoTime\<close>, \<open>GoNet\<close>, \<open>GoQuote\<close>, \<open>GoTimeFacts\<close>: loops with early return, map sets
    (locale \<open>map_set\<close>), strings, numbers, \<open>path.Clean\<close>, base64, times, addresses, UTF-8 and \<open>%q\<close> of the
    standard library, and what printing and parsing them gives back.

  \<^bold>\<open>Theories: the policy engine, in the order of the code.\<close>
  \<^item> \<open>Wildcard\<close> (\<open>wildcard/match.go\<close>): the backtracking loop with its look-ahead as a partial
    function, proved to return and to decide a reference relation; the interface the policy engine
    relies on is the locale \<open>pattern_matcher\<close>, interpreted for \<open>Match\<close> and \<open>MatchSimple\<close>.
  \<^item> \<open>CondKeys\<close>, \<open>CondValues\<close>, \<open>CondFuncs\<close> (\<open>policy/condition/\<close>): keys, values, names, the structs of the
    condition functions, their constructors and \<open>evaluate\<close>; \<open>CondFacts\<close>: when evaluation panics, the
    abstract meaning of string conditions, complementary pairs, what a decoded condition carries.
    \<open>CondPrint\<close>, \<open>CondPrintFacts\<close>: \<open>String\<close>, \<open>Equals\<close>, \<open>toMap\<close> and \<open>Clone\<close>, and when equal texts mean equal conditions.
  \<^item> \<open>ActionsS3\<close>, \<open>ActionsAdmin\<close>, \<open>ActionsOther\<close>, \<open>ActionSets\<close> (\<open>policy/*-action.go\<close>, \<open>action.go\<close>,
    \<open>actionset.go\<close>): every action name, the supported sets, the condition keys of each action, the
    validity tests, sets of actions and implied actions; \<open>ActionFacts\<close>: the shortcuts are exact, the
    namespaces are disjoint.
  \<^item> \<open>Resources\<close> (\<open>resource.go\<close>, \<open>resourceset.go\<close>): parsing over any iteration order of the prefix table,
    validation, matching with substitution; \<open>ResourceFacts\<close>.
  \<^item> \<open>Statement\<close> (\<open>statement.go\<close>, \<open>effect.go\<close>, \<open>id.go\<close>): the decision of a statement, with the process
    flag \<open>legacyBucketResourceMatch\<close> as an argument, and its validations; \<open>StatementFacts\<close>: the check as
    a condition (\<open>check_spec\<close>) on requests without empty value lists (\<open>wf_values\<close>).
  \<^item> \<open>Policy\<close> (\<open>policy.go\<close>) and \<open>PolicyFacts\<close>: decisions, the action index, validation; deny overrides allow
    (locale \<open>stmt_decider\<close>, interpreted for policies and for bucket policies).
  \<^item> \<open>Parallel\<close> (\<open>IsAllowedPar\<close>): the goroutines as a step relation on jobs, workers, result channel,
    cancellation and the main goroutine. The invariant says where each job's decision is; a measure
    shows that every run ends, and the value returned is the serial one. The number of workers is
    any positive number.
  \<^item> \<open>BucketPolicy\<close> (\<open>principal.go\<close>, \<open>bucket-policy*.go\<close>) and \<open>BucketPolicyFacts\<close>.
  \<^item> \<open>PolicyMerge\<close>, \<open>PolicyMergeFacts\<close>, \<open>MergeExamples\<close>: equality, hashing, removal of duplicates, merging and what
    follows the decoding of a policy; merging decides like the list of policies where hashes tell the
    statements apart, and an example where they do not.
  \<^item> \<open>Canned\<close>, \<open>CannedFacts\<close> (\<open>constants.go\<close>): the default policies, their validity and what they grant.
    \<open>Claims\<close> (\<open>policy.go\<close>): policies and roles read from the claims of a token.
  \<^item> \<open>Examples\<close>: concrete policies and requests at which the hypotheses of the properties hold.

  \<^bold>\<open>Theories: the helper packages.\<close>
  \<^item> \<open>Ellipses\<close>, \<open>EllipsesFacts\<close> (\<open>ellipses/\<close>): ranges, lists and the search for patterns; what is found expands.
  \<^item> \<open>EditDistance\<close> (\<open>words/\<close>): the table of the edit distance and the least number of edits it
    stands for, which is the restricted distance (no letter is touched twice).
  \<^item> \<open>Trie\<close> (\<open>trie/\<close>): a trie refines a finite map from rune sequences to keys.
  \<^item> \<open>Workers\<close> (\<open>workers/\<close>), \<open>ErrGroup\<close> (\<open>sync/errgroup/\<close>): step relations over all interleavings; every run ends, and what
    waiting returns.
  \<^item> \<open>Rng\<close> (\<open>rng/\<close>): the pseudo-random reader delivers one stream however it is read.
  \<^item> \<open>Hosts\<close> (\<open>net/\<close>): ports, hosts, URLs. \<open>Cors\<close> (\<open>cors/\<close>): validation and the tests of requests. \<open>Ilm\<close> (\<open>ilm/\<close>): lifecycle rules.
  \<^item> \<open>Durations\<close>, \<open>DurationFacts\<close> (\<open>xtime/\<close>): parsing with the \<open>int64\<close> and \<open>float64\<close> arithmetic written out; the exact range
    checks and the round trip of the JSON form.
  \<^item> \<open>SafeFile\<close> (\<open>safe/\<close>): files replaced as a whole, over a map of paths, for any outcome of the system calls.
  \<^item> \<open>Quick\<close> (\<open>quick/\<close>): configuration files saved as safe files with a backup, or in etcd, and the place of a JSON error; nothing
    is lost whatever system calls fail.
  \<^item> \<open>Certs\<close> (\<open>certs/manager.go\<close>, \<open>certs.go\<close>, \<open>ca-certs.go\<close>): the certificate manager over any order of additions, reloads and
    failures. \<open>Certs2\<close> (\<open>manager2.go\<close>, \<open>certificate2.go\<close>, \<open>global_certs.go\<close>): subscriptions over channels that can be closed,
    the goroutine as a step relation; what is served, when the goroutine panics and when it hangs.
  \<^item> \<open>Env\<close> (\<open>env/\<close>): environment variables with values fetched from a server. \<open>Sftp\<close> (\<open>sftp/\<close>): the SFTP server around its SSH library.
  \<^item> \<open>LdapDN\<close>, \<open>Ldap\<close>, \<open>LdapValidate\<close>, \<open>LdapFacts\<close> (\<open>ldap/\<close>): decoding of names, connecting and binding as a sequence of
    wire events, lookups, and the validation with its texts; credentials never go out in clear unless
    asked, exactly which configurations are valid, validation is idempotent.

  \<^bold>\<open>Fuel and bounds.\<close> The matcher loop and the loop of \<open>components_loop\<close> over a duration are functions proved total; the other
  loops are structural or have a measure. The one fuel is that of \<open>ranged_loop\<close>, the length of
  the text, which every turn shortens. Machine integers keep their width where the code lets them wrap or
  checks them (\<open>atoi\<close>, durations, ports, ranges); the \<open>float64\<close> of a duration's fraction is its exact rational
  with round-to-even. Elsewhere Go's \<open>int\<close> only counts or compares and is an integer;
  the offset and size of the random reader are unbounded too, so a stream is only described where \<open>int64\<close> holds its
  offsets, and the indices of an error group are natural numbers (a negative one panics in Go). The network that
  the LDAP theories talk to answers equal requests equally.

  \<^bold>\<open>Not modelled.\<close> The texts of JSON, YAML, XML and msgpack are read and written by the standard library or by third
  parties; the model starts at the decoded strings and ends at the values encoded. \<open>mimedb/db.go\<close> is a
  generated table. \<open>console/\<close> formats text and tables for a terminal, \<open>randreader/\<close> forwards to \<open>rng/\<close>; \<open>sys/\<close> calls the operating
  system; \<open>oidc/\<close>, \<open>licverifier/\<close> and \<open>subnet/\<close> parse and verify tokens with a third-party library and talk to a server. Of the
  certificates the watching of files and the signals are left out: reloads may happen at any time. The assembly of \<open>rng/\<close> is not Go.
\<close>

end
